(* ===== verification/Prelude.thy ===== *)
theory Prelude
  imports Complex_Main "HOL-Library.Sublist"
begin

text \<open>
  Shared vocabulary of the development: the types that every component uses, the few operations
  on relational tables that the SQL statements of the worker are written with, the string
  operations of the language's standard library that the source calls, and the lemmas about them.

  A table is the list of its rows, an UPDATE with a WHERE clause is \<open>update_where\<close>, and a row is
  found by its primary key with \<open>row_of\<close>. The locale \<open>keyed_update\<close> is the contract of an UPDATE
  statement that leaves the primary key alone; every statement of the model interprets it.
\<close>

named_theorems table_simps \<open>rules about tables as lists of rows\<close>
named_theorems js_simps \<open>rules about the string operations of the standard library\<close>

type_synonym ident = string

text \<open>Points in time and durations, in milliseconds.\<close>

type_synonym time = real

section \<open>Tables\<close>

definition update_where :: "('r \<Rightarrow> bool) \<Rightarrow> ('r \<Rightarrow> 'r) \<Rightarrow> 'r list \<Rightarrow> 'r list" where
  "update_where p f rs = map (\<lambda>r. if p r then f r else r) rs"

definition row_of :: "('r \<Rightarrow> 'k) \<Rightarrow> 'k \<Rightarrow> 'r list \<Rightarrow> 'r option" where
  "row_of key k rs = find (\<lambda>r. key r = k) rs"

definition count_where :: "('r \<Rightarrow> bool) \<Rightarrow> 'r list \<Rightarrow> nat" where
  "count_where p rs = length (filter p rs)"

lemma update_where_Nil [simp]: "update_where p f [] = []"
  by (simp add: update_where_def)

lemma update_where_Cons [simp]:
  "update_where p f (r # rs) = (if p r then f r else r) # update_where p f rs"
  by (simp add: update_where_def)

lemma length_update_where [simp]: "length (update_where p f rs) = length rs"
  by (simp add: update_where_def)

lemma set_update_where: "set (update_where p f rs) = (\<lambda>r. if p r then f r else r) ` set rs"
  by (simp add: update_where_def)

lemma update_where_no_match: "\<not> list_ex p rs \<Longrightarrow> update_where p f rs = rs"
  by (induction rs) auto

lemma update_where_cases:
  "r' \<in> set (update_where p f rs) \<Longrightarrow>
   (\<And>r. r \<in> set rs \<Longrightarrow> p r \<Longrightarrow> P (f r)) \<Longrightarrow> (\<And>r. r \<in> set rs \<Longrightarrow> \<not> p r \<Longrightarrow> P r) \<Longrightarrow> P r'"
  by (auto simp: set_update_where)

lemma row_of_Nil [simp]: "row_of key k [] = None"
  by (simp add: row_of_def)

lemma row_of_Cons [simp]: "row_of key k (r # rs) = (if key r = k then Some r else row_of key k rs)"
  by (simp add: row_of_def)

lemma row_of_SomeD: "row_of key k rs = Some r \<Longrightarrow> r \<in> set rs \<and> key r = k"
  by (induction rs) (auto split: if_splits)

lemma row_of_None_iff: "row_of key k rs = None \<longleftrightarrow> k \<notin> key ` set rs"
  by (induction rs) auto

lemma row_of_append:
  "row_of key k (xs @ ys) = (case row_of key k xs of None \<Rightarrow> row_of key k ys | Some r \<Rightarrow> Some r)"
  by (induction xs) auto

lemma row_of_distinct:
  "distinct (map key rs) \<Longrightarrow> r \<in> set rs \<Longrightarrow> row_of key (key r) rs = Some r"
  by (induction rs) force+

lemma count_where_Nil [simp]: "count_where p [] = 0"
  by (simp add: count_where_def)

lemma count_where_Cons [simp]: "count_where p (r # rs) = (if p r then 1 else 0) + count_where p rs"
  by (simp add: count_where_def)

lemma count_where_mono:
  "(\<And>r. r \<in> set rs \<Longrightarrow> p r \<Longrightarrow> q r) \<Longrightarrow> count_where p rs \<le> count_where q rs"
proof (induction rs)
  case Nil
  then show ?case by simp
next
  case (Cons r rs)
  then have "count_where p rs \<le> count_where q rs" by simp
  with Cons.prems[of r] show ?case by auto
qed

lemma count_where_update_le:
  "(\<And>r. r \<in> set rs \<Longrightarrow> p r \<Longrightarrow> c (f r) \<Longrightarrow> c r) \<Longrightarrow>
   count_where c (update_where p f rs) \<le> count_where c rs"
proof (induction rs)
  case Nil
  then show ?case by simp
next
  case (Cons r rs)
  then have "count_where c (update_where p f rs) \<le> count_where c rs" by simp
  with Cons.prems[of r] show ?case by auto
qed

text \<open>An UPDATE of one row by its key raises a count by at most one.\<close>

lemma count_where_update_one:
  assumes "distinct (map key rs)"
  shows "count_where c (update_where (\<lambda>r. key r = k \<and> q r) f rs) \<le> Suc (count_where c rs)"
  using assms
proof (induction rs)
  case Nil
  then show ?case by simp
next
  case (Cons r rs)
  show ?case
  proof (cases "key r = k")
    case True
    with Cons.prems have "k \<notin> key ` set rs" by auto
    then have "update_where (\<lambda>r. key r = k \<and> q r) f rs = rs"
      by (intro update_where_no_match) (auto simp: list_ex_iff)
    then show ?thesis by simp
  next
    case False
    with Cons show ?thesis by simp
  qed
qed

lemmas table_basic [table_simps] =
  update_where_Nil update_where_Cons row_of_Nil row_of_Cons count_where_Nil count_where_Cons

text \<open>The contract of an UPDATE statement that does not write the primary key.\<close>

locale keyed_update =
  fixes key :: "'r \<Rightarrow> 'k" and upd :: "'r \<Rightarrow> 'r"
  assumes key_upd: "key (upd r) = key r"
begin

lemma keys: "map key (update_where p upd rs) = map key rs"
  by (induction rs) (simp_all add: key_upd)

lemma distinct_keys: "distinct (map key rs) \<Longrightarrow> distinct (map key (update_where p upd rs))"
  by (simp add: keys)

lemma lookup:
  "row_of key k (update_where p upd rs) =
     map_option (\<lambda>r. if p r then upd r else r) (row_of key k rs)"
  by (induction rs) (simp_all add: key_upd)

lemma lookup_other:
  "(\<And>r. p r \<Longrightarrow> key r \<noteq> k) \<Longrightarrow> row_of key k (update_where p upd rs) = row_of key k rs"
  by (induction rs) (auto simp: key_upd)

end

section \<open>ORDER BY ... LIMIT 1\<close>

text \<open>
  The first row in an order; among rows the order does not separate, the one that comes first in
  the table (SQL leaves that choice open).
\<close>

fun pick_min :: "('a \<Rightarrow> 'a \<Rightarrow> bool) \<Rightarrow> 'a list \<Rightarrow> 'a option" where
  "pick_min le [] = None"
| "pick_min le (x # xs) =
     (case pick_min le xs of None \<Rightarrow> Some x | Some y \<Rightarrow> if le x y then Some x else Some y)"

lemma pick_min_None_iff [simp]: "pick_min le xs = None \<longleftrightarrow> xs = []"
  by (cases xs) (auto split: option.splits)

lemma pick_min_in: "pick_min le xs = Some x \<Longrightarrow> x \<in> set xs"
  by (induction xs arbitrary: x) (auto split: option.splits if_splits)

text \<open>The contract of an ORDER BY clause: a total preorder on the rows.\<close>

locale row_order =
  fixes le :: "'a \<Rightarrow> 'a \<Rightarrow> bool"
  assumes le_trans: "le x y \<Longrightarrow> le y z \<Longrightarrow> le x z"
    and le_total: "le x y \<or> le y x"
begin

lemma le_refl: "le x x"
  using le_total by blast

lemma pick_min_least: "pick_min le xs = Some x \<Longrightarrow> y \<in> set xs \<Longrightarrow> le x y"
proof (induction xs arbitrary: x y)
  case Nil
  then show ?case by simp
next
  case (Cons a xs)
  show ?case
  proof (cases "pick_min le xs")
    case None
    with Cons.prems show ?thesis by (auto simp: le_refl)
  next
    case (Some b)
    then have b: "le b z" if "z \<in> set xs" for z using Cons.IH that by blast
    show ?thesis
    proof (cases "le a b")
      case True
      with Some Cons.prems b show ?thesis by (auto simp: le_refl intro: le_trans)
    next
      case False
      then have "le b a" using le_total by blast
      with Some False Cons.prems b show ?thesis by auto
    qed
  qed
qed

lemma pick_min_stable:
  "pick_min le xs = Some x \<Longrightarrow> x \<in> set xs \<and> (\<forall>y \<in> set xs. le x y)"
  using pick_min_in pick_min_least by metis

end

section \<open>Lists\<close>

text \<open>The distinct elements of a list in order of first occurrence, as \<open>[...new Set(xs)]\<close>.\<close>

fun dedup :: "'a list \<Rightarrow> 'a list" where
  "dedup [] = []"
| "dedup (x # xs) = x # filter (\<lambda>y. y \<noteq> x) (dedup xs)"

lemma set_dedup [simp]: "set (dedup xs) = set xs"
  by (induction xs) auto

lemma distinct_dedup [simp]: "distinct (dedup xs)"
  by (induction xs) auto

lemma dedup_id: "distinct xs \<Longrightarrow> dedup xs = xs"
  by (induction xs) (auto intro: filter_id_conv [THEN iffD2])

lemma length_dedup_le: "length (dedup xs) \<le> length xs"
proof (induction xs)
  case Nil
  then show ?case by simp
next
  case (Cons x xs)
  have "length (filter (\<lambda>y. y \<noteq> x) (dedup xs)) \<le> length (dedup xs)" by (rule length_filter_le)
  also have "\<dots> \<le> length xs" by (rule Cons)
  finally show ?case by simp
qed

text \<open>The last \<open>n\<close> elements, as \<open>xs.slice(xs.length - n)\<close> of a longer list.\<close>

definition take_last :: "nat \<Rightarrow> 'a list \<Rightarrow> 'a list" where
  "take_last n xs = drop (length xs - n) xs"

lemma length_take_last [simp]: "length (take_last n xs) = min n (length xs)"
  by (simp add: take_last_def)

lemma take_last_all: "length xs \<le> n \<Longrightarrow> take_last n xs = xs"
  by (simp add: take_last_def)

lemma suffix_take_last: "suffix (take_last n xs) xs"
  by (simp add: take_last_def suffix_drop)

lemma set_take_last: "set (take_last n xs) \<subseteq> set xs"
  by (simp add: take_last_def set_drop_subset)

section \<open>Strings\<close>

text \<open>
  A string is the list of its code units; the model covers the code units below 256, the range
  of the type of characters.
\<close>

definition starts_with :: "string \<Rightarrow> string \<Rightarrow> bool" where
  "starts_with s p = (take (length p) s = p)"

definition ends_with :: "string \<Rightarrow> string \<Rightarrow> bool" where
  "ends_with s p = (length p \<le> length s \<and> drop (length s - length p) s = p)"

fun contains :: "string \<Rightarrow> string \<Rightarrow> bool" where
  "contains [] p = (p = [])"
| "contains (c # s) p = (starts_with (c # s) p \<or> contains s p)"

definition is_space :: "char \<Rightarrow> bool" where
  "is_space c = (of_char c \<in> {9, 10, 11, 12, 13, 32, 160 :: nat})"

definition trim_left :: "string \<Rightarrow> string" where
  "trim_left s = dropWhile is_space s"

definition trim_right :: "string \<Rightarrow> string" where
  "trim_right s = rev (dropWhile is_space (rev s))"

definition trim :: "string \<Rightarrow> string" where
  "trim s = trim_right (trim_left s)"

text \<open>\<open>s.split(c)\<close> for a separator of one character; the result is never empty.\<close>

fun split_on :: "char \<Rightarrow> string \<Rightarrow> string list" where
  "split_on c [] = [[]]"
| "split_on c (x # xs) =
     (if x = c then [] # split_on c xs
      else (case split_on c xs of [] \<Rightarrow> [[x]] | w # ws \<Rightarrow> (x # w) # ws))"

fun join :: "string \<Rightarrow> string list \<Rightarrow> string" where
  "join sep [] = []"
| "join sep [w] = w"
| "join sep (w # ws) = w @ sep @ join sep ws"

definition lower_char :: "char \<Rightarrow> char" where
  "lower_char c = (let n = of_char c :: nat in
     if (65 \<le> n \<and> n \<le> 90) \<or> (192 \<le> n \<and> n \<le> 222 \<and> n \<noteq> 215) then char_of (n + 32) else c)"

definition to_lower :: "string \<Rightarrow> string" where
  "to_lower s = map lower_char s"

text \<open>Decimal notation, and a string as \<open>JSON.stringify\<close> writes it.\<close>

fun digits :: "nat \<Rightarrow> string" where
  "digits n = (if n < 10 then [char_of (48 + n)] else digits (n div 10) @ [char_of (48 + n mod 10)])"

definition hex_digit :: "nat \<Rightarrow> char" where
  "hex_digit n = (if n < 10 then char_of (48 + n) else char_of (87 + n))"

definition json_char :: "char \<Rightarrow> string" where
  "json_char c = (let n = of_char c :: nat in
     if n = 34 then [CHR 0x5C, CHR 0x22]
     else if n = 92 then [CHR 0x5C, CHR 0x5C]
     else if n = 8 then [CHR 0x5C, CHR ''b'']
     else if n = 9 then [CHR 0x5C, CHR ''t'']
     else if n = 10 then [CHR 0x5C, CHR ''n'']
     else if n = 12 then [CHR 0x5C, CHR ''f'']
     else if n = 13 then [CHR 0x5C, CHR ''r'']
     else if n < 32 then [CHR 0x5C, CHR ''u'', CHR ''0'', CHR ''0'', hex_digit (n div 16), hex_digit (n mod 16)]
     else [c])"

definition json_quote :: "string \<Rightarrow> string" where
  "json_quote s = [CHR 0x22] @ concat (map json_char s) @ [CHR 0x22]"

text \<open>The number of bytes of a string in UTF-8, for code units below 256.\<close>

definition utf8_length :: "string \<Rightarrow> nat" where
  "utf8_length s = sum_list (map (\<lambda>c. if (of_char c :: nat) < 128 then 1 else 2) s)"

text \<open>A string or number that is falsy counts as absent.\<close>

definition truthy_str :: "string option \<Rightarrow> string option" where
  "truthy_str s = (if s = Some [] then None else s)"

definition truthy_num :: "nat option \<Rightarrow> nat option" where
  "truthy_num n = (if n = Some 0 then None else n)"

lemma starts_with_Nil [simp, js_simps]: "starts_with s []"
  by (simp add: starts_with_def)

lemma starts_with_append [simp, js_simps]: "starts_with (p @ s) p"
  by (simp add: starts_with_def)

lemma starts_with_iff: "starts_with s p \<longleftrightarrow> (\<exists>t. s = p @ t)"
  unfolding starts_with_def by (metis append_eq_conv_conj append_take_drop_id)

lemma ends_with_append [simp, js_simps]: "ends_with (s @ p) p"
  by (simp add: ends_with_def)

lemma ends_with_iff: "ends_with s p \<longleftrightarrow> (\<exists>t. s = t @ p)"
  unfolding ends_with_def
  by (metis append_eq_conv_conj append_take_drop_id length_append length_drop add_diff_cancel_right'
      diff_diff_cancel le_add2)

lemma includes_iff: "contains s p \<longleftrightarrow> (\<exists>a b. s = a @ p @ b)"
proof (induction s)
  case Nil
  then show ?case by simp
next
  case (Cons c s)
  show ?case
  proof
    assume "contains (c # s) p"
    then consider t where "c # s = p @ t" | a b where "s = a @ p @ b"
      using Cons.IH by (auto simp: starts_with_iff)
    then show "\<exists>a b. c # s = a @ p @ b"
    proof cases
      case 1
      then have "c # s = [] @ p @ t" by simp
      then show ?thesis by blast
    next
      case 2
      then have "c # s = (c # a) @ p @ b" by simp
      then show ?thesis by blast
    qed
  next
    assume "\<exists>a b. c # s = a @ p @ b"
    then obtain a b where ab: "c # s = a @ p @ b" by blast
    show "contains (c # s) p"
    proof (cases a)
      case Nil
      with ab have "starts_with (c # s) p" by (auto simp: starts_with_iff)
      then show ?thesis by simp
    next
      case (Cons d a')
      with ab Cons.IH show ?thesis by auto
    qed
  qed
qed

lemma split_on_nonempty [simp]: "split_on c s \<noteq> []"
  by (induction s) (auto split: list.splits)

lemma join_split_on: "join [c] (split_on c s) = s"
proof (induction s)
  case Nil
  then show ?case by simp
next
  case (Cons x xs)
  obtain w ws where ws: "split_on c xs = w # ws"
    by (cases "split_on c xs") auto
  show ?case
  proof (cases "x = c")
    case True
    with Cons ws show ?thesis by simp
  next
    case False
    with Cons ws show ?thesis by (cases ws) auto
  qed
qed

lemma split_on_no_sep: "w \<in> set (split_on c s) \<Longrightarrow> c \<notin> set w"
proof (induction s arbitrary: w)
  case Nil
  then show ?case by simp
next
  case (Cons x xs)
  obtain v vs where vs: "split_on c xs = v # vs"
    by (cases "split_on c xs") auto
  with Cons show ?case by (auto split: if_splits)
qed

section \<open>Numbers\<close>

text \<open>
  \<open>Number(s)\<close> of a string, for the finite results; \<open>None\<close> is NaN or an infinity. The value is
  exact: the rounding to a double is not modelled.
\<close>

definition is_digit :: "char \<Rightarrow> bool" where
  "is_digit c = (48 \<le> (of_char c :: nat) \<and> (of_char c :: nat) \<le> 57)"

definition digit_value :: "char \<Rightarrow> nat option" where
  "digit_value c = (let n = of_char c :: nat in
     if 48 \<le> n \<and> n \<le> 57 then Some (n - 48)
     else if 97 \<le> n \<and> n \<le> 102 then Some (n - 87)
     else if 65 \<le> n \<and> n \<le> 70 then Some (n - 55) else None)"

fun nat_in_base :: "nat \<Rightarrow> nat \<Rightarrow> string \<Rightarrow> nat option" where
  "nat_in_base b acc [] = Some acc"
| "nat_in_base b acc (c # cs) =
     (case digit_value c of
        None \<Rightarrow> None
      | Some d \<Rightarrow> if d < b then nat_in_base b (acc * b + d) cs else None)"

definition nat_of_digits :: "string \<Rightarrow> nat" where
  "nat_of_digits s = (case nat_in_base 10 0 s of None \<Rightarrow> 0 | Some n \<Rightarrow> n)"

definition split_sign :: "string \<Rightarrow> int \<times> string" where
  "split_sign s = (case s of
     c # cs \<Rightarrow> if c = CHR ''-'' then (-1, cs) else if c = CHR ''+'' then (1, cs) else (1, s)
   | [] \<Rightarrow> (1, []))"

definition exponent_of :: "string \<Rightarrow> int option" where
  "exponent_of s = (case s of
     [] \<Rightarrow> Some 0
   | c # cs \<Rightarrow> if c = CHR ''e'' \<or> c = CHR ''E''
       then (case split_sign cs of (sg, ds) \<Rightarrow>
               if ds \<noteq> [] \<and> list_all is_digit ds then Some (sg * int (nat_of_digits ds)) else None)
       else None)"

definition decimal_of :: "string \<Rightarrow> real option" where
  "decimal_of s =
     (let (sg, u) = split_sign s; ip = takeWhile is_digit u; r1 = dropWhile is_digit u;
          dot = (case r1 of c # _ \<Rightarrow> c = CHR ''.'' | [] \<Rightarrow> False);
          fp = (if dot then takeWhile is_digit (tl r1) else []);
          r2 = (if dot then dropWhile is_digit (tl r1) else r1)
      in if ip = [] \<and> fp = [] then None
         else map_option (\<lambda>e. of_int sg * real (nat_of_digits (ip @ fp)) / 10 ^ length fp
                * (if 0 \<le> e then 10 ^ nat e else 1 / 10 ^ nat (- e))) (exponent_of r2))"

definition to_number :: "string \<Rightarrow> real option" where
  "to_number s =
     (let t = trim s
      in if t = [] then Some 0
         else if take 2 t \<in> {''0x'', ''0X''} \<and> length t > 2 then map_option real (nat_in_base 16 0 (drop 2 t))
         else if take 2 t \<in> {''0o'', ''0O''} \<and> length t > 2 then map_option real (nat_in_base 8 0 (drop 2 t))
         else if take 2 t \<in> {''0b'', ''0B''} \<and> length t > 2 then map_option real (nat_in_base 2 0 (drop 2 t))
         else decimal_of t)"

definition integer_value :: "real option \<Rightarrow> int option" where
  "integer_value r = (case r of None \<Rightarrow> None | Some x \<Rightarrow> if of_int \<lfloor>x\<rfloor> = x then Some \<lfloor>x\<rfloor> else None)"

text \<open>The order of strings by code units.\<close>

fun str_le :: "string \<Rightarrow> string \<Rightarrow> bool" where
  "str_le [] t = True"
| "str_le (c # s) [] = False"
| "str_le (c # s) (d # t) =
     ((of_char c :: nat) < of_char d \<or> (c = d \<and> str_le s t))"

lemma str_le_refl [simp]: "str_le s s"
  by (induction s) simp_all

lemma str_le_trans: "str_le a b \<Longrightarrow> str_le b c \<Longrightarrow> str_le a c"
proof (induction a b arbitrary: c rule: str_le.induct)
  case (3 x s y t)
  then show ?case by (cases c) auto
qed (simp_all)

lemma str_le_total: "str_le a b \<or> str_le b a"
proof (induction a b rule: str_le.induct)
  case (3 c s d t)
  have "c = d" if "(of_char c :: nat) = of_char d"
    using that by (metis char_of_char)
  with 3 show ?case by (cases "(of_char c :: nat) < of_char d"; cases "(of_char d :: nat) < of_char c") auto
qed simp_all

section \<open>Values\<close>

text \<open>The values of the language that a log, a message or a stored document is made of.\<close>

datatype json =
    JNull
  | JUndefined
  | JBool bool
  | JNum real
  | JBigInt string
  | JStr string
  | JDate time
  | JBinary
  | JFunction
  | JArr "json list"
  | JObj "(string \<times> json) list"

end
