(* ===== verification/Schema.thy ===== *)
theory Schema
  imports Prelude
begin

text \<open>
  The rows of the Postgres tables that the modelled statements of the worker read and write, and
  the record of the tables. Nullable columns are options; enumerated columns are datatypes with
  the values of the source's unions; timestamps are in milliseconds.
\<close>

section \<open>Enumerations\<close>

datatype job_type =
    FrictionMatch | FrictionConfirm | FrictionReconcile | FrictionPrEvent | ErrorFix | Investigate
  | Fix | SessionAnalysis | SessionNarrate | SessionVerifyFrames | CiWatch | RouteMap
  | ProductContext | IssueInquiry | DigestWrite | ScoreSync | StackResolve

datatype job_status = Pending | Claimed | Completed | Failed | DeadLetter

datatype dl_class = Limit | Agent | Config | Transient

datatype group_status =
    GNew | GQueued | GAnalyzing | GInvestigated | GFixing | GPrCreated | GPrDraft | GNeedsHuman
  | GResolved | GMerged | GArchived | GCandidate | GAwaitingApproval | GInsight

datatype trigger = Auto | Human

datatype ticket_status = Tracking | Published | Unpublished | Merged | Archived

datatype ticket_kind = Defect | UxInsight

datatype fix_substate = SubNone | SubFixing | SubPrOpen | SubResolved

datatype attempt_status = Active | PrOpen | AttemptFailed | AttemptMerged | AttemptClosed | Superseded

datatype adjudication = AdjPending | AdjAccepted | AdjRejected | AdjUnchecked

datatype generation_status = Adjudicating | GenAccepted | GenRejected | GenUnchecked

datatype batch_status = Staging | Finalized | Discarded

datatype check_outcome = Confirmed | Refuted | Inconclusive | Unavailable

datatype user_cost = NoCost | Annoyance | LostTime | AbandonedTask

datatype match_source = Cheap | Strong | Backfill | Fold

datatype observation_decision = Undecided | Matched | Created | NotAProblem

datatype posture = Ready | Draft

datatype reservation_state = Reserved | Pushed | Open | Closed

section \<open>Rows\<close>

text \<open>\<open>error_group_jobs\<close>: the durable job queue.\<close>

record job_row =
  job_id :: ident
  job_project :: ident
  job_group :: "ident option"
  job_session :: "ident option"
  job_ticket :: "ident option"
  job_batch :: "ident option"
  job_episode :: "ident option"
  job_run :: "ident option"
  job_event :: "ident option"
  job_source :: "ident option"
  job_source_job :: "ident option"
  job_fix_attempt :: "ident option"
  job_publication :: "nat option"
  job_investigation_execution :: "nat option"
  job_investigation_evidence :: "nat option"
  job_type :: job_type
  job_status :: job_status
  job_attempts :: nat
  job_max_attempts :: nat
  job_worker :: "ident option"
  job_lease_generation :: nat
  job_claimed_at :: "time option"
  job_lease_expires :: "time option"
  job_available_at :: time
  job_created_at :: time
  job_updated_at :: time
  job_last_error :: "string option"
  job_dl_class :: "dl_class option"
  job_dead_lettered_at :: "time option"
  job_requeues :: nat
  job_requeued_at :: "time option"
  job_triggered_by :: "trigger option"
  job_guidance :: "string option"
  job_payload :: "string option"
  job_trace_url :: "string option"
  job_input_version :: "nat option"
  job_platform :: "string option"

text \<open>\<open>friction_signals\<close>, \<open>friction_adjudication_generations\<close>, \<open>friction_confirm_batches\<close>.\<close>

record signal_row =
  sig_id :: ident
  sig_project :: ident
  sig_environment :: ident
  sig_fingerprint :: string
  sig_type :: string
  sig_page :: string
  sig_selector :: "string option"
  sig_adjudication :: adjudication
  sig_adjudication_job :: "ident option"
  sig_adjudicated_at :: "time option"
  sig_generation :: "ident option"
  sig_session :: ident
  sig_end_user :: "ident option"
  sig_occurred_at :: time
  sig_occurrences :: nat
  sig_rule_version :: nat
  sig_observation :: "string option"
  sig_retracted_at :: "time option"
  sig_superseded_by :: "ident option"
  sig_incident :: "ident option"
  sig_adjudication_attempts :: nat
  sig_scope :: "string option"
  sig_model :: "string option"
  sig_prompt_version :: "nat option"
  sig_reason :: "string option"

record generation_row =
  gen_id :: ident
  gen_project :: ident
  gen_environment :: ident
  gen_fingerprint :: string
  gen_status :: generation_status
  gen_claim_job :: "ident option"
  gen_adjudicated_at :: "time option"
  gen_finished_at :: "time option"
  gen_diagnostic :: "ident option"
  gen_rule_version :: nat
  gen_prompt_version :: nat
  gen_window_start :: time
  gen_window_end :: time
  gen_attempts :: nat
  gen_model :: "string option"
  gen_reason :: "string option"
  gen_valid_until :: "time option"
  gen_promoted :: "ident option"

record batch_member =
  mb_session :: ident
  mb_end_user :: "ident option"
  mb_arrival :: nat
  mb_signals :: "ident list"

record batch_row =
  batch_id :: ident
  batch_ticket :: ident
  batch_status :: batch_status
  batch_job :: ident
  batch_manifest :: "batch_member list"
  batch_boundary :: nat
  batch_live_generation :: nat
  batch_ticket_status :: ticket_status
  batch_evidence_version :: nat
  batch_created_at :: time
  batch_finalized_at :: "time option"

text \<open>\<open>friction_tickets\<close> and what hangs off a ticket's publication.\<close>

record ticket_row =
  tk_id :: ident
  tk_project :: ident
  tk_environment :: ident
  tk_status :: ticket_status
  tk_kind :: ticket_kind
  tk_live_generation :: nat
  tk_evidence_version :: nat
  tk_fixed_at :: "time option"
  tk_cohort_cutoff :: "time option"
  tk_reconcile_needed :: bool
  tk_reinvestigate_needed :: bool
  tk_name :: string
  tk_control :: string
  tk_what_happened :: string
  tk_steps :: "string option"
  tk_screens_confirmed :: "string list"
  tk_screens_proposed :: "string list"
  tk_embedding :: "real list option"
  tk_embedding_model :: "string option"
  tk_matched :: nat
  tk_next_arrival :: nat
  tk_arrival_boundary :: nat
  tk_fold_retries :: nat
  tk_merged_into :: "ident option"

text \<open>
  What a ticket is told by its recordings: the recordings matched to it and the observations they
  rest on, the checks of confirmation batches, staged and final, and the recordings that could not
  be checked.
\<close>

record match_row =
  mt_ticket :: ident
  mt_session :: ident
  mt_project :: ident
  mt_environment :: ident
  mt_end_user :: "ident option"
  mt_arrival :: nat
  mt_source :: match_source
  mt_occurred_at :: time

record observation_row =
  mo_ticket :: ident
  mo_session :: ident
  mo_signal :: ident

record check_attempt_row =
  ca_id :: ident
  ca_batch :: ident
  ca_ticket :: ident
  ca_session :: ident
  ca_outcome :: check_outcome
  ca_lines :: "string list"
  ca_signals :: "ident list"
  ca_note :: string
  ca_cost :: "user_cost option"
  ca_frames_ok :: bool
  ca_frames :: "string list"
  ca_model :: string

record check_row =
  ck_ticket :: ident
  ck_session :: ident
  ck_attempt :: ident
  ck_outcome :: check_outcome

record retry_row =
  ur_ticket :: ident
  ur_session :: ident
  ur_attempts :: nat
  ur_retry_at :: time
  ur_permanent :: bool

record choice_row =
  od_signal :: ident
  od_project :: ident
  od_environment :: ident
  od_session :: ident
  od_decision :: observation_decision
  od_ticket :: "ident option"
  od_decided_by :: match_source
  od_decided_at :: time

record incident_evidence_row =
  ie_group :: ident
  ie_ticket :: ident
  ie_generation :: nat
  ie_signal :: ident

record gate_decision_row =
  gd_ticket :: ident
  gd_batch :: "ident option"
  gd_candidate :: ident
  gd_similarity :: real
  gd_one_fix :: bool
  gd_reason :: string
  gd_model :: string
  gd_decided_at :: time

record card_copy_row =
  cc_group :: ident
  cc_invalidated_at :: "time option"

text \<open>A budget per project and day, and the state of the buckets of friction signals.\<close>

record budget_row =
  bg_project :: ident
  bg_day :: int
  bg_used :: nat

record bucket_row =
  bs_project :: ident
  bs_environment :: ident
  bs_fingerprint :: string
  bs_rule_version :: nat
  bs_prompt_version :: nat
  bs_evaluated_users :: nat
  bs_evaluated_at :: "time option"
  bs_last_generation :: "ident option"

record generation_evidence_row =
  ge_generation :: ident
  ge_signal :: ident
  ge_project :: ident

record attempt_row =
  at_id :: ident
  at_ticket :: ident
  at_group :: ident
  at_generation :: nat
  at_status :: attempt_status
  at_requested_by :: trigger
  at_pr_url :: "string option"
  at_pr_number :: "nat option"
  at_repo :: "string option"
  at_delivery_reserved :: "time option"

record fix_failure_row =
  ff_job :: ident
  ff_attempt :: ident
  ff_reason :: string

record investigation_result_row =
  ir_ticket :: ident
  ir_group :: "ident option"
  ir_generation :: "nat option"
  ir_execution :: nat
  ir_evidence_version :: nat
  ir_job :: ident
  ir_reason :: string

text \<open>\<open>error_groups\<close>: one row per issue.\<close>

record reason =
  reason_code :: string
  reason_message :: string
  remediation :: string

record group_row =
  gr_id :: ident
  gr_project :: ident
  gr_environment :: "ident option"
  gr_fingerprint :: string
  gr_title :: string
  gr_status :: group_status
  gr_is_error :: bool
  gr_unchecked :: bool
  gr_signal_type :: "string option"
  gr_page :: "string option"
  gr_selector :: "string option"
  gr_occurrences :: nat
  gr_affected_users :: nat
  gr_ticket :: "ident option"
  gr_publication :: "nat option"
  gr_fix_substate :: "fix_substate option"
  gr_investigation_status :: "string option"
  gr_investigation_execution :: nat
  gr_evidence_version_used :: "nat option"
  gr_explained_signals :: "ident list"
  gr_root_cause :: "string option"
  gr_confidence :: "string option"
  gr_pr_url :: "string option"
  gr_pr_number :: "nat option"
  gr_pr_fix_job :: "ident option"
  gr_terminal_fix_job :: "ident option"
  gr_reason_code :: "string option"
  gr_reason_message :: "string option"
  gr_remediation :: "string option"
  gr_candidate_diff :: "string option"
  gr_evidence :: "string option"
  gr_pr_created_at :: "time option"
  gr_needs_human_at :: "time option"
  gr_merged_at :: "time option"
  gr_first_seen :: time
  gr_last_seen :: time
  gr_representative_signal :: "ident option"
  gr_representative_session :: "ident option"
  gr_before_archive :: "group_status option"
  gr_archived_at :: "time option"
  gr_actionable_since :: "time option"

text \<open>The impact of an issue, by environment and by user, and the error events it rests on.\<close>

record impact_row =
  im_group :: ident
  im_key :: ident
  im_first :: time
  im_last :: time
  im_occurrences :: nat

record error_event_row =
  ev_project :: ident
  ev_group :: ident
  ev_session :: "ident option"
  ev_environment :: ident
  ev_end_user :: "ident option"
  ev_at :: time

text \<open>Projects, sessions, notification subscriptions and the outbox.\<close>

record project_row =
  pj_id :: ident
  pj_auto_fix :: bool
  pj_draft_pr_cap :: nat
  pj_repo :: string

record session_row =
  ss_id :: ident
  ss_project :: ident
  ss_analysis_failed :: bool
  ss_environment :: ident
  ss_end_user :: "ident option"
  ss_started_at :: time
  ss_retain_until :: "time option"

record environment_row =
  en_id :: ident
  en_project :: ident

record end_user_row =
  eu_id :: ident
  eu_project :: ident
  eu_account :: "string option"

record destination_row =
  ds_id :: ident
  ds_project :: ident
  ds_enabled :: bool
  ds_issue_created :: bool
  ds_post_triage :: bool

record outbox_row =
  ob_project :: ident
  ob_dedup_key :: string
  ob_group :: ident
  ob_status :: group_status
  ob_reason_code :: "string option"
  ob_label :: string
  ob_deliveries :: "ident list"

text \<open>\<open>delivery_reservations\<close>: one per issue, keyed by the issue.\<close>

record reservation_row =
  rv_group :: ident
  rv_project :: ident
  rv_operation :: string
  rv_branch :: string
  rv_posture :: posture
  rv_diff_hash :: string
  rv_diff :: string
  rv_state :: reservation_state
  rv_head :: "string option"
  rv_pr_url :: "string option"
  rv_pr_number :: "nat option"

text \<open>\<open>diagnosis_decisions\<close> and \<open>friction_pr_events\<close>.\<close>

record decision_row =
  dd_id :: ident
  dd_job :: ident
  dd_group :: ident
  dd_project :: ident
  dd_code_fix :: bool
  dd_decided_at :: time
  dd_brief :: "string option"
  dd_diagnosis :: string

datatype pr_event_kind = PrOpened | PrClosed | PrMerged | PrOrphan

record pr_event_row =
  pe_ticket :: ident
  pe_group :: ident
  pe_attempt :: ident
  pe_generation :: nat
  pe_event :: pr_event_kind
  pe_delivery :: string
  pe_occurred_at :: time
  pe_url :: "string option"
  pe_number :: "nat option"
  pe_repo :: "string option"
  pe_applied :: bool
  pe_processed_at :: "time option"

section \<open>The database\<close>

text \<open>
  \<open>uuids\<close> counts the identifiers that \<open>gen_random_uuid()\<close> has handed out; the identifiers
  themselves are given by a parameter of the operations that insert rows.
\<close>

record db =
  jobs :: "job_row list"
  signals :: "signal_row list"
  generations :: "generation_row list"
  batches :: "batch_row list"
  tickets :: "ticket_row list"
  attempts :: "attempt_row list"
  fix_failures :: "fix_failure_row list"
  investigation_results :: "investigation_result_row list"
  issues :: "group_row list"
  projects :: "project_row list"
  sessions :: "session_row list"
  destinations :: "destination_row list"
  outbox :: "outbox_row list"
  reservations :: "reservation_row list"
  decisions :: "decision_row list"
  pr_events :: "pr_event_row list"
  environments :: "environment_row list"
  end_users :: "end_user_row list"
  matches :: "match_row list"
  observations :: "observation_row list"
  check_attempts :: "check_attempt_row list"
  checks :: "check_row list"
  retries :: "retry_row list"
  choices :: "choice_row list"
  incident_evidence :: "incident_evidence_row list"
  gate_decisions :: "gate_decision_row list"
  card_copies :: "card_copy_row list"
  confirmation_budget :: "budget_row list"
  adjudication_budget :: "budget_row list"
  bucket_states :: "bucket_row list"
  generation_evidence :: "generation_evidence_row list"
  group_environments :: "impact_row list"
  affected_users :: "impact_row list"
  error_events :: "error_event_row list"
  uuids :: nat

abbreviation job_of :: "db \<Rightarrow> ident \<Rightarrow> job_row option" where
  "job_of s k \<equiv> row_of job_id k (jobs s)"

abbreviation issue_of :: "db \<Rightarrow> ident \<Rightarrow> group_row option" where
  "issue_of s k \<equiv> row_of gr_id k (issues s)"

definition empty_db :: db where
  "empty_db = \<lparr>jobs = [], signals = [], generations = [], batches = [], tickets = [], attempts = [],
     fix_failures = [], investigation_results = [], issues = [], projects = [], sessions = [],
     destinations = [], outbox = [], reservations = [], decisions = [], pr_events = [],
     environments = [], end_users = [], matches = [], observations = [], check_attempts = [],
     checks = [], retries = [], choices = [], incident_evidence = [], gate_decisions = [],
     card_copies = [], confirmation_budget = [], adjudication_budget = [], bucket_states = [],
     generation_evidence = [], group_environments = [], affected_users = [], error_events = [],
     uuids = 0\<rparr>"

end
