(* ===== verification/Tickets.thy ===== *)
theory Tickets
  imports Schema
begin

text \<open>
  The part of the ticket lifecycle that a failing job runs through: \<open>getTicket\<close> and \<open>discardBatch\<close>
  of \<open>friction/tickets-db.ts\<close> and \<open>attemptFailed\<close> of \<open>friction/fix-attempts.ts\<close>, the clean-up that
  the queue calls in the transaction that fails a job. The advisory and row locks order
  concurrent transactions and change no row; the model runs one transaction at a time.
\<close>

section \<open>Reading tickets and discarding a confirmation batch\<close>

definition get_ticket :: "ident \<Rightarrow> ident \<Rightarrow> db \<Rightarrow> ticket_row option" where
  "get_ticket pid tid s = find (\<lambda>t. tk_id t = tid \<and> tk_project t = pid) (tickets s)"

definition discard_batch :: "ident \<Rightarrow> db \<Rightarrow> db" where
  "discard_batch bid s =
     (let staged = (\<lambda>b. batch_id b = bid \<and> batch_status b = Staging);
          owners = map batch_ticket (filter staged (batches s))
      in s\<lparr>batches := update_where staged (\<lambda>b. b\<lparr>batch_status := Discarded\<rparr>) (batches s),
           tickets := update_where (\<lambda>t. tk_id t \<in> set owners)
                        (\<lambda>t. t\<lparr>tk_reconcile_needed := True\<rparr>) (tickets s)\<rparr>)"

section \<open>attemptFailed\<close>

text \<open>The INSERT ... ON CONFLICT DO NOTHING statements of the clean-up.\<close>

definition insert_fix_failure :: "ident \<Rightarrow> ident \<Rightarrow> string \<Rightarrow> db \<Rightarrow> db" where
  "insert_fix_failure jid aid why s =
     (if list_ex (\<lambda>f. ff_job f = jid) (fix_failures s) then s
      else s\<lparr>fix_failures :=
               fix_failures s @ [\<lparr>ff_job = jid, ff_attempt = aid, ff_reason = why\<rparr>]\<rparr>)"

definition insert_failed_investigation ::
  "job_row \<Rightarrow> ticket_row \<Rightarrow> nat \<Rightarrow> string \<Rightarrow> db \<Rightarrow> db" where
  "insert_failed_investigation j t execution why s =
     (if list_ex (\<lambda>r. ir_group r = job_group j \<and> ir_execution r = execution)
           (investigation_results s) then s
      else s\<lparr>investigation_results := investigation_results s @
        [\<lparr>ir_ticket = tk_id t, ir_group = job_group j, ir_generation = job_publication j,
          ir_execution = execution,
          ir_evidence_version =
            (case job_investigation_evidence j of None \<Rightarrow> tk_evidence_version t | Some v \<Rightarrow> v),
          ir_job = job_id j, ir_reason = why\<rparr>]\<rparr>)"

text \<open>
  \<open>current\<close>: the ticket still publishes the generation the job was created for. Only then may the
  failure show on the issue; a retired generation is only closed off.
\<close>

definition attempt_current :: "ticket_row \<Rightarrow> job_row \<Rightarrow> bool" where
  "attempt_current t j =
     (tk_status t = Published \<and> job_publication j = Some (tk_live_generation t))"

definition fail_fix_attempt :: "job_row \<Rightarrow> ticket_row \<Rightarrow> ident \<Rightarrow> db \<Rightarrow> db" where
  "fail_fix_attempt j t pid s =
     (let current = attempt_current t j;
          hit = (\<lambda>a. job_fix_attempt j = Some (at_id a) \<and> at_ticket a = tk_id t
                   \<and> job_publication j = Some (at_generation a) \<and> at_status a = Active);
          s1 = s\<lparr>attempts := update_where hit
                 (\<lambda>a. a\<lparr>at_status := (if current then AttemptFailed else Superseded)\<rparr>) (attempts s)\<rparr>
      in if current \<and> list_ex hit (attempts s)
         then s1\<lparr>issues := update_where
                  (\<lambda>g. job_group j = Some (gr_id g) \<and> gr_project g = pid
                     \<and> gr_publication g \<noteq> None \<and> gr_publication g = job_publication j
                     \<and> gr_status g \<noteq> GArchived \<and> gr_fix_substate g = Some SubFixing)
                  (\<lambda>g. g\<lparr>gr_fix_substate := Some SubNone, gr_status := GAwaitingApproval\<rparr>)
                  (issues s1)\<rparr>
         else s1)"

definition fail_investigation :: "job_row \<Rightarrow> ticket_row \<Rightarrow> ident \<Rightarrow> string \<Rightarrow> db \<Rightarrow> db" where
  "fail_investigation j t pid why s =
     (let s1 = (case job_investigation_execution j of
                  None \<Rightarrow> s
                | Some execution \<Rightarrow> insert_failed_investigation j t execution why s)
      in if \<not> attempt_current t j then s1
         else
           let newer = list_ex (\<lambda>k. job_group k \<noteq> None \<and> job_group k = job_group j
                                  \<and> job_type k = Investigate \<and> job_id k \<noteq> job_id j
                                  \<and> (job_status k = Pending \<or> job_status k = Claimed)) (jobs s1);
               execution = (case job_investigation_execution j of None \<Rightarrow> 0 | Some n \<Rightarrow> n);
               latest = (case job_group j of None \<Rightarrow> False | Some gid \<Rightarrow>
                  (case issue_of s1 gid of None \<Rightarrow> False
                   | Some g \<Rightarrow> gr_investigation_execution g = execution))
           in if \<not> newer \<and> latest
              then s1\<lparr>issues := update_where
                       (\<lambda>g. job_group j = Some (gr_id g) \<and> gr_project g = pid
                          \<and> gr_status g \<noteq> GArchived
                          \<and> gr_fix_substate g \<noteq> None \<and> gr_fix_substate g \<noteq> Some SubResolved
                          \<and> gr_investigation_status g = Some ''pending'')
                       (\<lambda>g. g\<lparr>gr_investigation_status := Some ''failed'',
                             gr_evidence_version_used :=
                               (case job_investigation_evidence j of
                                  None \<Rightarrow> gr_evidence_version_used g | Some v \<Rightarrow> Some v)\<rparr>)
                       (issues s1),
                     tickets := update_where (\<lambda>u. tk_id u = tk_id t)
                       (\<lambda>u. u\<lparr>tk_reinvestigate_needed := True\<rparr>) (tickets s1)\<rparr>
              else s1)"

text \<open>
  The result tells the caller whether the job belonged to a ticket, in which case the issue's
  status is owned by the ticket and must not be written again.
\<close>

definition attempt_failed :: "ident \<Rightarrow> ident \<Rightarrow> string \<Rightarrow> db \<Rightarrow> bool \<times> db" where
  "attempt_failed jid pid why s =
     (case find (\<lambda>j. job_id j = jid \<and> job_project j = pid \<and> job_ticket j \<noteq> None) (jobs s) of
        None \<Rightarrow> (False, s)
      | Some j \<Rightarrow>
          (case get_ticket pid (the (job_ticket j)) s of
             None \<Rightarrow> (True, s)
           | Some t \<Rightarrow>
               let s1 = (if job_type j = FrictionConfirm
                         then (case job_batch j of None \<Rightarrow> s | Some b \<Rightarrow> discard_batch b s) else s);
                   s2 = (case job_fix_attempt j of
                           None \<Rightarrow> s1 | Some a \<Rightarrow> insert_fix_failure jid a why s1)
               in (True,
                   if job_type j = Fix then fail_fix_attempt j t pid s2
                   else if job_type j = Investigate then fail_investigation j t pid why s2
                   else s2)))"

section \<open>What the clean-up leaves alone\<close>

lemma discard_batch_frame [simp]:
  "jobs (discard_batch b s) = jobs s" "signals (discard_batch b s) = signals s"
  "generations (discard_batch b s) = generations s" "issues (discard_batch b s) = issues s"
  "attempts (discard_batch b s) = attempts s" "reservations (discard_batch b s) = reservations s"
  "projects (discard_batch b s) = projects s" "outbox (discard_batch b s) = outbox s"
  "uuids (discard_batch b s) = uuids s"
  by (simp_all add: discard_batch_def Let_def)

lemma insert_fix_failure_frame [simp]:
  "jobs (insert_fix_failure j a w s) = jobs s" "signals (insert_fix_failure j a w s) = signals s"
  "generations (insert_fix_failure j a w s) = generations s"
  "issues (insert_fix_failure j a w s) = issues s" "tickets (insert_fix_failure j a w s) = tickets s"
  "attempts (insert_fix_failure j a w s) = attempts s"
  "reservations (insert_fix_failure j a w s) = reservations s"
  "outbox (insert_fix_failure j a w s) = outbox s" "uuids (insert_fix_failure j a w s) = uuids s"
  by (simp_all add: insert_fix_failure_def)

lemma insert_failed_investigation_frame [simp]:
  "jobs (insert_failed_investigation j t e w s) = jobs s"
  "signals (insert_failed_investigation j t e w s) = signals s"
  "generations (insert_failed_investigation j t e w s) = generations s"
  "issues (insert_failed_investigation j t e w s) = issues s"
  "attempts (insert_failed_investigation j t e w s) = attempts s"
  "reservations (insert_failed_investigation j t e w s) = reservations s"
  "outbox (insert_failed_investigation j t e w s) = outbox s"
  by (simp_all add: insert_failed_investigation_def)

lemma fail_fix_attempt_frame [simp]:
  "jobs (fail_fix_attempt j t p s) = jobs s" "signals (fail_fix_attempt j t p s) = signals s"
  "generations (fail_fix_attempt j t p s) = generations s"
  "reservations (fail_fix_attempt j t p s) = reservations s"
  "outbox (fail_fix_attempt j t p s) = outbox s"
  by (simp_all add: fail_fix_attempt_def Let_def)

lemma fail_investigation_frame [simp]:
  "jobs (fail_investigation j t p w s) = jobs s" "signals (fail_investigation j t p w s) = signals s"
  "generations (fail_investigation j t p w s) = generations s"
  "attempts (fail_investigation j t p w s) = attempts s"
  "reservations (fail_investigation j t p w s) = reservations s"
  "outbox (fail_investigation j t p w s) = outbox s"
  by (simp_all add: fail_investigation_def Let_def split: option.splits)

lemma attempt_failed_frame [simp]:
  "jobs (snd (attempt_failed jid pid why s)) = jobs s"
  "signals (snd (attempt_failed jid pid why s)) = signals s"
  "generations (snd (attempt_failed jid pid why s)) = generations s"
  "reservations (snd (attempt_failed jid pid why s)) = reservations s"
  "outbox (snd (attempt_failed jid pid why s)) = outbox s"
  by (simp_all add: attempt_failed_def Let_def split: option.splits)

lemma attempt_failed_not_ticket:
  "\<not> fst (attempt_failed jid pid why s) \<Longrightarrow> snd (attempt_failed jid pid why s) = s"
  by (simp add: attempt_failed_def Let_def split: option.splits)

end
