(* ===== verification/IssueStatus.thy ===== *)
theory IssueStatus
  imports Tickets
begin

text \<open>
  \<open>updateGroupStatus\<close> of \<open>db.ts\<close> and what it calls: the contract that an issue handed to a human
  carries a complete reason, the fencing by the job's lease, the hand-over to the ticket when the
  job belongs to one, and the \<open>issue.triaged\<close> notification that is written at most once per
  terminal job. An exception of the source is a left value; the transaction is then rolled back.
\<close>

section \<open>Leases\<close>

record job_lease =
  ls_id :: ident
  ls_worker :: ident
  ls_generation :: nat
  ls_project :: ident
  ls_group :: "ident option"
  ls_session :: "ident option"

text \<open>A job is held by a worker under a generation, and its lease has not run out.\<close>

definition holds_lease :: "time \<Rightarrow> ident \<Rightarrow> ident \<Rightarrow> nat \<Rightarrow> job_row \<Rightarrow> bool" where
  "holds_lease now jid wid gen j =
     (job_id j = jid \<and> job_worker j = Some wid \<and> job_lease_generation j = gen
      \<and> job_status j = Claimed
      \<and> (case job_lease_expires j of None \<Rightarrow> False | Some e \<Rightarrow> now < e))"

section \<open>The triage label and the outbox\<close>

definition is_triage_terminal :: "group_status \<Rightarrow> bool" where
  "is_triage_terminal st = (st = GNeedsHuman \<or> st = GPrCreated)"

definition needs_human_labels :: "(string \<times> string) list" where
  "needs_human_labels =
    [(''insufficient_context'', ''Needs review - no verified cause''),
     (''unfixable_third_party'', ''Needs review - cause is third-party code''),
     (''unfixable_infra'', ''Needs review - infrastructure cause''),
     (''unfixable_no_app_frames'', ''Needs review - no application code in the stack''),
     (''worker_runtime_error'', ''Needs review - investigation crashed''),
     (''verification_failed'', ''Needs review - fix failed verification''),
     (''budget_exhausted'', ''Needs review - investigation budget exhausted''),
     (''dependency_install_failed'', ''Needs review - dependencies could not be installed''),
     (''*'', ''Needs review'')]"

definition triage_label :: "group_status \<Rightarrow> string option \<Rightarrow> string" where
  "triage_label st rc =
     (if st = GPrCreated then ''Fix PR opened''
      else (case map_of needs_human_labels (case rc of None \<Rightarrow> [] | Some c \<Rightarrow> c) of
              Some l \<Rightarrow> l | None \<Rightarrow> ''Needs review''))"

definition triaged_dedup_key :: "ident \<Rightarrow> ident \<Rightarrow> string" where
  "triaged_dedup_key gid jid = ''issue.triaged:'' @ gid @ '':'' @ jid"

definition subscribed :: "ident \<Rightarrow> destination_row \<Rightarrow> bool" where
  "subscribed pid d = (ds_project d = pid \<and> ds_enabled d \<and> ds_issue_created d \<and> ds_post_triage d)"

text \<open>
  \<open>loadTriagedPayload\<close> returns null for an issue that is missing, is not an error issue or has no
  project; the payload itself is kept as the outcome and its label.
\<close>

definition has_triaged_payload :: "ident \<Rightarrow> ident \<Rightarrow> db \<Rightarrow> bool" where
  "has_triaged_payload gid pid s =
     list_ex (\<lambda>g. gr_id g = gid \<and> gr_project g = pid \<and> gr_is_error g
               \<and> list_ex (\<lambda>p. pj_id p = pid) (projects s)) (issues s)"

text \<open>
  \<open>triagedOutboxCte\<close>: \<open>prev\<close> is the status before the update, None when no row was updated;
  \<open>payload\<close> says whether the payload is not null.
\<close>

definition triaged_outbox ::
  "ident \<Rightarrow> group_status \<Rightarrow> group_status option \<Rightarrow> bool \<Rightarrow> string option \<Rightarrow> ident \<Rightarrow> string \<Rightarrow>
   db \<Rightarrow> db" where
  "triaged_outbox pid st prev payload rc gid key s =
     (if (case prev of None \<Rightarrow> False | Some p \<Rightarrow> p \<noteq> st \<and> is_triage_terminal st)
         \<and> list_ex (subscribed pid) (destinations s) \<and> payload
         \<and> \<not> list_ex (\<lambda>o'. ob_project o' = pid \<and> ob_dedup_key o' = key) (outbox s)
      then s\<lparr>outbox := outbox s @
             [\<lparr>ob_project = pid, ob_dedup_key = key, ob_group = gid, ob_status = st,
               ob_reason_code = rc, ob_label = triage_label st rc,
               ob_deliveries = map ds_id (filter (subscribed pid) (destinations s))\<rparr>]\<rparr>
      else s)"

section \<open>updateGroupStatus\<close>

record status_fields =
  sf_confidence :: "string option"
  sf_pr_url :: "string option"
  sf_pr_number :: "nat option"
  sf_pr_fix_job :: "ident option"
  sf_reason :: "reason option"
  sf_candidate_diff :: "string option"
  sf_evidence :: "string option"
  sf_terminal_fix_job :: "ident option"

datatype status_error =
    ReasonRequired | ReasonFieldEmpty | TerminalJobRequired | LeaseLost ident

definition reason_complete :: "reason \<Rightarrow> bool" where
  "reason_complete r = (reason_code r \<noteq> [] \<and> reason_message r \<noteq> [] \<and> remediation r \<noteq> [])"

definition terminal_job :: "status_fields \<Rightarrow> job_lease option \<Rightarrow> ident option" where
  "terminal_job f lease =
     (case sf_terminal_fix_job f of Some j \<Rightarrow> Some j | None \<Rightarrow> map_option ls_id lease)"

definition status_precheck ::
  "group_status \<Rightarrow> status_fields \<Rightarrow> job_lease option \<Rightarrow> status_error option" where
  "status_precheck st f lease =
     (if st = GNeedsHuman \<and> sf_reason f = None then Some ReasonRequired
      else if st = GNeedsHuman \<and> \<not> reason_complete (the (sf_reason f)) then Some ReasonFieldEmpty
      else if is_triage_terminal st
              \<and> (case terminal_job f lease of None \<Rightarrow> True | Some j \<Rightarrow> j = [])
        then Some TerminalJobRequired
      else None)"

text \<open>The \<open>owned\<close> clause: the lease holder's job must be the job of this issue.\<close>

definition lease_owns_group :: "time \<Rightarrow> ident \<Rightarrow> ident \<Rightarrow> job_lease \<Rightarrow> db \<Rightarrow> bool" where
  "lease_owns_group clk gid pid l s =
     list_ex (\<lambda>j. holds_lease clk (ls_id l) (ls_worker l) (ls_generation l) j
                \<and> job_project j = pid \<and> job_group j = Some gid) (jobs s)"

definition or_else :: "'a option \<Rightarrow> 'a option \<Rightarrow> 'a option" where
  "or_else a b = (case a of None \<Rightarrow> b | Some x \<Rightarrow> Some x)"

definition set_status_row ::
  "time \<Rightarrow> group_status \<Rightarrow> status_fields \<Rightarrow> group_row \<Rightarrow> group_row" where
  "set_status_row now st f g =
     g\<lparr>gr_status := st, gr_confidence := sf_confidence f, gr_pr_url := sf_pr_url f,
       gr_pr_number := sf_pr_number f,
       gr_pr_fix_job := or_else (sf_pr_fix_job f) (gr_pr_fix_job g),
       gr_reason_code := map_option reason_code (sf_reason f),
       gr_reason_message := map_option reason_message (sf_reason f),
       gr_remediation := map_option remediation (sf_reason f),
       gr_candidate_diff := sf_candidate_diff f, gr_evidence := sf_evidence f,
       gr_terminal_fix_job := or_else (sf_terminal_fix_job f) (gr_terminal_fix_job g),
       gr_pr_created_at := (if st = GPrCreated \<and> gr_status g \<noteq> GPrCreated then Some now
                            else gr_pr_created_at g),
       gr_needs_human_at := (if st = GNeedsHuman \<and> gr_status g \<noteq> GNeedsHuman then Some now
                             else gr_needs_human_at g)\<rparr>"

definition write_group_status ::
  "time \<Rightarrow> time \<Rightarrow> ident \<Rightarrow> ident \<Rightarrow> group_status \<Rightarrow> status_fields \<Rightarrow> job_lease option \<Rightarrow>
   db \<Rightarrow> status_error + db" where
  "write_group_status clk now gid pid st f lease s =
     (let allowed = (case lease of None \<Rightarrow> True | Some l \<Rightarrow> lease_owns_group clk gid pid l s);
          hit = (\<lambda>g. gr_id g = gid \<and> gr_project g = pid \<and> allowed);
          prev = map_option gr_status (find hit (issues s));
          rc = map_option reason_code (sf_reason f);
          payload = (is_triage_terminal st \<longrightarrow> has_triaged_payload gid pid s);
          key = triaged_dedup_key gid
                  (case terminal_job f lease of None \<Rightarrow> ''non-terminal'' | Some j \<Rightarrow> j);
          s1 = s\<lparr>issues := update_where hit (set_status_row now st f) (issues s)\<rparr>
      in case lease of
           Some l \<Rightarrow> if prev = None then Inl (LeaseLost (ls_id l))
                     else Inr (triaged_outbox pid st prev payload rc gid key s1)
         | None \<Rightarrow> Inr (triaged_outbox pid st prev payload rc gid key s1))"

definition update_group_status ::
  "time \<Rightarrow> time \<Rightarrow> ident \<Rightarrow> ident \<Rightarrow> group_status \<Rightarrow> status_fields \<Rightarrow> job_lease option \<Rightarrow>
   db \<Rightarrow> status_error + db" where
  "update_group_status clk now gid pid st f lease s =
     (case status_precheck st f lease of
        Some e \<Rightarrow> Inl e
      | None \<Rightarrow>
          (case (if st = GNeedsHuman then terminal_job f lease else None) of
             None \<Rightarrow> write_group_status clk now gid pid st f lease s
           | Some tj \<Rightarrow>
               let owned = (case lease of None \<Rightarrow> True | Some l \<Rightarrow>
                     list_ex (holds_lease clk (ls_id l) (ls_worker l) (ls_generation l)) (jobs s));
                   why = (case sf_reason f of None \<Rightarrow> ''Fix failed'' | Some r \<Rightarrow> reason_message r)
               in if \<not> owned then Inl (LeaseLost (case lease of None \<Rightarrow> tj | Some l \<Rightarrow> ls_id l))
                  else case attempt_failed tj pid why s of (ticket, s1) \<Rightarrow>
                    if ticket then Inr s1 else write_group_status clk now gid pid st f lease s1))"

section \<open>Frames and the reason contract\<close>

lemma triaged_outbox_frame [simp]:
  "jobs (triaged_outbox p st pv pl rc g k s) = jobs s"
  "issues (triaged_outbox p st pv pl rc g k s) = issues s"
  "signals (triaged_outbox p st pv pl rc g k s) = signals s"
  "generations (triaged_outbox p st pv pl rc g k s) = generations s"
  "reservations (triaged_outbox p st pv pl rc g k s) = reservations s"
  "attempts (triaged_outbox p st pv pl rc g k s) = attempts s"
  by (simp_all add: triaged_outbox_def)

lemma write_group_status_frame:
  "write_group_status clk now gid pid st f lease s = Inr t \<Longrightarrow>
   jobs t = jobs s \<and> signals t = signals s \<and> generations t = generations s
   \<and> reservations t = reservations s \<and> attempts t = attempts s"
  by (auto simp: write_group_status_def Let_def split: option.splits if_splits)

lemma update_group_status_cases:
  assumes "update_group_status clk now gid pid st f lease s = Inr t"
  obtains (direct) "status_precheck st f lease = None"
      "write_group_status clk now gid pid st f lease s = Inr t"
    | (ticket) tj why where "status_precheck st f lease = None" "t = snd (attempt_failed tj pid why s)"
    | (after) tj why where "status_precheck st f lease = None"
      "write_group_status clk now gid pid st f lease (snd (attempt_failed tj pid why s)) = Inr t"
proof -
  have pre: "status_precheck st f lease = None"
    using assms by (cases "status_precheck st f lease") (simp_all add: update_group_status_def)
  show thesis
  proof (cases "if st = GNeedsHuman then terminal_job f lease else None")
    case None
    with assms pre have "write_group_status clk now gid pid st f lease s = Inr t"
      by (simp only: update_group_status_def option.case)
    with pre show thesis by (rule direct)
  next
    case (Some tj)
    let ?a = "attempt_failed tj pid
      (case sf_reason f of None \<Rightarrow> ''Fix failed'' | Some r \<Rightarrow> reason_message r) s"
    let ?owned = "case lease of None \<Rightarrow> True | Some l \<Rightarrow>
      list_ex (holds_lease clk (ls_id l) (ls_worker l) (ls_generation l)) (jobs s)"
    have eq: "update_group_status clk now gid pid st f lease s =
        (if \<not> ?owned then Inl (LeaseLost (case lease of None \<Rightarrow> tj | Some l \<Rightarrow> ls_id l))
         else if fst ?a then Inr (snd ?a)
         else write_group_status clk now gid pid st f lease (snd ?a))"
      by (simp only: update_group_status_def pre Some option.case Let_def case_prod_unfold)
    have owned: "?owned"
    proof (rule ccontr)
      assume "\<not> ?owned"
      with eq have "update_group_status clk now gid pid st f lease s
          = Inl (LeaseLost (case lease of None \<Rightarrow> tj | Some l \<Rightarrow> ls_id l))"
        by (simp only: if_True not_False_eq_True)
      with assms show False by simp
    qed
    have "t = snd ?a \<or> write_group_status clk now gid pid st f lease (snd ?a) = Inr t"
    proof (cases "fst ?a")
      case True
      with eq owned assms have "Inr t = (Inr (snd ?a) :: status_error + db)" by (simp only: simp_thms if_True if_False)
      then show ?thesis by simp
    next
      case False
      with eq owned assms show ?thesis by (simp only: simp_thms if_True if_False)
    qed
    with pre show thesis using ticket after by blast
  qed
qed

lemma update_group_status_frame:
  assumes "update_group_status clk now gid pid st f lease s = Inr t"
  shows "jobs t = jobs s \<and> signals t = signals s \<and> generations t = generations s
         \<and> reservations t = reservations s"
  using assms
  by (cases rule: update_group_status_cases) (auto dest!: write_group_status_frame)

section \<open>A human is never asked without a reason\<close>

definition reasoned :: "group_row \<Rightarrow> bool" where
  "reasoned g =
     (gr_status g = GNeedsHuman \<longrightarrow>
        (case (gr_reason_code g, gr_reason_message g, gr_remediation g) of
           (Some c, Some m, Some r) \<Rightarrow> c \<noteq> [] \<and> m \<noteq> [] \<and> r \<noteq> [] | _ \<Rightarrow> False))"

lemma reasoned_kept:
  "gr_status (f g) = gr_status g \<or> gr_status (f g) \<noteq> GNeedsHuman \<Longrightarrow>
   gr_reason_code (f g) = gr_reason_code g \<Longrightarrow> gr_reason_message (f g) = gr_reason_message g \<Longrightarrow>
   gr_remediation (f g) = gr_remediation g \<Longrightarrow> reasoned g \<Longrightarrow> reasoned (f g)"
  by (auto simp: reasoned_def)

lemma list_all_update_where:
  "list_all P rs \<Longrightarrow> (\<And>r. c r \<Longrightarrow> P r \<Longrightarrow> P (f r)) \<Longrightarrow> list_all P (update_where c f rs)"
  by (induction rs) simp_all

lemma fail_fix_attempt_reasoned:
  "list_all reasoned (issues s) \<Longrightarrow> list_all reasoned (issues (fail_fix_attempt j t p s))"
  unfolding fail_fix_attempt_def Let_def
  by (simp, intro impI list_all_update_where) (simp_all add: reasoned_def)

lemma fail_investigation_reasoned:
  assumes "list_all reasoned (issues s)"
  shows "list_all reasoned (issues (fail_investigation j t p w s))"
proof -
  have "list_all reasoned (issues (case job_investigation_execution j of None \<Rightarrow> s
      | Some e \<Rightarrow> insert_failed_investigation j t e w s))"
    using assms by (simp split: option.splits)
  then show ?thesis
    unfolding fail_investigation_def Let_def
    by (simp, intro impI list_all_update_where) (simp_all add: reasoned_def)
qed

lemma attempt_failed_reasoned:
  assumes s: "list_all reasoned (issues s)"
  shows "list_all reasoned (issues (snd (attempt_failed jid pid why s)))"
proof (cases "find (\<lambda>j. job_id j = jid \<and> job_project j = pid \<and> job_ticket j \<noteq> None) (jobs s)")
  case None
  with s show ?thesis by (simp add: attempt_failed_def)
next
  case (Some j)
  show ?thesis
  proof (cases "get_ticket pid (the (job_ticket j)) s")
    case None
    with Some s show ?thesis by (simp add: attempt_failed_def)
  next
    case (Some t)
    let ?s1 = "if job_type j = FrictionConfirm
      then (case job_batch j of None \<Rightarrow> s | Some b \<Rightarrow> discard_batch b s) else s"
    let ?s2 = "case job_fix_attempt j of None \<Rightarrow> ?s1 | Some a \<Rightarrow> insert_fix_failure jid a why ?s1"
    have "issues ?s1 = issues s" by (simp split: option.splits)
    then have "issues ?s2 = issues s" by (simp split: option.splits)
    with s have s2: "list_all reasoned (issues ?s2)" by simp
    have "snd (attempt_failed jid pid why s) =
        (if job_type j = Fix then fail_fix_attempt j t pid ?s2
         else if job_type j = Investigate then fail_investigation j t pid why ?s2 else ?s2)"
      using \<open>find _ _ = Some j\<close> Some by (simp add: attempt_failed_def Let_def)
    with s2 fail_fix_attempt_reasoned [OF s2] fail_investigation_reasoned [OF s2] show ?thesis by simp
  qed
qed

lemma set_status_reasoned:
  assumes "st = GNeedsHuman \<Longrightarrow> sf_reason f \<noteq> None \<and> reason_complete (the (sf_reason f))"
  shows "reasoned (set_status_row now st f g)"
  using assms by (auto simp: reasoned_def set_status_row_def reason_complete_def)

lemma write_group_status_issues:
  assumes "write_group_status clk now gid pid st f lease s = Inr t"
  shows "\<exists>c. issues t = update_where c (set_status_row now st f) (issues s)"
  using assms by (auto simp: write_group_status_def Let_def split: option.splits if_splits)

lemma needs_human_has_reason:
  assumes "update_group_status clk now gid pid st f lease s = Inr t"
    and "list_all reasoned (issues s)"
  shows "list_all reasoned (issues t)"
proof -
  have pre: "st = GNeedsHuman \<Longrightarrow> sf_reason f \<noteq> None \<and> reason_complete (the (sf_reason f))"
    if "status_precheck st f lease = None"
    using that by (auto simp: status_precheck_def split: if_splits)
  have written: "list_all reasoned (issues t)"
    if "status_precheck st f lease = None" "write_group_status clk now gid pid st f lease u = Inr t"
      "list_all reasoned (issues u)" for u
  proof -
    from write_group_status_issues [OF that(2)]
    obtain c where c: "issues t = update_where c (set_status_row now st f) (issues u)" by blast
    show ?thesis unfolding c
      by (rule list_all_update_where [OF that(3)], rule set_status_reasoned, rule pre [OF that(1)])
  qed
  from assms(1) show ?thesis
    by (cases rule: update_group_status_cases)
      (auto intro: written attempt_failed_reasoned assms(2))
qed

definition demo_reason :: reason where
  "demo_reason = \<lparr>reason_code = ''lease_lost'', reason_message = ''gave up'', remediation = ''retry''\<rparr>"

definition no_fields :: status_fields where
  "no_fields = \<lparr>sf_confidence = None, sf_pr_url = None, sf_pr_number = None, sf_pr_fix_job = None,
     sf_reason = None, sf_candidate_diff = None, sf_evidence = None, sf_terminal_fix_job = None\<rparr>"

definition blank_issue :: "ident \<Rightarrow> ident \<Rightarrow> group_row" where
  "blank_issue gid pid =
     \<lparr>gr_id = gid, gr_project = pid, gr_environment = None, gr_fingerprint = gid, gr_title = [],
      gr_status = GFixing, gr_is_error = True, gr_unchecked = False, gr_signal_type = None,
      gr_page = None, gr_selector = None, gr_occurrences = 0, gr_affected_users = 0,
      gr_ticket = None, gr_publication = None, gr_fix_substate = None,
      gr_investigation_status = None, gr_investigation_execution = 0,
      gr_evidence_version_used = None, gr_explained_signals = [], gr_root_cause = None,
      gr_confidence = None, gr_pr_url = None, gr_pr_number = None, gr_pr_fix_job = None,
      gr_terminal_fix_job = None, gr_reason_code = None, gr_reason_message = None,
      gr_remediation = None, gr_candidate_diff = None, gr_evidence = None,
      gr_pr_created_at = None, gr_needs_human_at = None, gr_merged_at = None, gr_first_seen = 0, gr_last_seen = 0,
      gr_representative_signal = None, gr_representative_session = None, gr_before_archive = None,
      gr_archived_at = None, gr_actionable_since = None\<rparr>"

definition demo_issue_db :: db where
  "demo_issue_db = empty_db\<lparr>issues := [blank_issue ''i1'' ''p1'']\<rparr>"

definition demo_handed_over :: db where
  "demo_handed_over = empty_db\<lparr>issues := [set_status_row 5 GNeedsHuman
     (no_fields\<lparr>sf_reason := Some demo_reason, sf_terminal_fix_job := Some ''j1''\<rparr>)
     (blank_issue ''i1'' ''p1'')]\<rparr>"

section \<open>A notification is written once\<close>

definition outbox_key :: "outbox_row \<Rightarrow> ident \<times> string" where
  "outbox_key o' = (ob_project o', ob_dedup_key o')"

lemma triaged_outbox_distinct:
  "distinct (map outbox_key (outbox s)) \<Longrightarrow>
   distinct (map outbox_key (outbox (triaged_outbox pid st prev pl rc gid key s)))"
  by (auto simp: triaged_outbox_def outbox_key_def list_ex_iff)

lemma write_group_status_outbox:
  assumes "write_group_status clk now gid pid st f lease s = Inr t"
  shows "\<exists>prev pl rc key i. t = triaged_outbox pid st prev pl rc gid key (s\<lparr>issues := i\<rparr>)"
  using assms unfolding write_group_status_def Let_def
  by (cases lease) (simp_all split: if_splits, blast+)

lemma triaged_outbox_adds:
  "let t = triaged_outbox pid st prev pl rc gid key s in
   outbox t = outbox s
   \<or> (\<exists>n. outbox t = outbox s @ [n] \<and> is_triage_terminal st \<and> ob_group n = gid
          \<and> ob_project n = pid \<and> ob_status n = st
          \<and> ob_deliveries n = map ds_id (filter (subscribed pid) (destinations t)))"
  by (simp add: triaged_outbox_def Let_def split: option.splits)

lemma triage_notified_once:
  assumes "update_group_status clk now gid pid st f lease s = Inr t"
    and "distinct (map outbox_key (outbox s))"
  shows "distinct (map outbox_key (outbox t))
    \<and> (outbox t = outbox s
       \<or> (\<exists>n. outbox t = outbox s @ [n] \<and> is_triage_terminal st \<and> ob_group n = gid
              \<and> ob_project n = pid \<and> ob_status n = st
              \<and> ob_deliveries n = map ds_id (filter (subscribed pid) (destinations t))))"
proof -
  have written: ?thesis
    if "write_group_status clk now gid pid st f lease u = Inr t" "outbox u = outbox s" for u
  proof -
    from write_group_status_outbox [OF that(1)] obtain prev pl rc key i
      where t: "t = triaged_outbox pid st prev pl rc gid key (u\<lparr>issues := i\<rparr>)" by blast
    have "distinct (map outbox_key (outbox t))"
      unfolding t by (rule triaged_outbox_distinct) (simp add: that(2) assms(2))
    with triaged_outbox_adds [of pid st prev pl rc gid key "u\<lparr>issues := i\<rparr>", folded t]
    show ?thesis by (simp add: Let_def that(2))
  qed
  from assms(1) show ?thesis
    by (cases rule: update_group_status_cases)
      (simp_all add: written assms(2))
qed

end
