(* ===== verification/DeadLetters.thy ===== *)
theory DeadLetters
  imports Schema
begin

text \<open>
  \<open>friction/dead-letter.ts\<close>: what happens to the signals and to the in-flight adjudication
  generation of a session-analysis job that fails. A retry releases the generation
  (\<open>releaseUnfinishedGeneration\<close>); a dead letter closes signals and generation as unchecked and
  leaves one diagnostic issue per exhausted adjudication (\<open>reconcileDeadLetteredSessionAnalysis\<close>).
  Both run in the transaction that changes the job.
\<close>

section \<open>releaseUnfinishedGeneration\<close>

definition releasable :: "ident \<Rightarrow> ident \<Rightarrow> db \<Rightarrow> generation_row \<Rightarrow> bool" where
  "releasable jid pid s g =
     (gen_claim_job g = Some jid \<and> gen_project g = pid \<and> gen_status g = Adjudicating
      \<and> gen_adjudicated_at g = None
      \<and> \<not> list_ex (\<lambda>x. sig_generation x = Some (gen_id g)) (signals s))"

definition release_unfinished_generation :: "ident \<Rightarrow> ident \<Rightarrow> db \<Rightarrow> nat \<times> db" where
  "release_unfinished_generation jid pid s =
     (count_where (releasable jid pid s) (generations s),
      s\<lparr>generations := filter (\<lambda>g. \<not> releasable jid pid s g) (generations s)\<rparr>)"

section \<open>Diagnostics\<close>

record descriptor =
  de_type :: "string option"
  de_page :: "string option"
  de_selector :: "string option"

definition signal_descriptor :: "signal_row \<Rightarrow> descriptor" where
  "signal_descriptor x =
     \<lparr>de_type = Some (sig_type x), de_page = Some (sig_page x), de_selector = sig_selector x\<rparr>"

definition empty_descriptor :: descriptor where
  "empty_descriptor = \<lparr>de_type = None, de_page = None, de_selector = None\<rparr>"

definition type_title :: "string \<Rightarrow> string option" where
  "type_title t =
     (if t = ''rage_click'' then Some ''rage clicks''
      else if t = ''dead_click'' then Some ''dead clicks''
      else if t = ''form_abandon'' then Some ''form abandonment''
      else None)"

definition diagnostic_title :: "descriptor \<Rightarrow> string" where
  "diagnostic_title d =
     (let kind = (case type_title (case de_type d of None \<Rightarrow> [] | Some t \<Rightarrow> t) of
                    None \<Rightarrow> ''friction'' | Some k \<Rightarrow> k);
          page = (case de_page d of None \<Rightarrow> ''unknown page'' | Some p \<Rightarrow> p)
      in ''Unchecked friction: '' @ kind @ '' on '' @ page)"

definition diagnostic_row :: "time \<Rightarrow> ident \<Rightarrow> ident \<Rightarrow> string \<Rightarrow> ident \<Rightarrow> descriptor \<Rightarrow> group_row" where
  "diagnostic_row now gid pid fp env d =
     \<lparr>gr_id = gid, gr_project = pid, gr_environment = Some env, gr_fingerprint = fp,
      gr_title = diagnostic_title d, gr_status = GCandidate, gr_is_error = False,
      gr_unchecked = True, gr_signal_type = de_type d, gr_page = de_page d,
      gr_selector = de_selector d, gr_occurrences = 0, gr_affected_users = 0,
      gr_ticket = None, gr_publication = None, gr_fix_substate = None,
      gr_investigation_status = None, gr_investigation_execution = 0,
      gr_evidence_version_used = None, gr_explained_signals = [], gr_root_cause = None,
      gr_confidence = None, gr_pr_url = None, gr_pr_number = None, gr_pr_fix_job = None,
      gr_terminal_fix_job = None, gr_reason_code = None, gr_reason_message = None,
      gr_remediation = None, gr_candidate_diff = None, gr_evidence = None,
      gr_pr_created_at = None, gr_needs_human_at = None, gr_merged_at = None, gr_first_seen = now, gr_last_seen = now,
      gr_representative_signal = None, gr_representative_session = None, gr_before_archive = None,
      gr_archived_at = None, gr_actionable_since = None\<rparr>"

text \<open>The key of a diagnostic is the adjudication's own identity.\<close>

definition unchecked_key :: "ident \<Rightarrow> string" where
  "unchecked_key k = ''friction-unchecked:'' @ k"

lemma unchecked_key_prefix [simp]: "starts_with (unchecked_key k) ''friction-unchecked:''"
  by (simp only: unchecked_key_def starts_with_append)

definition same_fingerprint :: "ident \<Rightarrow> string \<Rightarrow> group_row \<Rightarrow> bool" where
  "same_fingerprint pid fp g = (gr_project g = pid \<and> gr_fingerprint g = fp)"

text \<open>INSERT ... ON CONFLICT (project_id, fingerprint) DO NOTHING, then the id of the row.\<close>

definition upsert_diagnostic ::
  "time \<Rightarrow> (nat \<Rightarrow> ident) \<Rightarrow> ident \<Rightarrow> string \<Rightarrow> ident \<Rightarrow> descriptor \<Rightarrow> db \<Rightarrow> ident \<times> db" where
  "upsert_diagnostic now uuid pid fp env d s =
     (case find (same_fingerprint pid fp) (issues s) of
        Some g \<Rightarrow> (gr_id g, s)
      | None \<Rightarrow>
          let gid = uuid (uuids s)
          in (gid, s\<lparr>issues := issues s @ [diagnostic_row now gid pid fp env d], uuids := Suc (uuids s)\<rparr>))"

section \<open>reconcileDeadLetteredSessionAnalysis\<close>

definition claimed_pending :: "ident \<Rightarrow> ident \<Rightarrow> signal_row \<Rightarrow> bool" where
  "claimed_pending jid pid x =
     (sig_adjudication_job x = Some jid \<and> sig_project x = pid \<and> sig_adjudication x = AdjPending)"

definition uncheck_signal :: "time \<Rightarrow> signal_row \<Rightarrow> signal_row" where
  "uncheck_signal now x = x\<lparr>sig_adjudication := AdjUnchecked, sig_adjudicated_at := Some now\<rparr>"

definition in_flight :: "ident \<Rightarrow> ident \<Rightarrow> generation_row \<Rightarrow> bool" where
  "in_flight jid pid g =
     (gen_claim_job g = Some jid \<and> gen_project g = pid \<and> gen_status g = Adjudicating)"

definition uncheck_generation :: "time \<Rightarrow> generation_row \<Rightarrow> generation_row" where
  "uncheck_generation now g = g\<lparr>gen_status := GenUnchecked, gen_finished_at := Some now\<rparr>"

definition close_claimed :: "time \<Rightarrow> ident \<Rightarrow> ident \<Rightarrow> db \<Rightarrow> db" where
  "close_claimed now jid pid s =
     s\<lparr>signals := update_where (claimed_pending jid pid) (uncheck_signal now) (signals s),
       generations := update_where (in_flight jid pid) (uncheck_generation now) (generations s)\<rparr>"

definition tuple_key :: "ident \<Rightarrow> string \<Rightarrow> string" where
  "tuple_key env fp = env @ ''|'' @ fp"

fun diagnose_generations ::
  "time \<Rightarrow> (nat \<Rightarrow> ident) \<Rightarrow> ident \<Rightarrow> signal_row list \<Rightarrow> generation_row list \<Rightarrow> db \<Rightarrow> db" where
  "diagnose_generations now uuid pid flipped [] s = s"
| "diagnose_generations now uuid pid flipped (g # gs) s =
     (let rep = (case find (\<lambda>x. sig_environment x = gen_environment g
                               \<and> sig_fingerprint x = gen_fingerprint g) flipped of
                   None \<Rightarrow> empty_descriptor | Some x \<Rightarrow> signal_descriptor x);
          (did, s1) = upsert_diagnostic now uuid pid (unchecked_key (gen_id g))
                        (gen_environment g) rep s
      in diagnose_generations now uuid pid flipped gs
           (s1\<lparr>generations := update_where (\<lambda>h. gen_id h = gen_id g)
                 (\<lambda>h. h\<lparr>gen_diagnostic := Some did\<rparr>) (generations s1)\<rparr>))"

fun diagnose_signals ::
  "time \<Rightarrow> (nat \<Rightarrow> ident) \<Rightarrow> ident \<Rightarrow> string list \<Rightarrow> signal_row list \<Rightarrow> db \<Rightarrow> db" where
  "diagnose_signals now uuid pid covered [] s = s"
| "diagnose_signals now uuid pid covered (x # xs) s =
     (if tuple_key (sig_environment x) (sig_fingerprint x) \<in> set covered
      then diagnose_signals now uuid pid covered xs s
      else diagnose_signals now uuid pid covered xs
             (snd (upsert_diagnostic now uuid pid (unchecked_key (sig_id x))
                     (sig_environment x) (signal_descriptor x) s)))"

definition reconcile_dead_lettered :: "(nat \<Rightarrow> ident) \<Rightarrow> time \<Rightarrow> ident \<Rightarrow> ident \<Rightarrow> db \<Rightarrow> db" where
  "reconcile_dead_lettered uuid now jid pid s =
     (let flipped = map (uncheck_signal now) (filter (claimed_pending jid pid) (signals s));
          closed = map (uncheck_generation now) (filter (in_flight jid pid) (generations s));
          covered = map (\<lambda>g. tuple_key (gen_environment g) (gen_fingerprint g)) closed
      in diagnose_signals now uuid pid covered flipped
           (diagnose_generations now uuid pid flipped closed (close_claimed now jid pid s)))"

section \<open>Frames\<close>

lemma upsert_diagnostic_frame [simp]:
  "jobs (snd (upsert_diagnostic now uuid pid fp env d s)) = jobs s"
  "signals (snd (upsert_diagnostic now uuid pid fp env d s)) = signals s"
  "generations (snd (upsert_diagnostic now uuid pid fp env d s)) = generations s"
  "reservations (snd (upsert_diagnostic now uuid pid fp env d s)) = reservations s"
  "attempts (snd (upsert_diagnostic now uuid pid fp env d s)) = attempts s"
  "tickets (snd (upsert_diagnostic now uuid pid fp env d s)) = tickets s"
  "outbox (snd (upsert_diagnostic now uuid pid fp env d s)) = outbox s"
  by (simp_all add: upsert_diagnostic_def Let_def split: option.splits)

lemma diagnose_generations_frame [simp]:
  "jobs (diagnose_generations now uuid pid fl gs s) = jobs s"
  "signals (diagnose_generations now uuid pid fl gs s) = signals s"
  "reservations (diagnose_generations now uuid pid fl gs s) = reservations s"
  "attempts (diagnose_generations now uuid pid fl gs s) = attempts s"
  "tickets (diagnose_generations now uuid pid fl gs s) = tickets s"
  "outbox (diagnose_generations now uuid pid fl gs s) = outbox s"
  by (induction gs arbitrary: s) (simp_all add: Let_def case_prod_unfold)

lemma diagnose_signals_frame [simp]:
  "jobs (diagnose_signals now uuid pid cv xs s) = jobs s"
  "signals (diagnose_signals now uuid pid cv xs s) = signals s"
  "generations (diagnose_signals now uuid pid cv xs s) = generations s"
  "reservations (diagnose_signals now uuid pid cv xs s) = reservations s"
  "attempts (diagnose_signals now uuid pid cv xs s) = attempts s"
  "tickets (diagnose_signals now uuid pid cv xs s) = tickets s"
  "outbox (diagnose_signals now uuid pid cv xs s) = outbox s"
  by (induction xs arbitrary: s) (simp_all add: Let_def)

lemma close_claimed_frame [simp]:
  "jobs (close_claimed now jid pid s) = jobs s"
  "issues (close_claimed now jid pid s) = issues s"
  "reservations (close_claimed now jid pid s) = reservations s"
  "attempts (close_claimed now jid pid s) = attempts s"
  "tickets (close_claimed now jid pid s) = tickets s"
  "outbox (close_claimed now jid pid s) = outbox s"
  by (simp_all add: close_claimed_def)

lemma reconcile_frame [simp]:
  "jobs (reconcile_dead_lettered uuid now jid pid s) = jobs s"
  "reservations (reconcile_dead_lettered uuid now jid pid s) = reservations s"
  "attempts (reconcile_dead_lettered uuid now jid pid s) = attempts s"
  "tickets (reconcile_dead_lettered uuid now jid pid s) = tickets s"
  "outbox (reconcile_dead_lettered uuid now jid pid s) = outbox s"
  by (simp_all add: reconcile_dead_lettered_def Let_def)

lemma release_frame [simp]:
  "jobs (snd (release_unfinished_generation jid pid s)) = jobs s"
  "signals (snd (release_unfinished_generation jid pid s)) = signals s"
  "issues (snd (release_unfinished_generation jid pid s)) = issues s"
  "reservations (snd (release_unfinished_generation jid pid s)) = reservations s"
  "attempts (snd (release_unfinished_generation jid pid s)) = attempts s"
  "tickets (snd (release_unfinished_generation jid pid s)) = tickets s"
  "outbox (snd (release_unfinished_generation jid pid s)) = outbox s"
  by (simp_all add: release_unfinished_generation_def)

section \<open>Signals\<close>

lemma reconcile_signals:
  "signals (reconcile_dead_lettered uuid now jid pid s) =
     update_where (claimed_pending jid pid) (uncheck_signal now) (signals s)"
  by (simp add: reconcile_dead_lettered_def close_claimed_def Let_def)

interpretation uncheck: keyed_update sig_id "uncheck_signal now" for now
  by unfold_locales (simp add: uncheck_signal_def)

lemma reconcile_signal_of:
  "row_of sig_id k (signals (reconcile_dead_lettered uuid now jid pid s)) =
     map_option (\<lambda>x. if claimed_pending jid pid x then uncheck_signal now x else x)
       (row_of sig_id k (signals s))"
  by (simp add: reconcile_signals uncheck.lookup)

section \<open>Generations\<close>

text \<open>
  Attaching the diagnostics writes one column of the closed generations only, so what the closing
  statement did to the status stays.
\<close>

definition gen_view :: "generation_row \<Rightarrow> ident option \<times> ident \<times> generation_status" where
  "gen_view g = (gen_claim_job g, gen_project g, gen_status g)"

lemma gen_view_diagnostic [simp]: "gen_view (g\<lparr>gen_diagnostic := d\<rparr>) = gen_view g"
  by (simp add: gen_view_def)

lemma in_flight_view:
  "in_flight jid pid g \<longleftrightarrow> gen_view g = (Some jid, pid, Adjudicating)"
  by (simp add: in_flight_def gen_view_def)

lemma gen_view_update:
  "map gen_view (update_where p (\<lambda>h. h\<lparr>gen_diagnostic := d\<rparr>) rs) = map gen_view rs"
  by (induction rs) simp_all

lemma diagnose_generations_view:
  "map gen_view (generations (diagnose_generations now uuid pid fl gs s)) = map gen_view (generations s)"
  by (induction gs arbitrary: s) (simp_all add: Let_def case_prod_unfold gen_view_update)

lemma reconcile_gen_view:
  "map gen_view (generations (reconcile_dead_lettered uuid now jid pid s)) =
   map gen_view (update_where (in_flight jid pid) (uncheck_generation now) (generations s))"
  by (simp add: reconcile_dead_lettered_def Let_def diagnose_generations_view close_claimed_def)

lemma not_in_flight_unchecked: "\<not> in_flight jid pid (uncheck_generation now g)"
  by (simp add: in_flight_def uncheck_generation_def)

lemma reconcile_no_in_flight:
  assumes "g \<in> set (generations (reconcile_dead_lettered uuid now jid pid s))"
  shows "\<not> in_flight jid pid g"
proof -
  let ?upd = "update_where (in_flight jid pid) (uncheck_generation now) (generations s)"
  have "gen_view g \<in> set (map gen_view
          (generations (reconcile_dead_lettered uuid now jid pid s)))"
    using assms by simp
  then have "gen_view g \<in> gen_view ` set ?upd"
    by (simp only: reconcile_gen_view list.set_map)
  then obtain h where eq: "gen_view g = gen_view h" and h: "h \<in> set ?upd"
    by (rule imageE)
  have "\<not> in_flight jid pid h"
    using h by (rule update_where_cases) (simp_all add: not_in_flight_unchecked)
  with eq show ?thesis by (simp add: in_flight_view)
qed

section \<open>Issues\<close>

text \<open>Only diagnostics are added: hidden candidates without counts, jobs or junctions.\<close>

definition diagnostic :: "ident \<Rightarrow> group_row \<Rightarrow> bool" where
  "diagnostic pid g =
     (gr_project g = pid \<and> gr_status g = GCandidate \<and> gr_unchecked g \<and> \<not> gr_is_error g
      \<and> gr_occurrences g = 0 \<and> gr_affected_users g = 0
      \<and> starts_with (gr_fingerprint g) ''friction-unchecked:'')"

definition only_diagnostics_added :: "ident \<Rightarrow> db \<Rightarrow> db \<Rightarrow> bool" where
  "only_diagnostics_added pid s t =
     (\<exists>new. issues t = issues s @ new \<and> list_all (diagnostic pid) new)"

lemma only_diagnostics_refl: "issues t = issues s \<Longrightarrow> only_diagnostics_added pid s t"
  by (simp add: only_diagnostics_added_def)

lemma only_diagnostics_trans:
  "only_diagnostics_added pid s t \<Longrightarrow> only_diagnostics_added pid t u \<Longrightarrow>
   only_diagnostics_added pid s u"
  by (fastforce simp: only_diagnostics_added_def)

lemma upsert_only_diagnostics:
  "only_diagnostics_added pid s (snd (upsert_diagnostic now uuid pid (unchecked_key k) env d s))"
proof (cases "find (same_fingerprint pid (unchecked_key k)) (issues s)")
  case None
  then show ?thesis
    by (simp add: only_diagnostics_added_def upsert_diagnostic_def Let_def diagnostic_def
        diagnostic_row_def)
next
  case (Some g)
  then show ?thesis by (simp add: only_diagnostics_refl upsert_diagnostic_def)
qed

lemma only_diagnostics_generations [simp]:
  "only_diagnostics_added pid (s\<lparr>generations := gs\<rparr>) t = only_diagnostics_added pid s t"
  by (simp add: only_diagnostics_added_def)

lemma diagnose_generations_only:
  "only_diagnostics_added pid s (diagnose_generations now uuid pid fl gs s)"
proof (induction gs arbitrary: s)
  case Nil
  then show ?case by (simp add: only_diagnostics_refl)
next
  case (Cons g gs)
  let ?rep = "case find (\<lambda>x. sig_environment x = gen_environment g
                           \<and> sig_fingerprint x = gen_fingerprint g) fl of
                None \<Rightarrow> empty_descriptor | Some x \<Rightarrow> signal_descriptor x"
  let ?u = "upsert_diagnostic now uuid pid (unchecked_key (gen_id g)) (gen_environment g) ?rep s"
  let ?s1 = "snd ?u\<lparr>generations := update_where (\<lambda>h. gen_id h = gen_id g)
               (\<lambda>h. h\<lparr>gen_diagnostic := Some (fst ?u)\<rparr>) (generations (snd ?u))\<rparr>"
  have "only_diagnostics_added pid (snd ?u) (diagnose_generations now uuid pid fl gs ?s1)"
    using Cons.IH [of ?s1] by (simp only: only_diagnostics_generations)
  with upsert_only_diagnostics show ?case
    by (simp only: diagnose_generations.simps Let_def case_prod_unfold)
      (rule only_diagnostics_trans)
qed

lemma diagnose_signals_only:
  "only_diagnostics_added pid s (diagnose_signals now uuid pid cv xs s)"
proof (induction xs arbitrary: s)
  case Nil
  then show ?case by (simp add: only_diagnostics_refl)
next
  case (Cons x xs)
  show ?case
    by (simp add: Cons.IH only_diagnostics_trans [OF upsert_only_diagnostics Cons.IH])
qed

lemma reconcile_only_diagnostics:
  "only_diagnostics_added pid s (reconcile_dead_lettered uuid now jid pid s)"
  unfolding reconcile_dead_lettered_def Let_def
  by (rule only_diagnostics_trans [OF _ diagnose_signals_only],
      rule only_diagnostics_trans [OF _ diagnose_generations_only],
      simp add: only_diagnostics_refl)

lemma release_no_releasable:
  "g \<in> set (generations (snd (release_unfinished_generation jid pid s))) \<Longrightarrow>
   \<not> releasable jid pid (snd (release_unfinished_generation jid pid s)) g"
  by (auto simp: release_unfinished_generation_def releasable_def)

end
