(* ===== verification/JsRegex.thy ===== *)
theory JsRegex
  imports Prelude
begin

text \<open>
  The regular expressions of the language's standard library, as far as the source uses them:
  character classes, alternation, greedy and lazy quantifiers, groups with captures, assertions,
  lookahead, negative lookbehind of one character and back references. A match is the first result
  of a backtracking search, so alternatives and quantifiers are tried in the order the language
  prescribes. A position is the pair of the text before it, reversed, and the text after it.
\<close>

section \<open>Syntax\<close>

datatype regex =
    Empty
  | Cls "char \<Rightarrow> bool"
  | Cat regex regex
  | Alt regex regex
  | Rep bool nat "nat option" regex
  | Cap nat regex
  | AtStart
  | AtEnd
  | WordEdge
  | Ahead bool regex
  | NotBehind "char \<Rightarrow> bool"
  | Backref nat

record position =
  pos_before :: string
  pos_rest :: string
  pos_caps :: "(nat \<times> string) list"

section \<open>Matching\<close>

definition step_over :: "position \<Rightarrow> position" where
  "step_over st = st\<lparr>pos_before := hd (pos_rest st) # pos_before st, pos_rest := tl (pos_rest st)\<rparr>"

definition is_word_char :: "char \<Rightarrow> bool" where
  "is_word_char c = (let n = of_char c :: nat in
     (48 \<le> n \<and> n \<le> 57) \<or> (65 \<le> n \<and> n \<le> 90) \<or> n = 95 \<or> (97 \<le> n \<and> n \<le> 122))"

definition at_word_edge :: "position \<Rightarrow> bool" where
  "at_word_edge st =
     ((case pos_before st of [] \<Rightarrow> False | c # _ \<Rightarrow> is_word_char c) \<noteq>
      (case pos_rest st of [] \<Rightarrow> False | c # _ \<Rightarrow> is_word_char c))"

text \<open>
  Optional iterations of a quantifier: an iteration that consumes nothing is rejected, so the
  length of the rest bounds their number.
\<close>

fun rep_opt :: "bool \<Rightarrow> (position \<Rightarrow> position list) \<Rightarrow> nat \<Rightarrow> position \<Rightarrow> position list" where
  "rep_opt greedy f 0 st = [st]"
| "rep_opt greedy f (Suc n) st =
     (let more = concat (map (rep_opt greedy f n)
                   (filter (\<lambda>u. length (pos_rest u) < length (pos_rest st)) (f st)))
      in if greedy then more @ [st] else st # more)"

fun rep_exact :: "(position \<Rightarrow> position list) \<Rightarrow> nat \<Rightarrow> position \<Rightarrow> position list" where
  "rep_exact f 0 st = [st]"
| "rep_exact f (Suc n) st = concat (map (rep_exact f n) (f st))"

primrec results :: "regex \<Rightarrow> position \<Rightarrow> position list" where
  "results Empty st = [st]"
| "results (Cls p) st =
     (case pos_rest st of [] \<Rightarrow> [] | c # cs \<Rightarrow> if p c then [step_over st] else [])"
| "results (Cat a b) st = concat (map (results b) (results a st))"
| "results (Alt a b) st = results a st @ results b st"
| "results (Rep greedy lo hi a) st =
     concat (map (\<lambda>u. rep_opt greedy (results a)
                        (case hi of None \<Rightarrow> length (pos_rest u)
                         | Some h \<Rightarrow> min (h - lo) (length (pos_rest u))) u)
       (rep_exact (results a) lo st))"
| "results (Cap i a) st =
     map (\<lambda>u. u\<lparr>pos_caps :=
            (i, take (length (pos_rest st) - length (pos_rest u)) (pos_rest st)) # pos_caps u\<rparr>)
       (results a st)"
| "results AtStart st = (if pos_before st = [] then [st] else [])"
| "results AtEnd st = (if pos_rest st = [] then [st] else [])"
| "results WordEdge st = (if at_word_edge st then [st] else [])"
| "results (Ahead want a) st =
     (if want then (case results a st of [] \<Rightarrow> [] | u # _ \<Rightarrow> [st\<lparr>pos_caps := pos_caps u\<rparr>])
      else if results a st = [] then [st] else [])"
| "results (NotBehind p) st =
     (case pos_before st of [] \<Rightarrow> [st] | c # _ \<Rightarrow> if p c then [] else [st])"
| "results (Backref i) st =
     (let w = (case map_of (pos_caps st) i of None \<Rightarrow> [] | Some w \<Rightarrow> w)
      in if starts_with (pos_rest st) w
         then [st\<lparr>pos_before := rev w @ pos_before st, pos_rest := drop (length w) (pos_rest st)\<rparr>]
         else [])"

section \<open>The operations of the library\<close>

record match =
  m_text :: string
  m_caps :: "(nat \<times> string) list"

definition match_at :: "regex \<Rightarrow> string \<Rightarrow> string \<Rightarrow> match option" where
  "match_at r before rest =
     (case results r \<lparr>pos_before = before, pos_rest = rest, pos_caps = []\<rparr> of
        [] \<Rightarrow> None
      | u # _ \<Rightarrow> Some \<lparr>m_text = take (length rest - length (pos_rest u)) rest,
                      m_caps = pos_caps u\<rparr>)"

fun search_from :: "regex \<Rightarrow> string \<Rightarrow> string \<Rightarrow> match option" where
  "search_from r before [] = match_at r before []"
| "search_from r before (c # cs) =
     (case match_at r before (c # cs) of
        Some m \<Rightarrow> Some m | None \<Rightarrow> search_from r (c # before) cs)"

text \<open>\<open>s.match(re)\<close> and \<open>re.test(s)\<close> without the global flag.\<close>

definition js_match :: "regex \<Rightarrow> string \<Rightarrow> match option" where
  "js_match r s = search_from r [] s"

definition js_test :: "regex \<Rightarrow> string \<Rightarrow> bool" where
  "js_test r s = (js_match r s \<noteq> None)"

definition group :: "match \<Rightarrow> nat \<Rightarrow> string option" where
  "group m i = map_of (m_caps m) i"

definition group_text :: "match \<Rightarrow> nat \<Rightarrow> string" where
  "group_text m i = (case group m i of None \<Rightarrow> [] | Some w \<Rightarrow> w)"

text \<open>
  \<open>s.replace(re, f)\<close> with the global flag: the number \<open>k\<close> counts the characters of the last match
  that are still to be skipped; an empty match is followed by a step of one character.
\<close>

fun replace_from :: "regex \<Rightarrow> (match \<Rightarrow> string) \<Rightarrow> nat \<Rightarrow> string \<Rightarrow> string \<Rightarrow> string" where
  "replace_from r f k before [] =
     (if k = 0 then (case match_at r before [] of None \<Rightarrow> [] | Some m \<Rightarrow> f m) else [])"
| "replace_from r f k before (c # cs) =
     (if k > 0 then replace_from r f (k - 1) (c # before) cs
      else (case match_at r before (c # cs) of
              None \<Rightarrow> c # replace_from r f 0 (c # before) cs
            | Some m \<Rightarrow>
                if m_text m = [] then f m @ c # replace_from r f 0 (c # before) cs
                else f m @ replace_from r f (length (m_text m) - 1) (c # before) cs))"

definition replace_all :: "regex \<Rightarrow> (match \<Rightarrow> string) \<Rightarrow> string \<Rightarrow> string" where
  "replace_all r f s = replace_from r f 0 [] s"

section \<open>Building expressions\<close>

definition one_of :: "string \<Rightarrow> char \<Rightarrow> bool" where
  "one_of cs c = (c \<in> set cs)"

definition between :: "char \<Rightarrow> char \<Rightarrow> char \<Rightarrow> bool" where
  "between a b c = ((of_char a :: nat) \<le> of_char c \<and> (of_char c :: nat) \<le> of_char b)"

definition alpha :: "char \<Rightarrow> bool" where
  "alpha c = (between CHR ''a'' CHR ''z'' c \<or> between CHR ''A'' CHR ''Z'' c)"

definition digit :: "char \<Rightarrow> bool" where
  "digit c = between CHR ''0'' CHR ''9'' c"

definition alnum :: "char \<Rightarrow> bool" where
  "alnum c = (alpha c \<or> digit c)"

text \<open>The flag \<open>i\<close>: a character matches when its lower case does.\<close>

definition fold_case :: "(char \<Rightarrow> bool) \<Rightarrow> char \<Rightarrow> bool" where
  "fold_case p c = (p c \<or> p (lower_char c))"

fun lit :: "string \<Rightarrow> regex" where
  "lit [] = Empty"
| "lit [c] = Cls (\<lambda>x. x = c)"
| "lit (c # cs) = Cat (Cls (\<lambda>x. x = c)) (lit cs)"

fun lit_i :: "string \<Rightarrow> regex" where
  "lit_i [] = Empty"
| "lit_i [c] = Cls (fold_case (\<lambda>x. x = c))"
| "lit_i (c # cs) = Cat (Cls (fold_case (\<lambda>x. x = c))) (lit_i cs)"

definition star :: "regex \<Rightarrow> regex" where
  "star r = Rep True 0 None r"

definition plus :: "regex \<Rightarrow> regex" where
  "plus r = Rep True 1 None r"

definition opt :: "regex \<Rightarrow> regex" where
  "opt r = Rep True 0 (Some 1) r"

definition lazy_star :: "regex \<Rightarrow> regex" where
  "lazy_star r = Rep False 0 None r"

fun cats :: "regex list \<Rightarrow> regex" where
  "cats [] = Empty"
| "cats [r] = r"
| "cats (r # rs) = Cat r (cats rs)"

fun alts :: "regex list \<Rightarrow> regex" where
  "alts [] = Cls (\<lambda>_. False)"
| "alts [r] = r"
| "alts (r # rs) = Alt r (alts rs)"

section \<open>What a result is\<close>

text \<open>A result consumes a prefix of the rest, which moves to the text before the position.\<close>

definition advances :: "position \<Rightarrow> position \<Rightarrow> bool" where
  "advances st u = (\<exists>w. pos_rest st = w @ pos_rest u \<and> pos_before u = rev w @ pos_before st)"

lemma advances_refl [simp]: "advances st st"
  by (simp add: advances_def)

lemma advances_caps [simp]:
  "advances st (u\<lparr>pos_caps := c\<rparr>) = advances st u"
  by (simp add: advances_def)

lemma advances_trans: "advances a b \<Longrightarrow> advances b c \<Longrightarrow> advances a c"
  unfolding advances_def
proof (elim exE conjE)
  fix v w
  assume "pos_rest a = v @ pos_rest b" "pos_before b = rev v @ pos_before a"
    "pos_rest b = w @ pos_rest c" "pos_before c = rev w @ pos_before b"
  then have "pos_rest a = (v @ w) @ pos_rest c" "pos_before c = rev (v @ w) @ pos_before a"
    by simp_all
  then show "\<exists>w. pos_rest a = w @ pos_rest c \<and> pos_before c = rev w @ pos_before a" by blast
qed

lemma rep_opt_advances:
  assumes "\<And>st u. u \<in> set (f st) \<Longrightarrow> advances st u"
  shows "u \<in> set (rep_opt g f n st) \<Longrightarrow> advances st u"
proof (induction n arbitrary: st)
  case 0
  then show ?case by simp
next
  case (Suc n)
  then consider "u = st" | v where "v \<in> set (f st)" "u \<in> set (rep_opt g f n v)"
    by (auto simp: Let_def split: if_splits)
  then show ?case
  proof cases
    case 1
    then show ?thesis by simp
  next
    case 2
    from advances_trans [OF assms [OF 2(1)] Suc.IH [OF 2(2)]] show ?thesis .
  qed
qed

lemma rep_exact_advances:
  assumes "\<And>st u. u \<in> set (f st) \<Longrightarrow> advances st u"
  shows "u \<in> set (rep_exact f n st) \<Longrightarrow> advances st u"
proof (induction n arbitrary: st)
  case 0
  then show ?case by simp
next
  case (Suc n)
  then obtain v where "v \<in> set (f st)" "u \<in> set (rep_exact f n v)" by auto
  from advances_trans [OF assms [OF this(1)] Suc.IH [OF this(2)]] show ?case .
qed

lemma results_advances: "u \<in> set (results r st) \<Longrightarrow> advances st u"
proof (induction r arbitrary: st u)
  case (Cls p)
  then obtain c cs where "pos_rest st = c # cs" and "u = step_over st"
    by (cases "pos_rest st") (auto split: if_splits)
  then have "pos_rest st = [c] @ pos_rest u" "pos_before u = rev [c] @ pos_before st"
    by (simp_all add: step_over_def)
  then show ?case unfolding advances_def by blast
next
  case (Cat a b)
  then obtain v where "v \<in> set (results a st)" "u \<in> set (results b v)" by auto
  from advances_trans [OF Cat.IH(1) [OF this(1)] Cat.IH(2) [OF this(2)]] show ?case .
next
  case (Rep g lo hi a)
  then obtain v where v: "v \<in> set (rep_exact (results a) lo st)"
    and u: "\<exists>n. u \<in> set (rep_opt g (results a) n v)" by auto
  from u obtain n where "u \<in> set (rep_opt g (results a) n v)" by blast
  from advances_trans [OF rep_exact_advances [OF Rep.IH v] rep_opt_advances [OF Rep.IH this]]
  show ?case by simp
next
  case (Backref i)
  then show ?case
    by (auto simp: Let_def starts_with_iff advances_def split: if_splits option.splits)
qed (auto split: list.splits if_splits)

lemma match_at_prefix:
  "match_at r before rest = Some m \<Longrightarrow> \<exists>t. rest = m_text m @ t"
  unfolding match_at_def
  by (auto split: list.splits) (metis append_take_drop_id)

section \<open>How much a match consumes and what it captures\<close>

primrec min_len :: "regex \<Rightarrow> nat" where
  "min_len Empty = 0"
| "min_len (Cls p) = 1"
| "min_len (Cat a b) = min_len a + min_len b"
| "min_len (Alt a b) = min (min_len a) (min_len b)"
| "min_len (Rep g lo hi a) = lo * min_len a"
| "min_len (Cap i a) = min_len a"
| "min_len AtStart = 0"
| "min_len AtEnd = 0"
| "min_len WordEdge = 0"
| "min_len (Ahead w a) = 0"
| "min_len (NotBehind p) = 0"
| "min_len (Backref i) = 0"

primrec captureless :: "regex \<Rightarrow> bool" where
  "captureless Empty = True"
| "captureless (Cls p) = True"
| "captureless (Cat a b) = (captureless a \<and> captureless b)"
| "captureless (Alt a b) = (captureless a \<and> captureless b)"
| "captureless (Rep g lo hi a) = captureless a"
| "captureless (Cap i a) = False"
| "captureless AtStart = True"
| "captureless AtEnd = True"
| "captureless WordEdge = True"
| "captureless (Ahead w a) = captureless a"
| "captureless (NotBehind p) = True"
| "captureless (Backref i) = True"

lemma rep_exact_len:
  assumes "\<And>st u. u \<in> set (f st) \<Longrightarrow> length (pos_rest u) + k \<le> length (pos_rest st)"
  shows "u \<in> set (rep_exact f n st) \<Longrightarrow> length (pos_rest u) + n * k \<le> length (pos_rest st)"
proof (induction n arbitrary: st)
  case 0
  then show ?case by simp
next
  case (Suc n)
  then obtain v where "v \<in> set (f st)" "u \<in> set (rep_exact f n v)" by auto
  with assms [OF this(1)] Suc.IH [OF this(2)] show ?case by simp
qed

lemma advances_len: "advances st u \<Longrightarrow> length (pos_rest u) \<le> length (pos_rest st)"
  by (auto simp: advances_def)

lemma results_len: "u \<in> set (results r st) \<Longrightarrow> length (pos_rest u) + min_len r \<le> length (pos_rest st)"
proof (induction r arbitrary: st u)
  case (Cls p)
  then show ?case by (cases "pos_rest st") (auto simp: step_over_def split: if_splits)
next
  case (Cat a b)
  then obtain v where "v \<in> set (results a st)" "u \<in> set (results b v)" by auto
  from Cat.IH(1) [OF this(1)] Cat.IH(2) [OF this(2)] show ?case by simp
next
  case (Alt a b)
  then consider "u \<in> set (results a st)" | "u \<in> set (results b st)" by auto
  then show ?case using Alt.IH [of u st] by cases auto
next
  case (Rep g lo hi a)
  then obtain v n where v: "v \<in> set (rep_exact (results a) lo st)"
    and u: "u \<in> set (rep_opt g (results a) n v)" by auto
  have "advances v u" by (rule rep_opt_advances [OF _ u]) (rule results_advances)
  from rep_exact_len [OF Rep.IH v] advances_len [OF this] show ?case by simp
next
  case (Backref i)
  then show ?case using advances_len [OF results_advances [OF Backref]] by simp
qed (auto split: list.splits if_splits)

lemma rep_opt_caps:
  assumes "\<And>st u. u \<in> set (f st) \<Longrightarrow> pos_caps u = pos_caps st"
  shows "u \<in> set (rep_opt g f n st) \<Longrightarrow> pos_caps u = pos_caps st"
proof (induction n arbitrary: st)
  case 0
  then show ?case by simp
next
  case (Suc n)
  then consider "u = st" | v where "v \<in> set (f st)" "u \<in> set (rep_opt g f n v)"
    by (auto simp: Let_def split: if_splits)
  then show ?case using assms Suc.IH by cases simp_all
qed

lemma rep_exact_caps:
  assumes "\<And>st u. u \<in> set (f st) \<Longrightarrow> pos_caps u = pos_caps st"
  shows "u \<in> set (rep_exact f n st) \<Longrightarrow> pos_caps u = pos_caps st"
proof (induction n arbitrary: st)
  case 0
  then show ?case by simp
next
  case (Suc n)
  then obtain v where "v \<in> set (f st)" "u \<in> set (rep_exact f n v)" by auto
  with assms Suc.IH show ?case by simp
qed

lemma results_caps: "captureless r \<Longrightarrow> u \<in> set (results r st) \<Longrightarrow> pos_caps u = pos_caps st"
proof (induction r arbitrary: st u)
  case (Cls p)
  then show ?case by (cases "pos_rest st") (auto simp: step_over_def split: if_splits)
next
  case (Cat a b)
  then obtain v where "v \<in> set (results a st)" "u \<in> set (results b v)" by auto
  with Cat show ?case by simp
next
  case (Rep g lo hi a)
  then obtain v n where v: "v \<in> set (rep_exact (results a) lo st)"
    and u: "u \<in> set (rep_opt g (results a) n v)" by auto
  have a: "\<And>st u. u \<in> set (results a st) \<Longrightarrow> pos_caps u = pos_caps st" using Rep by simp
  from rep_exact_caps [OF a v] rep_opt_caps [OF a u] show ?case by simp
next
  case (Ahead want a)
  then show ?case by (cases "results a st") (auto split: if_splits)
qed (auto simp: Let_def split: list.splits if_splits)

lemma match_at_result:
  assumes "match_at r before rest = Some m"
  obtains u where "u \<in> set (results r \<lparr>pos_before = before, pos_rest = rest, pos_caps = []\<rparr>)"
    "rest = m_text m @ pos_rest u" "m_caps m = pos_caps u"
proof -
  let ?st = "\<lparr>pos_before = before, pos_rest = rest, pos_caps = []\<rparr>"
  show ?thesis
  proof (cases "results r ?st")
    case Nil
    with assms show ?thesis by (simp add: match_at_def)
  next
    case (Cons u us)
    then have u: "u \<in> set (results r ?st)" by simp
    from results_advances [OF this] obtain w where w: "rest = w @ pos_rest u"
      by (auto simp: advances_def)
    from assms Cons have m: "m = \<lparr>m_text = take (length rest - length (pos_rest u)) rest, m_caps = pos_caps u\<rparr>"
      by (simp add: match_at_def)
    have "m_text m = take (length rest - length (pos_rest u)) rest" "m_caps m = pos_caps u"
      by (simp_all only: m match.select_convs)
    with w have "rest = m_text m @ pos_rest u" "m_caps m = pos_caps u" by simp_all
    with u show ?thesis by (rule that)
  qed
qed

lemma match_at_nonempty:
  assumes "match_at r before rest = Some m" and "0 < min_len r"
  shows "m_text m \<noteq> []"
proof -
  from match_at_result [OF assms(1)] obtain u
    where u: "u \<in> set (results r \<lparr>pos_before = before, pos_rest = rest, pos_caps = []\<rparr>)"
      "rest = m_text m @ pos_rest u" by blast
  from results_len [OF u(1)] assms(2) have "length (pos_rest u) < length rest" by simp
  with u(2) show ?thesis by auto
qed

text \<open>The first group of an expression that starts with it is a prefix of the match.\<close>

lemma match_at_group_prefix:
  assumes m: "match_at (Cat (Cap i a) b) before rest = Some m" and b: "captureless b"
  shows "\<exists>w. m_text m = group_text m i @ w"
proof -
  let ?st = "\<lparr>pos_before = before, pos_rest = rest, pos_caps = []\<rparr>"
  from match_at_result [OF m] obtain u
    where u: "u \<in> set (results (Cat (Cap i a) b) ?st)"
      "rest = m_text m @ pos_rest u" "m_caps m = pos_caps u" by blast
  from u(1) obtain v where v: "v \<in> set (results a ?st)" and
    ub: "u \<in> set (results b (v\<lparr>pos_caps := (i, take (length rest - length (pos_rest v)) rest) # pos_caps v\<rparr>))"
    by auto
  from results_advances [OF v] obtain x where x: "rest = x @ pos_rest v"
    by (auto simp: advances_def)
  from results_advances [OF ub] obtain y where y: "pos_rest v = y @ pos_rest u"
    by (auto simp: advances_def)
  from results_caps [OF b ub] u(3) x have "group_text m i = x"
    by (simp add: group_text_def group_def)
  moreover from x y u(2) have "m_text m @ pos_rest u = (x @ y) @ pos_rest u" by simp
  then have "m_text m = x @ y" by (simp only: append_same_eq)
  ultimately show ?thesis by blast
qed

end
