(* ===== verification/Redact.thy ===== *)
theory Redact
  imports JsRegex
begin

text \<open>
  \<open>harness/redact.ts\<close>: the scrubbing of credentials from text before it is stored or logged. Every
  rule is one global replacement; the rules are the source's, in the source's order. The theorems
  show that no token of the listed shapes is left in the result.
\<close>

section \<open>Names that carry secrets\<close>

definition secret_key_parts :: "string list" where
  "secret_key_parts =
     [''secret'', ''password'', ''passwd'', ''apikey'', ''api_key'', ''api-key'', ''private_key'',
      ''privatekey'', ''credential'', ''authorization'']"

definition is_secret_key :: "string \<Rightarrow> bool" where
  "is_secret_key key =
     (let l = to_lower key in list_ex (contains l) secret_key_parts \<or> ends_with l ''token'')"

section \<open>Expressions\<close>

definition redacted :: string where
  "redacted = ''[REDACTED]''"

definition non_space :: "char \<Rightarrow> bool" where
  "non_space c = (\<not> is_space c)"

definition token_char :: "char \<Rightarrow> bool" where
  "token_char c = (alnum c \<or> c = CHR ''_'')"

definition dash_token_char :: "char \<Rightarrow> bool" where
  "dash_token_char c = (alnum c \<or> c = CHR ''_'' \<or> c = CHR ''-'')"

definition key_char :: "char \<Rightarrow> bool" where
  "key_char c = (alnum c \<or> one_of ''_.-'' c)"

definition spaces :: regex where
  "spaces = star (Cls is_space)"

definition key_re :: "nat \<Rightarrow> regex" where
  "key_re i = Cat (NotBehind key_char) (Cap i (Cat (Cls alpha) (Rep True 0 (Some 63) (Cls key_char))))"

definition dot :: "char \<Rightarrow> bool" where
  "dot c = (c \<noteq> CHR 0x0A \<and> c \<noteq> CHR 0x0D)"

definition not_in :: "string \<Rightarrow> char \<Rightarrow> bool" where
  "not_in cs c = (\<not> one_of cs c)"

definition bounded_key :: regex where
  "bounded_key = Rep True 1 (Some 64) (Cls key_char)"

definition raw_json_pair :: regex where
  "raw_json_pair = cats
     [Cap 1 (cats [lit [CHR 0x22], Cap 2 bounded_key, lit [CHR 0x22], spaces, lit '':'', spaces,
                   lit [CHR 0x22]]),
      Cap 3 (star (alts [Cls (not_in [CHR 0x22, CHR 0x5C]), Cat (lit [CHR 0x5C]) (Cls dot)])),
      Cap 4 (lit [CHR 0x22])]"

definition escaped_json_pair :: regex where
  "escaped_json_pair = cats
     [Cap 1 (cats [lit [CHR 0x5C, CHR 0x22], Cap 2 bounded_key, lit [CHR 0x5C, CHR 0x22], spaces,
                   lit '':'', spaces, lit [CHR 0x5C, CHR 0x22]]),
      Cap 3 (star (alts [Cls (not_in [CHR 0x22, CHR 0x5C]),
                         Cat (lit [CHR 0x5C]) (Ahead False (lit [CHR 0x22]))])),
      Cap 4 (lit [CHR 0x5C, CHR 0x22])]"

definition single_quoted_pair :: regex where
  "single_quoted_pair = cats
     [Cap 1 (cats [lit [CHR 0x27], Cap 2 bounded_key, lit [CHR 0x27], spaces, lit '':'', spaces,
                   lit [CHR 0x27]]),
      Cap 3 (star (alts [Cls (not_in [CHR 0x27, CHR 0x5C]), Cat (lit [CHR 0x5C]) (Cls dot)])),
      Cap 4 (lit [CHR 0x27])]"

definition quoted_assignment :: regex where
  "quoted_assignment = cats
     [key_re 1, Cap 2 (cats [spaces, Cls (one_of ''=:''), spaces]),
      Cap 3 (Cls (one_of [CHR 0x22, CHR 0x27])),
      Cap 4 (star (alts [Cat (Ahead False (Backref 3)) (Cls (not_in [CHR 0x5C, CHR 0x0D, CHR 0x0A])),
                         Cat (lit [CHR 0x5C]) (Cls dot)])),
      Backref 3]"

definition bare_assignment :: regex where
  "bare_assignment = cats
     [key_re 1, Cap 2 (cats [spaces, Cls (one_of ''=:''), spaces]),
      Cap 3 (opt (Cls (one_of [CHR 0x22, CHR 0x27]))),
      Cap 4 (plus (Cls (\<lambda>c. non_space c \<and> not_in [CHR 0x22, CHR 0x27, CHR '','', CHR '';'', CHR ''&''] c))),
      Backref 3]"

section \<open>redactNamedPairs\<close>

definition redact_pair :: "match \<Rightarrow> string" where
  "redact_pair m =
     (if is_secret_key (group_text m 2) then group_text m 1 @ redacted @ group_text m 4
      else m_text m)"

definition redact_quoted :: "match \<Rightarrow> string" where
  "redact_quoted m =
     (if is_secret_key (group_text m 1)
      then group_text m 1 @ group_text m 2 @ group_text m 3 @ redacted @ group_text m 3
      else m_text m)"

definition redact_bare :: "match \<Rightarrow> string" where
  "redact_bare m =
     (if is_secret_key (group_text m 1) \<and> group_text m 4 \<noteq> redacted
         \<and> \<not> starts_with (group_text m 4) ''[REDACTED''
      then group_text m 1 @ group_text m 2 @ group_text m 3 @ redacted @ group_text m 3
      else m_text m)"

definition redact_named_pairs :: "string \<Rightarrow> string" where
  "redact_named_pairs s =
     replace_all bare_assignment redact_bare
       (replace_all quoted_assignment redact_quoted
         (replace_all single_quoted_pair redact_pair
           (replace_all escaped_json_pair redact_pair
             (replace_all raw_json_pair redact_pair s))))"

section \<open>scrubCredentialShapes and scrubSecrets\<close>

text \<open>A token: a run of fixed classes followed by one or more characters of a last class.\<close>

fun classes :: "(char \<Rightarrow> bool) list \<Rightarrow> regex" where
  "classes [] = Empty"
| "classes (p # ps) = Cat (Cls p) (classes ps)"

definition token_re :: "(char \<Rightarrow> bool) list \<Rightarrow> (char \<Rightarrow> bool) \<Rightarrow> regex" where
  "token_re ps p = Cat (classes ps) (plus (Cls p))"

definition exactly :: "string \<Rightarrow> (char \<Rightarrow> bool) list" where
  "exactly s = map (\<lambda>c x. x = c) s"

definition github_pat :: "(char \<Rightarrow> bool) list" where
  "github_pat = exactly ''github_pat_''"

definition github_token :: "(char \<Rightarrow> bool) list" where
  "github_token = exactly ''gh'' @ [one_of ''pousr''] @ exactly ''_''"

definition anthropic_key :: "(char \<Rightarrow> bool) list" where
  "anthropic_key = exactly ''sk-ant-''"

definition gitlab_token :: "(char \<Rightarrow> bool) list" where
  "gitlab_token = exactly ''glpat-''"

definition opslane_keys :: "(char \<Rightarrow> bool) list list" where
  "opslane_keys = map exactly [''opslane_ak_'', ''opslane_pk_'', ''opslane_sk_'']"

definition opslane_re :: regex where
  "opslane_re = alts (map (\<lambda>ps. token_re ps dash_token_char) opslane_keys)"

definition mask_token :: "match \<Rightarrow> string" where
  "mask_token m = redacted"

definition mask_after :: "match \<Rightarrow> string" where
  "mask_after m = group_text m 1 @ redacted"

definition e2b_re :: regex where
  "e2b_re = Cat WordEdge (token_re (exactly ''e2b_'') dash_token_char)"

definition access_token_re :: regex where
  "access_token_re = cats
     [lit ''x-access-token:'', plus (Cls (\<lambda>c. c \<noteq> CHR ''@'' \<and> non_space c)), lit ''@'']"

definition auth_token_re :: regex where
  "auth_token_re = Cat (Cap 1 (cats [lit_i ''_authtoken'', spaces, lit ''='', spaces]))
     (plus (Cls non_space))"

definition bearer_re :: regex where
  "bearer_re = Cat
     (Cap 1 (cats [lit_i ''authorization:'', spaces, alts [lit_i ''bearer'', lit_i ''basic''],
                   plus (Cls is_space)]))
     (plus (Cls non_space))"

definition scrub_credential_shapes :: "string \<Rightarrow> string" where
  "scrub_credential_shapes s =
     (let s1 = replace_all (token_re github_pat token_char) mask_token s;
          s2 = replace_all (token_re github_token token_char) mask_token s1;
          s3 = replace_all (token_re anthropic_key dash_token_char) mask_token s2;
          s4 = replace_all opslane_re mask_token s3;
          s5 = replace_all (token_re gitlab_token dash_token_char) mask_token s4;
          s6 = replace_all e2b_re mask_token s5;
          s7 = replace_all access_token_re (\<lambda>_. ''x-access-token:***@'') s6;
          s8 = replace_all auth_token_re mask_after s7
      in replace_all bearer_re mask_after s8)"

definition url_userinfo_re :: regex where
  "url_userinfo_re = cats
     [lit ''https://'', plus (Cls (\<lambda>c. c \<noteq> CHR ''@'' \<and> non_space c)), lit ''@'']"

definition netrc_re :: regex where
  "netrc_re = Cat (Cap 1 (Cat (lit_i ''password'') (plus (Cls is_space)))) (plus (Cls non_space))"

definition scrub_secrets :: "string \<Rightarrow> string" where
  "scrub_secrets s =
     replace_all netrc_re mask_after
       (scrub_credential_shapes (replace_all url_userinfo_re (\<lambda>_. ''https://***@'') s))"

section \<open>scrubRunLogText\<close>

definition private_key_block :: regex where
  "private_key_block = (let name = Rep True 0 (Some 40) (Cls (\<lambda>c. between CHR ''A'' CHR ''Z'' c \<or> c = CHR '' ''))
     in cats [lit ''-----BEGIN '', name, lit ''PRIVATE KEY-----'',
              alts [cats [lazy_star (Cls (\<lambda>_. True)), lit ''-----END '', name, lit ''PRIVATE KEY-----''],
                    Cat (star (Cls (\<lambda>_. True))) AtEnd]])"

definition upper_digit :: "char \<Rightarrow> bool" where
  "upper_digit c = (digit c \<or> between CHR ''A'' CHR ''Z'' c)"

definition aws_key_id :: regex where
  "aws_key_id = cats [WordEdge, alts [lit ''AKIA'', lit ''ASIA''],
     Rep True 16 (Some 16) (Cls upper_digit), WordEdge]"

definition auth_word :: "char \<Rightarrow> bool" where
  "auth_word c = (is_word_char c \<or> one_of ''.-'' c)"

definition auth_param :: regex where
  "auth_param = cats
     [plus (Cls auth_word), spaces, lit ''='', spaces,
      alts [cats [opt (lit [CHR 0x5C]), lit [CHR 0x22],
                  star (alts [Cls (not_in [CHR 0x22, CHR 0x5C, CHR 0x0D, CHR 0x0A]),
                              Cat (lit [CHR 0x5C]) (Ahead False (lit [CHR 0x22]))]),
                  opt (lit [CHR 0x5C]), lit [CHR 0x22]],
            plus (Cls (\<lambda>c. non_space c \<and> not_in [CHR '','', CHR 0x22, CHR 0x5C] c))]]"

definition authorization_credential :: regex where
  "authorization_credential = cats
     [Cap 1 (cats [lit_i ''authorization'', spaces, lit '':'', spaces]),
      opt (cats [Cls alpha, star (Cls auth_word), plus (Cls is_space)]),
      alts [Cat auth_param (star (cats [spaces, lit '','', spaces, auth_param])),
            plus (Cls (\<lambda>c. is_word_char c \<or> one_of ''.~+/=-'' c))]]"

definition url_password :: regex where
  "url_password = cats
     [NotBehind (\<lambda>c. alnum c \<or> one_of ''+.-'' c),
      Cap 1 (cats [Cls alpha, Rep True 0 (Some 31) (Cls (\<lambda>c. alnum c \<or> one_of ''+.-'' c)), lit ''://'']),
      star (Cls (\<lambda>c. non_space c \<and> not_in ''/:@'' c)), lit '':'',
      plus (Cls (\<lambda>c. non_space c \<and> not_in ''/@'' c)), lit ''@'']"

definition image_data_url :: regex where
  "image_data_url = Cat
     (Cap 1 (cats [lit ''data:image/'', Rep True 1 (Some 32) (Cls (\<lambda>c. alnum c \<or> one_of ''.+-'' c)),
                   lit '';base64,'', spaces]))
     (plus (Cls (\<lambda>c. alnum c \<or> one_of ''+/='' c)))"

definition scrub_run_log_text :: "string \<Rightarrow> string" where
  "scrub_run_log_text s =
     (let s1 = replace_all private_key_block (\<lambda>_. ''[REDACTED PRIVATE KEY]'') s;
          s2 = replace_all aws_key_id mask_token s1;
          s3 = replace_all authorization_credential mask_after s2;
          s4 = replace_all url_password (\<lambda>m. group_text m 1 @ ''***@'') s3;
          s5 = replace_all image_data_url (\<lambda>m. group_text m 1 @ ''[image]'') s4
      in scrub_secrets (redact_named_pairs s5))"

section \<open>scrubValue\<close>

text \<open>
  The values a run log is made of. Cyclic and binary values and values without a serialization are
  leaves of their own; an object's members keep their order.
\<close>

definition is_nullish :: "json \<Rightarrow> bool" where
  "is_nullish v = (v = JNull \<or> v = JUndefined)"

fun scrub_value :: "json \<Rightarrow> json" where
  "scrub_value (JStr s) = JStr (scrub_run_log_text s)"
| "scrub_value (JBigInt s) = JStr s"
| "scrub_value JFunction = JUndefined"
| "scrub_value JBinary = JStr ''[Binary omitted]''"
| "scrub_value (JArr vs) = JArr (map scrub_value vs)"
| "scrub_value (JObj ms) =
     JObj (map (\<lambda>(k, v). (k, if is_secret_key k \<and> \<not> is_nullish v then JStr redacted
                            else scrub_value v)) ms)"
| "scrub_value v = v"

section \<open>Occurrences of a token\<close>

text \<open>\<open>clean ps s\<close>: no place of \<open>s\<close> starts a run of characters of the classes \<open>ps\<close>.\<close>

fun begins :: "(char \<Rightarrow> bool) list \<Rightarrow> string \<Rightarrow> bool" where
  "begins [] s = True"
| "begins (p # ps) [] = False"
| "begins (p # ps) (c # cs) = (p c \<and> begins ps cs)"

fun clean :: "(char \<Rightarrow> bool) list \<Rightarrow> string \<Rightarrow> bool" where
  "clean ps [] = (\<not> begins ps [])"
| "clean ps (c # cs) = (\<not> begins ps (c # cs) \<and> clean ps cs)"

definition barrier :: "(char \<Rightarrow> bool) list \<Rightarrow> char \<Rightarrow> bool" where
  "barrier ps b = (ps \<noteq> [] \<and> list_all (\<lambda>p. \<not> p b) ps)"

lemma begins_append: "begins ps s \<Longrightarrow> begins ps (s @ t)"
  by (induction ps s rule: begins.induct) auto

lemma begins_barrier: "list_all (\<lambda>p. \<not> p b) ps \<Longrightarrow> begins ps (s @ b # t) = begins ps s"
proof (induction ps s rule: begins.induct)
  case (1 s)
  then show ?case by simp
next
  case (2 p ps)
  then show ?case by simp
next
  case (3 p ps c cs)
  then show ?case by simp
qed

lemma clean_barrier:
  assumes b: "barrier ps b"
  shows "clean ps (s @ b # t) \<longleftrightarrow> clean ps s \<and> clean ps t"
proof (induction s)
  case Nil
  from b obtain p qs where "ps = p # qs" "\<not> p b" by (cases ps) (auto simp: barrier_def)
  then show ?case by simp
next
  case (Cons c s)
  have "begins ps (c # s @ b # t) = begins ps (c # s)"
    using begins_barrier [of b ps "c # s" t] b by (simp add: barrier_def)
  with Cons show ?case by simp
qed

lemma clean_prefix: "clean ps (s @ t) \<Longrightarrow> clean ps s"
proof (induction s)
  case Nil
  then have "ps \<noteq> []" by (cases t) auto
  then show ?case by (cases ps) auto
next
  case (Cons c s)
  then show ?case using begins_append [of ps "c # s" t] by auto
qed

lemma clean_suffix: "clean ps (s @ t) \<Longrightarrow> clean ps t"
  by (induction s) auto

section \<open>A replacement that keeps a token out\<close>

text \<open>
  A replacement keeps \<open>ps\<close> out when what it writes is a prefix of the text it replaces followed by
  something that starts and ends with a character no class of \<open>ps\<close> accepts.
\<close>

definition guarded :: "(char \<Rightarrow> bool) list \<Rightarrow> string \<Rightarrow> bool" where
  "guarded ps w =
     (w \<noteq> [] \<and> barrier ps (hd w) \<and> barrier ps (last w) \<and> clean ps (butlast w))"

lemma clean_guarded:
  assumes "guarded ps w"
  shows "clean ps (s @ w @ t) \<longleftrightarrow> clean ps s \<and> clean ps t"
proof -
  from assms have ne: "w \<noteq> []" and bl: "barrier ps (last w)" and bh: "barrier ps (hd w)"
    and cb: "clean ps (butlast w)" by (simp_all add: guarded_def)
  have "s @ w @ t = (s @ butlast w) @ last w # t" using ne by simp
  then have eq: "clean ps (s @ w @ t) \<longleftrightarrow> clean ps (s @ butlast w) \<and> clean ps t"
    using clean_barrier [OF bl] by metis
  show ?thesis
  proof (cases "butlast w")
    case Nil
    with eq show ?thesis by simp
  next
    case (Cons c cs)
    with ne have "c = hd w" by (cases w) (auto split: if_splits)
    with bh have "barrier ps c" by simp
    from clean_barrier [OF this, of s cs] clean_barrier [OF this, of "[]" cs] cb Cons eq
    show ?thesis by simp
  qed
qed

locale masking =
  fixes r :: regex and f :: "match \<Rightarrow> string" and ps :: "(char \<Rightarrow> bool) list"
  assumes masks: "match_at r before rest = Some m \<Longrightarrow>
    m_text m \<noteq> [] \<and> (\<exists>v w u. m_text m = v @ w \<and> f m = v @ u \<and> guarded ps u)"
begin

lemma no_match_at_end: "match_at r before [] = None"
proof (cases "match_at r before []")
  case (Some m)
  from masks [OF this] match_at_prefix [OF Some] show ?thesis by simp
qed

lemma keeps_from:
  "clean ps (seg @ drop k rest) \<Longrightarrow> k = 0 \<or> seg = [] \<Longrightarrow> k \<le> length rest \<Longrightarrow>
   clean ps (seg @ replace_from r f k before rest)"
proof (induction rest arbitrary: seg k before)
  case Nil
  then show ?case by (simp add: no_match_at_end)
next
  case (Cons c cs)
  show ?case
  proof (cases k)
    case (Suc k')
    with Cons.prems Cons.IH [of "[]" k' "c # before"] show ?thesis by simp
  next
    case 0
    show ?thesis
    proof (cases "match_at r before (c # cs)")
      case None
      with 0 Cons.prems Cons.IH [of "seg @ [c]" 0 "c # before"] show ?thesis by simp
    next
      case (Some m)
      from masks [OF Some] obtain v w u where m: "m_text m \<noteq> []" "m_text m = v @ w"
        "f m = v @ u" "guarded ps u" by blast
      from match_at_prefix [OF Some] obtain t where t: "c # cs = m_text m @ t" by blast
      from t m(1) have cs: "drop (length (m_text m) - 1) cs = t" "length (m_text m) - 1 \<le> length cs"
        by (cases "m_text m"; simp)+
      have all: "clean ps ((seg @ v) @ w @ t)" using Cons.prems(1) 0 t m(2) by simp
      have seg: "clean ps (seg @ v)" using clean_prefix [OF all] .
      have "clean ps t" using clean_suffix [of ps "(seg @ v) @ w" t] all by simp
      then have "clean ps (replace_from r f (length (m_text m) - 1) (c # before) cs)"
        using Cons.IH [of "[]" "length (m_text m) - 1" "c # before"] cs by simp
      with seg have "clean ps ((seg @ v) @ u @ replace_from r f (length (m_text m) - 1) (c # before) cs)"
        using clean_guarded [OF m(4), of "seg @ v"] by blast
      with 0 Some m(1,3) show ?thesis by simp
    qed
  qed
qed

lemma keeps: "clean ps s \<Longrightarrow> clean ps (replace_all r f s)"
  using keeps_from [of "[]" 0 s "[]"] by (simp add: replace_all_def)

end

section \<open>A replacement that removes a token\<close>

lemma clean_iff: "clean ps s \<longleftrightarrow> (\<forall>n < Suc (length s). \<not> begins ps (drop n s))"
  by (induction s) (simp_all add: All_less_Suc2 del: All_less_Suc)

locale removing =
  fixes r :: regex and f :: "match \<Rightarrow> string" and ps :: "(char \<Rightarrow> bool) list"
  assumes hides: "match_at r before rest = Some m \<Longrightarrow> m_text m \<noteq> [] \<and> guarded ps (f m)"
    and finds: "begins ps rest \<Longrightarrow> match_at r before rest \<noteq> None"

sublocale removing \<subseteq> masking
proof unfold_locales
  fix before rest m
  assume "match_at r before rest = Some m"
  from hides [OF this] show "m_text m \<noteq> [] \<and> (\<exists>v w u. m_text m = v @ w \<and> f m = v @ u \<and> guarded ps u)"
    by (intro conjI exI [of _ "[]"] exI [of _ "m_text m"] exI [of _ "f m"]) simp_all
qed

context removing
begin

lemma removes_from:
  "\<forall>n < length seg. \<not> begins ps (drop n seg @ drop k rest) \<Longrightarrow> k = 0 \<or> seg = [] \<Longrightarrow>
   k \<le> length rest \<Longrightarrow> clean ps (seg @ replace_from r f k before rest)"
proof (induction rest arbitrary: seg k before)
  case Nil
  have "\<not> begins ps []" using finds no_match_at_end by blast
  with Nil show ?case by (simp add: no_match_at_end clean_iff less_Suc_eq)
next
  case (Cons c cs)
  show ?case
  proof (cases k)
    case (Suc k')
    with Cons.prems Cons.IH [of "[]" k' "c # before"] show ?thesis by simp
  next
    case 0
    show ?thesis
    proof (cases "match_at r before (c # cs)")
      case None
      then have "\<not> begins ps (c # cs)" using finds by blast
      with 0 Cons.prems have "\<forall>n < length (seg @ [c]). \<not> begins ps (drop n (seg @ [c]) @ drop 0 cs)"
        by (auto simp: less_Suc_eq)
      with 0 None Cons.IH [of "seg @ [c]" 0 "c # before"] show ?thesis by simp
    next
      case (Some m)
      from hides [OF Some] have m: "m_text m \<noteq> []" "guarded ps (f m)" by blast+
      from match_at_prefix [OF Some] obtain t where t: "c # cs = m_text m @ t" by blast
      from t m(1) have le: "length (m_text m) - 1 \<le> length cs"
        by (cases "m_text m") simp_all
      have rec: "clean ps (replace_from r f (length (m_text m) - 1) (c # before) cs)"
        using Cons.IH [of "[]" "length (m_text m) - 1" "c # before"] le by simp
      have "\<not> begins ps []" using finds no_match_at_end by blast
      moreover have "\<not> begins ps (drop n seg)" if "n < length seg" for n
        using Cons.prems(1) 0 that begins_append [of ps "drop n seg" "c # cs"] by auto
      ultimately have "clean ps seg" by (auto simp: clean_iff less_Suc_eq)
      with rec clean_guarded [OF m(2)] have
        "clean ps (seg @ f m @ replace_from r f (length (m_text m) - 1) (c # before) cs)" by blast
      with 0 Some m(1) show ?thesis by simp
    qed
  qed
qed

lemma removes: "clean ps (replace_all r f s)"
  using removes_from [of "[]" 0 s "[]"] by (simp add: replace_all_def)

end

section \<open>The rules of the source\<close>

lemma results_classes:
  "results (classes ps) st \<noteq> [] \<longleftrightarrow> begins ps (pos_rest st)"
  "u \<in> set (results (classes ps) st) \<Longrightarrow> pos_rest u = drop (length ps) (pos_rest st)"
proof (induction ps arbitrary: st)
  case Nil
  { case 1 then show ?case by simp next case 2 then show ?case by simp }
next
  case (Cons p ps)
  { case 1
    then show ?case using Cons.IH(1) by (cases "pos_rest st") (auto simp: step_over_def)
  next
    case 2
    then show ?case using Cons.IH(2) by (cases "pos_rest st") (auto simp: step_over_def split: if_splits) }
qed

lemma begins_snoc:
  "begins (ps @ [p]) s \<longleftrightarrow> begins ps s \<and> begins [p] (drop (length ps) s)"
  by (induction ps s rule: begins.induct) auto

lemma rep_opt_nonempty [simp]: "rep_opt g f n st \<noteq> []"
  by (cases n) (simp_all add: Let_def)

lemma results_plus: "begins [p] (pos_rest st) \<Longrightarrow> results (plus (Cls p)) st \<noteq> []"
  by (cases "pos_rest st") (auto simp: plus_def)

lemma token_re_finds:
  assumes "begins (ps @ [p]) rest"
  shows "results (token_re ps p) \<lparr>pos_before = before, pos_rest = rest, pos_caps = []\<rparr> \<noteq> []"
proof -
  let ?st = "\<lparr>pos_before = before, pos_rest = rest, pos_caps = []\<rparr>"
  from assms have "results (classes ps) ?st \<noteq> []" by (simp add: begins_snoc results_classes)
  then obtain u us where u: "results (classes ps) ?st = u # us"
    by (cases "results (classes ps) ?st") auto
  then have "pos_rest u = drop (length ps) rest" using results_classes(2) [of u ps ?st] by simp
  with assms have "results (plus (Cls p)) u \<noteq> []" by (simp add: begins_snoc results_plus)
  with u show ?thesis by (simp add: token_re_def)
qed

lemma match_at_None_iff:
  "match_at r before rest = None \<longleftrightarrow>
   results r \<lparr>pos_before = before, pos_rest = rest, pos_caps = []\<rparr> = []"
  by (simp add: match_at_def split: list.splits)

lemma min_len_classes [simp]: "min_len (classes ps) = length ps"
  by (induction ps) simp_all

lemma min_len_token [simp]: "min_len (token_re ps p) = Suc (length ps)"
  by (simp add: token_re_def plus_def)

lemma removing_token:
  "guarded (ps @ [p]) redacted \<Longrightarrow> removing (token_re ps p) mask_token (ps @ [p])"
  by unfold_locales
    (simp_all add: mask_token_def match_at_nonempty match_at_None_iff token_re_finds)

lemma masking_mask: "0 < min_len r \<Longrightarrow> guarded ps redacted \<Longrightarrow> masking r mask_token ps"
  by unfold_locales (auto simp: mask_token_def match_at_nonempty intro: exI [of _ "[]"])

lemma masking_mask_after:
  assumes b: "captureless b" "0 < min_len b" and g: "guarded ps redacted"
  shows "masking (Cat (Cap 1 a) b) mask_after ps"
proof unfold_locales
  fix before rest m
  assume m: "match_at (Cat (Cap 1 a) b) before rest = Some m"
  from match_at_group_prefix [OF this b(1)] obtain w where "m_text m = group_text m 1 @ w" by blast
  with g have "\<exists>v w u. m_text m = v @ w \<and> mask_after m = v @ u \<and> guarded ps u"
    unfolding mask_after_def by blast
  with match_at_nonempty [OF m] b(2)
  show "m_text m \<noteq> [] \<and> (\<exists>v w u. m_text m = v @ w \<and> mask_after m = v @ u \<and> guarded ps u)"
    by simp
qed

lemma results_lit: "u \<in> set (results (lit s) st) \<Longrightarrow> pos_rest st = s @ pos_rest u"
proof (induction s arbitrary: st rule: lit.induct)
  case (2 c)
  then show ?case by (cases "pos_rest st") (auto simp: step_over_def split: if_splits)
next
  case (3 c d cs)
  then obtain v where v: "v \<in> set (results (Cls (\<lambda>x. x = c)) st)" "u \<in> set (results (lit (d # cs)) v)"
    by auto
  from v(1) have "pos_rest st = c # pos_rest v"
    by (cases "pos_rest st") (auto simp: step_over_def split: if_splits)
  with "3.IH" [OF v(2)] show ?case by simp
qed simp

lemma min_len_lit [simp]: "min_len (lit s) = length s"
  by (induction s rule: lit.induct) simp_all

lemma masking_const:
  assumes p: "p \<noteq> []" and g: "guarded ps x"
  shows "masking (Cat (lit p) b) (\<lambda>_. p @ x) ps"
proof unfold_locales
  fix before rest m
  assume m: "match_at (Cat (lit p) b) before rest = Some m"
  from match_at_result [OF m] obtain u
    where u: "u \<in> set (results (Cat (lit p) b) \<lparr>pos_before = before, pos_rest = rest, pos_caps = []\<rparr>)"
      "rest = m_text m @ pos_rest u" by blast
  from u(1) obtain v where v: "v \<in> set (results (lit p) \<lparr>pos_before = before, pos_rest = rest, pos_caps = []\<rparr>)"
    "u \<in> set (results b v)" by auto
  from results_lit [OF v(1)] have "rest = p @ pos_rest v" by simp
  moreover from results_advances [OF v(2)] obtain y where "pos_rest v = y @ pos_rest u"
    by (auto simp: advances_def)
  ultimately have "m_text m @ pos_rest u = (p @ y) @ pos_rest u" using u(2) by simp
  then have "m_text m = p @ y" by (simp only: append_same_eq)
  with p g show "m_text m \<noteq> [] \<and> (\<exists>v w u. m_text m = v @ w \<and> p @ x = v @ u \<and> guarded ps u)"
    by (intro conjI exI [of _ p] exI [of _ y] exI [of _ x]) simp_all
qed

section \<open>No token survives\<close>

definition token_shapes :: "(char \<Rightarrow> bool) list list" where
  "token_shapes =
     [github_pat @ [token_char], github_token @ [token_char], anthropic_key @ [dash_token_char],
      exactly ''opslane_ak_'' @ [dash_token_char], exactly ''opslane_pk_'' @ [dash_token_char],
      exactly ''opslane_sk_'' @ [dash_token_char], gitlab_token @ [dash_token_char]]"

lemmas shape_defs =
  guarded_def barrier_def redacted_def github_pat_def github_token_def anthropic_key_def
  gitlab_token_def exactly_def token_char_def dash_token_char_def alnum_def alpha_def digit_def
  between_def one_of_def

lemma shapes_guarded:
  "list_all (\<lambda>ps. guarded ps redacted \<and> guarded ps ''***@'') token_shapes"
  by (simp add: token_shapes_def shape_defs)

interpretation pat: removing "token_re github_pat token_char" mask_token "github_pat @ [token_char]"
  by (rule removing_token) (simp add: shape_defs)

interpretation gh: removing "token_re github_token token_char" mask_token "github_token @ [token_char]"
  by (rule removing_token) (simp add: shape_defs)

interpretation ant: removing "token_re anthropic_key dash_token_char" mask_token
  "anthropic_key @ [dash_token_char]"
  by (rule removing_token) (simp add: shape_defs)

interpretation gl: removing "token_re gitlab_token dash_token_char" mask_token
  "gitlab_token @ [dash_token_char]"
  by (rule removing_token) (simp add: shape_defs)

lemma removing_opslane:
  assumes "ps \<in> set opslane_keys"
  shows "removing opslane_re mask_token (ps @ [dash_token_char])"
proof unfold_locales
  fix before rest m
  assume "match_at opslane_re before rest = Some m"
  then have "m_text m \<noteq> []"
    by (rule match_at_nonempty) (simp add: opslane_re_def opslane_keys_def)
  moreover have "guarded (ps @ [dash_token_char]) redacted"
    using assms by (auto simp: opslane_keys_def shape_defs)
  ultimately show "m_text m \<noteq> [] \<and> guarded (ps @ [dash_token_char]) (mask_token m)"
    by (simp add: mask_token_def)
next
  fix before rest
  assume "begins (ps @ [dash_token_char]) rest"
  from token_re_finds [OF this] assms show "match_at opslane_re before rest \<noteq> None"
    by (auto simp: match_at_None_iff opslane_re_def opslane_keys_def)
qed

interpretation ops: removing opslane_re mask_token "exactly ''opslane_ak_'' @ [dash_token_char]"
  by (rule removing_opslane) (simp add: opslane_keys_def)

text \<open>Every rule of \<open>scrubSecrets\<close> keeps every shape out.\<close>

lemma rules_keep:
  assumes ps: "guarded ps redacted" "guarded ps ''***@''"
    and cl: "clean ps s"
  shows "clean ps (replace_all (token_re qs q) mask_token s)"
    "clean ps (replace_all opslane_re mask_token s)" "clean ps (replace_all e2b_re mask_token s)"
    "clean ps (replace_all access_token_re (\<lambda>_. ''x-access-token:***@'') s)"
    "clean ps (replace_all url_userinfo_re (\<lambda>_. ''https://***@'') s)"
    "clean ps (replace_all auth_token_re mask_after s)"
    "clean ps (replace_all bearer_re mask_after s)"
    "clean ps (replace_all netrc_re mask_after s)"
proof -
  show "clean ps (replace_all (token_re qs q) mask_token s)"
    by (rule masking.keeps [OF masking_mask [OF _ ps(1)] cl]) simp
  show "clean ps (replace_all opslane_re mask_token s)"
    by (rule masking.keeps [OF masking_mask [OF _ ps(1)] cl])
      (simp add: opslane_re_def opslane_keys_def)
  show "clean ps (replace_all e2b_re mask_token s)"
    by (rule masking.keeps [OF masking_mask [OF _ ps(1)] cl]) (simp add: e2b_re_def)
  show "clean ps (replace_all access_token_re (\<lambda>_. ''x-access-token:***@'') s)"
    using masking.keeps [OF masking_const [OF _ ps(2), of "''x-access-token:''"] cl]
    by (simp add: access_token_re_def)
  show "clean ps (replace_all url_userinfo_re (\<lambda>_. ''https://***@'') s)"
    using masking.keeps [OF masking_const [OF _ ps(2), of "''https://''"] cl]
    by (simp add: url_userinfo_re_def)
  show "clean ps (replace_all auth_token_re mask_after s)"
    unfolding auth_token_re_def
    by (rule masking.keeps [OF masking_mask_after [OF _ _ ps(1)] cl]) (simp_all add: plus_def)
  show "clean ps (replace_all bearer_re mask_after s)"
    unfolding bearer_re_def
    by (rule masking.keeps [OF masking_mask_after [OF _ _ ps(1)] cl]) (simp_all add: plus_def)
  show "clean ps (replace_all netrc_re mask_after s)"
    unfolding netrc_re_def
    by (rule masking.keeps [OF masking_mask_after [OF _ _ ps(1)] cl]) (simp_all add: plus_def)
qed

lemma opslane_clean:
  "ps \<in> set opslane_keys \<Longrightarrow> clean (ps @ [dash_token_char]) (replace_all opslane_re mask_token s)"
  by (rule removing.removes [OF removing_opslane])

lemma scrub_shapes_clean:
  assumes "ps \<in> set token_shapes"
  shows "clean ps (scrub_credential_shapes s)"
proof -
  have g: "guarded ps redacted" "guarded ps ''***@''"
    using shapes_guarded assms by (simp_all only: list_all_iff)
  note k = rules_keep [OF g]
  from assms consider
      "ps = github_pat @ [token_char]" | "ps = github_token @ [token_char]"
    | "ps = anthropic_key @ [dash_token_char]"
    | qs where "qs \<in> set opslane_keys" "ps = qs @ [dash_token_char]"
    | "ps = gitlab_token @ [dash_token_char]"
    by (auto simp: token_shapes_def opslane_keys_def)
  then show ?thesis
  proof cases
    case 1
    show ?thesis unfolding 1 scrub_credential_shapes_def Let_def by (rule pat.removes | rule k [unfolded 1])+
  next
    case 2
    show ?thesis unfolding 2 scrub_credential_shapes_def Let_def by (rule gh.removes | rule k [unfolded 2])+
  next
    case 3
    show ?thesis unfolding 3 scrub_credential_shapes_def Let_def by (rule ant.removes | rule k [unfolded 3])+
  next
    case 4
    show ?thesis unfolding 4(2) scrub_credential_shapes_def Let_def by (rule opslane_clean [OF 4(1)] | rule k [unfolded 4(2)])+
  next
    case 5
    show ?thesis unfolding 5 scrub_credential_shapes_def Let_def by (rule gl.removes | rule k [unfolded 5])+
  qed
qed

text \<open>
  C6: No GitHub, Anthropic, Opslane or GitLab token is left in scrubbed text: after scrubSecrets
  no position starts one of the token prefixes followed by a token character, whatever the input
  and whatever the other rules rewrote.
\<close>

theorem scrub_leaves_no_token:
  "list_all (\<lambda>ps. clean ps (scrub_secrets s)) token_shapes"
proof -
  have "clean ps (scrub_secrets s)" if "ps \<in> set token_shapes" for ps
  proof -
    have g: "guarded ps redacted" "guarded ps ''***@''"
      using shapes_guarded that by (simp_all only: list_all_iff)
    show ?thesis unfolding scrub_secrets_def
      by (rule rules_keep(8) [OF g]) (rule scrub_shapes_clean [OF that])
  qed
  then show ?thesis by (simp only: list_all_iff) blast
qed

end
