(* ===== verification/JobQueue.thy ===== *)
theory JobQueue
  imports IssueStatus DeadLetters Redact
begin

text \<open>
  The durable job queue of \<open>db.ts\<close>: claiming under a lease with a fencing token, heartbeats,
  completion, failure with back-off and dead-lettering, the reaper of expired leases, the re-run of
  dead letters, and enqueueing. One SQL statement is one update of the table of jobs; \<open>now\<close> is the
  transaction's time and \<open>clk\<close> the wall clock. \<open>random()\<close> is a parameter in \<open>[0, 1)\<close>. The row locks
  another transaction holds at the moment of the claim (\<open>FOR UPDATE SKIP LOCKED\<close>) are the
  predicate \<open>locked\<close>.
\<close>

section \<open>Claims and leases\<close>

record claimed_job =
  cj_id :: ident
  cj_worker :: ident
  cj_group :: "ident option"
  cj_event :: "ident option"
  cj_episode :: "ident option"
  cj_input_version :: "nat option"
  cj_run :: "ident option"
  cj_source :: "ident option"
  cj_source_job :: "ident option"
  cj_project :: ident
  cj_ticket :: "ident option"
  cj_batch :: "ident option"
  cj_publication :: "nat option"
  cj_fix_attempt :: "ident option"
  cj_type :: job_type
  cj_attempts :: nat
  cj_max_attempts :: nat
  cj_guidance :: "string option"
  cj_lease_generation :: nat
  cj_triggered_by :: "trigger option"
  cj_session :: "ident option"
  cj_platform :: "string option"
  cj_payload :: "string option"

definition lease_live :: "time \<Rightarrow> job_row \<Rightarrow> bool" where
  "lease_live now j = (case job_lease_expires j of None \<Rightarrow> False | Some e \<Rightarrow> now < e)"

text \<open>The worker's four updates are fenced by the same condition.\<close>

definition fenced :: "time \<Rightarrow> ident \<Rightarrow> ident \<Rightarrow> nat \<Rightarrow> job_row \<Rightarrow> bool" where
  "fenced now jid wid gen j =
     (job_id j = jid \<and> job_worker j = Some wid \<and> job_lease_generation j = gen
      \<and> job_status j = Claimed \<and> lease_live now j)"

definition lease_matches :: "time \<Rightarrow> job_lease \<Rightarrow> job_row \<Rightarrow> bool" where
  "lease_matches now l j =
     (fenced now (ls_id l) (ls_worker l) (ls_generation l) j \<and> job_project j = ls_project l
      \<and> job_group j = ls_group l \<and> job_session j = ls_session l)"

datatype queue_error = JobLeaseLost ident

definition assert_job_lease :: "time \<Rightarrow> job_lease \<Rightarrow> db \<Rightarrow> queue_error + unit" where
  "assert_job_lease now l s =
     (if list_ex (lease_matches now l) (jobs s) then Inr () else Inl (JobLeaseLost (ls_id l)))"

section \<open>claimJob\<close>

record caps =
  cap_analysis :: int
  cap_narrative :: int
  cap_frames :: int
  cap_match :: int
  cap_confirm :: int

definition default_caps :: caps where
  "default_caps = \<lparr>cap_analysis = 2, cap_narrative = 2, cap_frames = 1, cap_match = 2,
                   cap_confirm = 1\<rparr>"

definition dispatchable :: "job_type list" where
  "dispatchable =
     [SessionAnalysis, SessionNarrate, SessionVerifyFrames, CiWatch, RouteMap, ProductContext,
      IssueInquiry, DigestWrite, ScoreSync, StackResolve, Fix, Investigate, ErrorFix, FrictionMatch,
      FrictionConfirm, FrictionReconcile, FrictionPrEvent]"

definition running :: "time \<Rightarrow> job_type \<Rightarrow> job_row list \<Rightarrow> nat" where
  "running now ty js =
     count_where (\<lambda>j. job_status j = Claimed \<and> job_type j = ty \<and> lease_live now j) js"

definition cap_of :: "caps \<Rightarrow> job_type \<Rightarrow> int option" where
  "cap_of c ty =
     (case ty of
        SessionAnalysis \<Rightarrow> Some (cap_analysis c)
      | SessionNarrate \<Rightarrow> Some (cap_narrative c)
      | SessionVerifyFrames \<Rightarrow> Some (cap_frames c)
      | FrictionMatch \<Rightarrow> Some (cap_match c)
      | FrictionConfirm \<Rightarrow> Some (cap_confirm c)
      | _ \<Rightarrow> None)"

definition under_cap :: "caps \<Rightarrow> time \<Rightarrow> job_row list \<Rightarrow> job_type \<Rightarrow> bool" where
  "under_cap c now js ty =
     (case cap_of c ty of None \<Rightarrow> True | Some k \<Rightarrow> int (running now ty js) < k)"

definition eligible :: "caps \<Rightarrow> time \<Rightarrow> (ident \<Rightarrow> bool) \<Rightarrow> job_row list \<Rightarrow> job_row \<Rightarrow> bool" where
  "eligible c now locked js j =
     (job_status j = Pending \<and> job_available_at j \<le> now \<and> job_type j \<in> set dispatchable
      \<and> under_cap c now js (job_type j)
      \<and> (job_type j \<in> {FrictionConfirm, FrictionReconcile} \<longrightarrow> 0 < cap_match c \<and> 0 < cap_confirm c)
      \<and> \<not> locked (job_id j))"

text \<open>\<open>COALESCE(MAX(claimed_at), 'epoch')\<close> over the rows of one lane.\<close>

fun latest :: "time option list \<Rightarrow> time option" where
  "latest [] = None"
| "latest (None # ts) = latest ts"
| "latest (Some t # ts) = (case latest ts of None \<Rightarrow> Some t | Some u \<Rightarrow> Some (max t u))"

definition last_claim :: "(job_row \<Rightarrow> bool) \<Rightarrow> job_row list \<Rightarrow> time" where
  "last_claim p js = (case latest (map job_claimed_at (filter p js)) of None \<Rightarrow> 0 | Some t \<Rightarrow> t)"

definition lane :: "job_row list \<Rightarrow> job_type \<Rightarrow> nat" where
  "lane js ty =
     (if ty = ErrorFix then 0
      else if ty = SessionAnalysis
              \<and> last_claim (\<lambda>j. job_type j = SessionAnalysis) js
                < last_claim (\<lambda>j. job_type j \<noteq> SessionAnalysis) js then 1
      else if ty = RouteMap \<or> ty = ProductContext then 4
      else if ty \<noteq> SessionAnalysis then 2
      else 3)"

definition claim_order :: "job_row list \<Rightarrow> job_row \<Rightarrow> job_row \<Rightarrow> bool" where
  "claim_order js j k =
     (lane js (job_type j) < lane js (job_type k)
      \<or> (lane js (job_type j) = lane js (job_type k) \<and> job_created_at j \<le> job_created_at k))"

definition candidate ::
  "caps \<Rightarrow> time \<Rightarrow> (ident \<Rightarrow> bool) \<Rightarrow> job_row list \<Rightarrow> job_row option" where
  "candidate c now locked js = pick_min (claim_order js) (filter (eligible c now locked js) js)"

definition claim_row :: "time \<Rightarrow> ident \<Rightarrow> real \<Rightarrow> job_row \<Rightarrow> job_row" where
  "claim_row now wid dur j =
     j\<lparr>job_status := Claimed, job_worker := Some wid, job_claimed_at := Some now,
       job_lease_expires := Some (now + dur),
       job_lease_generation := Suc (job_lease_generation j), job_updated_at := now\<rparr>"

definition claimed_of :: "ident \<Rightarrow> job_row \<Rightarrow> claimed_job" where
  "claimed_of wid j =
     \<lparr>cj_id = job_id j, cj_worker = wid, cj_group = job_group j, cj_event = job_event j,
      cj_episode = job_episode j, cj_input_version = job_input_version j, cj_run = job_run j,
      cj_source = job_source j, cj_source_job = job_source_job j, cj_project = job_project j,
      cj_ticket = job_ticket j, cj_batch = job_batch j, cj_publication = job_publication j,
      cj_fix_attempt = job_fix_attempt j, cj_type = job_type j, cj_attempts = job_attempts j,
      cj_max_attempts = job_max_attempts j, cj_guidance = job_guidance j,
      cj_lease_generation = job_lease_generation j, cj_triggered_by = job_triggered_by j,
      cj_session = job_session j,
      cj_platform = (if job_platform j \<in> {Some ''python'', Some ''javascript''}
                     then job_platform j else None),
      cj_payload = job_payload j\<rparr>"

definition claim_job ::
  "caps \<Rightarrow> time \<Rightarrow> (ident \<Rightarrow> bool) \<Rightarrow> ident \<Rightarrow> real \<Rightarrow> db \<Rightarrow> claimed_job option \<times> db" where
  "claim_job c now locked wid dur s =
     (case candidate c now locked (jobs s) of
        None \<Rightarrow> (None, s)
      | Some j \<Rightarrow>
          (Some (claimed_of wid (claim_row now wid dur j)),
           s\<lparr>jobs := update_where (\<lambda>k. job_id k = job_id j) (claim_row now wid dur) (jobs s)\<rparr>))"

definition lease_of :: "claimed_job \<Rightarrow> job_lease" where
  "lease_of c =
     \<lparr>ls_id = cj_id c, ls_worker = cj_worker c, ls_generation = cj_lease_generation c,
      ls_project = cj_project c, ls_group = cj_group c, ls_session = cj_session c\<rparr>"

definition resolve_evidence_event_id :: "claimed_job \<Rightarrow> ident option \<Rightarrow> ident option" where
  "resolve_evidence_event_id c sample = or_else (cj_event c) sample"

section \<open>Queue depth\<close>

record queue_depth =
  qd_type :: job_type
  qd_eligible :: nat
  qd_backed_off :: nat
  qd_oldest :: "int option"

fun oldest :: "time list \<Rightarrow> time option" where
  "oldest [] = None"
| "oldest (t # ts) = (case oldest ts of None \<Rightarrow> Some t | Some u \<Rightarrow> Some (min t u))"

definition get_queue_depth :: "time \<Rightarrow> db \<Rightarrow> queue_depth list" where
  "get_queue_depth now s =
     (let pending = filter (\<lambda>j. job_status j = Pending) (jobs s)
      in map (\<lambda>ty. let js = filter (\<lambda>j. job_type j = ty) pending;
                       ready = filter (\<lambda>j. job_available_at j \<le> now) js
                   in \<lparr>qd_type = ty, qd_eligible = length ready,
                       qd_backed_off = count_where (\<lambda>j. now < job_available_at j) js,
                       qd_oldest = map_option (\<lambda>t. \<lfloor>(now - t) / 1000 + 1 / 2\<rfloor>)
                                     (oldest (map job_created_at ready))\<rparr>)
             (dedup (map job_type pending)))"

section \<open>Operations of the lease holder\<close>

definition reschedule_row :: "time \<Rightarrow> time \<Rightarrow> string option \<Rightarrow> job_row \<Rightarrow> job_row" where
  "reschedule_row now avail pl j =
     j\<lparr>job_status := Pending, job_worker := None, job_claimed_at := None,
       job_lease_expires := None, job_available_at := avail,
       job_payload := or_else pl (job_payload j), job_updated_at := now\<rparr>"

definition reschedule_job ::
  "time \<Rightarrow> job_lease \<Rightarrow> time \<Rightarrow> string option \<Rightarrow> db \<Rightarrow> queue_error + db" where
  "reschedule_job now l avail pl s =
     (if list_ex (lease_matches now l) (jobs s)
      then Inr (s\<lparr>jobs := update_where (lease_matches now l) (reschedule_row now avail pl) (jobs s)\<rparr>)
      else Inl (JobLeaseLost (ls_id l)))"

definition heartbeat_row :: "time \<Rightarrow> real \<Rightarrow> job_row \<Rightarrow> job_row" where
  "heartbeat_row now dur j = j\<lparr>job_lease_expires := Some (now + dur), job_updated_at := now\<rparr>"

definition heartbeat :: "time \<Rightarrow> ident \<Rightarrow> ident \<Rightarrow> nat \<Rightarrow> real \<Rightarrow> db \<Rightarrow> bool \<times> db" where
  "heartbeat now jid wid gen dur s =
     (list_ex (fenced now jid wid gen) (jobs s),
      s\<lparr>jobs := update_where (fenced now jid wid gen) (heartbeat_row now dur) (jobs s)\<rparr>)"

definition complete_row :: "time \<Rightarrow> job_row \<Rightarrow> job_row" where
  "complete_row now j = j\<lparr>job_status := Completed, job_updated_at := now\<rparr>"

definition complete_job :: "time \<Rightarrow> ident \<Rightarrow> ident \<Rightarrow> nat \<Rightarrow> db \<Rightarrow> bool \<times> db" where
  "complete_job now jid wid gen s =
     (list_ex (fenced now jid wid gen) (jobs s),
      s\<lparr>jobs := update_where (fenced now jid wid gen) (complete_row now) (jobs s)\<rparr>)"

definition trace_row :: "time \<Rightarrow> string \<Rightarrow> job_row \<Rightarrow> job_row" where
  "trace_row now url j = j\<lparr>job_trace_url := Some url, job_updated_at := now\<rparr>"

definition update_job_trace_url ::
  "time \<Rightarrow> ident \<Rightarrow> ident \<Rightarrow> nat \<Rightarrow> string \<Rightarrow> db \<Rightarrow> bool \<times> db" where
  "update_job_trace_url now jid wid gen url s =
     (list_ex (fenced now jid wid gen) (jobs s),
      s\<lparr>jobs := update_where (fenced now jid wid gen) (trace_row now url) (jobs s)\<rparr>)"

section \<open>failJob\<close>

definition retry_backoff_base_seconds :: real where "retry_backoff_base_seconds = 30"
definition retry_backoff_cap_seconds :: real where "retry_backoff_cap_seconds = 900"
definition max_dead_letter_requeues :: nat where "max_dead_letter_requeues = 3"
definition dead_letter_backoff_base_hours :: nat where "dead_letter_backoff_base_hours = 4"
definition boot_requeue_min_age_minutes :: real where "boot_requeue_min_age_minutes = 10"

definition requeueable_job_types :: "job_type list" where
  "requeueable_job_types = [Investigate, RouteMap, ProductContext]"

datatype usage_event =
    JobDeadLettered ident ident job_type dl_class nat nat string
  | JobGivenUp ident ident job_type dl_class string
  | JobRequeued ident ident job_type dl_class nat string

definition dead_letter_events :: "job_row \<Rightarrow> string option \<Rightarrow> usage_event list" where
  "dead_letter_events j err =
     (if job_status j \<noteq> DeadLetter then []
      else
        let cls = (case job_dl_class j of None \<Rightarrow> Transient | Some k \<Rightarrow> k);
            last = take 300 (scrub_secrets (case err of None \<Rightarrow> [] | Some e \<Rightarrow> e))
        in JobDeadLettered (job_id j) (job_project j) (job_type j) cls (job_attempts j)
             (job_requeues j) last #
           (if max_dead_letter_requeues \<le> job_requeues j
            then [JobGivenUp (job_id j) (job_project j) (job_type j) cls last] else []))"

text \<open>Seconds until a retry: capped exponential back-off with jitter.\<close>

definition retry_delay :: "nat \<Rightarrow> real \<Rightarrow> real" where
  "retry_delay n r =
     min (retry_backoff_base_seconds * 2 ^ n * (1 / 2 + r)) retry_backoff_cap_seconds"

definition fail_row ::
  "time \<Rightarrow> real \<Rightarrow> string \<Rightarrow> bool \<Rightarrow> dl_class option \<Rightarrow> job_row \<Rightarrow> job_row" where
  "fail_row now r err exhaust cls j =
     (if exhaust \<or> job_max_attempts j \<le> job_attempts j + 1
      then j\<lparr>job_attempts := job_attempts j + 1, job_last_error := Some err,
             job_status := DeadLetter,
             job_dl_class := Some (case cls of None \<Rightarrow> Transient | Some k \<Rightarrow> k),
             job_dead_lettered_at := Some now, job_updated_at := now\<rparr>
      else j\<lparr>job_attempts := job_attempts j + 1, job_last_error := Some err,
             job_status := Pending, job_worker := None, job_claimed_at := None,
             job_lease_expires := None,
             job_available_at := now + 1000 * retry_delay (job_attempts j) r,
             job_updated_at := now\<rparr>)"

text \<open>What the transaction does to the job's signals, generation and ticket, per failed row.\<close>

definition after_failure ::
  "(nat \<Rightarrow> ident) \<Rightarrow> time \<Rightarrow> string \<Rightarrow> job_row \<Rightarrow> db \<Rightarrow> db" where
  "after_failure uuid now err j s =
     (let s1 = (if job_status j = DeadLetter \<and> job_type j = SessionAnalysis
                then reconcile_dead_lettered uuid now (job_id j) (job_project j) s
                else if job_type j = SessionAnalysis
                then snd (release_unfinished_generation (job_id j) (job_project j) s)
                else s)
      in if job_status j = DeadLetter
         then snd (attempt_failed (job_id j) (job_project j) err s1) else s1)"

definition fail_job ::
  "(nat \<Rightarrow> ident) \<Rightarrow> time \<Rightarrow> time \<Rightarrow> real \<Rightarrow> ident \<Rightarrow> ident \<Rightarrow> nat \<Rightarrow> string \<Rightarrow> bool \<Rightarrow>
   dl_class option \<Rightarrow> db \<Rightarrow> (bool \<times> usage_event list) \<times> db" where
  "fail_job uuid clk now r jid wid gen err exhaust cls s =
     (case find (fenced clk jid wid gen) (jobs s) of
        None \<Rightarrow> ((False, []), s)
      | Some j \<Rightarrow>
          let j' = fail_row now r err exhaust cls j;
              s1 = s\<lparr>jobs := update_where (fenced clk jid wid gen)
                     (fail_row now r err exhaust cls) (jobs s)\<rparr>
          in ((True, dead_letter_events j' (Some err)), after_failure uuid now err j' s1))"

section \<open>requeueStaleJobs\<close>

definition stale :: "time \<Rightarrow> job_row \<Rightarrow> bool" where
  "stale now j =
     (job_status j = Claimed \<and> (case job_lease_expires j of None \<Rightarrow> False | Some e \<Rightarrow> e < now))"

definition reap_message :: "job_row \<Rightarrow> string" where
  "reap_message j =
     (if job_max_attempts j \<le> job_attempts j + 1
      then ''dead-lettered by reaper: lease expired '' @ digits (job_attempts j + 1) @ '' times''
      else ''reaper: lease expired (attempt '' @ digits (job_attempts j + 1) @ '')'')"

definition reap_row :: "time \<Rightarrow> (ident \<Rightarrow> real) \<Rightarrow> job_row \<Rightarrow> job_row" where
  "reap_row now rnd j = fail_row now (rnd (job_id j)) (reap_message j) False None j"

definition mark_analysis_failed :: "job_row \<Rightarrow> db \<Rightarrow> db" where
  "mark_analysis_failed j s =
     (case job_session j of None \<Rightarrow> s | Some sid \<Rightarrow>
        s\<lparr>sessions := update_where (\<lambda>x. ss_id x = sid \<and> ss_project x = job_project j)
            (\<lambda>x. x\<lparr>ss_analysis_failed := True\<rparr>) (sessions s)\<rparr>)"

definition after_reap :: "(nat \<Rightarrow> ident) \<Rightarrow> time \<Rightarrow> job_row \<Rightarrow> db \<Rightarrow> db" where
  "after_reap uuid now j s =
     (let why = (case job_last_error j of None \<Rightarrow> [] | Some e \<Rightarrow> e);
          s1 = (if job_status j = DeadLetter
                then snd (attempt_failed (job_id j) (job_project j) why s) else s)
      in if job_status j = DeadLetter \<and> job_type j = SessionAnalysis
         then mark_analysis_failed j
                (reconcile_dead_lettered uuid now (job_id j) (job_project j) s1)
         else if job_type j = SessionAnalysis
         then snd (release_unfinished_generation (job_id j) (job_project j) s1)
         else s1)"

definition lease_lost_reason :: reason where
  "lease_lost_reason =
     \<lparr>reason_code = ''lease_lost'',
      reason_message = ''The fix job exceeded its retry limit (repeated lease expiry) and was abandoned.'',
      remediation = ''Re-run the fix from the incident, or review manually - the worker could not hold a lease long enough to finish.''\<rparr>"

text \<open>After the commit, best effort: the issue of a dead-lettered fix job goes to a human.\<close>

definition abandon_fix :: "time \<Rightarrow> time \<Rightarrow> job_row \<Rightarrow> db \<Rightarrow> db" where
  "abandon_fix clk now j s =
     (if job_status j = DeadLetter \<and> (job_type j = Fix \<or> job_type j = ErrorFix)
      then (case job_group j of
              None \<Rightarrow> s
            | Some gid \<Rightarrow>
                (case update_group_status clk now gid (job_project j) GNeedsHuman
                        (no_fields\<lparr>sf_reason := Some lease_lost_reason,
                                   sf_terminal_fix_job := Some (job_id j)\<rparr>) None s of
                   Inl _ \<Rightarrow> s | Inr t \<Rightarrow> t))
      else s)"

definition requeue_stale_jobs ::
  "(nat \<Rightarrow> ident) \<Rightarrow> time \<Rightarrow> time \<Rightarrow> (ident \<Rightarrow> real) \<Rightarrow> db \<Rightarrow> (nat \<times> usage_event list) \<times> db" where
  "requeue_stale_jobs uuid clk now rnd s =
     (let rows = map (reap_row now rnd) (filter (stale now) (jobs s));
          s1 = s\<lparr>jobs := update_where (stale now) (reap_row now rnd) (jobs s)\<rparr>;
          s2 = fold (after_reap uuid now) rows s1;
          s3 = fold (abandon_fix clk now) rows s2
      in ((length rows, concat (map (\<lambda>j. dead_letter_events j (job_last_error j)) rows)), s3))"

section \<open>requeueDeadLetters\<close>

datatype requeue_trigger = Boot | Interval

definition trigger_classes :: "requeue_trigger \<Rightarrow> dl_class list" where
  "trigger_classes t = (case t of Boot \<Rightarrow> [Limit, Agent, Config] | Interval \<Rightarrow> [Transient, Agent])"

definition trigger_name :: "requeue_trigger \<Rightarrow> string" where
  "trigger_name t = (case t of Boot \<Rightarrow> ''boot'' | Interval \<Rightarrow> ''interval'')"

definition active :: "job_row \<Rightarrow> bool" where
  "active j = (job_status j = Pending \<or> job_status j = Claimed)"

definition rivals :: "job_row \<Rightarrow> job_row \<Rightarrow> bool" where
  "rivals j k =
     (active k \<and> job_project k = job_project j \<and> job_type k = job_type j
      \<and> job_group k = job_group j \<and> job_episode k = job_episode j \<and> job_run k = job_run j)"

definition dead_letter_age_ok :: "requeue_trigger \<Rightarrow> time \<Rightarrow> job_row \<Rightarrow> bool" where
  "dead_letter_age_ok t now j =
     (case job_dead_lettered_at j of
        None \<Rightarrow> False
      | Some d \<Rightarrow>
          (case t of
             Boot \<Rightarrow> d \<le> now - boot_requeue_min_age_minutes * 60000
           | Interval \<Rightarrow>
               d \<le> now - real (dead_letter_backoff_base_hours ^ job_requeues j) * 3600000))"

definition due :: "requeue_trigger \<Rightarrow> time \<Rightarrow> (ident \<Rightarrow> bool) \<Rightarrow> job_row list \<Rightarrow> job_row \<Rightarrow> bool" where
  "due t now locked js j =
     (job_status j = DeadLetter \<and> job_type j \<in> set requeueable_job_types
      \<and> (case job_dl_class j of None \<Rightarrow> False | Some k \<Rightarrow> k \<in> set (trigger_classes t))
      \<and> job_requeues j < max_dead_letter_requeues \<and> dead_letter_age_ok t now j
      \<and> \<not> list_ex (rivals j) js \<and> \<not> locked (job_id j))"

definition requeue_row :: "time \<Rightarrow> job_row \<Rightarrow> job_row" where
  "requeue_row now j =
     j\<lparr>job_status := Pending, job_worker := None, job_claimed_at := None, job_lease_expires := None,
       job_available_at := now, job_requeues := Suc (job_requeues j), job_requeued_at := Some now,
       job_dl_class := None, job_dead_lettered_at := None, job_updated_at := now\<rparr>"

definition requeue_event :: "requeue_trigger \<Rightarrow> job_row \<Rightarrow> usage_event" where
  "requeue_event t j =
     JobRequeued (job_id j) (job_project j) (job_type j)
       (case job_dl_class j of None \<Rightarrow> Transient | Some k \<Rightarrow> k) (Suc (job_requeues j)) (trigger_name t)"

text \<open>
  The partial unique indexes on active jobs (\<open>ingestion/db/migrations\<close> 015, 040, 054, 055 and 078).
  An index over a NULL column constrains nothing. A statement that would leave two active rows in
  conflict is rejected as a whole.
\<close>

definition same_some :: "'a option \<Rightarrow> 'a option \<Rightarrow> bool" where
  "same_some a b = (a \<noteq> None \<and> a = b)"

definition index_conflict :: "job_row \<Rightarrow> job_row \<Rightarrow> bool" where
  "index_conflict j k =
     (active j \<and> active k \<and> job_type j = job_type k
      \<and> (case job_type j of
            CiWatch \<Rightarrow> same_some (job_group j) (job_group k)
          | RouteMap \<Rightarrow> job_project j = job_project k
          | ProductContext \<Rightarrow> job_project j = job_project k
          | FrictionConfirm \<Rightarrow> same_some (job_ticket j) (job_ticket k)
          | FrictionReconcile \<Rightarrow> same_some (job_ticket j) (job_ticket k)
          | FrictionMatch \<Rightarrow> same_some (job_session j) (job_session k)
          | _ \<Rightarrow> False)
         \<or> active j \<and> active k \<and> job_type j = job_type k \<and> job_project j = job_project k
           \<and> (same_some (job_episode j) (job_episode k) \<or> same_some (job_run j) (job_run k)))"

fun indexes_ok :: "job_row list \<Rightarrow> bool" where
  "indexes_ok [] = True"
| "indexes_ok (j # js) = (\<not> list_ex (index_conflict j) js \<and> indexes_ok js)"

datatype sql_error = UniqueViolation

definition requeue_dead_letters ::
  "requeue_trigger \<Rightarrow> time \<Rightarrow> (ident \<Rightarrow> bool) \<Rightarrow> db \<Rightarrow> sql_error + usage_event list \<times> db" where
  "requeue_dead_letters t now locked s =
     (let js = update_where (due t now locked (jobs s)) (requeue_row now) (jobs s)
      in if indexes_ok js
         then Inr (map (requeue_event t) (filter (due t now locked (jobs s)) (jobs s)), s\<lparr>jobs := js\<rparr>)
         else Inl UniqueViolation)"

record dead_letter_counts =
  dc_recent :: "((job_type \<times> dl_class option) \<times> nat) list"
  dc_given_up :: nat

definition get_dead_letter_counts :: "time \<Rightarrow> db \<Rightarrow> dead_letter_counts" where
  "get_dead_letter_counts now s =
     (let recent = filter (\<lambda>j. job_status j = DeadLetter
              \<and> (case job_dead_lettered_at j of None \<Rightarrow> False | Some d \<Rightarrow> now - 24 * 3600000 < d))
            (jobs s);
          key = (\<lambda>j. (job_type j, job_dl_class j))
      in \<lparr>dc_recent = map (\<lambda>k. (k, count_where (\<lambda>j. key j = k) recent)) (dedup (map key recent)),
          dc_given_up = count_where (\<lambda>j. job_status j = DeadLetter
                                       \<and> max_dead_letter_requeues \<le> job_requeues j) (jobs s)\<rparr>)"

section \<open>Enqueueing\<close>

record enqueue_options =
  eo_session :: "ident option"
  eo_ticket :: "ident option"
  eo_batch :: "ident option"
  eo_publication :: "nat option"
  eo_fix_attempt :: "ident option"
  eo_available_at :: "time option"
  eo_group :: "ident option"
  eo_source :: "ident option"
  eo_payload :: "string option"
  eo_triggered_by :: "trigger option"
  eo_guidance :: "string option"
  eo_source_job :: "ident option"

definition no_options :: enqueue_options where
  "no_options = \<lparr>eo_session = None, eo_ticket = None, eo_batch = None, eo_publication = None,
     eo_fix_attempt = None, eo_available_at = None, eo_group = None, eo_source = None,
     eo_payload = None, eo_triggered_by = None, eo_guidance = None, eo_source_job = None\<rparr>"

text \<open>The columns an INSERT leaves out take the defaults of the table.\<close>

definition new_job :: "ident \<Rightarrow> time \<Rightarrow> job_type \<Rightarrow> ident \<Rightarrow> enqueue_options \<Rightarrow> job_row" where
  "new_job jid now ty pid o' =
     \<lparr>job_id = jid, job_project = pid, job_group = eo_group o', job_session = eo_session o',
      job_ticket = eo_ticket o', job_batch = eo_batch o', job_episode = None, job_run = None,
      job_event = None, job_source = eo_source o', job_source_job = eo_source_job o',
      job_fix_attempt = eo_fix_attempt o', job_publication = eo_publication o',
      job_investigation_execution = None, job_investigation_evidence = None,
      job_type = ty, job_status = Pending, job_attempts = 0, job_max_attempts = 3,
      job_worker = None, job_lease_generation = 0, job_claimed_at = None, job_lease_expires = None,
      job_available_at = (case eo_available_at o' of None \<Rightarrow> now | Some t \<Rightarrow> t),
      job_created_at = now, job_updated_at = now, job_last_error = None, job_dl_class = None,
      job_dead_lettered_at = None, job_requeues = 0, job_requeued_at = None,
      job_triggered_by = eo_triggered_by o', job_guidance = eo_guidance o',
      job_payload = eo_payload o', job_trace_url = None, job_input_version = None,
      job_platform = None\<rparr>"

definition enqueue_job_tx ::
  "(nat \<Rightarrow> ident) \<Rightarrow> time \<Rightarrow> job_type \<Rightarrow> ident \<Rightarrow> enqueue_options \<Rightarrow> db \<Rightarrow> ident option \<times> db" where
  "enqueue_job_tx uuid now ty pid o' s =
     (let j = new_job (uuid (uuids s)) now ty pid o'; s1 = s\<lparr>uuids := Suc (uuids s)\<rparr>
      in if list_ex (index_conflict j) (jobs s) then (None, s1)
         else (Some (job_id j), s1\<lparr>jobs := jobs s @ [j]\<rparr>))"

definition enqueue_job ::
  "(nat \<Rightarrow> ident) \<Rightarrow> time \<Rightarrow> job_type \<Rightarrow> ident \<Rightarrow> ident \<Rightarrow> db \<Rightarrow> db" where
  "enqueue_job uuid now ty pid sid s =
     (if list_ex (\<lambda>j. job_project j = pid \<and> job_session j = Some sid \<and> job_type j = ty \<and> active j)
           (jobs s)
      then s
      else s\<lparr>jobs := jobs s @ [new_job (uuid (uuids s)) now ty pid (no_options\<lparr>eo_session := Some sid\<rparr>)],
             uuids := Suc (uuids s)\<rparr>)"

end
