(* ===== verification/QueueSafety.thy ===== *)
theory QueueSafety
  imports JobQueue
begin

text \<open>
  The invariants of the job queue. Every statement of \<open>JobQueue\<close> interprets one contract
  (\<open>queue_update\<close>); the step relation \<open>queue_step\<close> runs the statements of any number of workers in
  any order, and what holds of every statement holds along its runs: rows stay well formed, a
  completed job stays completed, fencing tokens only grow, and the lanes stay under their caps.
\<close>

section \<open>The row invariant\<close>

definition job_ok :: "job_row \<Rightarrow> bool" where
  "job_ok j =
     (0 < job_max_attempts j \<and> job_requeues j \<le> max_dead_letter_requeues
      \<and> (case job_status j of
            Pending \<Rightarrow> job_worker j = None \<and> job_claimed_at j = None \<and> job_lease_expires j = None
              \<and> job_attempts j < job_max_attempts j + job_requeues j
          | Claimed \<Rightarrow> job_worker j \<noteq> None \<and> job_claimed_at j \<noteq> None \<and> job_lease_expires j \<noteq> None
              \<and> 0 < job_lease_generation j \<and> job_attempts j < job_max_attempts j + job_requeues j
          | Completed \<Rightarrow> job_worker j \<noteq> None \<and> job_attempts j < job_max_attempts j + job_requeues j
          | Failed \<Rightarrow> False
          | DeadLetter \<Rightarrow> job_dl_class j \<noteq> None \<and> job_dead_lettered_at j \<noteq> None
              \<and> job_attempts j \<le> job_max_attempts j + job_requeues j))"

definition queue_ok :: "db \<Rightarrow> bool" where
  "queue_ok s = (distinct (map job_id (jobs s)) \<and> list_all job_ok (jobs s))"

text \<open>
  The contract of every statement on the queue: it leaves the key and the identity of the work
  alone, preserves the row invariant, never lowers the fencing token and never touches a
  completed job.
\<close>

definition job_identity :: "job_row \<Rightarrow> ident \<times> job_type \<times> nat" where
  "job_identity j = (job_project j, job_type j, job_max_attempts j)"

locale queue_update = keyed_update job_id upd for upd :: "job_row \<Rightarrow> job_row" +
  fixes cond :: "job_row \<Rightarrow> bool"
  assumes upd_identity: "job_identity (upd j) = job_identity j"
    and upd_ok: "cond j \<Longrightarrow> job_ok j \<Longrightarrow> job_ok (upd j)"
    and upd_token: "job_lease_generation j \<le> job_lease_generation (upd j)"
    and cond_open: "cond j \<Longrightarrow> job_status j \<noteq> Completed"
begin

lemma ok: "queue_ok s \<Longrightarrow> queue_ok (s\<lparr>jobs := update_where cond upd (jobs s)\<rparr>)"
  by (auto simp: queue_ok_def distinct_keys list_all_iff upd_ok elim!: update_where_cases)

lemma token_of:
  "row_of job_id k js = Some j \<Longrightarrow>
   \<exists>j'. row_of job_id k (update_where cond upd js) = Some j'
      \<and> job_lease_generation j \<le> job_lease_generation j'"
  by (simp add: lookup upd_token)

lemma completed_stays:
  "row_of job_id k js = Some j \<Longrightarrow> job_status j = Completed \<Longrightarrow>
   row_of job_id k (update_where cond upd js) = Some j"
  using cond_open by (auto simp: lookup)

end

lemma fail_row_ok: "job_status j = Claimed \<Longrightarrow> job_ok j \<Longrightarrow> job_ok (fail_row now r err ex cls j)"
  by (simp add: job_ok_def fail_row_def)

interpretation claim_stmt: queue_update "claim_row now wid dur"
  "\<lambda>k. job_id k = jid \<and> job_status k = Pending" for now wid dur jid
  by unfold_locales (simp_all add: claim_row_def job_identity_def job_ok_def)

interpretation heartbeat_stmt: queue_update "heartbeat_row now dur" "fenced now jid wid gen"
  for now dur jid wid gen
  by unfold_locales (simp_all add: heartbeat_row_def job_identity_def job_ok_def fenced_def)

interpretation complete_stmt: queue_update "complete_row now" "fenced now jid wid gen"
  for now jid wid gen
  by unfold_locales (simp_all add: complete_row_def job_identity_def job_ok_def fenced_def)

interpretation trace_stmt: queue_update "trace_row now url" "fenced now jid wid gen"
  for now url jid wid gen
  by unfold_locales (simp_all add: trace_row_def job_identity_def job_ok_def fenced_def)

interpretation reschedule_stmt: queue_update "reschedule_row now avail pl" "lease_matches now l"
  for now avail pl l
  by unfold_locales
    (simp_all add: reschedule_row_def job_identity_def job_ok_def lease_matches_def fenced_def)

interpretation fail_stmt: queue_update "fail_row now r err ex cls" "fenced clk jid wid gen"
  for now r err ex cls clk jid wid gen
proof unfold_locales
  fix j
  show "job_id (fail_row now r err ex cls j) = job_id j" by (simp add: fail_row_def)
  show "job_identity (fail_row now r err ex cls j) = job_identity j"
    by (simp add: fail_row_def job_identity_def)
  show "job_lease_generation j \<le> job_lease_generation (fail_row now r err ex cls j)"
    by (simp add: fail_row_def)
  show "fenced clk jid wid gen j \<Longrightarrow> job_status j \<noteq> Completed" by (simp add: fenced_def)
  show "fenced clk jid wid gen j \<Longrightarrow> job_ok j \<Longrightarrow> job_ok (fail_row now r err ex cls j)"
    by (rule fail_row_ok) (simp_all add: fenced_def)
qed

interpretation reap_stmt: queue_update "reap_row now rnd" "stale now" for now rnd
proof unfold_locales
  fix j
  show "job_id (reap_row now rnd j) = job_id j" by (simp add: reap_row_def fail_row_def)
  show "job_identity (reap_row now rnd j) = job_identity j"
    by (simp add: reap_row_def fail_row_def job_identity_def)
  show "job_lease_generation j \<le> job_lease_generation (reap_row now rnd j)"
    by (simp add: reap_row_def fail_row_def)
  show "stale now j \<Longrightarrow> job_status j \<noteq> Completed" by (simp add: stale_def)
  show "stale now j \<Longrightarrow> job_ok j \<Longrightarrow> job_ok (reap_row now rnd j)"
    unfolding reap_row_def by (rule fail_row_ok) (simp_all add: stale_def)
qed

interpretation requeue_stmt: queue_update "requeue_row now" "due t now locked js"
  for now t locked js
  by unfold_locales
    (simp_all add: requeue_row_def job_identity_def job_ok_def due_def split: option.splits)

section \<open>What the statements do to the table of jobs\<close>

lemma after_failure_jobs [simp]: "jobs (after_failure uuid now err j s) = jobs s"
  by (simp add: after_failure_def Let_def)

lemma fail_job_jobs:
  "jobs (snd (fail_job uuid clk now r jid wid gen err ex cls s)) =
   update_where (fenced clk jid wid gen) (fail_row now r err ex cls) (jobs s)"
proof (cases "find (fenced clk jid wid gen) (jobs s)")
  case None
  then have "\<not> list_ex (fenced clk jid wid gen) (jobs s)"
    by (simp add: find_None_iff list_ex_iff)
  with None show ?thesis by (simp add: fail_job_def update_where_no_match)
next
  case (Some j)
  then show ?thesis by (simp add: fail_job_def Let_def)
qed

lemma mark_analysis_failed_jobs [simp]: "jobs (mark_analysis_failed j s) = jobs s"
  by (simp add: mark_analysis_failed_def split: option.splits)

lemma after_reap_jobs [simp]: "jobs (after_reap uuid now j s) = jobs s"
  by (simp add: after_reap_def Let_def)

lemma abandon_fix_jobs [simp]: "jobs (abandon_fix clk now j s) = jobs s"
proof (cases "job_group j")
  case None
  then show ?thesis by (simp add: abandon_fix_def)
next
  case (Some gid)
  let ?u = "update_group_status clk now gid (job_project j) GNeedsHuman
    (no_fields\<lparr>sf_reason := Some lease_lost_reason, sf_terminal_fix_job := Some (job_id j)\<rparr>) None s"
  show ?thesis
  proof (cases ?u)
    case (Inl e)
    with Some show ?thesis by (simp add: abandon_fix_def)
  next
    case (Inr u)
    from update_group_status_frame [OF this] have "jobs u = jobs s" by blast
    with Some Inr show ?thesis by (simp add: abandon_fix_def)
  qed
qed

lemma fold_keeps_jobs: "(\<And>j s. jobs (f j s) = jobs s) \<Longrightarrow> jobs (fold f js s) = jobs s"
  by (induction js arbitrary: s) simp_all

lemma reap_jobs:
  "jobs (snd (requeue_stale_jobs uuid clk now rnd s)) =
   update_where (stale now) (reap_row now rnd) (jobs s)"
  by (simp add: requeue_stale_jobs_def Let_def fold_keeps_jobs)

lemma claim_candidate:
  assumes "candidate c now locked js = Some j"
  shows "j \<in> set js" "eligible c now locked js j" "job_status j = Pending"
  using pick_min_in [OF assms [unfolded candidate_def]] by (auto simp: eligible_def)

text \<open>The sub-select picks a pending row, so with unique keys the update meets that row only.\<close>

lemma claim_jobs:
  assumes "distinct (map job_id (jobs s))" and "candidate c now locked (jobs s) = Some j"
  shows "jobs (snd (claim_job c now locked wid dur s)) =
    update_where (\<lambda>k. job_id k = job_id j \<and> job_status k = Pending) (claim_row now wid dur) (jobs s)"
proof -
  have "k = j" if "k \<in> set (jobs s)" "job_id k = job_id j" for k
    using that assms(1) claim_candidate(1) [OF assms(2)] by (auto simp: distinct_map inj_on_def)
  then have "(job_id k = job_id j) = (job_id k = job_id j \<and> job_status k = Pending)"
    if "k \<in> set (jobs s)" for k
    using that claim_candidate(3) [OF assms(2)] by blast
  then show ?thesis using assms(2) by (simp add: claim_job_def update_where_def cong: map_cong)
qed

lemma claim_none: "candidate c now locked (jobs s) = None \<Longrightarrow> claim_job c now locked wid dur s = (None, s)"
  by (simp add: claim_job_def)

section \<open>Runs of the queue\<close>

inductive queue_step :: "caps \<Rightarrow> (nat \<Rightarrow> ident) \<Rightarrow> time \<times> db \<Rightarrow> time \<times> db \<Rightarrow> bool"
  for c :: caps and uuid :: "nat \<Rightarrow> ident" where
  tick: "t \<le> t' \<Longrightarrow> queue_step c uuid (t, s) (t', s)"
| claim: "now \<le> t \<Longrightarrow> queue_step c uuid (t, s) (t, snd (claim_job c now locked wid dur s))"
| beat: "queue_step c uuid (t, s) (t, snd (heartbeat t jid wid gen dur s))"
| complete: "queue_step c uuid (t, s) (t, snd (complete_job t jid wid gen s))"
| trace: "queue_step c uuid (t, s) (t, snd (update_job_trace_url t jid wid gen url s))"
| resched: "reschedule_job t l avail pl s = Inr s' \<Longrightarrow> queue_step c uuid (t, s) (t, s')"
| failing: "now \<le> t \<Longrightarrow> 0 \<le> r \<Longrightarrow> r < 1 \<Longrightarrow>
    queue_step c uuid (t, s) (t, snd (fail_job uuid t now r jid wid gen err ex cls s))"
| reap: "now \<le> t \<Longrightarrow> \<forall>i. 0 \<le> rnd i \<and> rnd i < 1 \<Longrightarrow>
    queue_step c uuid (t, s) (t, snd (requeue_stale_jobs uuid t now rnd s))"
| rerun: "requeue_dead_letters tr t locked s = Inr (ev, s') \<Longrightarrow> queue_step c uuid (t, s) (t, s')"
| enqueue: "uuid (uuids s) \<notin> job_id ` set (jobs s) \<Longrightarrow>
    queue_step c uuid (t, s) (t, snd (enqueue_job_tx uuid t ty pid eo s))"
| enqueue_once: "uuid (uuids s) \<notin> job_id ` set (jobs s) \<Longrightarrow>
    queue_step c uuid (t, s) (t, enqueue_job uuid t ty pid sid s)"

text \<open>The three effects a step can have on the table.\<close>

definition table_effect :: "job_row list \<Rightarrow> job_row list \<Rightarrow> bool" where
  "table_effect js js' =
     (js' = js
      \<or> (\<exists>upd cond. queue_update upd cond \<and> js' = update_where cond upd js)
      \<or> (\<exists>j. job_id j \<notin> job_id ` set js \<and> job_ok j \<and> js' = js @ [j]))"

lemma effect_update: "queue_update upd cond \<Longrightarrow> table_effect js (update_where cond upd js)"
  unfolding table_effect_def by blast

lemma effect_same: "js' = js \<Longrightarrow> table_effect js js'"
  by (simp add: table_effect_def)

lemma new_job_ok: "job_ok (new_job jid now ty pid o')"
  by (simp add: job_ok_def new_job_def)

lemma effect_insert: "jid \<notin> job_id ` set js \<Longrightarrow> table_effect js (js @ [new_job jid now ty pid o'])"
  unfolding table_effect_def using new_job_ok by (auto simp: new_job_def)

lemma step_effect:
  assumes "queue_step c uuid (t, s) (t', s')" and ok: "queue_ok s"
  shows "t \<le> t' \<and> table_effect (jobs s) (jobs s')"
  using assms(1)
proof cases
  case (claim now locked wid dur)
  show ?thesis
  proof (cases "candidate c now locked (jobs s)")
    case None
    with claim show ?thesis by (simp add: claim_none effect_same)
  next
    case (Some j)
    have "distinct (map job_id (jobs s))" using ok by (simp add: queue_ok_def)
    from claim_jobs [OF this Some] claim show ?thesis
      using effect_update [OF claim_stmt.queue_update_axioms] by simp
  qed
next
  case (beat jid wid gen dur)
  then show ?thesis
    using effect_update [OF heartbeat_stmt.queue_update_axioms] by (simp add: heartbeat_def)
next
  case (complete jid wid gen)
  then show ?thesis
    using effect_update [OF complete_stmt.queue_update_axioms] by (simp add: complete_job_def)
next
  case (trace jid wid gen url)
  then show ?thesis
    using effect_update [OF trace_stmt.queue_update_axioms] by (simp add: update_job_trace_url_def)
next
  case (resched l avail pl)
  then have "jobs s' = update_where (lease_matches t l) (reschedule_row t avail pl) (jobs s)"
    by (auto simp: reschedule_job_def split: if_splits)
  with resched show ?thesis
    using effect_update [OF reschedule_stmt.queue_update_axioms] by simp
next
  case (failing now r jid wid gen err ex cls)
  then show ?thesis
    using effect_update [OF fail_stmt.queue_update_axioms] by (simp add: fail_job_jobs)
next
  case (reap now rnd)
  then show ?thesis
    using effect_update [OF reap_stmt.queue_update_axioms] by (simp add: reap_jobs)
next
  case (rerun tr locked ev)
  then have "jobs s' = update_where (due tr t locked (jobs s)) (requeue_row t) (jobs s)"
    by (auto simp: requeue_dead_letters_def Let_def split: if_splits)
  with rerun show ?thesis
    using effect_update [OF requeue_stmt.queue_update_axioms] by simp
next
  case (enqueue ty pid eo)
  then show ?thesis
    using effect_insert by (simp add: enqueue_job_tx_def Let_def effect_same)
next
  case (enqueue_once ty pid sid)
  then show ?thesis
    using effect_insert by (simp add: enqueue_job_def effect_same)
qed (simp_all add: effect_same)

section \<open>Invariants of runs\<close>

lemma effect_ok:
  assumes "table_effect (jobs s) (jobs s')" and "queue_ok s"
  shows "queue_ok s'"
proof -
  from assms(1) consider "jobs s' = jobs s"
    | upd cond where "queue_update upd cond" "jobs s' = update_where cond upd (jobs s)"
    | j where "job_id j \<notin> job_id ` set (jobs s)" "job_ok j" "jobs s' = jobs s @ [j]"
    unfolding table_effect_def by blast
  then show ?thesis
  proof cases
    case 1
    with assms(2) show ?thesis by (simp add: queue_ok_def)
  next
    case 2
    from queue_update.ok [OF 2(1) assms(2)] 2(2) show ?thesis by (simp add: queue_ok_def)
  next
    case 3
    with assms(2) show ?thesis by (simp add: queue_ok_def)
  qed
qed

lemma effect_token:
  assumes "table_effect js js'" and "row_of job_id k js = Some j"
  shows "\<exists>j'. row_of job_id k js' = Some j' \<and> job_lease_generation j \<le> job_lease_generation j'"
proof -
  from assms(1) consider "js' = js"
    | upd cond where "queue_update upd cond" "js' = update_where cond upd js"
    | i where "js' = js @ [i]"
    unfolding table_effect_def by blast
  then show ?thesis
  proof cases
    case 2
    from queue_update.token_of [OF 2(1) assms(2)] 2(2) show ?thesis by blast
  qed (use assms(2) in \<open>simp_all add: row_of_append\<close>)
qed

lemma effect_completed:
  assumes "table_effect js js'" and "row_of job_id k js = Some j" and "job_status j = Completed"
  shows "row_of job_id k js' = Some j"
proof -
  from assms(1) consider "js' = js"
    | upd cond where "queue_update upd cond" "js' = update_where cond upd js"
    | i where "js' = js @ [i]"
    unfolding table_effect_def by blast
  then show ?thesis
  proof cases
    case 2
    from queue_update.completed_stays [OF 2(1) assms(2,3)] 2(2) show ?thesis by blast
  qed (use assms(2) in \<open>simp_all add: row_of_append\<close>)
qed

lemma run_ok:
  assumes "(queue_step c uuid)\<^sup>*\<^sup>* (t, s) (t', s')" and "queue_ok s"
  shows "queue_ok s'"
  using assms
proof (induction rule: rtranclp_induct2)
  case refl
  then show ?case .
next
  case (step a b a' b')
  then show ?case using step_effect effect_ok by blast
qed

lemma run_token:
  assumes "(queue_step c uuid)\<^sup>*\<^sup>* (t, s) (t', s')" and "queue_ok s" and "job_of s k = Some j"
  shows "\<exists>j'. job_of s' k = Some j' \<and> job_lease_generation j \<le> job_lease_generation j'"
  using assms
proof (induction rule: rtranclp_induct2)
  case refl
  then show ?case by blast
next
  case (step a b a' b')
  then obtain j1 where j1: "job_of b k = Some j1" "job_lease_generation j \<le> job_lease_generation j1"
    by blast
  have "table_effect (jobs b) (jobs b')"
    using step_effect [OF step.hyps(2) run_ok [OF step.hyps(1) step.prems(1)]] by blast
  from effect_token [OF this j1(1)] j1(2) show ?case using le_trans by blast
qed

lemma run_completed:
  assumes "(queue_step c uuid)\<^sup>*\<^sup>* (t, s) (t', s')" and "queue_ok s"
    and "job_of s k = Some j" and "job_status j = Completed"
  shows "job_of s' k = Some j"
  using assms
proof (induction rule: rtranclp_induct2)
  case refl
  then show ?case by simp
next
  case (step a b a' b')
  have "table_effect (jobs b) (jobs b')"
    using step_effect [OF step.hyps(2) run_ok [OF step.hyps(1) step.prems(1)]] by blast
  from effect_completed [OF this step.IH [OF step.prems] step.prems(3)] show ?case .
qed

text \<open>A worker whose token is not the job's current one changes nothing.\<close>

lemma not_fenced:
  assumes "distinct (map job_id (jobs s))" and "job_of s jid = Some j"
    and "job_lease_generation j \<noteq> gen"
  shows "\<not> list_ex (fenced now jid wid gen) (jobs s)"
proof
  assume "list_ex (fenced now jid wid gen) (jobs s)"
  then obtain k where k: "k \<in> set (jobs s)" "fenced now jid wid gen k" by (auto simp: list_ex_iff)
  with row_of_distinct [OF assms(1) k(1)] assms(2,3) show False by (simp add: fenced_def)
qed

lemma stale_token_rejected:
  assumes "distinct (map job_id (jobs s))" and "job_of s jid = Some j"
    and "job_lease_generation j \<noteq> gen"
  shows "complete_job now jid wid gen s = (False, s)"
    "heartbeat now jid wid gen dur s = (False, s)"
    "fail_job uuid now tx r jid wid gen err ex cls s = ((False, []), s)"
    "update_job_trace_url now jid wid gen url s = (False, s)"
proof -
  note n = not_fenced [OF assms]
  from n have f: "find (fenced now jid wid gen) (jobs s) = None"
    by (simp add: find_None_iff list_ex_iff)
  from n f show "complete_job now jid wid gen s = (False, s)"
    "heartbeat now jid wid gen dur s = (False, s)"
    "fail_job uuid now tx r jid wid gen err ex cls s = ((False, []), s)"
    "update_job_trace_url now jid wid gen url s = (False, s)"
    by (simp_all add: complete_job_def heartbeat_def fail_job_def update_job_trace_url_def
        update_where_no_match)
qed

lemma claim_job_of:
  assumes "distinct (map job_id (jobs s))" and "claim_job c now locked wid dur s = (Some cj, s')"
  shows "\<exists>j. job_of s (cj_id cj) = Some j \<and> candidate c now locked (jobs s) = Some j
    \<and> job_of s' (cj_id cj) = Some (claim_row now wid dur j)
    \<and> cj = claimed_of wid (claim_row now wid dur j)"
proof -
  from assms(2) obtain j where j: "candidate c now locked (jobs s) = Some j"
    and cj: "cj = claimed_of wid (claim_row now wid dur j)"
    and s': "s' = snd (claim_job c now locked wid dur s)"
    by (cases "candidate c now locked (jobs s)") (auto simp: claim_job_def)
  have jid: "cj_id cj = job_id j" by (simp add: cj claimed_of_def claim_row_def)
  have of_j: "job_of s (job_id j) = Some j"
    using row_of_distinct [OF assms(1) claim_candidate(1) [OF j]] .
  have "job_of s' (job_id j) = Some (claim_row now wid dur j)"
    unfolding s' claim_jobs [OF assms(1) j] claim_stmt.lookup
    using of_j claim_candidate(3) [OF j] by simp
  with j cj jid of_j show ?thesis by simp
qed

section \<open>The order of claims\<close>

interpretation claims: row_order "claim_order js" for js
  by unfold_locales (auto simp: claim_order_def)

text \<open>
  C1: claimJob takes a job exactly when one is eligible (pending, due, dispatchable, under its
  lane cap, not locked); the job it takes is least in the lane order and then in creation time,
  it alone changes, and it becomes claimed by the worker under a lease and a token one higher.
\<close>

theorem claim_picks_least:
  assumes "queue_ok s"
  shows "case claim_job c now locked wid dur s of
      (None, s') \<Rightarrow> s' = s \<and> (\<forall>k \<in> set (jobs s). \<not> eligible c now locked (jobs s) k)
    | (Some cj, s') \<Rightarrow> \<exists>j \<in> set (jobs s). eligible c now locked (jobs s) j
        \<and> (\<forall>k \<in> set (jobs s). eligible c now locked (jobs s) k \<longrightarrow> claim_order (jobs s) j k)
        \<and> cj = claimed_of wid (claim_row now wid dur j)
        \<and> jobs s' = map (\<lambda>k. if k = j then claim_row now wid dur j else k) (jobs s)"
proof (cases "candidate c now locked (jobs s)")
  case None
  then have "filter (eligible c now locked (jobs s)) (jobs s) = []"
    by (simp add: candidate_def)
  with None show ?thesis by (simp add: claim_none filter_empty_conv)
next
  case (Some j)
  have least: "\<forall>k \<in> set (filter (eligible c now locked (jobs s)) (jobs s)). claim_order (jobs s) j k"
    using claims.pick_min_stable Some unfolding candidate_def by blast
  have uniq: "job_id k = job_id j \<longleftrightarrow> k = j" if "k \<in> set (jobs s)" for k
    using that assms claim_candidate(1) [OF Some]
    by (auto simp: queue_ok_def distinct_map inj_on_def)
  have "jobs (snd (claim_job c now locked wid dur s)) =
      map (\<lambda>k. if k = j then claim_row now wid dur j else k) (jobs s)"
    using Some uniq by (auto simp: claim_job_def update_where_def)
  with Some least claim_candidate(1,2) [OF Some] show ?thesis by (auto simp: claim_job_def)
qed

definition demo_job :: job_row where
  "demo_job = new_job ''j1'' 0 Fix ''p1'' no_options"

definition demo_db :: db where
  "demo_db = empty_db\<lparr>jobs := [demo_job]\<rparr>"

lemma demo_ok: "queue_ok demo_db"
  by (simp add: queue_ok_def demo_db_def demo_job_def new_job_ok)

theorem claim_picks_least_witness:
  "fst (claim_job default_caps 0 (\<lambda>_. False) ''w1'' 10 demo_db) =
     Some (claimed_of ''w1'' (claim_row 0 ''w1'' 10 demo_job))"
proof -
  have el: "eligible default_caps 0 (\<lambda>_. False) (jobs demo_db) demo_job"
    by (simp add: demo_job_def new_job_def eligible_def under_cap_def cap_of_def dispatchable_def
        no_options_def)
  have js: "jobs demo_db = [demo_job]" by (simp add: demo_db_def)
  let ?c = "claim_job default_caps 0 (\<lambda>_. False) ''w1'' 10 demo_db"
  from claim_picks_least [OF demo_ok, of default_caps 0 "\<lambda>_. False" "''w1''" 10] el js
  show ?thesis by (cases ?c; cases "fst ?c") auto
qed

section \<open>Caps\<close>

lemma running_mono: "now \<le> t \<Longrightarrow> running t ty js \<le> running now ty js"
  unfolding running_def
  by (rule count_where_mono) (auto simp: lease_live_def split: option.splits)

lemma running_update_le:
  assumes "\<And>j. cond j \<Longrightarrow> job_status (upd j) = Claimed \<Longrightarrow> lease_live t (upd j) \<Longrightarrow>
    job_status j = Claimed \<and> job_type (upd j) = job_type j \<and> lease_live t j"
  shows "running t ty (update_where cond upd js) \<le> running t ty js"
  unfolding running_def using assms by (intro count_where_update_le) auto

lemma running_append_new [simp]:
  "running t ty (js @ [new_job jid now ty' pid o']) = running t ty js"
  by (simp add: running_def count_where_def new_job_def)

lemma under_cap_eligible:
  "eligible c now locked js j \<Longrightarrow> cap_of c (job_type j) = Some k \<Longrightarrow>
   int (running now (job_type j) js) < k"
  by (simp add: eligible_def under_cap_def)

lemma claim_running:
  assumes ok: "queue_ok s" and "now \<le> t" and cap: "cap_of c ty = Some k"
    and le: "int (running t ty (jobs s)) \<le> k"
  shows "int (running t ty (jobs (snd (claim_job c now locked wid dur s)))) \<le> k"
proof (cases "candidate c now locked (jobs s)")
  case None
  with le show ?thesis by (simp add: claim_none)
next
  case (Some j)
  have d: "distinct (map job_id (jobs s))" using ok by (simp add: queue_ok_def)
  note eq = claim_jobs [OF d Some]
  show ?thesis
  proof (cases "job_type j = ty")
    case True
    have "running t ty (jobs (snd (claim_job c now locked wid dur s))) \<le> Suc (running t ty (jobs s))"
      unfolding eq running_def by (rule count_where_update_one [OF d])
    moreover have "int (running now ty (jobs s)) < k"
      using under_cap_eligible [OF claim_candidate(2) [OF Some]] True cap by blast
    ultimately show ?thesis using running_mono [OF assms(2), of ty "jobs s"] by linarith
  next
    case False
    have uniq: "job_id r = job_id j \<longrightarrow> r = j" if "r \<in> set (jobs s)" for r
      using that d claim_candidate(1) [OF Some] by (auto simp: distinct_map inj_on_def)
    have "running t ty (jobs (snd (claim_job c now locked wid dur s))) \<le> running t ty (jobs s)"
      unfolding eq running_def
      using uniq False by (intro count_where_update_le) (auto simp: claim_row_def)
    with le show ?thesis by linarith
  qed
qed

lemma step_running:
  assumes "queue_step c uuid (t, s) (t', s')" and ok: "queue_ok s"
    and cap: "cap_of c ty = Some k" and le: "int (running t ty (jobs s)) \<le> k"
  shows "int (running t' ty (jobs s')) \<le> k"
  using assms(1)
proof cases
  case tick
  then have "running t' ty (jobs s') \<le> running t ty (jobs s)" by (simp add: running_mono)
  with le show ?thesis by linarith
next
  case (claim now locked wid dur)
  with claim_running [OF ok _ cap le] show ?thesis by simp
next
  case (beat jid wid gen dur)
  have "running t ty (jobs s') \<le> running t ty (jobs s)"
    unfolding beat heartbeat_def
    by (simp, rule running_update_le) (simp add: fenced_def heartbeat_row_def)
  with beat le show ?thesis by simp
next
  case (complete jid wid gen)
  have "running t ty (jobs s') \<le> running t ty (jobs s)"
    unfolding complete complete_job_def by (simp, rule running_update_le) (simp add: complete_row_def)
  with complete le show ?thesis by simp
next
  case (trace jid wid gen url)
  have "running t ty (jobs s') \<le> running t ty (jobs s)"
    unfolding trace update_job_trace_url_def
    by (simp, rule running_update_le) (simp add: trace_row_def lease_live_def)
  with trace le show ?thesis by simp
next
  case (resched l avail pl)
  then have "jobs s' = update_where (lease_matches t l) (reschedule_row t avail pl) (jobs s)"
    by (auto simp: reschedule_job_def split: if_splits)
  moreover have "running t ty (update_where (lease_matches t l) (reschedule_row t avail pl) (jobs s))
      \<le> running t ty (jobs s)"
    by (rule running_update_le) (simp add: reschedule_row_def)
  ultimately show ?thesis using resched le by simp
next
  case (failing now r jid wid gen err ex cls)
  have "running t ty (update_where (fenced t jid wid gen) (fail_row now r err ex cls) (jobs s))
      \<le> running t ty (jobs s)"
    by (rule running_update_le) (simp add: fail_row_def split: if_splits)
  with failing le show ?thesis by (simp add: fail_job_jobs)
next
  case (reap now rnd)
  have "running t ty (update_where (stale now) (reap_row now rnd) (jobs s)) \<le> running t ty (jobs s)"
    by (rule running_update_le) (simp add: reap_row_def fail_row_def split: if_splits)
  with reap le show ?thesis by (simp add: reap_jobs)
next
  case (rerun tr locked ev)
  then have "jobs s' = update_where (due tr t locked (jobs s)) (requeue_row t) (jobs s)"
    by (auto simp: requeue_dead_letters_def Let_def split: if_splits)
  moreover have "running t ty (update_where (due tr t locked (jobs s)) (requeue_row t) (jobs s))
      \<le> running t ty (jobs s)"
    by (rule running_update_le) (simp add: requeue_row_def)
  ultimately show ?thesis using rerun le by simp
next
  case (enqueue ty' pid eo)
  with le show ?thesis by (simp add: enqueue_job_tx_def Let_def)
next
  case (enqueue_once ty' pid sid)
  with le show ?thesis by (simp add: enqueue_job_def)
qed

text \<open>
  C2: Along every run of the queue (claims by any number of workers, heartbeats, completions,
  failures, reaping, re-runs, enqueues and the passing of time) the number of live claims in a
  capped lane never exceeds the cap.
\<close>

theorem caps_never_exceeded:
  assumes "(queue_step c uuid)\<^sup>*\<^sup>* (t, s) (t', s')" and "queue_ok s"
    and "cap_of c ty = Some k" and "int (running t ty (jobs s)) \<le> k"
  shows "int (running t' ty (jobs s')) \<le> k"
  using assms
proof (induction rule: rtranclp_induct2)
  case refl
  then show ?case by simp
next
  case (step a b a' b')
  then show ?case using step_running [OF step.hyps(2) run_ok [OF step.hyps(1)]] by blast
qed

theorem caps_never_exceeded_witness:
  "int (running 5 SessionAnalysis (jobs demo_db)) \<le> 2"
  by (rule caps_never_exceeded [of default_caps "\<lambda>n. []" 0 demo_db 5 demo_db SessionAnalysis 2])
    (use demo_ok in \<open>auto simp: cap_of_def default_caps_def demo_db_def demo_job_def running_def
       new_job_def intro!: r_into_rtranclp queue_step.tick\<close>)

section \<open>Fencing\<close>

text \<open>
  C3: Once a job has been claimed again, the worker of the earlier claim can no longer change
  anything: its token is strictly below the new one, and its completion, heartbeat, failure and
  trace update all report that they did nothing and leave the database as it is, after any
  further steps of the queue.
\<close>

theorem stale_worker_changes_nothing:
  assumes "queue_ok s0" and "claim_job c n1 l1 w1 d1 s0 = (Some old, s1)"
    and "(queue_step c uuid)\<^sup>*\<^sup>* (t1, s1) (t2, s2)"
    and "claim_job c n2 l2 w2 d2 s2 = (Some new, s3)" and "cj_id new = cj_id old"
    and "(queue_step c uuid)\<^sup>*\<^sup>* (t3, s3) (t4, s4)"
  shows "cj_lease_generation old < cj_lease_generation new
    \<and> complete_job t4 (cj_id old) w (cj_lease_generation old) s4 = (False, s4)
    \<and> heartbeat t4 (cj_id old) w (cj_lease_generation old) dur s4 = (False, s4)
    \<and> fail_job uuid t4 tx r (cj_id old) w (cj_lease_generation old) err ex cls s4 = ((False, []), s4)
    \<and> update_job_trace_url t4 (cj_id old) w (cj_lease_generation old) url s4 = (False, s4)"
proof -
  have st: "queue_step c uuid (n1, s0) (n1, snd (claim_job c n1 l1 w1 d1 s0))"
    "queue_step c uuid (n2, s2) (n2, snd (claim_job c n2 l2 w2 d2 s2))"
    by (rule queue_step.claim, simp)+
  have ok1: "queue_ok s1" using step_effect [OF st(1) assms(1)] assms(1,2) effect_ok by auto
  have ok2: "queue_ok s2" using run_ok [OF assms(3) ok1] .
  have ok3: "queue_ok s3" using step_effect [OF st(2) ok2] assms(4) ok2 effect_ok by auto
  have ok4: "queue_ok s4" using run_ok [OF assms(6) ok3] .
  have d: "distinct (map job_id (jobs s0))" "distinct (map job_id (jobs s2))"
    "distinct (map job_id (jobs s4))" using assms(1) ok2 ok4 by (simp_all add: queue_ok_def)
  obtain j1 where j1: "job_of s1 (cj_id old) = Some j1" "job_lease_generation j1 = cj_lease_generation old"
    using claim_job_of [OF d(1) assms(2)] by (auto simp: claimed_of_def)
  obtain j2 where j2: "job_of s2 (cj_id old) = Some j2" "cj_lease_generation old \<le> job_lease_generation j2"
    using run_token [OF assms(3) ok1 j1(1)] j1(2) by auto
  obtain j3 where j3: "job_of s3 (cj_id old) = Some j3"
    "job_lease_generation j3 = Suc (job_lease_generation j2)"
    "cj_lease_generation new = Suc (job_lease_generation j2)"
    using claim_job_of [OF d(2) assms(4)] assms(5) j2(1) by (auto simp: claimed_of_def claim_row_def)
  obtain j4 where j4: "job_of s4 (cj_id old) = Some j4" "job_lease_generation j3 \<le> job_lease_generation j4"
    using run_token [OF assms(6) ok3 j3(1)] by auto
  have "job_lease_generation j4 \<noteq> cj_lease_generation old" using j2(2) j3(2) j4(2) by simp
  from stale_token_rejected [OF d(3) j4(1) this] j2(2) j3(3) show ?thesis by simp
qed

definition demo_claimed :: db where
  "demo_claimed = snd (claim_job default_caps 0 (\<lambda>_. False) ''w1'' 10 demo_db)"

lemma demo_claimed_jobs: "jobs demo_claimed = [claim_row 0 ''w1'' 10 demo_job]"
  by (simp add: demo_claimed_def claim_job_def candidate_def demo_db_def demo_job_def new_job_def
      eligible_def under_cap_def cap_of_def dispatchable_def no_options_def)

lemma demo_claimed_ok: "queue_ok demo_claimed"
  by (simp add: queue_ok_def demo_claimed_jobs job_ok_def claim_row_def demo_job_def new_job_def)

text \<open>
  Worker \<open>w1\<close> claims and stalls; the reaper hands the job on; \<open>w2\<close> claims it; \<open>w1\<close> comes back.
\<close>

definition demo_reaped :: db where
  "demo_reaped = snd (requeue_stale_jobs (\<lambda>n. []) 20 20 (\<lambda>_. 1 / 2) demo_claimed)"

definition demo_second :: db where
  "demo_second = snd (claim_job default_caps 40000 (\<lambda>_. False) ''w2'' 10 demo_reaped)"

theorem stale_worker_changes_nothing_witness:
  "complete_job 40000 ''j1'' ''w1'' 1 demo_second = (False, demo_second)"
proof -
  let ?j1 = "claim_row 0 ''w1'' 10 demo_job"
  let ?j2 = "reap_row 20 (\<lambda>_. 1 / 2) ?j1"
  have r: "jobs demo_reaped = [?j2]"
    by (simp add: demo_reaped_def reap_jobs demo_claimed_jobs stale_def claim_row_def)
  have e: "eligible default_caps 40000 (\<lambda>_. False) [?j2] ?j2"
    by (simp add: eligible_def reap_row_def fail_row_def claim_row_def demo_job_def new_job_def
        no_options_def under_cap_def cap_of_def dispatchable_def retry_delay_def
        retry_backoff_base_seconds_def retry_backoff_cap_seconds_def)
  have c1: "claim_job default_caps 0 (\<lambda>_. False) ''w1'' 10 demo_db =
      (Some (claimed_of ''w1'' ?j1), demo_claimed)"
    by (simp add: demo_claimed_def claim_job_def candidate_def demo_db_def demo_job_def new_job_def
        eligible_def under_cap_def cap_of_def dispatchable_def no_options_def)
  have c2: "claim_job default_caps 40000 (\<lambda>_. False) ''w2'' 10 demo_reaped =
      (Some (claimed_of ''w2'' (claim_row 40000 ''w2'' 10 ?j2)), demo_second)"
    by (simp add: demo_second_def claim_job_def candidate_def r e)
  have run: "(queue_step default_caps (\<lambda>n. []))\<^sup>*\<^sup>* (20, demo_claimed) (20, demo_reaped)"
    unfolding demo_reaped_def by (rule r_into_rtranclp, rule queue_step.reap) simp_all
  have "cj_id (claimed_of ''w2'' (claim_row 40000 ''w2'' 10 ?j2)) = cj_id (claimed_of ''w1'' ?j1)"
    by (simp add: claimed_of_def claim_row_def reap_row_def fail_row_def)
  from stale_worker_changes_nothing [OF demo_ok c1 run c2 this, of 40000 40000 demo_second]
  show ?thesis by (simp add: claimed_of_def claim_row_def demo_job_def new_job_def)
qed

section \<open>Bounded work, finished work\<close>

text \<open>
  C4: In every reachable state a job has failed at most as often as its attempt limit plus its
  re-runs allow, it has been re-run at most three times, and a job that is still pending or
  claimed has an execution left.
\<close>

theorem executions_are_bounded:
  assumes "(queue_step c uuid)\<^sup>*\<^sup>* (t, s) (t', s')" and "queue_ok s" and "j \<in> set (jobs s')"
  shows "job_attempts j \<le> job_max_attempts j + job_requeues j
    \<and> job_requeues j \<le> max_dead_letter_requeues
    \<and> (active j \<longrightarrow> job_attempts j < job_max_attempts j + job_requeues j)"
proof -
  from run_ok [OF assms(1,2)] assms(3) have "job_ok j" by (simp add: queue_ok_def list_all_iff)
  then show ?thesis by (cases "job_status j") (simp_all add: job_ok_def active_def)
qed

theorem executions_are_bounded_witness:
  "job_attempts demo_job < job_max_attempts demo_job + job_requeues demo_job"
proof -
  have "demo_job \<in> set (jobs demo_db)" by (simp add: demo_db_def)
  from executions_are_bounded [OF rtranclp.rtrancl_refl demo_ok this]
  show ?thesis by (simp add: demo_job_def new_job_def active_def)
qed

lemma completed_is_final:
  assumes "queue_ok s" and "complete_job t jid wid gen s = (True, s1)"
    and "(queue_step c uuid)\<^sup>*\<^sup>* (t, s1) (t', s')"
  shows "job_of s' jid = job_of s1 jid \<and> map_option job_status (job_of s' jid) = Some Completed"
proof -
  have d: "distinct (map job_id (jobs s))" using assms(1) by (simp add: queue_ok_def)
  from assms(2) have ex: "list_ex (fenced t jid wid gen) (jobs s)"
    and s1: "s1 = s\<lparr>jobs := update_where (fenced t jid wid gen) (complete_row t) (jobs s)\<rparr>"
    by (simp_all add: complete_job_def)
  from ex obtain j where j: "j \<in> set (jobs s)" "fenced t jid wid gen j" by (auto simp: list_ex_iff)
  then have jid: "job_id j = jid" by (simp add: fenced_def)
  have "job_of s jid = Some j" using row_of_distinct [OF d j(1)] jid by simp
  then have of1: "job_of s1 jid = Some (complete_row t j)"
    using j(2) by (simp add: s1 complete_stmt.lookup)
  have ok1: "queue_ok s1" unfolding s1 by (rule complete_stmt.ok [OF assms(1)])
  from run_completed [OF assms(3) ok1 of1] of1 show ?thesis by (simp add: complete_row_def)
qed

section \<open>Back-off\<close>

lemma retry_waits_within_bounds:
  assumes "0 \<le> r" and "r < 1" and "\<not> ex" and "job_attempts j + 1 < job_max_attempts j"
  shows "let j' = fail_row now r err ex cls j; wait = job_available_at j' - now in
    job_status j' = Pending \<and> job_attempts j' = job_attempts j + 1 \<and> job_worker j' = None
    \<and> 1000 * min (15 * 2 ^ job_attempts j) 900 \<le> wait
    \<and> wait \<le> 1000 * min (45 * 2 ^ job_attempts j) 900"
proof -
  let ?x = "30 * 2 ^ job_attempts j * (1 / 2 + r)"
  have "15 * 2 ^ job_attempts j \<le> ?x" "?x \<le> 45 * 2 ^ job_attempts j"
    using mult_left_mono [OF assms(1), of "30 * 2 ^ job_attempts j"]
      mult_left_mono [of r 1 "30 * 2 ^ job_attempts j"] assms(2)
    by (simp_all add: algebra_simps)
  then have "min (15 * 2 ^ job_attempts j) 900 \<le> min ?x 900" "min ?x 900 \<le> min (45 * 2 ^ job_attempts j) 900"
    by (meson min.mono order_refl)+
  moreover have "fail_row now r err ex cls j = j\<lparr>job_attempts := job_attempts j + 1,
      job_last_error := Some err, job_status := Pending, job_worker := None, job_claimed_at := None,
      job_lease_expires := None, job_available_at := now + 1000 * min ?x 900, job_updated_at := now\<rparr>"
    using assms(3,4) by (simp add: fail_row_def retry_delay_def retry_backoff_base_seconds_def
        retry_backoff_cap_seconds_def)
  ultimately show ?thesis by (simp add: Let_def)
qed

end
