(* ===== verification/QueueRecovery.thy ===== *)
theory QueueRecovery
  imports QueueSafety
begin

text \<open>
  Fairness between the lanes of the claim, and what the recovery paths guarantee: the reaper, the
  failure of a session analysis, and the re-run of dead letters (with the case in which one
  project's pair of dead letters keeps every dead letter from running again).
\<close>

section \<open>Lane alternation\<close>

lemma latest_ge: "Some t \<in> set ts \<Longrightarrow> \<exists>u. latest ts = Some u \<and> t \<le> u"
proof (induction ts rule: latest.induct)
  case (3 v ts)
  then show ?case by (cases "latest ts") (auto simp: max_def)
qed simp_all

lemma last_claim_ge:
  assumes "j \<in> set js" and "p j" and "job_claimed_at j = Some t"
  shows "t \<le> last_claim p js"
proof -
  have "Some t \<in> set (map job_claimed_at (filter p js))" using assms by force
  from latest_ge [OF this] show ?thesis by (auto simp: last_claim_def)
qed

lemma last_claim_update_other:
  assumes "\<And>k. k \<in> set js \<Longrightarrow> cond k \<Longrightarrow> \<not> p k \<and> \<not> p (upd k)"
  shows "last_claim p (update_where cond upd js) = last_claim p js"
proof -
  have "filter p (update_where cond upd js) = filter p js"
    using assms by (induction js) auto
  then show ?thesis by (simp add: last_claim_def)
qed

lemma analysis_claimed_after_interactive:
  assumes "queue_ok s" and "claim_job c n1 l1 w1 d1 s = (Some first, s1)"
    and "cj_type first \<noteq> SessionAnalysis"
    and "last_claim (\<lambda>j. job_type j = SessionAnalysis) (jobs s) < n1"
    and "claim_job c n2 l2 w2 d2 s1 = (Some second, s2)"
    and "a \<in> set (jobs s1)" and "job_type a = SessionAnalysis" and "eligible c n2 l2 (jobs s1) a"
  shows "cj_type second = SessionAnalysis \<or> cj_type second = ErrorFix"
proof -
  have d: "distinct (map job_id (jobs s))" using assms(1) by (simp add: queue_ok_def)
  obtain j where j: "candidate c n1 l1 (jobs s) = Some j"
    and j1: "job_of s1 (cj_id first) = Some (claim_row n1 w1 d1 j)"
    and first: "first = claimed_of w1 (claim_row n1 w1 d1 j)"
    using claim_job_of [OF d assms(2)] by blast
  have ty: "job_type j \<noteq> SessionAnalysis"
    using assms(3) by (simp add: first claimed_of_def claim_row_def)
  have s1: "jobs s1 = update_where (\<lambda>k. job_id k = job_id j \<and> job_status k = Pending)
      (claim_row n1 w1 d1) (jobs s)"
    using claim_jobs [OF d j, of w1 d1] assms(2) by simp
  have uniq: "job_id k = job_id j \<longrightarrow> k = j" if "k \<in> set (jobs s)" for k
    using that d claim_candidate(1) [OF j] by (auto simp: distinct_map inj_on_def)
  have "last_claim (\<lambda>k. job_type k = SessionAnalysis) (jobs s1) =
      last_claim (\<lambda>k. job_type k = SessionAnalysis) (jobs s)"
    unfolding s1 using uniq ty by (intro last_claim_update_other) (auto simp: claim_row_def)
  moreover have "n1 \<le> last_claim (\<lambda>k. job_type k \<noteq> SessionAnalysis) (jobs s1)"
    by (rule last_claim_ge [of "claim_row n1 w1 d1 j"])
      (use row_of_SomeD [OF j1] ty in \<open>simp_all add: claim_row_def\<close>)
  ultimately have lane_a: "lane (jobs s1) SessionAnalysis = 1" using assms(4) by (simp add: lane_def)
  have ok1: "queue_ok s1"
    using queue_step.claim [of n1 n1 c "\<lambda>n. []" s l1 w1 d1] step_effect effect_ok assms(1,2) by force
  then have d1: "distinct (map job_id (jobs s1))" by (simp add: queue_ok_def)
  obtain k where k: "candidate c n2 l2 (jobs s1) = Some k"
    "second = claimed_of w2 (claim_row n2 w2 d2 k)"
    using claim_job_of [OF d1 assms(5)] by blast
  have "claim_order (jobs s1) k a"
    using k(1) assms(6,8) claims.pick_min_least unfolding candidate_def by simp
  then have "lane (jobs s1) (job_type k) \<le> 1"
    using assms(7) lane_a by (auto simp: claim_order_def)
  then have "job_type k = SessionAnalysis \<or> job_type k = ErrorFix"
    by (auto simp: lane_def split: if_splits)
  then show ?thesis by (simp add: k(2) claimed_of_def claim_row_def)
qed

definition demo_lanes :: db where
  "demo_lanes = empty_db\<lparr>jobs := [new_job ''f1'' 1 Fix ''p1'' no_options,
     new_job ''f2'' 2 Fix ''p1'' no_options, new_job ''a1'' 3 SessionAnalysis ''p1'' no_options]\<rparr>"

lemmas demo_simps = new_job_def no_options_def claim_job_def candidate_def eligible_def under_cap_def
  cap_of_def dispatchable_def claim_order_def lane_def last_claim_def default_caps_def running_def
  claim_row_def

section \<open>The reaper\<close>

lemma reap_row_not_stale: "\<not> stale now (reap_row now rnd j)"
  by (simp add: stale_def reap_row_def fail_row_def)

lemma reaper_leaves_no_stale_job:
  "case requeue_stale_jobs uuid clk now rnd s of ((n, events), s') \<Rightarrow>
     n = count_where (stale now) (jobs s) \<and> list_all (\<lambda>j. \<not> stale now j) (jobs s')
     \<and> jobs s' = update_where (stale now) (reap_row now rnd) (jobs s)"
proof -
  have "j \<in> set (update_where (stale now) (reap_row now rnd) (jobs s)) \<Longrightarrow> \<not> stale now j" for j
    by (erule update_where_cases) (simp_all add: reap_row_not_stale)
  then show ?thesis
    using reap_jobs [of uuid clk now rnd s]
    by (simp add: list_all_iff requeue_stale_jobs_def Let_def count_where_def)
qed

section \<open>A failed session analysis\<close>

definition exhausts :: "bool \<Rightarrow> job_row \<Rightarrow> bool" where
  "exhausts ex j = (ex \<or> job_max_attempts j \<le> job_attempts j + 1)"

lemma fail_row_status:
  "job_status (fail_row now r err ex cls j) = (if exhausts ex j then DeadLetter else Pending)"
  "job_type (fail_row now r err ex cls j) = job_type j"
  "job_id (fail_row now r err ex cls j) = job_id j"
  "job_project (fail_row now r err ex cls j) = job_project j"
  by (simp_all add: fail_row_def exhausts_def)

lemma fail_job_after:
  assumes "find (fenced clk jid wid gen) (jobs s) = Some j"
  shows "snd (fail_job uuid clk now r jid wid gen err ex cls s) =
    after_failure uuid now err (fail_row now r err ex cls j)
      (s\<lparr>jobs := update_where (fenced clk jid wid gen) (fail_row now r err ex cls) (jobs s)\<rparr>)"
  using assms by (simp add: fail_job_def Let_def)

lemma releasable_cong:
  "signals t = signals s \<Longrightarrow> releasable jid pid t = releasable jid pid s"
  by (simp add: fun_eq_iff releasable_def)

text \<open>
  C5: When failJob dead-letters a session analysis, no signal stays claimed and pending and no
  adjudication generation of the job stays in flight; when it sends the job back for a retry,
  the signals are unchanged and no unfinished generation without signals is kept.
\<close>

theorem failed_analysis_strands_nothing:
  assumes j: "find (fenced clk jid wid gen) (jobs s) = Some j" and ty: "job_type j = SessionAnalysis"
    and s': "s' = snd (fail_job uuid clk now r jid wid gen err ex cls s)"
  shows "if exhausts ex j
    then (\<forall>x \<in> set (signals s'). \<not> claimed_pending jid (job_project j) x)
       \<and> (\<forall>g \<in> set (generations s'). \<not> in_flight jid (job_project j) g)
    else signals s' = signals s
       \<and> (\<forall>g \<in> set (generations s'). \<not> releasable jid (job_project j) s' g)"
proof -
  let ?s1 = "s\<lparr>jobs := update_where (fenced clk jid wid gen) (fail_row now r err ex cls) (jobs s)\<rparr>"
  let ?p = "job_project j"
  have id: "job_id j = jid" using j by (auto simp: find_Some_iff fenced_def)
  show ?thesis
  proof (cases "exhausts ex j")
    case True
    let ?t = "reconcile_dead_lettered uuid now jid ?p ?s1"
    have eq: "signals s' = signals ?t" "generations s' = generations ?t"
      using True ty id by (simp_all add: s' fail_job_after [OF j] after_failure_def fail_row_status)
    have "\<not> claimed_pending jid ?p x" if "x \<in> set (signals s')" for x
      using that unfolding eq reconcile_signals
      by (rule update_where_cases) (simp_all add: uncheck_signal_def claimed_pending_def)
    moreover have "\<not> in_flight jid ?p g" if "g \<in> set (generations s')" for g
      using that unfolding eq by (rule reconcile_no_in_flight)
    ultimately show ?thesis using True by simp
  next
    case False
    let ?t = "snd (release_unfinished_generation jid ?p ?s1)"
    have eq: "s' = ?t"
      using False ty id by (simp add: s' fail_job_after [OF j] after_failure_def fail_row_status)
    have "\<not> releasable jid ?p s' g" if "g \<in> set (generations s')" for g
      using that unfolding eq by (rule release_no_releasable)
    with False show ?thesis by (simp add: eq)
  qed
qed

definition demo_signal :: signal_row where
  "demo_signal = \<lparr>sig_id = ''g1'', sig_project = ''p1'', sig_environment = ''e1'',
     sig_fingerprint = ''fp'', sig_type = ''rage_click'', sig_page = ''/cart'', sig_selector = None,
     sig_adjudication = AdjPending, sig_adjudication_job = Some ''a1'', sig_adjudicated_at = None,
     sig_generation = None, sig_session = ''s1'', sig_end_user = None, sig_occurred_at = 0, sig_occurrences = 1,
     sig_rule_version = 1, sig_observation = None, sig_retracted_at = None, sig_superseded_by = None,
     sig_incident = None, sig_adjudication_attempts = 0, sig_scope = None, sig_model = None,
     sig_prompt_version = None, sig_reason = None\<rparr>"

definition demo_analysis :: db where
  "demo_analysis = empty_db\<lparr>jobs := [claim_row 0 ''w1'' 10 (new_job ''a1'' 0 SessionAnalysis ''p1'' no_options)],
     signals := [demo_signal]\<rparr>"

theorem failed_analysis_strands_nothing_witness:
  "list_all (\<lambda>x. \<not> claimed_pending ''a1'' ''p1'' x)
     (signals (snd (fail_job (\<lambda>n. ''d'') 5 5 0 ''a1'' ''w1'' 1 ''boom'' True None demo_analysis)))"
proof -
  let ?j = "claim_row 0 ''w1'' 10 (new_job ''a1'' 0 SessionAnalysis ''p1'' no_options)"
  have "find (fenced 5 ''a1'' ''w1'' 1) (jobs demo_analysis) = Some ?j" "job_type ?j = SessionAnalysis"
    by (simp_all add: demo_analysis_def fenced_def lease_live_def claim_row_def new_job_def)
  from failed_analysis_strands_nothing [OF this refl, where uuid = "\<lambda>n. ''d''" and now = 5 and r = 0
      and err = "''boom''" and ex = True and cls = None]
  show ?thesis by (simp add: exhausts_def claim_row_def new_job_def list_all_iff)
qed

section \<open>Re-running dead letters\<close>

lemma same_some_sym: "same_some a b = same_some b a"
  by (auto simp: same_some_def)

lemma index_conflict_sym: "index_conflict j k = index_conflict k j"
proof (cases "job_type j = job_type k")
  case True
  have s: "(job_project j = job_project k) = (job_project k = job_project j)"
    "same_some (job_group j) (job_group k) = same_some (job_group k) (job_group j)"
    "same_some (job_ticket j) (job_ticket k) = same_some (job_ticket k) (job_ticket j)"
    "same_some (job_session j) (job_session k) = same_some (job_session k) (job_session j)"
    "same_some (job_episode j) (job_episode k) = same_some (job_episode k) (job_episode j)"
    "same_some (job_run j) (job_run k) = same_some (job_run k) (job_run j)"
    by (rule eq_commute same_some_sym)+
  show ?thesis
    by (cases "job_type k"; simp only: index_conflict_def True job_type.case s; blast)
next
  case False
  then show ?thesis by (simp add: index_conflict_def)
qed

lemma indexes_ok_no_conflict:
  "indexes_ok js \<Longrightarrow> j \<in> set js \<Longrightarrow> k \<in> set js \<Longrightarrow> j \<noteq> k \<Longrightarrow> \<not> index_conflict j k"
proof (induction js)
  case Nil
  then show ?case by simp
next
  case (Cons i js)
  then have "\<not> list_ex (index_conflict i) js" "indexes_ok js" by simp_all
  with Cons show ?case using index_conflict_sym by (auto simp: list_ex_iff)
qed

lemma requeue_spends_one_rerun:
  assumes "requeue_dead_letters t now locked s = Inr (events, s')" and "queue_ok s"
    and "job_of s k = Some j"
  shows "indexes_ok (jobs s')
    \<and> (if due t now locked (jobs s) j
       then \<exists>j'. job_of s' k = Some j' \<and> job_status j' = Pending \<and> job_available_at j' = now
              \<and> job_requeues j' = Suc (job_requeues j) \<and> job_requeues j' \<le> max_dead_letter_requeues
              \<and> job_attempts j' = job_attempts j \<and> requeue_event t j \<in> set events
       else job_of s' k = Some j)"
proof -
  from assms(1) have ok: "indexes_ok (jobs s')"
    and s': "jobs s' = update_where (due t now locked (jobs s)) (requeue_row now) (jobs s)"
    and ev: "events = map (requeue_event t) (filter (due t now locked (jobs s)) (jobs s))"
    by (auto simp: requeue_dead_letters_def Let_def split: if_splits)
  have j: "j \<in> set (jobs s)" using row_of_SomeD [OF assms(3)] by blast
  have of': "job_of s' k = Some (if due t now locked (jobs s) j then requeue_row now j else j)"
    unfolding s' requeue_stmt.lookup assms(3) by simp
  show ?thesis
  proof (cases "due t now locked (jobs s) j")
    case True
    then have "requeue_event t j \<in> set events" using j by (simp add: ev)
    moreover have "job_requeues j < max_dead_letter_requeues" using True by (simp add: due_def)
    ultimately show ?thesis using ok of' True by (simp add: requeue_row_def)
  next
    case False
    with ok of' show ?thesis by simp
  qed
qed

definition dead :: "ident \<Rightarrow> job_type \<Rightarrow> ident \<Rightarrow> job_row" where
  "dead jid ty pid = (new_job jid 0 ty pid no_options)
     \<lparr>job_status := DeadLetter, job_attempts := 1, job_dl_class := Some Config,
      job_dead_lettered_at := Some 0\<rparr>"

lemmas requeue_simps = requeue_dead_letters_def due_def trigger_classes_def dead_letter_age_ok_def
  requeueable_job_types_def boot_requeue_min_age_minutes_def rivals_def active_def dead_def
  new_job_def no_options_def max_dead_letter_requeues_def requeue_row_def index_conflict_def
  same_some_def

definition demo_dead :: db where
  "demo_dead = empty_db\<lparr>jobs := [dead ''d1'' RouteMap ''p1'']\<rparr>"

lemma twin_dead_letters_block_requeue:
  assumes "j \<in> set (jobs s)" and "k \<in> set (jobs s)" and "job_id j \<noteq> job_id k"
    and "due t now locked (jobs s) j" and "due t now locked (jobs s) k"
    and "job_type j = RouteMap \<or> job_type j = ProductContext"
    and "job_type k = job_type j" and "job_project k = job_project j"
  shows "requeue_dead_letters t now locked s = Inl UniqueViolation"
proof -
  let ?js = "update_where (due t now locked (jobs s)) (requeue_row now) (jobs s)"
  have "requeue_row now j \<in> set ?js" "requeue_row now k \<in> set ?js"
    using assms(1,2,4,5) by (auto simp: set_update_where)
  moreover have "job_id (requeue_row now j) \<noteq> job_id (requeue_row now k)"
    using assms(3) by (simp add: requeue_row_def)
  then have "requeue_row now j \<noteq> requeue_row now k" by (rule contrapos_nn) (simp only:)
  moreover have "index_conflict (requeue_row now j) (requeue_row now k)"
    using assms(6-8) by (auto simp: index_conflict_def requeue_row_def active_def)
  ultimately have "\<not> indexes_ok ?js" using indexes_ok_no_conflict by blast
  then show ?thesis by (simp add: requeue_dead_letters_def Let_def)
qed

end
