(* ===== verification/Delivery.thy ===== *)
theory Delivery
  imports JobQueue
begin

text \<open>
  Delivery reservations of \<open>db.ts\<close>: \<open>reserveDelivery\<close> persists the intent before the first write to
  the provider, \<open>recordDeliveryPushed\<close> the pushed head, and \<open>finalizeDelivery\<close> the pull request, the
  issue's status and the watch of its CI run. One reservation belongs to an issue; the table's
  unique constraints reject an insert that repeats a project's operation key or branch.
\<close>

datatype delivery_error =
    DeliveryLeaseLost ident
  | StaleTicketReservation
  | ProjectNotFound ident
  | CannotFinalize ident
  | DeliveryConflict

record delivery_request =
  dr_operation :: string
  dr_branch :: string
  dr_posture :: posture
  dr_hash :: string
  dr_diff :: string

record delivery_reservation =
  dv_operation :: string
  dv_branch :: string
  dv_posture :: posture
  dv_diff :: string
  dv_state :: reservation_state
  dv_head :: "string option"
  dv_pr_url :: "string option"
  dv_pr_number :: "nat option"
  dv_existing :: bool

datatype reserve_result = CapReached | ReservedAs delivery_reservation

section \<open>reserveDelivery\<close>

definition owns_delivery :: "time \<Rightarrow> job_lease \<Rightarrow> ident \<Rightarrow> ident \<Rightarrow> db \<Rightarrow> bool" where
  "owns_delivery now l gid pid s =
     list_ex (\<lambda>j. holds_lease now (ls_id l) (ls_worker l) (ls_generation l) j
                \<and> job_project j = pid \<and> job_group j = Some gid) (jobs s)"

definition ticket_job :: "ident \<Rightarrow> db \<Rightarrow> job_row option" where
  "ticket_job jid s = find (\<lambda>j. job_id j = jid \<and> job_ticket j \<noteq> None) (jobs s)"

text \<open>The join of ticket, issue and attempt a ticket delivery must be current for.\<close>

definition ticket_delivery_current :: "job_row \<Rightarrow> ident \<Rightarrow> ident \<Rightarrow> db \<Rightarrow> bool" where
  "ticket_delivery_current j gid pid s =
     list_ex (\<lambda>t. job_ticket j = Some (tk_id t) \<and> tk_project t = pid \<and> tk_status t = Published
        \<and> job_publication j = Some (tk_live_generation t)
        \<and> list_ex (\<lambda>g. gr_id g = gid \<and> gr_ticket g = Some (tk_id t)
             \<and> gr_publication g = Some (tk_live_generation t) \<and> gr_status g \<noteq> GArchived
             \<and> gr_fix_substate g = Some SubFixing
             \<and> list_ex (\<lambda>a. job_fix_attempt j = Some (at_id a) \<and> at_group a = gid
                  \<and> at_status a = Active) (attempts s)) (issues s)) (tickets s)"

definition fix_operation :: "ident \<Rightarrow> string" where
  "fix_operation aid = ''fix:'' @ aid"

definition same_delivery :: "ident \<Rightarrow> ident \<Rightarrow> reservation_row \<Rightarrow> bool" where
  "same_delivery gid pid r = (rv_group r = gid \<and> rv_project r = pid)"

definition drop_retired :: "ident \<Rightarrow> ident \<Rightarrow> string \<Rightarrow> db \<Rightarrow> db" where
  "drop_retired gid pid op s =
     s\<lparr>reservations := filter (\<lambda>r. \<not> (same_delivery gid pid r \<and> rv_operation r \<noteq> op)) (reservations s)\<rparr>"

definition existing_reservation :: "reservation_row \<Rightarrow> delivery_reservation" where
  "existing_reservation r =
     \<lparr>dv_operation = rv_operation r, dv_branch = rv_branch r, dv_posture = rv_posture r,
      dv_diff = rv_diff r, dv_state = rv_state r, dv_head = truthy_str (rv_head r),
      dv_pr_url = truthy_str (rv_pr_url r), dv_pr_number = truthy_num (rv_pr_number r),
      dv_existing = True\<rparr>"

definition fresh_reservation :: "delivery_request \<Rightarrow> delivery_reservation" where
  "fresh_reservation q =
     \<lparr>dv_operation = dr_operation q, dv_branch = dr_branch q, dv_posture = dr_posture q,
      dv_diff = dr_diff q, dv_state = Reserved, dv_head = None, dv_pr_url = None,
      dv_pr_number = None, dv_existing = False\<rparr>"

definition new_reservation :: "ident \<Rightarrow> ident \<Rightarrow> delivery_request \<Rightarrow> reservation_row" where
  "new_reservation gid pid q =
     \<lparr>rv_group = gid, rv_project = pid, rv_operation = dr_operation q, rv_branch = dr_branch q,
      rv_posture = dr_posture q, rv_diff_hash = dr_hash q, rv_diff = dr_diff q, rv_state = Reserved,
      rv_head = None, rv_pr_url = None, rv_pr_number = None\<rparr>"

text \<open>Drafts of issues without a ticket that count against the project's cap.\<close>

definition counts_as_draft :: "ident \<Rightarrow> db \<Rightarrow> reservation_row \<Rightarrow> bool" where
  "counts_as_draft pid s r =
     (rv_project r = pid \<and> rv_posture r = Draft \<and> rv_state r \<in> {Reserved, Pushed, Open}
      \<and> list_ex (\<lambda>g. gr_id g = rv_group r \<and> gr_ticket g = None) (issues s))"

definition open_drafts :: "ident \<Rightarrow> db \<Rightarrow> nat" where
  "open_drafts pid s = count_where (counts_as_draft pid s) (reservations s)"

definition violates_unique :: "reservation_row \<Rightarrow> reservation_row \<Rightarrow> bool" where
  "violates_unique n r =
     (rv_group r = rv_group n
      \<or> (rv_project r = rv_project n
         \<and> (rv_operation r = rv_operation n \<or> rv_branch r = rv_branch n)))"

definition reserve_new ::
  "ident \<Rightarrow> ident \<Rightarrow> delivery_request \<Rightarrow> bool \<Rightarrow> db \<Rightarrow> delivery_error + reserve_result \<times> db" where
  "reserve_new gid pid q is_ticket s =
     (case find (\<lambda>p. pj_id p = pid) (projects s) of
        None \<Rightarrow> Inl (ProjectNotFound pid)
      | Some p \<Rightarrow>
          if dr_posture q = Draft \<and> \<not> is_ticket \<and> pj_draft_pr_cap p \<le> open_drafts pid s
          then Inr (CapReached, s)
          else if list_ex (violates_unique (new_reservation gid pid q)) (reservations s)
          then Inl DeliveryConflict
          else Inr (ReservedAs (fresh_reservation q),
                    s\<lparr>reservations := reservations s @ [new_reservation gid pid q]\<rparr>))"

definition stale_delivery :: "job_lease \<Rightarrow> ident \<Rightarrow> ident \<Rightarrow> delivery_request \<Rightarrow> db \<Rightarrow> bool" where
  "stale_delivery l gid pid q s =
     (case ticket_job (ls_id l) s of
        None \<Rightarrow> False
      | Some j \<Rightarrow> \<not> ticket_delivery_current j gid pid s
          \<or> dr_operation q \<noteq> fix_operation (case job_fix_attempt j of None \<Rightarrow> ''null'' | Some a \<Rightarrow> a))"

definition without_retired :: "job_lease \<Rightarrow> ident \<Rightarrow> ident \<Rightarrow> delivery_request \<Rightarrow> db \<Rightarrow> db" where
  "without_retired l gid pid q s =
     (if ticket_job (ls_id l) s = None then s else drop_retired gid pid (dr_operation q) s)"

definition reserve_delivery ::
  "time \<Rightarrow> ident \<Rightarrow> ident \<Rightarrow> delivery_request \<Rightarrow> job_lease \<Rightarrow> db \<Rightarrow>
   delivery_error + reserve_result \<times> db" where
  "reserve_delivery clk gid pid q l s =
     (if \<not> owns_delivery clk l gid pid s then Inl (DeliveryLeaseLost (ls_id l))
      else if stale_delivery l gid pid q s then Inl StaleTicketReservation
      else
        let s1 = without_retired l gid pid q s
        in case find (same_delivery gid pid) (reservations s1) of
             Some r \<Rightarrow> Inr (ReservedAs (existing_reservation r), s1)
           | None \<Rightarrow> reserve_new gid pid q (ticket_job (ls_id l) s \<noteq> None) s1)"

section \<open>recordDeliveryPushed\<close>

definition push_row :: "string \<Rightarrow> reservation_row \<Rightarrow> reservation_row" where
  "push_row head r = r\<lparr>rv_state := Pushed, rv_head := Some head\<rparr>"

definition record_delivery_pushed ::
  "time \<Rightarrow> ident \<Rightarrow> ident \<Rightarrow> string \<Rightarrow> job_lease \<Rightarrow> db \<Rightarrow> delivery_error + db" where
  "record_delivery_pushed now gid pid head l s =
     (if owns_delivery now l gid pid s \<and> list_ex (same_delivery gid pid) (reservations s)
      then Inr (s\<lparr>reservations := update_where (same_delivery gid pid) (push_row head) (reservations s)\<rparr>)
      else Inl (DeliveryLeaseLost (ls_id l)))"

section \<open>finalizeDelivery\<close>

record delivery_outcome =
  do_draft :: bool
  do_pr_url :: string
  do_pr_number :: nat
  do_head :: string
  do_confidence :: string
  do_fix_job :: ident
  do_reason :: "reason option"
  do_diff :: "string option"
  do_evidence :: "string option"

definition outcome_status :: "delivery_outcome \<Rightarrow> group_status" where
  "outcome_status d = (if do_draft d then GPrDraft else GPrCreated)"

definition finalize_row :: "time \<Rightarrow> delivery_outcome \<Rightarrow> group_row \<Rightarrow> group_row" where
  "finalize_row now d g =
     g\<lparr>gr_status := outcome_status d, gr_confidence := Some (do_confidence d),
       gr_pr_url := Some (do_pr_url d), gr_pr_number := Some (do_pr_number d),
       gr_pr_fix_job := Some (do_fix_job d), gr_terminal_fix_job := Some (do_fix_job d),
       gr_reason_code := map_option reason_code (do_reason d),
       gr_reason_message := map_option reason_message (do_reason d),
       gr_remediation := map_option remediation (do_reason d),
       gr_candidate_diff := do_diff d, gr_evidence := do_evidence d,
       gr_pr_created_at := or_else (gr_pr_created_at g) (Some now)\<rparr>"

definition open_row :: "delivery_outcome \<Rightarrow> reservation_row \<Rightarrow> reservation_row" where
  "open_row d r =
     r\<lparr>rv_state := Open, rv_head := Some (do_head d), rv_pr_url := Some (do_pr_url d),
       rv_pr_number := Some (do_pr_number d)\<rparr>"

definition watch_payload :: "delivery_outcome \<Rightarrow> string \<Rightarrow> string" where
  "watch_payload d started =
     ''{'' @ json_quote ''prNumber'' @ '':'' @ digits (do_pr_number d) @ '',''
     @ json_quote ''headSha'' @ '':'' @ json_quote (do_head d) @ '',''
     @ json_quote ''watchStartedAt'' @ '':'' @ json_quote started @ ''}''"

definition ci_watch_active :: "ident \<Rightarrow> ident \<Rightarrow> job_row \<Rightarrow> bool" where
  "ci_watch_active gid pid j =
     (job_group j = Some gid \<and> job_project j = pid \<and> job_type j = CiWatch \<and> active j)"

definition start_ci_watch ::
  "(nat \<Rightarrow> ident) \<Rightarrow> time \<Rightarrow> ident \<Rightarrow> ident \<Rightarrow> delivery_outcome \<Rightarrow> string \<Rightarrow> db \<Rightarrow> db" where
  "start_ci_watch uuid now gid pid d started s =
     (if list_ex (ci_watch_active gid pid) (jobs s) then s
      else s\<lparr>jobs := jobs s @ [new_job (uuid (uuids s)) now CiWatch pid
                (no_options\<lparr>eo_group := Some gid, eo_triggered_by := Some Auto,
                            eo_payload := Some (watch_payload d started)\<rparr>)],
             uuids := Suc (uuids s)\<rparr>)"

definition finalizable :: "ident \<Rightarrow> ident \<Rightarrow> group_row \<Rightarrow> bool" where
  "finalizable gid pid g =
     (gr_id g = gid \<and> gr_project g = pid \<and> gr_status g \<in> {GFixing, GPrDraft, GPrCreated})"

text \<open>\<open>started\<close> is the wall clock in ISO notation, as the watch records it.\<close>

definition finalize_delivery ::
  "(nat \<Rightarrow> ident) \<Rightarrow> time \<Rightarrow> string \<Rightarrow> ident \<Rightarrow> ident \<Rightarrow> delivery_outcome \<Rightarrow> job_lease \<Rightarrow> db \<Rightarrow>
   delivery_error + db" where
  "finalize_delivery uuid now started gid pid d l s =
     (if \<not> owns_delivery now l gid pid s then Inl (DeliveryLeaseLost (ls_id l))
      else if \<not> list_ex (finalizable gid pid) (issues s) then Inl (CannotFinalize gid)
      else
        let st = outcome_status d;
            prev = map_option gr_status (find (finalizable gid pid) (issues s));
            payload = (is_triage_terminal st \<longrightarrow> has_triaged_payload gid pid s);
            s1 = s\<lparr>issues := update_where (finalizable gid pid) (finalize_row now d) (issues s)\<rparr>;
            s2 = triaged_outbox pid st prev payload (map_option reason_code (do_reason d)) gid
                   (triaged_dedup_key gid (do_fix_job d)) s1;
            s3 = s2\<lparr>reservations := update_where (same_delivery gid pid) (open_row d) (reservations s2)\<rparr>
        in Inr (if do_draft d then start_ci_watch uuid now gid pid d started s3 else s3))"

section \<open>Reservations\<close>

interpretation push_stmt: keyed_update rv_group "push_row head" for head
  by unfold_locales (simp add: push_row_def)

interpretation open_stmt: keyed_update rv_group "open_row d" for d
  by unfold_locales (simp add: open_row_def)

text \<open>One reservation per issue, and no two of a project share a key or a branch.\<close>

fun reservations_unique :: "reservation_row list \<Rightarrow> bool" where
  "reservations_unique [] = True"
| "reservations_unique (r # rs) = (\<not> list_ex (violates_unique r) rs \<and> reservations_unique rs)"

lemma violates_unique_sym: "violates_unique a b = violates_unique b a"
  by (auto simp: violates_unique_def)

lemma reservations_unique_append:
  "reservations_unique (rs @ [n]) \<longleftrightarrow> reservations_unique rs \<and> \<not> list_ex (violates_unique n) rs"
  by (induction rs) (auto simp: violates_unique_sym list_ex_iff)

lemma reservations_unique_filter: "reservations_unique rs \<Longrightarrow> reservations_unique (filter p rs)"
  by (induction rs) (auto simp: list_ex_iff)

lemma reserve_new_cases:
  assumes "reserve_new gid pid q tk s = Inr (res, t)"
  shows "(res = CapReached \<and> t = s)
    \<or> (res = ReservedAs (fresh_reservation q)
       \<and> t = s\<lparr>reservations := reservations s @ [new_reservation gid pid q]\<rparr>
       \<and> \<not> list_ex (violates_unique (new_reservation gid pid q)) (reservations s)
       \<and> (dr_posture q = Draft \<and> \<not> tk \<longrightarrow>
            (\<exists>p. find (\<lambda>p. pj_id p = pid) (projects s) = Some p
               \<and> open_drafts pid s < pj_draft_pr_cap p)))"
proof (cases "find (\<lambda>p. pj_id p = pid) (projects s)")
  case None
  with assms show ?thesis by (simp add: reserve_new_def)
next
  case (Some p)
  with assms show ?thesis by (simp add: reserve_new_def linorder_not_le split: if_splits) blast+
qed

lemma reserve_delivery_cases:
  assumes "reserve_delivery clk gid pid q l s = Inr (res, t)"
  obtains (existing) r s1 where "s1 = without_retired l gid pid q s"
      "find (same_delivery gid pid) (reservations s1) = Some r"
      "res = ReservedAs (existing_reservation r)" "t = s1"
    | (fresh) s1 where "s1 = without_retired l gid pid q s"
      "find (same_delivery gid pid) (reservations s1) = None"
      "reserve_new gid pid q (ticket_job (ls_id l) s \<noteq> None) s1 = Inr (res, t)"
      "\<forall>j. ticket_job (ls_id l) s = Some j \<longrightarrow> ticket_delivery_current j gid pid s"
proof -
  have own: "owns_delivery clk l gid pid s" and cur: "\<not> stale_delivery l gid pid q s"
    using assms by (auto simp: reserve_delivery_def split: if_splits)
  from cur have tk: "\<forall>j. ticket_job (ls_id l) s = Some j \<longrightarrow> ticket_delivery_current j gid pid s"
    by (auto simp: stale_delivery_def)
  show thesis
  proof (cases "find (same_delivery gid pid) (reservations (without_retired l gid pid q s))")
    case None
    with assms own cur
    have "reserve_new gid pid q (ticket_job (ls_id l) s \<noteq> None) (without_retired l gid pid q s) = Inr (res, t)"
      by (simp add: reserve_delivery_def)
    with None tk show thesis by (intro fresh [OF refl]) simp_all
  next
    case (Some r)
    with assms own cur have "res = ReservedAs (existing_reservation r) \<and> t = without_retired l gid pid q s"
      by (auto simp: reserve_delivery_def)
    with Some show thesis by (intro existing [OF refl]) simp_all
  qed
qed

lemma without_retired_frame [simp]:
  "issues (without_retired l g p q s) = issues s" "projects (without_retired l g p q s) = projects s"
  "jobs (without_retired l g p q s) = jobs s"
  by (simp_all add: without_retired_def drop_retired_def)

lemma without_retired_filter:
  "\<exists>c. reservations (without_retired l g p q s) = filter c (reservations s)"
  by (auto simp: without_retired_def drop_retired_def intro: exI [of _ "\<lambda>_. True"])

lemma reserve_keeps_unique:
  assumes "reserve_delivery clk gid pid q l s = Inr (res, t)" and "reservations_unique (reservations s)"
  shows "reservations_unique (reservations t)"
proof -
  have s1: "reservations_unique (reservations (without_retired l gid pid q s))"
    using assms(2) without_retired_filter [of l gid pid q s] by (auto simp: reservations_unique_filter)
  from assms(1) show ?thesis
  proof (cases rule: reserve_delivery_cases)
    case (existing r s1)
    with s1 show ?thesis by (simp only:)
  next
    case (fresh s1)
    from reserve_new_cases [OF fresh(3)] s1 fresh(1) show ?thesis
      by (auto simp: reservations_unique_append)
  qed
qed

lemma open_drafts_retired_le: "open_drafts pid (without_retired l g p q s) \<le> open_drafts pid s"
proof -
  let ?t = "without_retired l g p q s"
  obtain c where c: "reservations ?t = filter c (reservations s)" using without_retired_filter by blast
  have "counts_as_draft pid ?t = counts_as_draft pid s"
    by (simp add: fun_eq_iff counts_as_draft_def)
  moreover have "count_where d (filter c rs) \<le> count_where d rs" for d and rs :: "reservation_row list"
    by (induction rs) simp_all
  ultimately show ?thesis by (simp add: open_drafts_def c)
qed

lemma open_drafts_append:
  "open_drafts pid (s\<lparr>reservations := reservations s @ [n]\<rparr>)
   = open_drafts pid s + (if counts_as_draft pid s n then 1 else 0)"
proof -
  have "counts_as_draft pid (s\<lparr>reservations := x\<rparr>) = counts_as_draft pid s" for x
    by (simp add: fun_eq_iff counts_as_draft_def)
  then show ?thesis by (simp add: open_drafts_def count_where_def)
qed

lemma ticket_issue_not_draft:
  assumes "ticket_delivery_current j gid pid s" and "distinct (map gr_id (issues s))"
    and "rv_group n = gid"
  shows "\<not> counts_as_draft pid s n"
proof
  assume "counts_as_draft pid s n"
  then obtain g where g: "g \<in> set (issues s)" "gr_id g = gid" "gr_ticket g = None"
    using assms(3) by (auto simp: counts_as_draft_def list_ex_iff)
  from assms(1) obtain h where h: "h \<in> set (issues s)" "gr_id h = gid" "gr_ticket h \<noteq> None"
    by (auto simp: ticket_delivery_current_def list_ex_iff)
  from assms(2) g h have "g = h" by (auto simp: distinct_map inj_on_def)
  with g h show False by simp
qed

text \<open>
  C7: reserveDelivery never lets a project exceed its cap on open draft deliveries: if the cap
  held before the call it holds after it, whether the call reserves, finds a reservation or
  retires one, and a ticket delivery does not count against it.
\<close>

theorem draft_cap_respected:
  assumes "reserve_delivery clk gid pid q l s = Inr (res, t)"
    and "find (\<lambda>p. pj_id p = pid) (projects s) = Some p"
    and "distinct (map gr_id (issues s))"
    and "open_drafts pid s \<le> pj_draft_pr_cap p"
  shows "open_drafts pid t \<le> pj_draft_pr_cap p"
  using assms(1)
proof (cases rule: reserve_delivery_cases)
  case (existing r s1)
  have "open_drafts pid t \<le> open_drafts pid s"
    unfolding existing(4) existing(1) by (rule open_drafts_retired_le)
  from order_trans [OF this assms(4)] show ?thesis .
next
  case (fresh s1)
  have le: "open_drafts pid s1 \<le> open_drafts pid s"
    unfolding fresh(1) by (rule open_drafts_retired_le)
  have frame: "issues s1 = issues s" "projects s1 = projects s" by (simp_all add: fresh(1))
  from reserve_new_cases [OF fresh(3)] consider "t = s1"
    | "t = s1\<lparr>reservations := reservations s1 @ [new_reservation gid pid q]\<rparr>"
      "dr_posture q = Draft \<and> ticket_job (ls_id l) s = None \<longrightarrow> open_drafts pid s1 < pj_draft_pr_cap p"
    using assms(2) frame(2) by auto
  then show ?thesis
  proof cases
    case 1
    from order_trans [OF le assms(4)] show ?thesis by (simp only: 1)
  next
    case 2
    let ?n = "new_reservation gid pid q"
    have "\<not> counts_as_draft pid s1 ?n" if "ticket_job (ls_id l) s = Some j" for j
    proof -
      have "ticket_delivery_current j gid pid s" using fresh(4) that by blast
      then have "\<not> counts_as_draft pid s ?n"
        by (rule ticket_issue_not_draft) (simp_all add: assms(3) new_reservation_def)
      then show ?thesis by (simp add: counts_as_draft_def frame)
    qed
    moreover have "counts_as_draft pid s1 ?n \<Longrightarrow> dr_posture q = Draft"
      by (simp add: counts_as_draft_def new_reservation_def)
    ultimately have "open_drafts pid s1 < pj_draft_pr_cap p" if "counts_as_draft pid s1 ?n"
      using that 2(2) by (cases "ticket_job (ls_id l) s") auto
    then show ?thesis
      using le assms(4) by (simp only: 2(1) open_drafts_append split: if_split) auto
  qed
qed

lemma reservation_is_stable:
  assumes "reserve_delivery clk gid pid q l s = Inr (ReservedAs r, t)"
    and "ticket_job (ls_id l') t = None" and "owns_delivery clk' l' gid pid t"
  shows "\<exists>r'. reserve_delivery clk' gid pid q' l' t = Inr (ReservedAs r', t)
    \<and> dv_existing r' \<and> dv_operation r' = dv_operation r \<and> dv_branch r' = dv_branch r
    \<and> dv_posture r' = dv_posture r \<and> dv_diff r' = dv_diff r \<and> dv_state r' = dv_state r"
proof -
  have again: "reserve_delivery clk' gid pid q' l' t = Inr (ReservedAs (existing_reservation row), t)"
    if "find (same_delivery gid pid) (reservations t) = Some row" for row
    using that assms(2,3) by (simp add: reserve_delivery_def stale_delivery_def without_retired_def)
  from assms(1) show ?thesis
  proof (cases rule: reserve_delivery_cases)
    case (existing row s1)
    then have "find (same_delivery gid pid) (reservations t) = Some row" by (simp only:)
    with again existing(3) show ?thesis by (simp add: existing_reservation_def)
  next
    case (fresh s1)
    from reserve_new_cases [OF fresh(3)]
    have t: "t = s1\<lparr>reservations := reservations s1 @ [new_reservation gid pid q]\<rparr>"
      and r: "r = fresh_reservation q" by auto
    have "find (same_delivery gid pid) (rs @ [n]) = Some n"
      if "find (same_delivery gid pid) rs = None" "same_delivery gid pid n" for rs n
      using that by (induction rs) (auto split: if_splits)
    then have "find (same_delivery gid pid) (reservations t) = Some (new_reservation gid pid q)"
      using fresh(2) by (simp add: t same_delivery_def new_reservation_def)
    with again r show ?thesis
      by (simp add: existing_reservation_def fresh_reservation_def new_reservation_def)
  qed
qed

section \<open>Finalizing\<close>

lemma start_ci_watch_frame [simp]:
  "issues (start_ci_watch uuid now g p d st s) = issues s"
  "reservations (start_ci_watch uuid now g p d st s) = reservations s"
  by (simp_all add: start_ci_watch_def)

lemma start_ci_watch_active:
  "list_ex (ci_watch_active g p) (jobs (start_ci_watch uuid now g p d st s))"
  by (simp add: start_ci_watch_def ci_watch_active_def new_job_def active_def no_options_def)

lemma start_ci_watch_once:
  "count_where (ci_watch_active g p) (jobs s) \<le> 1 \<Longrightarrow>
   count_where (ci_watch_active g p) (jobs (start_ci_watch uuid now g p d st s)) = 1"
  by (auto simp: start_ci_watch_def ci_watch_active_def new_job_def active_def no_options_def
      count_where_def list_ex_iff filter_empty_conv le_Suc_eq)

lemma finalize_opens_delivery:
  assumes fin: "finalize_delivery uuid now started gid pid d l s = Inr t"
    and ids: "distinct (map gr_id (issues s))"
  shows "\<exists>g. issue_of s gid = Some g \<and> gr_status g \<in> {GFixing, GPrDraft, GPrCreated}
      \<and> issue_of t gid = Some (finalize_row now d g)
    \<and> reservations t = update_where (same_delivery gid pid) (open_row d) (reservations s)
    \<and> (do_draft d \<longrightarrow> list_ex (ci_watch_active gid pid) (jobs t))
    \<and> (do_draft d \<longrightarrow> count_where (ci_watch_active gid pid) (jobs s) \<le> 1 \<longrightarrow>
         count_where (ci_watch_active gid pid) (jobs t) = 1)
    \<and> (\<not> do_draft d \<longrightarrow> jobs t = jobs s)"
proof -
  from fin have ex: "list_ex (finalizable gid pid) (issues s)"
    by (auto simp: finalize_delivery_def split: if_splits)
  then obtain g where g: "g \<in> set (issues s)" "finalizable gid pid g" by (auto simp: list_ex_iff)
  have of_s: "issue_of s gid = Some g"
    using row_of_distinct [OF ids g(1)] g(2) by (simp add: finalizable_def)
  define s1 where "s1 = s\<lparr>issues := update_where (finalizable gid pid) (finalize_row now d) (issues s)\<rparr>"
  from fin obtain prev pl rc where t: "t = (let s2 = triaged_outbox pid (outcome_status d) prev pl rc gid
        (triaged_dedup_key gid (do_fix_job d)) s1;
      s3 = s2\<lparr>reservations := update_where (same_delivery gid pid) (open_row d) (reservations s2)\<rparr>
    in if do_draft d then start_ci_watch uuid now gid pid d started s3 else s3)"
    by (auto simp: finalize_delivery_def s1_def Let_def split: if_splits)
  have iss: "issues t = update_where (finalizable gid pid) (finalize_row now d) (issues s)"
    by (simp add: t Let_def s1_def)
  have "issue_of t gid = Some (finalize_row now d g)"
  proof -
    have "gr_id (finalize_row now d h) = gr_id h" for h by (simp add: finalize_row_def)
    then have keyed: "keyed_update gr_id (finalize_row now d)" by unfold_locales
    from keyed_update.lookup [OF keyed] of_s g(2) show ?thesis by (simp add: iss)
  qed
  moreover have "gr_status g \<in> {GFixing, GPrDraft, GPrCreated}" using g(2) by (simp add: finalizable_def)
  moreover have "reservations t = update_where (same_delivery gid pid) (open_row d) (reservations s)"
    by (simp add: t Let_def s1_def)
  moreover have "do_draft d \<longrightarrow> list_ex (ci_watch_active gid pid) (jobs t)"
    by (simp add: t Let_def start_ci_watch_active)
  moreover have "count_where (ci_watch_active gid pid) (jobs t) = 1"
    if "do_draft d" "count_where (ci_watch_active gid pid) (jobs s) \<le> 1"
    using that unfolding t Let_def by (simp add: start_ci_watch_once s1_def)
  moreover have "\<not> do_draft d \<longrightarrow> jobs t = jobs s" by (simp add: t Let_def s1_def)
  ultimately show ?thesis using of_s by blast
qed

section \<open>Witnesses\<close>

definition demo_fix_job :: job_row where
  "demo_fix_job = claim_row 0 ''w1'' 1000 (new_job ''j1'' 0 Fix ''p1'' (no_options\<lparr>eo_group := Some ''i1''\<rparr>))"

definition demo_delivery_db :: db where
  "demo_delivery_db = empty_db\<lparr>jobs := [demo_fix_job], issues := [blank_issue ''i1'' ''p1''],
     projects := [\<lparr>pj_id = ''p1'', pj_auto_fix = True, pj_draft_pr_cap = 1, pj_repo = ''o/r''\<rparr>]\<rparr>"

definition demo_lease :: job_lease where
  "demo_lease = lease_of (claimed_of ''w1'' demo_fix_job)"

definition demo_request :: delivery_request where
  "demo_request = \<lparr>dr_operation = ''fix:i1'', dr_branch = ''opslane/fix-i1'', dr_posture = Draft,
     dr_hash = ''h'', dr_diff = ''d''\<rparr>"

definition demo_reserved :: db where
  "demo_reserved = demo_delivery_db\<lparr>reservations := [new_reservation ''i1'' ''p1'' demo_request]\<rparr>"

lemmas delivery_simps = demo_fix_job_def demo_delivery_db_def demo_lease_def demo_request_def
  demo_reserved_def lease_of_def claimed_of_def claim_row_def new_job_def no_options_def empty_db_def
  owns_delivery_def holds_lease_def ticket_job_def new_reservation_def blank_issue_def

lemma demo_reserve:
  "reserve_delivery 5 ''i1'' ''p1'' demo_request demo_lease demo_delivery_db =
     Inr (ReservedAs (fresh_reservation demo_request), demo_reserved)"
  by (simp add: reserve_delivery_def stale_delivery_def without_retired_def reserve_new_def
      open_drafts_def delivery_simps)

theorem draft_cap_respected_witness: "open_drafts ''p1'' demo_reserved \<le> 1"
proof -
  let ?p = "\<lparr>pj_id = ''p1'', pj_auto_fix = True, pj_draft_pr_cap = 1, pj_repo = ''o/r''\<rparr>"
  have "find (\<lambda>p. pj_id p = ''p1'') (projects demo_delivery_db) = Some ?p"
    "distinct (map gr_id (issues demo_delivery_db))"
    "open_drafts ''p1'' demo_delivery_db \<le> pj_draft_pr_cap ?p"
    by (simp_all add: demo_delivery_db_def empty_db_def open_drafts_def)
  from draft_cap_respected [OF demo_reserve this] show ?thesis by simp
qed

definition demo_outcome :: delivery_outcome where
  "demo_outcome = \<lparr>do_draft = True, do_pr_url = ''u'', do_pr_number = 7, do_head = ''abc'',
     do_confidence = ''medium'', do_fix_job = ''j1'', do_reason = None, do_diff = None,
     do_evidence = None\<rparr>"

end
