(* ===== verification/FixAttempts.thy ===== *)
theory FixAttempts
  imports Delivery
begin

text \<open>
  \<open>friction/fix-attempts.ts\<close>: a ticket's fix from the request to the events of its pull request.
  \<open>requestFix\<close> admits one attempt per published generation, \<open>assertFixAttemptCurrent\<close> is read
  before every write to the provider, \<open>recordAttemptPr\<close> and \<open>applyPrEvent\<close> apply what happened to
  the pull request when, and only when, the attempt is still the current one. Every function is
  one transaction. The signals that verify the ticket's evidence are read from tables outside the
  model and are the argument \<open>confirmed\<close>.
\<close>

section \<open>Coverage of a cause and the cap\<close>

definition cause_coverage_min :: real where "cause_coverage_min = 1 / 2"

definition cause_coverage :: "ident list \<Rightarrow> ident list \<Rightarrow> real" where
  "cause_coverage explained confirmed =
     (let current = dedup confirmed
      in if current \<noteq> []
         then real (length (dedup (filter (\<lambda>i. i \<in> set current) explained))) / real (length current)
         else 0)"

definition max_open_fix_prs :: "string option \<Rightarrow> nat" where
  "max_open_fix_prs env =
     (case integer_value (to_number (case env of None \<Rightarrow> ''5'' | Some v \<Rightarrow> v)) of
        None \<Rightarrow> 5 | Some n \<Rightarrow> if 0 \<le> n then nat n else 5)"

section \<open>requestFix\<close>

datatype fix_request =
    FixCreated ident "ident option"
  | FixNotReady | FixNotFixable | FixStale | FixOutstanding | FixCap | FixDisabled

definition ticket_group :: "ident \<Rightarrow> nat \<Rightarrow> db \<Rightarrow> group_row option" where
  "ticket_group tid gen s =
     find (\<lambda>g. gr_ticket g = Some tid \<and> gr_publication g = Some gen \<and> gr_status g \<noteq> GArchived) (issues s)"

definition outstanding :: "ident \<Rightarrow> nat \<Rightarrow> attempt_row \<Rightarrow> bool" where
  "outstanding tid gen a =
     (at_ticket a = tid \<and> at_generation a = gen \<and> at_status a \<in> {Active, PrOpen})"

definition active_fix :: "ident \<Rightarrow> ident \<Rightarrow> job_row \<Rightarrow> bool" where
  "active_fix gid pid j =
     (job_group j = Some gid \<and> job_project j = pid \<and> job_type j = Fix \<and> active j)"

definition decided_before :: "decision_row \<Rightarrow> decision_row \<Rightarrow> bool" where
  "decided_before a b =
     (dd_decided_at b < dd_decided_at a
      \<or> (dd_decided_at a = dd_decided_at b \<and> str_le (dd_id b) (dd_id a)))"

definition latest_code_fix :: "ident \<Rightarrow> ident \<Rightarrow> db \<Rightarrow> decision_row option" where
  "latest_code_fix gid pid s =
     pick_min decided_before
       (filter (\<lambda>d. dd_group d = gid \<and> dd_project d = pid \<and> dd_code_fix d) (decisions s))"

definition fix_ready :: "group_row \<Rightarrow> decision_row option \<Rightarrow> ident list \<Rightarrow> bool" where
  "fix_ready g d confirmed =
     (gr_investigation_status g = Some ''done''
      \<and> (case gr_root_cause g of None \<Rightarrow> False | Some c \<Rightarrow> trim c \<noteq> [])
      \<and> (case d of None \<Rightarrow> False | Some x \<Rightarrow>
           (case dd_brief x of None \<Rightarrow> False | Some b \<Rightarrow> trim b \<noteq> []))
      \<and> cause_coverage_min \<le> cause_coverage (gr_explained_signals g) confirmed)"

definition project_auto_fix :: "ident \<Rightarrow> db \<Rightarrow> bool" where
  "project_auto_fix pid s = list_ex (\<lambda>p. pj_id p = pid \<and> pj_auto_fix p) (projects s)"

definition in_project :: "ident \<Rightarrow> db \<Rightarrow> attempt_row \<Rightarrow> bool" where
  "in_project pid s a = list_ex (\<lambda>t. tk_id t = at_ticket a \<and> tk_project t = pid) (tickets s)"

definition open_fix_prs :: "ident \<Rightarrow> db \<Rightarrow> nat" where
  "open_fix_prs pid s = count_where (\<lambda>a. in_project pid s a \<and> at_status a = PrOpen) (attempts s)"

definition new_attempt :: "ident \<Rightarrow> ident \<Rightarrow> ident \<Rightarrow> nat \<Rightarrow> trigger \<Rightarrow> attempt_row" where
  "new_attempt aid tid gid gen by_whom =
     \<lparr>at_id = aid, at_ticket = tid, at_group = gid, at_generation = gen, at_status = Active,
      at_requested_by = by_whom, at_pr_url = None, at_pr_number = None, at_repo = None,
      at_delivery_reserved = None\<rparr>"

definition start_fixing :: "group_row \<Rightarrow> group_row" where
  "start_fixing g =
     g\<lparr>gr_fix_substate := Some SubFixing, gr_status := GFixing, gr_terminal_fix_job := None\<rparr>"

definition fix_payload :: "decision_row option \<Rightarrow> string" where
  "fix_payload d =
     ''{'' @ json_quote ''diagnosis'' @ '':''
     @ (case d of None \<Rightarrow> ''null'' | Some x \<Rightarrow> dd_diagnosis x) @ ''}''"

definition create_attempt ::
  "(nat \<Rightarrow> ident) \<Rightarrow> time \<Rightarrow> ident \<Rightarrow> ident \<Rightarrow> nat \<Rightarrow> trigger \<Rightarrow> string option \<Rightarrow> group_row \<Rightarrow>
   decision_row option \<Rightarrow> db \<Rightarrow> fix_request \<times> db" where
  "create_attempt uuid now pid tid gen by_whom guidance g d s =
     (let aid = uuid (uuids s);
          s1 = s\<lparr>attempts := attempts s @ [new_attempt aid tid (gr_id g) gen by_whom],
                 uuids := Suc (uuids s)\<rparr>;
          (jid, s2) = enqueue_job_tx uuid now Fix pid
            (no_options\<lparr>eo_group := Some (gr_id g), eo_source := Some (gr_id g), eo_ticket := Some tid,
               eo_publication := Some gen, eo_fix_attempt := Some aid,
               eo_triggered_by := Some by_whom, eo_guidance := guidance,
               eo_source_job := map_option dd_job d, eo_payload := Some (fix_payload d)\<rparr>) s1
      in (FixCreated aid jid,
          s2\<lparr>issues := update_where (\<lambda>h. gr_id h = gr_id g) start_fixing (issues s2)\<rparr>))"

definition request_fix ::
  "(nat \<Rightarrow> ident) \<Rightarrow> time \<Rightarrow> nat \<Rightarrow> ident list \<Rightarrow> ident \<Rightarrow> ident \<Rightarrow> nat \<Rightarrow> trigger \<Rightarrow> string option \<Rightarrow>
   db \<Rightarrow> fix_request \<times> db" where
  "request_fix uuid now max_prs confirmed pid tid gen by_whom guidance s =
     (case get_ticket pid tid s of
        None \<Rightarrow> (FixStale, s)
      | Some t \<Rightarrow>
          if tk_status t \<noteq> Published \<or> tk_live_generation t \<noteq> gen then (FixStale, s)
          else if tk_kind t \<noteq> Defect then (FixNotFixable, s)
          else (case ticket_group tid gen s of
             None \<Rightarrow> (FixStale, s)
           | Some g \<Rightarrow>
               if gr_fix_substate g = Some SubResolved then (FixStale, s)
               else if list_ex (outstanding tid gen) (attempts s) then (FixOutstanding, s)
               else if list_ex (active_fix (gr_id g) pid) (jobs s) then (FixOutstanding, s)
               else
                 let d = latest_code_fix (gr_id g) pid s
                 in if \<not> fix_ready g d confirmed then (FixNotReady, s)
                    else if by_whom = Auto \<and> \<not> project_auto_fix pid s then (FixDisabled, s)
                    else if by_whom = Auto \<and> max_prs \<le> open_fix_prs pid s then (FixCap, s)
                    else create_attempt uuid now pid tid gen by_whom guidance g d s))"

section \<open>applyPrEvent\<close>

definition fix_event_current ::
  "ticket_status \<Rightarrow> nat \<Rightarrow> nat \<Rightarrow> nat \<Rightarrow> group_status \<Rightarrow> fix_substate option \<Rightarrow> attempt_status \<Rightarrow>
   pr_event_kind \<Rightarrow> bool" where
  "fix_event_current ts live gen agen gs sub ast ev =
     (ts = Published \<and> live = gen \<and> agen = gen \<and> gs \<noteq> GArchived \<and> sub \<noteq> Some SubResolved
      \<and> ast \<in> {Active, PrOpen} \<and> ev \<noteq> PrOrphan)"

record pr_event =
  ev_ticket :: ident
  ev_group :: ident
  ev_generation :: nat
  ev_attempt :: ident
  ev_kind :: pr_event_kind
  ev_delivery :: string
  ev_occurred_at :: time
  ev_url :: "string option"
  ev_number :: "nat option"
  ev_repo :: "string option"

definition event_row :: "pr_event \<Rightarrow> pr_event_row" where
  "event_row e =
     \<lparr>pe_ticket = ev_ticket e, pe_group = ev_group e, pe_attempt = ev_attempt e,
      pe_generation = ev_generation e, pe_event = ev_kind e, pe_delivery = ev_delivery e,
      pe_occurred_at = ev_occurred_at e, pe_url = ev_url e, pe_number = ev_number e,
      pe_repo = ev_repo e, pe_applied = False, pe_processed_at = None\<rparr>"

text \<open>The attempt joined with its issue.\<close>

definition event_state :: "ident \<Rightarrow> pr_event \<Rightarrow> db \<Rightarrow> (group_row \<times> attempt_row) option" where
  "event_state pid e s =
     (case find (\<lambda>a. at_id a = ev_attempt e \<and> at_ticket a = ev_ticket e \<and> at_group a = ev_group e)
        (attempts s) of
        None \<Rightarrow> None
      | Some a \<Rightarrow>
          (case find (\<lambda>g. gr_id g = ev_group e \<and> gr_project g = pid) (issues s) of
             None \<Rightarrow> None | Some g \<Rightarrow> Some (g, a)))"

definition attempt_status_after :: "pr_event_kind \<Rightarrow> attempt_status" where
  "attempt_status_after k =
     (case k of PrOpened \<Rightarrow> PrOpen | PrMerged \<Rightarrow> AttemptMerged | _ \<Rightarrow> AttemptClosed)"

definition substate_after :: "pr_event_kind \<Rightarrow> fix_substate" where
  "substate_after k = (case k of PrOpened \<Rightarrow> SubPrOpen | PrMerged \<Rightarrow> SubResolved | _ \<Rightarrow> SubNone)"

definition group_status_after :: "pr_event_kind \<Rightarrow> group_status" where
  "group_status_after k = (case k of PrOpened \<Rightarrow> GPrCreated | PrMerged \<Rightarrow> GMerged | _ \<Rightarrow> GAwaitingApproval)"

definition attempt_after :: "pr_event \<Rightarrow> attempt_status \<Rightarrow> attempt_row \<Rightarrow> attempt_row" where
  "attempt_after e st a =
     a\<lparr>at_status := st, at_pr_url := or_else (ev_url e) (at_pr_url a),
       at_pr_number := or_else (ev_number e) (at_pr_number a),
       at_repo := or_else (ev_repo e) (at_repo a)\<rparr>"

definition group_after :: "pr_event \<Rightarrow> group_row \<Rightarrow> group_row" where
  "group_after e g =
     (let sub = substate_after (ev_kind e)
      in g\<lparr>gr_fix_substate := Some sub, gr_status := group_status_after (ev_kind e),
           gr_pr_url := (if sub = SubNone then None else or_else (ev_url e) (gr_pr_url g)),
           gr_pr_number := (if sub = SubNone then None else or_else (ev_number e) (gr_pr_number g)),
           gr_merged_at := (if sub = SubResolved then Some (ev_occurred_at e) else gr_merged_at g)\<rparr>)"

definition apply_current :: "ident \<Rightarrow> ticket_row \<Rightarrow> pr_event \<Rightarrow> db \<Rightarrow> db" where
  "apply_current pid t e s =
     (let s1 = s\<lparr>attempts := update_where (\<lambda>a. at_id a = ev_attempt e)
                   (attempt_after e (attempt_status_after (ev_kind e))) (attempts s),
                 issues := update_where (\<lambda>g. gr_id g = ev_group e) (group_after e) (issues s)\<rparr>;
          s2 = (if ev_kind e \<noteq> PrOpened
                then s1\<lparr>reservations := update_where
                        (\<lambda>r. rv_project r = pid \<and> rv_group r = ev_group e
                           \<and> rv_operation r = fix_operation (ev_attempt e))
                        (\<lambda>r. r\<lparr>rv_state := Closed\<rparr>) (reservations s1)\<rparr>
                else s1)
      in if ev_kind e = PrMerged
         then s2\<lparr>tickets := update_where (\<lambda>u. tk_id u = tk_id t)
                (\<lambda>u. u\<lparr>tk_fixed_at := Some (ev_occurred_at e),
                      tk_cohort_cutoff := Some (ev_occurred_at e)\<rparr>) (tickets s2)\<rparr>
         else s2)"

definition supersede_orphan :: "pr_event \<Rightarrow> db \<Rightarrow> db" where
  "supersede_orphan e s =
     s\<lparr>attempts := update_where (\<lambda>a. at_id a = ev_attempt e \<and> at_ticket a = ev_ticket e)
         (\<lambda>a. attempt_after e (if at_status a \<in> {Active, PrOpen} then Superseded else at_status a) a)
         (attempts s)\<rparr>"

definition mark_processed :: "time \<Rightarrow> string \<Rightarrow> bool \<Rightarrow> db \<Rightarrow> db" where
  "mark_processed now did applied s =
     s\<lparr>pr_events := update_where (\<lambda>x. pe_delivery x = did)
         (\<lambda>x. x\<lparr>pe_applied := applied, pe_processed_at := Some now\<rparr>) (pr_events s)\<rparr>"

definition retired_lineage :: "ticket_row \<Rightarrow> (group_row \<times> attempt_row) option \<Rightarrow> bool" where
  "retired_lineage t st =
     (case st of None \<Rightarrow> False
      | Some (g, a) \<Rightarrow> tk_status t \<noteq> Published \<or> at_generation a \<noteq> tk_live_generation t
          \<or> gr_status g = GArchived)"

definition apply_fresh :: "time \<Rightarrow> ident \<Rightarrow> ticket_row \<Rightarrow> pr_event \<Rightarrow> db \<Rightarrow> bool \<times> db" where
  "apply_fresh now pid t e s =
     (let st = event_state pid e s;
          current = (case st of None \<Rightarrow> False
            | Some (g, a) \<Rightarrow> fix_event_current (tk_status t) (tk_live_generation t) (ev_generation e)
                (at_generation a) (gr_status g) (gr_fix_substate g) (at_status a) (ev_kind e));
          s1 = (if current then apply_current pid t e s
                else if ev_kind e = PrOrphan \<and> retired_lineage t st then supersede_orphan e s
                else s)
      in (current, mark_processed now (ev_delivery e) current s1))"

definition apply_pr_event :: "time \<Rightarrow> ident \<Rightarrow> pr_event \<Rightarrow> db \<Rightarrow> bool \<times> db" where
  "apply_pr_event now pid e s =
     (case get_ticket pid (ev_ticket e) s of
        None \<Rightarrow> (False, s)
      | Some t \<Rightarrow>
          (case find (\<lambda>x. pe_delivery x = ev_delivery e) (pr_events s) of
             Some x \<Rightarrow> if pe_processed_at x \<noteq> None then (False, s) else apply_fresh now pid t e s
           | None \<Rightarrow> apply_fresh now pid t e (s\<lparr>pr_events := pr_events s @ [event_row e]\<rparr>)))"

section \<open>assertFixAttemptCurrent\<close>

datatype attempt_error =
    AttemptLeaseLost ident | StaleAttempt | AutoFixDisabled | AutoFixCapReached | MissingPrIdentity

definition owns_job :: "time \<Rightarrow> claimed_job \<Rightarrow> db \<Rightarrow> bool" where
  "owns_job clk c s =
     list_ex (\<lambda>j. fenced clk (cj_id c) (cj_worker c) (cj_lease_generation c) j) (jobs s)"

definition lock_job :: "time \<Rightarrow> claimed_job \<Rightarrow> db \<Rightarrow> attempt_error + unit" where
  "lock_job clk c s =
     (if list_ex (\<lambda>j. fenced clk (cj_id c) (cj_worker c) (cj_lease_generation c) j
                  \<and> job_project j = cj_project c) (jobs s)
      then Inr () else Inl (AttemptLeaseLost (cj_id c)))"

definition fixing_attempt :: "claimed_job \<Rightarrow> db \<Rightarrow> attempt_row option" where
  "fixing_attempt c s =
     find (\<lambda>a. cj_fix_attempt c = Some (at_id a) \<and> cj_ticket c = Some (at_ticket a)
             \<and> cj_publication c = Some (at_generation a)
             \<and> list_ex (\<lambda>g. cj_group c = Some (gr_id g) \<and> gr_id g = at_group a
                          \<and> gr_project g = cj_project c \<and> gr_status g \<noteq> GArchived
                          \<and> gr_fix_substate g = Some SubFixing) (issues s)) (attempts s)"

definition holds_slot :: "ident \<Rightarrow> db \<Rightarrow> attempt_row \<Rightarrow> bool" where
  "holds_slot pid s a =
     (in_project pid s a
      \<and> (at_status a = PrOpen \<or> (at_status a = Active \<and> at_delivery_reserved a \<noteq> None)))"

definition slots_taken :: "ident \<Rightarrow> db \<Rightarrow> nat" where
  "slots_taken pid s = count_where (holds_slot pid s) (attempts s)"

definition reserve_slot :: "time \<Rightarrow> attempt_row \<Rightarrow> attempt_row" where
  "reserve_slot now a = a\<lparr>at_delivery_reserved := Some now\<rparr>"

definition admit_delivery ::
  "time \<Rightarrow> nat \<Rightarrow> claimed_job \<Rightarrow> attempt_row \<Rightarrow> db \<Rightarrow> attempt_error + db" where
  "admit_delivery now max_prs c a s =
     (if \<not> project_auto_fix (cj_project c) s then Inl AutoFixDisabled
      else if at_delivery_reserved a \<noteq> None then Inr s
      else if max_prs \<le> slots_taken (cj_project c) s then Inl AutoFixCapReached
      else Inr (s\<lparr>attempts := update_where (\<lambda>b. cj_fix_attempt c = Some (at_id b))
                   (reserve_slot now) (attempts s)\<rparr>))"

text \<open>The second \<open>lockJob\<close>, at the end of the transaction, reads the clock again.\<close>

definition lock_again :: "time \<Rightarrow> claimed_job \<Rightarrow> attempt_error + db \<Rightarrow> attempt_error + db" where
  "lock_again clk c r =
     (case r of Inl e \<Rightarrow> Inl e
      | Inr s \<Rightarrow> (case lock_job clk c s of Inl e \<Rightarrow> Inl e | Inr _ \<Rightarrow> Inr s))"

definition assert_fix_attempt_current ::
  "time \<Rightarrow> time \<Rightarrow> time \<Rightarrow> nat \<Rightarrow> claimed_job \<Rightarrow> bool \<Rightarrow> db \<Rightarrow> attempt_error + db" where
  "assert_fix_attempt_current clk clk_end now max_prs c delivery s =
     (case lock_job clk c s of
        Inl e \<Rightarrow> Inl e
      | Inr _ \<Rightarrow>
          let ticket = (case cj_ticket c of None \<Rightarrow> None | Some tid \<Rightarrow> get_ticket (cj_project c) tid s)
          in case (ticket, fixing_attempt c s) of
               (Some t, Some a) \<Rightarrow>
                 if tk_kind t \<noteq> Defect \<or> tk_status t \<noteq> Published
                    \<or> cj_publication c \<noteq> Some (tk_live_generation t) \<or> at_status a \<noteq> Active
                 then Inl StaleAttempt
                 else lock_again clk_end c
                   (if delivery \<and> at_requested_by a = Auto then admit_delivery now max_prs c a s
                    else Inr s)
             | _ \<Rightarrow> Inl StaleAttempt)"

section \<open>recordAttemptPr\<close>

definition attempt_is_current :: "time \<Rightarrow> claimed_job \<Rightarrow> db \<Rightarrow> bool" where
  "attempt_is_current clk c s =
     (owns_job clk c s
      \<and> list_ex (\<lambda>t. cj_ticket c = Some (tk_id t) \<and> tk_project t = cj_project c
           \<and> tk_status t = Published \<and> cj_publication c = Some (tk_live_generation t)
           \<and> list_ex (\<lambda>g. gr_ticket g = Some (tk_id t) \<and> gr_publication g = Some (tk_live_generation t)
                \<and> cj_group c = Some (gr_id g) \<and> gr_status g \<noteq> GArchived
                \<and> gr_fix_substate g \<in> {Some SubFixing, Some SubPrOpen}
                \<and> list_ex (\<lambda>a. at_group a = gr_id g \<and> cj_fix_attempt c = Some (at_id a)
                     \<and> at_status a \<in> {Active, PrOpen}) (attempts s)) (issues s)) (tickets s))"

definition pr_delivery_id :: "claimed_job \<Rightarrow> nat \<Rightarrow> string" where
  "pr_delivery_id c n =
     ''worker:'' @ cj_id c @ '':'' @ digits (cj_lease_generation c) @ '':'' @ digits n"

definition stamp_pr_job :: "time \<Rightarrow> ident \<Rightarrow> group_row \<Rightarrow> group_row" where
  "stamp_pr_job now jid g =
     g\<lparr>gr_terminal_fix_job := Some jid, gr_pr_fix_job := Some jid,
       gr_pr_created_at := or_else (gr_pr_created_at g) (Some now)\<rparr>"

definition open_attempt_delivery :: "string \<Rightarrow> nat \<Rightarrow> reservation_row \<Rightarrow> reservation_row" where
  "open_attempt_delivery url n r = r\<lparr>rv_state := Open, rv_pr_url := Some url, rv_pr_number := Some n\<rparr>"

definition record_attempt_pr ::
  "time \<Rightarrow> time \<Rightarrow> claimed_job \<Rightarrow> string \<Rightarrow> string \<Rightarrow> nat \<Rightarrow> db \<Rightarrow> attempt_error + bool \<times> db" where
  "record_attempt_pr clk now c repo url n s =
     (case (cj_ticket c, cj_publication c, cj_fix_attempt c, cj_group c) of
        (Some tid, Some gen, Some aid, Some gid) \<Rightarrow>
          let e = \<lparr>ev_ticket = tid, ev_group = gid, ev_generation = gen, ev_attempt = aid,
                   ev_kind = (if owns_job clk c s \<and> attempt_is_current clk c s then PrOpened else PrOrphan),
                   ev_delivery = pr_delivery_id c n, ev_occurred_at = clk, ev_url = Some url,
                   ev_number = Some n, ev_repo = Some repo\<rparr>;
              (applied, s1) = apply_pr_event now (cj_project c) e s
          in Inr (applied,
               if applied
               then s1\<lparr>issues := update_where (\<lambda>g. gr_id g = gid) (stamp_pr_job now (cj_id c)) (issues s1),
                      reservations := update_where
                        (\<lambda>r. rv_group r = gid \<and> rv_project r = cj_project c \<and> rv_operation r = fix_operation aid)
                        (open_attempt_delivery url n) (reservations s1)\<rparr>
               else s1)
      | _ \<Rightarrow> Inl MissingPrIdentity)"

end
