(* ===== verification/FixSafety.thy ===== *)
theory FixSafety
  imports FixAttempts
begin

text \<open>
  What the functions of \<open>FixAttempts\<close> guarantee: one outstanding attempt per published generation,
  pull-request events applied at most once and never to a retired generation, and the cap on
  automatic deliveries. The last section shows the order of calls in which a delivery that is
  open is written back to pushed.
\<close>

section \<open>Coverage\<close>

text \<open>C0: coverage.\<close>

theorem cause_coverage_is_a_share:
  "0 \<le> cause_coverage explained confirmed \<and> cause_coverage explained confirmed \<le> 1
   \<and> (confirmed \<noteq> [] \<and> set confirmed \<subseteq> set explained \<longleftrightarrow> cause_coverage explained confirmed = 1)"
proof -
  let ?cur = "dedup confirmed"
  let ?hit = "dedup (filter (\<lambda>i. i \<in> set ?cur) explained)"
  have sub: "set ?hit \<subseteq> set ?cur" by auto
  have card: "length ?hit = card (set ?hit)" "length ?cur = card (set ?cur)"
    by (simp_all only: distinct_card distinct_dedup)
  have le: "length ?hit \<le> length ?cur" unfolding card by (rule card_mono [OF _ sub]) simp
  have eq: "length ?hit = length ?cur \<longleftrightarrow> set confirmed \<subseteq> set explained"
  proof
    assume "length ?hit = length ?cur"
    then have "set ?hit = set ?cur" unfolding card by (intro card_subset_eq sub) simp
    then show "set confirmed \<subseteq> set explained" by auto
  next
    assume "set confirmed \<subseteq> set explained"
    then have "set ?hit = set ?cur" by auto
    then show "length ?hit = length ?cur" unfolding card by (simp only:)
  qed
  show ?thesis
  proof (cases confirmed)
    case Nil
    then show ?thesis by (simp add: cause_coverage_def)
  next
    case (Cons c cs)
    then have pos: "0 < length ?cur" by simp
    then have cov: "cause_coverage explained confirmed = real (length ?hit) / real (length ?cur)"
      by (auto simp: cause_coverage_def Let_def)
    have "confirmed \<noteq> []" using Cons by simp
    with pos le eq show ?thesis unfolding cov by auto
  qed
qed

section \<open>One outstanding attempt per generation\<close>

definition attempts_ok :: "db \<Rightarrow> bool" where
  "attempts_ok s =
     (distinct (map at_id (attempts s))
      \<and> (\<forall>tid gen. count_where (outstanding tid gen) (attempts s) \<le> 1))"

lemma count_where_append [simp]: "count_where p (xs @ ys) = count_where p xs + count_where p ys"
  by (simp add: count_where_def)

lemma count_where_zero: "\<not> list_ex p xs \<Longrightarrow> count_where p xs = 0"
  by (simp add: count_where_def list_ex_iff filter_empty_conv)

lemma enqueue_frame [simp]:
  "attempts (snd (enqueue_job_tx u now ty p o' s)) = attempts s"
  "issues (snd (enqueue_job_tx u now ty p o' s)) = issues s"
  "tickets (snd (enqueue_job_tx u now ty p o' s)) = tickets s"
  by (simp_all add: enqueue_job_tx_def Let_def)

lemma create_attempt_attempts:
  "attempts (snd (create_attempt uuid now pid tid gen by_whom gd g d s)) =
   attempts s @ [new_attempt (uuid (uuids s)) tid (gr_id g) gen by_whom]"
  by (simp add: create_attempt_def Let_def case_prod_unfold)

lemma create_attempt_fst:
  "\<exists>jid. fst (create_attempt uuid now pid tid gen by_whom gd g d s) = FixCreated (uuid (uuids s)) jid"
  by (simp add: create_attempt_def Let_def case_prod_unfold)

lemma create_attempt_issues:
  "issues (snd (create_attempt uuid now pid tid gen by_whom gd g d s)) =
   update_where (\<lambda>h. gr_id h = gr_id g) start_fixing (issues s)"
  by (simp add: create_attempt_def Let_def case_prod_unfold)

text \<open>Every refusal leaves the database alone; a creation has passed every guard.\<close>

lemma request_fix_cases:
  obtains (refused) r where "request_fix uuid now mx cf pid tid gen by_whom gd s = (r, s)"
      "\<forall>aid jid. r \<noteq> FixCreated aid jid"
    | (created) t g where "get_ticket pid tid s = Some t" "tk_status t = Published"
      "tk_live_generation t = gen" "tk_kind t = Defect" "ticket_group tid gen s = Some g"
      "gr_fix_substate g \<noteq> Some SubResolved" "\<not> list_ex (outstanding tid gen) (attempts s)"
      "fix_ready g (latest_code_fix (gr_id g) pid s) cf"
      "by_whom = Auto \<longrightarrow> project_auto_fix pid s \<and> open_fix_prs pid s < mx"
      "request_fix uuid now mx cf pid tid gen by_whom gd s =
        create_attempt uuid now pid tid gen by_whom gd g (latest_code_fix (gr_id g) pid s) s"
proof (cases "get_ticket pid tid s")
  case None
  then show thesis by (intro refused [of FixStale]) (simp_all add: request_fix_def)
next
  case (Some t)
  note t = this
  show thesis
  proof (cases "tk_status t \<noteq> Published \<or> tk_live_generation t \<noteq> gen")
    case True
    with t show thesis by (intro refused [of FixStale]) (simp_all add: request_fix_def)
  next
    case live: False
    show thesis
    proof (cases "tk_kind t = Defect")
      case False
      with t live show thesis by (intro refused [of FixNotFixable]) (simp_all add: request_fix_def)
    next
      case kind: True
      show thesis
      proof (cases "ticket_group tid gen s")
        case None
        with t live kind show thesis by (intro refused [of FixStale]) (simp_all add: request_fix_def)
      next
        case (Some g)
        let ?d = "latest_code_fix (gr_id g) pid s"
        have eq: "request_fix uuid now mx cf pid tid gen by_whom gd s =
            (if gr_fix_substate g = Some SubResolved then (FixStale, s)
             else if list_ex (outstanding tid gen) (attempts s) then (FixOutstanding, s)
             else if list_ex (active_fix (gr_id g) pid) (jobs s) then (FixOutstanding, s)
             else if \<not> fix_ready g ?d cf then (FixNotReady, s)
             else if by_whom = Auto \<and> \<not> project_auto_fix pid s then (FixDisabled, s)
             else if by_whom = Auto \<and> mx \<le> open_fix_prs pid s then (FixCap, s)
             else create_attempt uuid now pid tid gen by_whom gd g ?d s)"
          using t live kind Some by (simp add: request_fix_def)
        show thesis
        proof (cases "\<exists>r. request_fix uuid now mx cf pid tid gen by_whom gd s = (r, s)
            \<and> (\<forall>aid jid. r \<noteq> FixCreated aid jid)")
          case True
          then show thesis using refused by blast
        next
          case False
          with eq have g: "gr_fix_substate g \<noteq> Some SubResolved"
            "\<not> list_ex (outstanding tid gen) (attempts s)" "fix_ready g ?d cf"
            "\<not> (by_whom = Auto \<and> \<not> project_auto_fix pid s)" "\<not> (by_whom = Auto \<and> mx \<le> open_fix_prs pid s)"
            "\<not> list_ex (active_fix (gr_id g) pid) (jobs s)"
            by (auto split: if_splits)
          with eq have "request_fix uuid now mx cf pid tid gen by_whom gd s =
              create_attempt uuid now pid tid gen by_whom gd g ?d s" by simp
          with t live kind Some g show thesis by (intro created) auto
        qed
      qed
    qed
  qed
qed

text \<open>
  C8: requestFix creates an attempt only for a published defect of the live generation whose
  cause explains at least half of the verified evidence, with no outstanding attempt and, when
  automatic, with the setting on and a pull request to spare; afterwards exactly one attempt of
  the generation is outstanding. Every refusal leaves the database as it is.
\<close>

theorem fix_request_admits_one:
  assumes "request_fix uuid now mx cf pid tid gen by_whom gd s = (r, s')"
  shows "case r of
      FixCreated aid jid \<Rightarrow> (\<exists>t g. get_ticket pid tid s = Some t \<and> tk_status t = Published
          \<and> tk_live_generation t = gen \<and> tk_kind t = Defect \<and> ticket_group tid gen s = Some g
          \<and> cause_coverage_min \<le> cause_coverage (gr_explained_signals g) cf
          \<and> issues s' = update_where (\<lambda>h. gr_id h = gr_id g) start_fixing (issues s))
        \<and> count_where (outstanding tid gen) (attempts s) = 0
        \<and> count_where (outstanding tid gen) (attempts s') = 1
        \<and> (by_whom = Auto \<longrightarrow> project_auto_fix pid s \<and> open_fix_prs pid s < mx)
    | _ \<Rightarrow> s' = s"
proof (cases rule: request_fix_cases [of uuid now mx cf pid tid gen by_whom gd s])
  case (refused r0)
  with assms show ?thesis by (auto split: fix_request.splits)
next
  case (created t g)
  let ?c = "create_attempt uuid now pid tid gen by_whom gd g (latest_code_fix (gr_id g) pid s) s"
  from assms created(10) have r: "r = fst ?c" "s' = snd ?c" by simp_all
  obtain jid where jid: "r = FixCreated (uuid (uuids s)) jid" using create_attempt_fst r(1) by metis
  have none: "count_where (outstanding tid gen) (attempts s) = 0"
    by (rule count_where_zero) (rule created(7))
  have one: "count_where (outstanding tid gen) (attempts s') = 1"
    by (simp add: r(2) create_attempt_attempts none) (simp add: outstanding_def new_attempt_def)
  have iss: "issues s' = update_where (\<lambda>h. gr_id h = gr_id g) start_fixing (issues s)"
    by (simp add: r(2) create_attempt_issues)
  have cov: "cause_coverage_min \<le> cause_coverage (gr_explained_signals g) cf"
    using created(8) by (simp add: fix_ready_def)
  show ?thesis
    unfolding jid fix_request.case using created(1-5,9) none one iss cov by blast
qed

lemma request_fix_attempts_ok:
  assumes "attempts_ok s" and "uuid (uuids s) \<notin> at_id ` set (attempts s)"
  shows "attempts_ok (snd (request_fix uuid now mx cf pid tid gen by_whom gd s))"
proof (cases rule: request_fix_cases [of uuid now mx cf pid tid gen by_whom gd s])
  case (refused r)
  with assms show ?thesis by simp
next
  case (created t g)
  have att: "attempts (snd (request_fix uuid now mx cf pid tid gen by_whom gd s)) =
      attempts s @ [new_attempt (uuid (uuids s)) tid (gr_id g) gen by_whom]"
    by (simp add: created(10) create_attempt_attempts)
  have "count_where (outstanding tid gen) (attempts s) = 0"
    by (rule count_where_zero) (rule created(7))
  moreover have "outstanding tid' gen' (new_attempt aid tid gid gen by_whom) \<Longrightarrow> tid' = tid \<and> gen' = gen"
    for tid' gen' aid gid by (simp add: outstanding_def new_attempt_def)
  ultimately have "count_where (outstanding tid' gen')
      (attempts s @ [new_attempt (uuid (uuids s)) tid (gr_id g) gen by_whom]) \<le> 1" for tid' gen'
    using assms(1) by (cases "tid' = tid \<and> gen' = gen") (auto simp: attempts_ok_def)
  moreover have "distinct (map at_id (attempts s @ [new_attempt (uuid (uuids s)) tid (gr_id g) gen by_whom]))"
    using assms by (simp add: attempts_ok_def new_attempt_def)
  ultimately show ?thesis by (simp only: attempts_ok_def att) blast
qed

section \<open>Pull-request events\<close>

lemma mark_processed_frame [simp]:
  "issues (mark_processed now did b s) = issues s" "tickets (mark_processed now did b s) = tickets s"
  "attempts (mark_processed now did b s) = attempts s" "jobs (mark_processed now did b s) = jobs s"
  "reservations (mark_processed now did b s) = reservations s"
  "projects (mark_processed now did b s) = projects s"
  by (simp_all add: mark_processed_def)

lemma supersede_frame [simp]:
  "issues (supersede_orphan e s) = issues s" "tickets (supersede_orphan e s) = tickets s"
  "jobs (supersede_orphan e s) = jobs s" "reservations (supersede_orphan e s) = reservations s"
  "pr_events (supersede_orphan e s) = pr_events s" "projects (supersede_orphan e s) = projects s"
  by (simp_all add: supersede_orphan_def)

lemma apply_current_frame [simp]:
  "jobs (apply_current pid t e s) = jobs s" "pr_events (apply_current pid t e s) = pr_events s"
  "projects (apply_current pid t e s) = projects s"
  "issues (apply_current pid t e s) = update_where (\<lambda>g. gr_id g = ev_group e) (group_after e) (issues s)"
  "attempts (apply_current pid t e s) = update_where (\<lambda>a. at_id a = ev_attempt e)
     (attempt_after e (attempt_status_after (ev_kind e))) (attempts s)"
  by (simp_all add: apply_current_def Let_def)

lemma status_after [simp]:
  "gr_status (group_after e g) = group_status_after (ev_kind e)" "at_status (attempt_after e st a) = st"
  by (simp_all add: group_after_def attempt_after_def Let_def)

lemma find_update_keyed:
  assumes "\<And>r. key (f r) = key r"
  shows "find (\<lambda>r. key r = k) (update_where (\<lambda>r. p r) f rs) =
    map_option (\<lambda>r. if p r then f r else r) (find (\<lambda>r. key r = k) rs)"
  by (induction rs) (simp_all add: assms)

lemma find_ticket_update:
  assumes "\<And>r. tk_id (f r) = tk_id r \<and> tk_project (f r) = tk_project r"
  shows "find (\<lambda>t. tk_id t = u \<and> tk_project t = q) (update_where p f ts) = None \<longleftrightarrow>
    find (\<lambda>t. tk_id t = u \<and> tk_project t = q) ts = None"
proof -
  have "list_ex (\<lambda>t. tk_id t = u \<and> tk_project t = q) (update_where p f ts) \<longleftrightarrow>
      list_ex (\<lambda>t. tk_id t = u \<and> tk_project t = q) ts"
    by (induction ts) (simp_all add: assms)
  then show ?thesis by (simp add: find_None_iff list_ex_iff) blast
qed

lemma get_ticket_apply_current:
  "get_ticket q u (apply_current pid t e s) = None \<longleftrightarrow> get_ticket q u s = None"
  by (simp add: get_ticket_def apply_current_def Let_def find_ticket_update)

lemma find_processed:
  "list_ex (\<lambda>x. pe_delivery x = did) (pr_events s) \<Longrightarrow>
   \<exists>x. find (\<lambda>x. pe_delivery x = did) (pr_events (mark_processed now did b s)) = Some x
     \<and> pe_processed_at x = Some now"
proof -
  have "list_ex (\<lambda>x. pe_delivery x = did) xs \<Longrightarrow>
      \<exists>x. find (\<lambda>x. pe_delivery x = did) (update_where (\<lambda>x. pe_delivery x = did)
         (\<lambda>x. x\<lparr>pe_applied := b, pe_processed_at := Some now\<rparr>) xs) = Some x
       \<and> pe_processed_at x = Some now" for xs
    by (induction xs) auto
  then show "list_ex (\<lambda>x. pe_delivery x = did) (pr_events s) \<Longrightarrow> ?thesis"
    by (simp add: mark_processed_def)
qed

lemma apply_fresh_done:
  assumes "apply_fresh now pid t e s = (b, s')"
    and "list_ex (\<lambda>x. pe_delivery x = ev_delivery e) (pr_events s)"
  shows "\<exists>x. find (\<lambda>x. pe_delivery x = ev_delivery e) (pr_events s') = Some x
     \<and> pe_processed_at x = Some now"
  using assms by (auto simp: apply_fresh_def Let_def intro!: find_processed)

lemma apply_fresh_ticket:
  assumes "apply_fresh now pid t e s = (b, s')"
  shows "get_ticket q u s' = None \<longleftrightarrow> get_ticket q u s = None"
proof -
  from assms have "tickets s' = tickets s \<or> tickets s' = tickets (apply_current pid t e s)"
    by (auto simp: apply_fresh_def Let_def)
  then show ?thesis
  proof
    assume "tickets s' = tickets s"
    then show ?thesis by (simp only: get_ticket_def)
  next
    assume "tickets s' = tickets (apply_current pid t e s)"
    then have "get_ticket q u s' = get_ticket q u (apply_current pid t e s)" by (simp only: get_ticket_def)
    then show ?thesis by (simp only: get_ticket_apply_current)
  qed
qed

text \<open>The event of a known ticket is applied to the row that the insert found or wrote.\<close>

lemma apply_pr_event_cases:
  assumes "apply_pr_event now pid e s = (b, s')"
  obtains (unknown) "get_ticket pid (ev_ticket e) s = None" "b = False" "s' = s"
    | (seen) x where "get_ticket pid (ev_ticket e) s \<noteq> None"
        "find (\<lambda>x. pe_delivery x = ev_delivery e) (pr_events s) = Some x"
        "pe_processed_at x \<noteq> None" "b = False" "s' = s"
    | (fresh) t es where "get_ticket pid (ev_ticket e) s = Some t"
        "list_ex (\<lambda>x. pe_delivery x = ev_delivery e) es"
        "apply_fresh now pid t e (s\<lparr>pr_events := es\<rparr>) = (b, s')"
proof (cases "get_ticket pid (ev_ticket e) s")
  case None
  with assms show thesis by (intro unknown) (auto simp: apply_pr_event_def)
next
  case (Some t)
  show thesis
  proof (cases "find (\<lambda>x. pe_delivery x = ev_delivery e) (pr_events s)")
    case None
    with assms Some show thesis
      by (intro fresh [of t "pr_events s @ [event_row e]"]) (auto simp: apply_pr_event_def event_row_def)
  next
    case (Some x)
    note x = this
    show thesis
    proof (cases "pe_processed_at x = None")
      case True
      have "list_ex (\<lambda>x. pe_delivery x = ev_delivery e) (pr_events s)"
        using x by (auto simp: find_Some_iff list_ex_iff intro: nth_mem)
      then show thesis using assms x True \<open>get_ticket pid (ev_ticket e) s = Some t\<close>
        by (intro fresh [of t "pr_events s"]) (auto simp: apply_pr_event_def)
    next
      case False
      then show thesis using assms x \<open>get_ticket pid (ev_ticket e) s = Some t\<close>
        by (intro seen [of x]) (auto simp: apply_pr_event_def)
    qed
  qed
qed

lemma recorded_event_skipped:
  assumes "get_ticket pid (ev_ticket e) s \<noteq> None"
    and "\<exists>x. find (\<lambda>x. pe_delivery x = ev_delivery e) (pr_events s) = Some x \<and> pe_processed_at x \<noteq> None"
  shows "apply_pr_event now pid e s = (False, s)"
  using assms by (auto simp: apply_pr_event_def)

lemma applied_event_recorded:
  assumes "apply_fresh now pid t e (s\<lparr>pr_events := es\<rparr>) = (b, s')"
    and "get_ticket pid (ev_ticket e) s \<noteq> None" "list_ex (\<lambda>x. pe_delivery x = ev_delivery e) es"
  shows "get_ticket pid (ev_ticket e) s' \<noteq> None"
    and "\<exists>x. find (\<lambda>x. pe_delivery x = ev_delivery e) (pr_events s') = Some x \<and> pe_processed_at x \<noteq> None"
proof -
  show "get_ticket pid (ev_ticket e) s' \<noteq> None"
    unfolding apply_fresh_ticket [OF assms(1)] using assms(2) by (simp add: get_ticket_def)
  show "\<exists>x. find (\<lambda>x. pe_delivery x = ev_delivery e) (pr_events s') = Some x \<and> pe_processed_at x \<noteq> None"
    using apply_fresh_done [OF assms(1)] assms(3) by auto
qed

text \<open>
  C9: A pull-request delivery is applied at most once: after an event has been handled, any
  event with the same delivery id for the same ticket is reported as not applied and changes
  nothing.
\<close>

theorem pr_event_applied_once:
  assumes "apply_pr_event now pid e s = (b, s')"
    and "ev_delivery e' = ev_delivery e" "ev_ticket e' = ev_ticket e"
  shows "apply_pr_event now' pid e' s' = (False, s')"
  using assms(1)
proof (cases rule: apply_pr_event_cases)
  case unknown
  with assms show ?thesis by (simp add: apply_pr_event_def)
next
  case (seen x)
  then show ?thesis by (intro recorded_event_skipped) (auto simp: assms)
next
  case (fresh t es)
  then have "get_ticket pid (ev_ticket e) s \<noteq> None" by simp
  from applied_event_recorded [OF fresh(3) this fresh(2)] show ?thesis
    by (intro recorded_event_skipped) (simp_all add: assms)
qed

lemma pr_event_respects_lineage:
  assumes "apply_pr_event now pid e s = (b, s')"
  shows "(b \<longrightarrow> (\<exists>t g a. get_ticket pid (ev_ticket e) s = Some t \<and> event_state pid e s = Some (g, a)
        \<and> tk_status t = Published \<and> tk_live_generation t = ev_generation e
        \<and> at_generation a = ev_generation e \<and> at_status a \<in> {Active, PrOpen}
        \<and> gr_status g \<noteq> GArchived \<and> gr_fix_substate g \<noteq> Some SubResolved \<and> ev_kind e \<noteq> PrOrphan)
      \<and> issues s' = update_where (\<lambda>g. gr_id g = ev_group e) (group_after e) (issues s)
      \<and> attempts s' = update_where (\<lambda>a. at_id a = ev_attempt e)
          (attempt_after e (attempt_status_after (ev_kind e))) (attempts s))
    \<and> (\<not> b \<longrightarrow> issues s' = issues s \<and> tickets s' = tickets s \<and> reservations s' = reservations s
        \<and> (ev_kind e \<noteq> PrOrphan \<longrightarrow> attempts s' = attempts s))
    \<and> jobs s' = jobs s \<and> projects s' = projects s"
  using assms
proof (cases rule: apply_pr_event_cases)
  case (fresh t es)
  let ?s = "s\<lparr>pr_events := es\<rparr>"
  have st: "event_state pid e ?s = event_state pid e s"
    by (simp add: event_state_def cong: option.case_cong)
  show ?thesis
  proof (cases b)
    case True
    with fresh(3) obtain g a where ga: "event_state pid e s = Some (g, a)"
      "fix_event_current (tk_status t) (tk_live_generation t) (ev_generation e)
         (at_generation a) (gr_status g) (gr_fix_substate g) (at_status a) (ev_kind e)"
      by (auto simp: apply_fresh_def Let_def st split: option.splits)
    with True fresh(3) have s': "s' = mark_processed now (ev_delivery e) True (apply_current pid t e ?s)"
      by (simp add: apply_fresh_def Let_def st)
    from ga(2) have "tk_status t = Published" "tk_live_generation t = ev_generation e"
      "at_generation a = ev_generation e" "at_status a \<in> {Active, PrOpen}"
      "gr_status g \<noteq> GArchived" "gr_fix_substate g \<noteq> Some SubResolved" "ev_kind e \<noteq> PrOrphan"
      by (simp_all add: fix_event_current_def)
    with True ga(1) fresh(1) show ?thesis
      by (intro conjI impI) (simp_all add: s')
  next
    case False
    with fresh(3) have "s' = mark_processed now (ev_delivery e) False
        (if ev_kind e = PrOrphan \<and> retired_lineage t (event_state pid e ?s) then supersede_orphan e ?s else ?s)"
      by (auto simp: apply_fresh_def Let_def split: option.splits)
    with False show ?thesis by simp
  qed
qed simp_all

section \<open>The cap on automatic deliveries\<close>

lemma slots_taken_reserve_le:
  assumes "distinct (map at_id (attempts s))"
  shows "slots_taken pid (s\<lparr>attempts := update_where (\<lambda>b. cj_fix_attempt c = Some (at_id b))
     (reserve_slot now) (attempts s)\<rparr>) \<le> Suc (slots_taken pid s)"
proof -
  have holds: "holds_slot pid (s\<lparr>attempts := x\<rparr>) = holds_slot pid s" for x
    by (simp add: fun_eq_iff holds_slot_def in_project_def)
  show ?thesis
  proof (cases "cj_fix_attempt c")
    case None
    then show ?thesis by (simp add: slots_taken_def holds update_where_no_match list_ex_iff)
  next
    case (Some k)
    have eq: "(\<lambda>b. cj_fix_attempt c = Some (at_id b)) = (\<lambda>b. at_id b = k)" by (auto simp: Some)
    show ?thesis
      using count_where_update_one [OF assms, of "holds_slot pid s" k "\<lambda>_. True" "reserve_slot now"]
      by (simp add: slots_taken_def holds eq)
  qed
qed

lemma find_attempt_SomeD: "find p xs = Some a \<Longrightarrow> a \<in> set xs \<and> p a"
  by (auto simp: find_Some_iff)

lemma auto_delivery_holds_slot:
  assumes "assert_fix_attempt_current clk clk' now mx c delivery s = Inr s'"
    and "distinct (map at_id (attempts s))"
  shows "slots_taken (cj_project c) s' \<le> max mx (slots_taken (cj_project c) s)
    \<and> jobs s' = jobs s \<and> issues s' = issues s \<and> tickets s' = tickets s
    \<and> (\<exists>a. fixing_attempt c s = Some a \<and> at_status a = Active
         \<and> (delivery \<and> at_requested_by a = Auto \<longrightarrow> project_auto_fix (cj_project c) s
              \<and> list_ex (\<lambda>b. at_id b = at_id a \<and> holds_slot (cj_project c) s' b) (attempts s')))"
proof -
  from assms(1) obtain t a tid where ta: "cj_ticket c = Some tid" "get_ticket (cj_project c) tid s = Some t"
    "fixing_attempt c s = Some a" "at_status a = Active"
    and body: "(if delivery \<and> at_requested_by a = Auto then
         (if \<not> project_auto_fix (cj_project c) s then Inl AutoFixDisabled
          else if at_delivery_reserved a \<noteq> None then Inr s
          else if mx \<le> slots_taken (cj_project c) s then Inl AutoFixCapReached
          else Inr (s\<lparr>attempts := update_where (\<lambda>b. cj_fix_attempt c = Some (at_id b))
                       (reserve_slot now) (attempts s)\<rparr>))
       else Inr s) = Inr s'"
    by (auto simp: assert_fix_attempt_current_def admit_delivery_def lock_again_def Let_def
        split: sum.splits option.splits if_splits)
  from find_attempt_SomeD [OF ta(3) [unfolded fixing_attempt_def]]
  have a: "a \<in> set (attempts s)" "cj_fix_attempt c = Some (at_id a)" "at_ticket a = tid"
    using ta(1) by auto
  have proj: "in_project (cj_project c) s a"
    using ta(2) a(3) by (auto simp: get_ticket_def in_project_def list_ex_iff dest: find_attempt_SomeD
        simp: find_Some_iff)
  show ?thesis
  proof (cases "delivery \<and> at_requested_by a = Auto \<and> at_delivery_reserved a = None")
    case False
    with body have s': "s' = s" and on: "delivery \<and> at_requested_by a = Auto \<longrightarrow> project_auto_fix (cj_project c) s"
      by (auto split: if_splits)
    have "delivery \<and> at_requested_by a = Auto \<longrightarrow> holds_slot (cj_project c) s a"
      using False proj ta(4) by (auto simp: holds_slot_def)
    with ta(3,4) on a(1) show ?thesis by (auto simp: s' list_ex_iff)
  next
    case True
    with body have on: "project_auto_fix (cj_project c) s" and room: "slots_taken (cj_project c) s < mx"
      and s': "s' = s\<lparr>attempts := update_where (\<lambda>b. cj_fix_attempt c = Some (at_id b))
                       (reserve_slot now) (attempts s)\<rparr>" by (auto split: if_splits)
    have "slots_taken (cj_project c) s' \<le> Suc (slots_taken (cj_project c) s)"
      unfolding s' by (rule slots_taken_reserve_le) (rule assms(2))
    moreover have "reserve_slot now a \<in> set (attempts s')"
      using a(1,2) by (force simp: s' set_update_where)
    moreover have "holds_slot (cj_project c) s' (reserve_slot now a)"
      using proj ta(4) by (simp add: holds_slot_def in_project_def reserve_slot_def s')
    ultimately show ?thesis using ta(3,4) on room
      by (auto simp: s' list_ex_iff reserve_slot_def intro!: bexI [of _ "reserve_slot now a"])
  qed
qed

section \<open>An open delivery written back to pushed\<close>

lemma open_delivery_regresses:
  assumes "record_attempt_pr clk now c repo url n s = Inr (True, s1)"
    and "record_delivery_pushed now' gid pid head l s1 = Inr s2"
  shows "list_ex (\<lambda>r. same_delivery gid pid r \<and> rv_state r = Pushed) (reservations s2)
    \<and> record_attempt_pr clk' now'' c repo url n s2 = Inr (False, s2)"
proof -
  obtain tid gen aid g where id: "cj_ticket c = Some tid" "cj_publication c = Some gen"
    "cj_fix_attempt c = Some aid" "cj_group c = Some g"
    using assms(1) by (auto simp: record_attempt_pr_def split: option.splits)
  define e where "e = (\<lambda>k t. \<lparr>ev_ticket = tid, ev_group = g, ev_generation = gen, ev_attempt = aid,
      ev_kind = k, ev_delivery = pr_delivery_id c n, ev_occurred_at = t, ev_url = Some url,
      ev_number = Some n, ev_repo = Some repo\<rparr>)"
  from assms(1) id obtain k u where app: "apply_pr_event now (cj_project c) (e k clk) s = (True, u)"
    and s1: "pr_events s1 = pr_events u" "tickets s1 = tickets u"
    by (auto simp: record_attempt_pr_def Let_def e_def split: prod.splits if_splits)
  have ev: "ev_delivery (e j t) = pr_delivery_id c n" "ev_ticket (e j t) = tid" for j t
    by (simp_all add: e_def)
  from assms(2) have ex: "list_ex (same_delivery gid pid) (reservations s1)"
    and s2: "s2 = s1\<lparr>reservations := update_where (same_delivery gid pid) (push_row head) (reservations s1)\<rparr>"
    by (auto simp: record_delivery_pushed_def split: if_splits)
  from app have rec: "get_ticket (cj_project c) tid u \<noteq> None
    \<and> (\<exists>x. find (\<lambda>x. pe_delivery x = pr_delivery_id c n) (pr_events u) = Some x \<and> pe_processed_at x \<noteq> None)"
  proof (cases rule: apply_pr_event_cases)
    case (fresh t es)
    then have "get_ticket (cj_project c) (ev_ticket (e k clk)) s \<noteq> None" by simp
    from applied_event_recorded [OF fresh(3) this fresh(2)] show ?thesis by (simp only: ev) blast
  qed simp_all
  have "apply_pr_event now'' (cj_project c) (e j clk') s2 = (False, s2)" for j
    using rec by (intro recorded_event_skipped) (simp_all add: ev s2 s1 get_ticket_def)
  then have "record_attempt_pr clk' now'' c repo url n s2 = Inr (False, s2)"
    by (simp add: record_attempt_pr_def id e_def)
  moreover have "list_ex (\<lambda>r. same_delivery gid pid r \<and> rv_state r = Pushed) (reservations s2)"
  proof -
    have "list_ex q rs \<Longrightarrow> (\<And>r. q r \<Longrightarrow> p (f r)) \<Longrightarrow> list_ex p (update_where q f rs)" for q p f rs
      by (induction rs) auto
    from this [OF ex] show ?thesis by (simp add: s2 same_delivery_def push_row_def)
  qed
  ultimately show ?thesis by blast
qed

section \<open>Witnesses\<close>

definition fix_ticket :: ticket_row where
  "fix_ticket = \<lparr>tk_id = ''t1'', tk_project = ''p1'', tk_environment = ''e1'',
     tk_status = Published, tk_kind = Defect, tk_live_generation = 1, tk_evidence_version = 1,
     tk_fixed_at = None, tk_cohort_cutoff = None, tk_reconcile_needed = False,
     tk_reinvestigate_needed = False, tk_name = [], tk_control = [], tk_what_happened = [], tk_steps = None,
     tk_screens_confirmed = [], tk_screens_proposed = [], tk_embedding = None, tk_embedding_model = None,
     tk_matched = 0, tk_next_arrival = 0, tk_arrival_boundary = 0, tk_fold_retries = 0, tk_merged_into = None\<rparr>"

definition fix_issue :: group_row where
  "fix_issue = (blank_issue ''i1'' ''p1'')\<lparr>gr_status := GAwaitingApproval, gr_ticket := Some ''t1'',
     gr_publication := Some 1, gr_investigation_status := Some ''done'',
     gr_root_cause := Some ''cause'', gr_explained_signals := [''c1'']\<rparr>"

definition fix_decision :: decision_row where
  "fix_decision = \<lparr>dd_id = ''d1'', dd_job = ''j0'', dd_group = ''i1'', dd_project = ''p1'',
     dd_code_fix = True, dd_decided_at = 1, dd_brief = Some ''b'', dd_diagnosis = ''{}''\<rparr>"

definition fix_db :: db where
  "fix_db = empty_db\<lparr>tickets := [fix_ticket], issues := [fix_issue], decisions := [fix_decision],
     projects := [\<lparr>pj_id = ''p1'', pj_auto_fix = True, pj_draft_pr_cap = 1, pj_repo = ''o/r''\<rparr>]\<rparr>"

definition fix_claim :: claimed_job where
  "fix_claim = (claimed_of ''w1'' demo_fix_job)\<lparr>cj_ticket := Some ''t1'', cj_publication := Some 1,
     cj_fix_attempt := Some ''a1''\<rparr>"

definition fixing_db :: db where
  "fixing_db = fix_db\<lparr>issues := [start_fixing fix_issue],
     attempts := [new_attempt ''a1'' ''t1'' ''i1'' 1 Auto], jobs := [demo_fix_job],
     reservations := [new_reservation ''i1'' ''p1'' (demo_request\<lparr>dr_operation := ''fix:a1''\<rparr>)]\<rparr>"

lemmas fix_simps = fix_ticket_def fix_issue_def fix_decision_def fix_db_def fix_claim_def
  fixing_db_def delivery_simps start_fixing_def new_attempt_def get_ticket_def

lemma fix_words: "trim_right (trim_left ''cause'') \<noteq> []" "trim_right (trim_left ''b'') \<noteq> []"
  by code_simp+

lemma demo_request_fix:
  "fst (request_fix (\<lambda>n. replicate (Suc n) (CHR ''u'')) 5 1 [''c1''] ''p1'' ''t1'' 1 Auto None fix_db) =
     FixCreated ''u'' (Some ''uu'')"
  by (simp add: request_fix_def ticket_group_def latest_code_fix_def fix_ready_def cause_coverage_def
      cause_coverage_min_def project_auto_fix_def open_fix_prs_def create_attempt_def
      enqueue_job_tx_def Let_def trim_def fix_words fix_simps)

theorem fix_request_admits_one_witness:
  "\<exists>s'. request_fix (\<lambda>n. replicate (Suc n) (CHR ''u'')) 5 1 [''c1''] ''p1'' ''t1'' 1 Auto None fix_db =
       (FixCreated ''u'' (Some ''uu''), s')
     \<and> count_where (outstanding ''t1'' 1) (attempts s') = 1"
proof -
  obtain s' where s': "request_fix (\<lambda>n. replicate (Suc n) (CHR ''u'')) 5 1 [''c1''] ''p1'' ''t1'' 1 Auto None fix_db =
      (FixCreated ''u'' (Some ''uu''), s')"
    using demo_request_fix by (metis prod.collapse)
  from fix_request_admits_one [OF this] s' show ?thesis by simp
qed

definition demo_merge :: pr_event where
  "demo_merge = \<lparr>ev_ticket = ''t1'', ev_group = ''i1'', ev_generation = 1, ev_attempt = ''a1'',
     ev_kind = PrMerged, ev_delivery = ''d9'', ev_occurred_at = 7, ev_url = None,
     ev_number = Some 7, ev_repo = None\<rparr>"

lemma demo_merge_applied: "fst (apply_pr_event 8 ''p1'' demo_merge fixing_db)"
  by (simp add: apply_pr_event_def apply_fresh_def event_state_def fix_event_current_def Let_def
      demo_merge_def fix_simps)

theorem pr_event_applied_once_witness:
  "\<exists>s'. apply_pr_event 8 ''p1'' demo_merge fixing_db = (True, s')
     \<and> apply_pr_event 9 ''p1'' (demo_merge\<lparr>ev_kind := PrClosed\<rparr>) s' = (False, s')"
proof -
  obtain s' where s': "apply_pr_event 8 ''p1'' demo_merge fixing_db = (True, s')"
    using demo_merge_applied by (metis prod.collapse)
  then show ?thesis
    using pr_event_applied_once [OF s', of "demo_merge\<lparr>ev_kind := PrClosed\<rparr>" 9] by simp
qed

lemma demo_rows:
  "issues fixing_db = [start_fixing fix_issue]"
  "attempts fixing_db = [new_attempt ''a1'' ''t1'' ''i1'' 1 Auto]"
  by (simp_all add: fixing_db_def)

lemma demo_assert: "\<exists>s'. assert_fix_attempt_current 5 6 5 1 fix_claim True fixing_db = Inr s'"
  by (simp add: assert_fix_attempt_current_def admit_delivery_def lock_again_def lock_job_def fixing_attempt_def fenced_def lease_live_def
      project_auto_fix_def slots_taken_def holds_slot_def Let_def fix_simps)

lemma demo_record:
  "\<exists>s1. record_attempt_pr 5 5 fix_claim ''o/r'' ''u'' 7 fixing_db = Inr (True, s1)
     \<and> list_ex (same_delivery ''i1'' ''p1'') (reservations s1) \<and> owns_delivery 6 demo_lease ''i1'' ''p1'' s1"
  by (simp add: record_attempt_pr_def owns_job_def attempt_is_current_def apply_pr_event_def
      apply_fresh_def event_state_def fix_event_current_def apply_current_def fenced_def lease_live_def
      mark_processed_def same_delivery_def open_attempt_delivery_def Let_def fix_simps)

end
