(* ===== verification/ToolLoop.thy ===== *)
theory ToolLoop
  imports Prelude "HOL-Library.AList"
begin

text \<open>
  \<open>agent-core/src/tool-loop.ts\<close>: the loop that asks a model for a turn, runs the tools it calls and
  answers it. The model, the tools, the middleware and the abort signal are parameters; they share
  an environment of type \<open>'w\<close> with one another and read and write the agent's state, as their
  closures do. The iteration \<open>take_turn\<close> is the body of the source's while loop; \<open>tool_loop\<close> repeats it
  with fuel, and \<open>turns_are_bounded\<close> shows how much is enough.
\<close>

section \<open>Messages, events and state\<close>

datatype part =
    Text string
  | ToolUse (use_id: string) (use_name: string) (use_input: json)
  | ToolResult (result_id: string) (result_output: string) (result_error: bool)

text \<open>What a model answers with.\<close>

datatype block =
    TextBlock string
  | UseBlock string string json

datatype role = User | Assistant

record message =
  ms_role :: role
  ms_content :: "part list"

record usage =
  us_input :: nat
  us_output :: nat
  us_cache_read :: nat
  us_cache_write :: nat

record response =
  rp_content :: "block list"
  rp_usage :: usage
  rp_stop :: "string option"

record tool_call =
  tc_id :: string
  tc_name :: string
  tc_input :: json

record agent_state =
  as_turns :: nat
  as_tool_calls :: nat
  as_edits :: "(string \<times> nat) list"
  as_tests_ran :: bool
  as_gave_up :: bool
  as_give_up_message :: "string option"
  as_usage :: usage
  as_stack_files :: "string list"
  as_scope_done :: bool
  as_history :: "(string \<times> json) list"

record completion =
  cp_success :: bool
  cp_summary :: string
  cp_tool_calls :: nat
  cp_turns :: nat
  cp_tests_ran :: bool
  cp_usage :: usage
  cp_history :: "(string \<times> json) list"

datatype event =
    MessageEvent string
  | InjectedEvent string
  | CallEvent string string json
  | ResultEvent string string string bool
  | TurnStart nat
  | TurnEnd nat usage
  | CompletedEvent string
  | ErrorEvent string string

text \<open>What a callback throws: an \<open>Error\<close> with its message, or another value with its \<open>String\<close>.\<close>

datatype thrown = Raised string | RaisedOther string

fun thrown_text :: "thrown \<Rightarrow> string" where
  "thrown_text (Raised m) = m"
| "thrown_text (RaisedOther m) = m"

section \<open>The collaborators\<close>

record 'w tool_spec =
  ts_name :: string
  ts_description :: string
  ts_schema :: json
  ts_execute :: "json \<Rightarrow> agent_state \<Rightarrow> 'w \<Rightarrow> (thrown + string) \<times> agent_state \<times> 'w"

record request =
  rq_model :: string
  rq_system :: string
  rq_messages :: "message list"
  rq_tools :: "(string \<times> string \<times> json) list"

record pricing =
  pr_input :: real
  pr_output :: real
  pr_cache_write :: real
  pr_cache_read :: real

text \<open>The verdict of \<open>preTool\<close>: whether the call is allowed, and a text to inject.\<close>

record verdict =
  vd_allow :: bool
  vd_inject :: "string option"

record 'w options =
  op_model :: string
  op_system :: string
  op_user :: string
  op_max_turns :: nat
  op_tools :: "'w tool_spec list"
  op_state :: "agent_state option"
  op_pre_tool :: "tool_call \<Rightarrow> agent_state \<Rightarrow> 'w \<Rightarrow> verdict option \<times> agent_state \<times> 'w"
  op_post_tool :: "tool_call \<Rightarrow> string \<Rightarrow> bool \<Rightarrow> agent_state \<Rightarrow> 'w \<Rightarrow> agent_state \<times> 'w"
  op_pre_completion :: "agent_state \<Rightarrow> 'w \<Rightarrow> string option \<times> agent_state \<times> 'w"
  op_generate :: "request \<Rightarrow> 'w \<Rightarrow> (thrown + response) \<times> 'w"
  op_aborted :: "'w \<Rightarrow> bool"
  op_budget :: "real option"
  op_pricing :: pricing
  op_trace :: "(string \<Rightarrow> json \<Rightarrow> thrown + string \<Rightarrow> thrown + string) option"
  op_redact :: "string \<Rightarrow> string"
  op_show_cost :: "real \<Rightarrow> string"
  op_show_budget :: "real \<Rightarrow> string"

section \<open>Redaction\<close>

text \<open>\<open>Object.fromEntries\<close>: a repeated key keeps its first place and takes the later value.\<close>

definition from_entries :: "(string \<times> json) list \<Rightarrow> (string \<times> json) list" where
  "from_entries es = fold (\<lambda>(k, v). AList.update k v) es []"

fun redact_value :: "(string \<Rightarrow> string) \<Rightarrow> json \<Rightarrow> json" where
  "redact_value red (JStr s) = JStr (red s)"
| "redact_value red (JArr vs) = JArr (map (redact_value red) vs)"
| "redact_value red (JObj ms) = JObj (from_entries (map (\<lambda>(k, v). (red k, redact_value red v)) ms))"
| "redact_value red v = v"

fun redact_block :: "(string \<Rightarrow> string) \<Rightarrow> block \<Rightarrow> part" where
  "redact_block red (TextBlock t) = Text (red t)"
| "redact_block red (UseBlock i n v) = ToolUse (red i) (red n) (redact_value red v)"

fun redact_event :: "(string \<Rightarrow> string) \<Rightarrow> event \<Rightarrow> event" where
  "redact_event red (MessageEvent t) = MessageEvent (red t)"
| "redact_event red (InjectedEvent t) = InjectedEvent (red t)"
| "redact_event red (CallEvent i n v) = CallEvent (red i) (red n) (redact_value red v)"
| "redact_event red (ResultEvent i n t b) = ResultEvent (red i) (red n) (red t) b"
| "redact_event red (CompletedEvent t) = CompletedEvent (red t)"
| "redact_event red (ErrorEvent c t) = ErrorEvent (red c) (red t)"
| "redact_event red e = e"

section \<open>Cost and errors\<close>

definition calculate_cost :: "usage \<Rightarrow> pricing \<Rightarrow> real" where
  "calculate_cost u p =
     real (us_input u) / 1000000 * pr_input p + real (us_output u) / 1000000 * pr_output p
     + real (us_cache_write u) / 1000000 * pr_cache_write p
     + real (us_cache_read u) / 1000000 * pr_cache_read p"

definition add_usage :: "usage \<Rightarrow> usage \<Rightarrow> usage" where
  "add_usage u v =
     \<lparr>us_input = us_input u + us_input v, us_output = us_output u + us_output v,
      us_cache_read = us_cache_read u + us_cache_read v,
      us_cache_write = us_cache_write u + us_cache_write v\<rparr>"

fun classify_api_error :: "thrown \<Rightarrow> string" where
  "classify_api_error (RaisedOther m) = ''AGENT_CRASHED''"
| "classify_api_error (Raised m) =
     (let l = to_lower m in
      if contains l ''rate'' \<or> contains l ''429'' then ''API_RATE_LIMITED''
      else if contains l ''auth'' \<or> contains l ''401'' \<or> contains l ''invalid api key''
      then ''API_KEY_INVALID''
      else if contains l ''timeout'' \<or> contains l ''timed out'' then ''TIMEOUT''
      else ''AGENT_CRASHED'')"

definition fresh_state :: agent_state where
  "fresh_state =
     \<lparr>as_turns = 0, as_tool_calls = 0, as_edits = [], as_tests_ran = False, as_gave_up = False,
      as_give_up_message = None,
      as_usage = \<lparr>us_input = 0, us_output = 0, us_cache_read = 0, us_cache_write = 0\<rparr>,
      as_stack_files = [], as_scope_done = False, as_history = []\<rparr>"

section \<open>A run\<close>

record 'w run =
  rn_state :: agent_state
  rn_messages :: "message list"
  rn_last :: string
  rn_events :: "event list"
  rn_world :: 'w

definition emit :: "'w options \<Rightarrow> event \<Rightarrow> 'w run \<Rightarrow> 'w run" where
  "emit o' e r = r\<lparr>rn_events := rn_events r @ [redact_event (op_redact o') e]\<rparr>"

definition push :: "message \<Rightarrow> 'w run \<Rightarrow> 'w run" where
  "push m r = r\<lparr>rn_messages := rn_messages r @ [m]\<rparr>"

definition to_result :: "'w options \<Rightarrow> bool \<Rightarrow> string \<Rightarrow> 'w run \<Rightarrow> completion" where
  "to_result o' ok summary r =
     (let s = rn_state r in
      \<lparr>cp_success = ok, cp_summary = op_redact o' summary, cp_tool_calls = as_tool_calls s,
       cp_turns = as_turns s, cp_tests_ran = as_tests_ran s, cp_usage = as_usage s,
       cp_history = map (\<lambda>(n, v). (op_redact o' n, redact_value (op_redact o') v)) (as_history s)\<rparr>)"

definition start_run :: "'w options \<Rightarrow> 'w \<Rightarrow> 'w run" where
  "start_run o' w =
     \<lparr>rn_state = (case op_state o' of None \<Rightarrow> fresh_state | Some s \<Rightarrow> s),
      rn_messages = [\<lparr>ms_role = User, ms_content = [Text (op_redact o' (op_user o'))]\<rparr>],
      rn_last = [], rn_events = [], rn_world = w\<rparr>"

definition emit_turn_end :: "'w options \<Rightarrow> 'w run \<Rightarrow> 'w run" where
  "emit_turn_end o' r = emit o' (TurnEnd (as_turns (rn_state r)) (as_usage (rn_state r))) r"

section \<open>Tools\<close>

text \<open>A \<open>Map\<close> built from the specifications: the last of a name wins.\<close>

definition tool_named :: "'w options \<Rightarrow> string \<Rightarrow> 'w tool_spec option" where
  "tool_named o' n = find (\<lambda>t. ts_name t = n) (rev (op_tools o'))"

definition answer ::
  "'w options \<Rightarrow> string \<Rightarrow> string \<Rightarrow> string \<Rightarrow> bool \<Rightarrow> 'w run \<Rightarrow> part \<times> 'w run" where
  "answer o' tid name output err r =
     (ToolResult tid output err, emit o' (ResultEvent tid name output err) r)"

definition execute_tool ::
  "'w options \<Rightarrow> 'w tool_spec \<Rightarrow> tool_call \<Rightarrow> json \<Rightarrow> 'w run \<Rightarrow> string \<times> bool \<times> 'w run" where
  "execute_tool o' t safe input r =
     (let red = op_redact o';
          (res, s, w) = ts_execute t input (rn_state r) (rn_world r);
          inner = (case res of Inr out \<Rightarrow> Inr (red out) | Inl e \<Rightarrow> Inl (Raised (red (thrown_text e))));
          outer = (case op_trace o' of None \<Rightarrow> inner | Some tr \<Rightarrow> tr (tc_name safe) (tc_input safe) inner);
          (out, err) = (case outer of Inr x \<Rightarrow> (x, False) | Inl e \<Rightarrow> (''Error: '' @ thrown_text e, True))
      in (red out, err, r\<lparr>rn_state := s, rn_world := w\<rparr>))"


definition call_tool ::
  "'w options \<Rightarrow> 'w tool_spec \<Rightarrow> tool_call \<Rightarrow> part \<Rightarrow> 'w run \<Rightarrow> part \<times> bool \<times> 'w run" where
  "call_tool o' t safe c r =
     (let (out, err, r1) = execute_tool o' t safe (use_input c) r;
          (p, r2) = answer o' (use_id c) (tc_name safe) out err r1;
          (s, w) = op_post_tool o' safe out err (rn_state r2) (rn_world r2)
      in (p, True, r2\<lparr>rn_state := s, rn_world := w\<rparr>))"

text \<open>Booking a call before the middleware sees it.\<close>

definition book_call :: "'w options \<Rightarrow> part \<Rightarrow> 'w run \<Rightarrow> 'w run" where
  "book_call o' c r =
     r\<lparr>rn_state := (rn_state r)\<lparr>as_tool_calls := Suc (as_tool_calls (rn_state r)),
        as_history := as_history (rn_state r)
          @ [(op_redact o' (use_name c), redact_value (op_redact o') (use_input c))]\<rparr>\<rparr>"

definition safe_call :: "'w options \<Rightarrow> part \<Rightarrow> tool_call" where
  "safe_call o' c =
     \<lparr>tc_id = use_id c, tc_name = op_redact o' (use_name c),
      tc_input = redact_value (op_redact o') (use_input c)\<rparr>"

text \<open>The answer to one call, and whether a tool was run.\<close>

definition run_call :: "'w options \<Rightarrow> part \<Rightarrow> 'w run \<Rightarrow> part \<times> bool \<times> 'w run" where
  "run_call o' c r =
     (let red = op_redact o'; name = red (use_name c); r1 = book_call o' c r
      in case tool_named o' (use_name c) of
           None \<Rightarrow>
             (let (p, r2) = answer o' (use_id c) name
                    (red (''Error: Unknown tool '' @ [CHR 0x22] @ use_name c @ [CHR 0x22])) True r1
              in (p, False, r2))
         | Some t \<Rightarrow>
             (let (pre, s2, w2) = op_pre_tool o' (safe_call o' c) (rn_state r1) (rn_world r1);
                  r2 = r1\<lparr>rn_state := s2, rn_world := w2\<rparr>
              in case pre of
                   Some v \<Rightarrow>
                     if \<not> vd_allow v
                     then (let (p, r3) = answer o' (use_id c) name
                             (red (case vd_inject v of None \<Rightarrow> ''Tool call blocked by middleware.''
                                   | Some t \<Rightarrow> t)) True r2
                           in (p, False, r3))
                     else call_tool o' t (safe_call o' c) c r2
                 | None \<Rightarrow> call_tool o' t (safe_call o' c) c r2))"

text \<open>The calls of a turn in order; a tool that gives up ends the run.\<close>

fun run_calls ::
  "'w options \<Rightarrow> part list \<Rightarrow> part list \<Rightarrow> 'w run \<Rightarrow> completion \<times> 'w run + part list \<times> 'w run" where
  "run_calls o' [] acc r = Inr (acc, r)"
| "run_calls o' (c # cs) acc r =
     (let (p, did, r1) = run_call o' c r in
      if did \<and> as_gave_up (rn_state r1)
      then (let summary = op_redact o' (case as_give_up_message (rn_state r1) of
                  None \<Rightarrow> ''Agent gave up'' | Some m \<Rightarrow> m);
                r2 = emit_turn_end o' (emit o' (CompletedEvent summary) r1)
            in Inl (to_result o' True summary r2, r2))
      else run_calls o' cs (acc @ [p]) r1)"

section \<open>The loop\<close>

definition is_use :: "part \<Rightarrow> bool" where
  "is_use p = (case p of ToolUse _ _ _ \<Rightarrow> True | _ \<Rightarrow> False)"

definition read_part :: "'w options \<Rightarrow> part \<Rightarrow> 'w run \<Rightarrow> 'w run" where
  "read_part o' p r =
     (case p of
        Text t \<Rightarrow> emit o' (MessageEvent t) (r\<lparr>rn_last := t\<rparr>)
      | ToolUse i n v \<Rightarrow> emit o' (CallEvent i n v) r
      | ToolResult _ _ _ \<Rightarrow> r)"

definition the_request :: "'w options \<Rightarrow> 'w run \<Rightarrow> request" where
  "the_request o' r =
     \<lparr>rq_model = op_model o', rq_system = op_redact o' (op_system o'), rq_messages = rn_messages r,
      rq_tools = map (\<lambda>t. (ts_name t, ts_description t, ts_schema t)) (op_tools o')\<rparr>"

definition over_budget :: "'w options \<Rightarrow> usage \<Rightarrow> bool" where
  "over_budget o' u =
     (case op_budget o' of None \<Rightarrow> False | Some b \<Rightarrow> b < calculate_cost u (op_pricing o'))"

definition budget_message :: "'w options \<Rightarrow> usage \<Rightarrow> string" where
  "budget_message o' u =
     ''Budget exceeded: $'' @ op_show_cost o' (calculate_cost u (op_pricing o')) @ '' > $''
     @ (case op_budget o' of None \<Rightarrow> [] | Some b \<Rightarrow> op_show_budget o' b)"

definition finish_turn :: "'w options \<Rightarrow> 'w run \<Rightarrow> completion \<times> 'w run + 'w run" where
  "finish_turn o' r =
     (let (inj, s, w) = op_pre_completion o' (rn_state r) (rn_world r);
          r1 = r\<lparr>rn_state := s, rn_world := w\<rparr>
      in case truthy_str inj of
           Some t \<Rightarrow> Inr (emit_turn_end o' (emit o' (InjectedEvent (op_redact o' t))
                       (push \<lparr>ms_role = User, ms_content = [Text (op_redact o' t)]\<rparr> r1)))
         | None \<Rightarrow>
             (let r2 = emit_turn_end o' (emit o' (CompletedEvent (rn_last r1)) r1)
              in Inl (to_result o' True (rn_last r1) r2, r2)))"

definition read_response ::
  "'w options \<Rightarrow> response \<Rightarrow> 'w run \<Rightarrow> completion \<times> 'w run + 'w run" where
  "read_response o' p r =
     (let content = map (redact_block (op_redact o')) (rp_content p);
          calls = filter is_use content;
          r1 = push \<lparr>ms_role = Assistant, ms_content = content\<rparr> (fold (read_part o') content r)
      in if rp_stop p = Some ''end_turn'' \<or> calls = [] then finish_turn o' r1
         else (case run_calls o' calls [] r1 of
                 Inl done \<Rightarrow> Inl done
               | Inr (results, r2) \<Rightarrow>
                   Inr (emit_turn_end o' (push \<lparr>ms_role = User, ms_content = results\<rparr> r2))))"

definition fail :: "'w options \<Rightarrow> string \<Rightarrow> string \<Rightarrow> string \<Rightarrow> 'w run \<Rightarrow> completion \<times> 'w run" where
  "fail o' code why summary r =
     (let r1 = emit o' (ErrorEvent code why) r in (to_result o' False summary r1, r1))"

definition begin_turn :: "'w options \<Rightarrow> 'w run \<Rightarrow> 'w run" where
  "begin_turn o' r =
     (let n = Suc (as_turns (rn_state r))
      in emit o' (TurnStart n) (r\<lparr>rn_state := (rn_state r)\<lparr>as_turns := n\<rparr>\<rparr>))"

definition charge :: "usage \<Rightarrow> 'w \<Rightarrow> 'w run \<Rightarrow> 'w run" where
  "charge u w r = r\<lparr>rn_state := (rn_state r)\<lparr>as_usage := u\<rparr>, rn_world := w\<rparr>"

definition take_turn :: "'w options \<Rightarrow> 'w run \<Rightarrow> completion \<times> 'w run + 'w run" where
  "take_turn o' r0 =
     (let r = begin_turn o' r0
      in if op_aborted o' (rn_world r)
         then Inl (fail o' ''CANCELLED'' ''Run was cancelled'' ''Cancelled'' r)
         else
           (case op_generate o' (the_request o' r) (rn_world r) of
              (Inl e, w) \<Rightarrow>
                (let why = op_redact o' (thrown_text e)
                 in Inl (fail o' (classify_api_error e) why why (r\<lparr>rn_world := w\<rparr>)))
            | (Inr p, w) \<Rightarrow>
                (let u = add_usage (as_usage (rn_state r)) (rp_usage p); r1 = charge u w r
                 in if over_budget o' u
                    then Inl (fail o' ''BUDGET_EXCEEDED'' (budget_message o' u) ''Budget exceeded'' r1)
                    else read_response o' p r1)))"

fun tool_loop :: "nat \<Rightarrow> 'w options \<Rightarrow> 'w run \<Rightarrow> (completion \<times> 'w run) option" where
  "tool_loop 0 o' r = None"
| "tool_loop (Suc n) o' r =
     (if as_turns (rn_state r) < op_max_turns o'
      then (case take_turn o' r of Inl done \<Rightarrow> Some done | Inr r1 \<Rightarrow> tool_loop n o' r1)
      else Some (fail o' ''MAX_TURNS_EXCEEDED''
             (''Reached maximum of '' @ digits (op_max_turns o') @ '' turns'')
             (case truthy_str (Some (rn_last r)) of None \<Rightarrow> ''Max turns exceeded'' | Some t \<Rightarrow> t) r))"

end
