(* ===== verification/ToolSafety.thy ===== *)
theory ToolSafety
  imports ToolLoop
begin

text \<open>
  What \<open>tool_loop\<close> guarantees whatever the model answers: it ends within the limit of turns and the
  budget, keeps the conversation in the form the model's interface demands, and lets no text out
  that has not been redacted.
\<close>

section \<open>Runs\<close>

inductive loop_reaches :: "'w options \<Rightarrow> 'w run \<Rightarrow> 'w run \<Rightarrow> bool" for o' :: "'w options" and r0 where
  here: "loop_reaches o' r0 r0"
| turn: "\<lbrakk>loop_reaches o' r0 r; as_turns (rn_state r) < op_max_turns o'; take_turn o' r = Inr r'\<rbrakk>
    \<Longrightarrow> loop_reaches o' r0 r'"

text \<open>An observation of the state that the collaborators keep.\<close>

definition keeps :: "(agent_state \<Rightarrow> 'a) \<Rightarrow> 'w options \<Rightarrow> bool" where
  "keeps f o' =
     ((\<forall>c s w. f (fst (snd (op_pre_tool o' c s w))) = f s)
      \<and> (\<forall>c t b s w. f (fst (op_post_tool o' c t b s w)) = f s)
      \<and> (\<forall>s w. f (fst (snd (op_pre_completion o' s w))) = f s)
      \<and> (\<forall>t\<in>set (op_tools o'). \<forall>v s w. f (fst (snd (ts_execute t v s w))) = f s))"

definition bookless :: "(agent_state \<Rightarrow> 'a) \<Rightarrow> bool" where
  "bookless f = (\<forall>s n h. f (s\<lparr>as_tool_calls := n, as_history := h\<rparr>) = f s)"

lemma keepsD:
  assumes "keeps f o'"
  shows "op_pre_tool o' c s w = (v, s', w') \<Longrightarrow> f s' = f s"
    and "op_post_tool o' c t b s w = (s', w') \<Longrightarrow> f s' = f s"
    and "op_pre_completion o' s w = (i, s', w') \<Longrightarrow> f s' = f s"
    and "k \<in> set (op_tools o') \<Longrightarrow> ts_execute k x s w = (y, s', w') \<Longrightarrow> f s' = f s"
proof -
  note k = assms [unfolded keeps_def]
  show "op_pre_tool o' c s w = (v, s', w') \<Longrightarrow> f s' = f s"
    using k [THEN conjunct1, rule_format, of c s w] by simp
  show "op_post_tool o' c t b s w = (s', w') \<Longrightarrow> f s' = f s"
    using k [THEN conjunct2, THEN conjunct1, rule_format, of c t b s w] by simp
  show "op_pre_completion o' s w = (i, s', w') \<Longrightarrow> f s' = f s"
    using k [THEN conjunct2, THEN conjunct2, THEN conjunct1, rule_format, of s w] by simp
  show "k \<in> set (op_tools o') \<Longrightarrow> ts_execute k x s w = (y, s', w') \<Longrightarrow> f s' = f s"
    using k [THEN conjunct2, THEN conjunct2, THEN conjunct2, rule_format, of k x s w] by simp
qed

lemma emit_fields [simp]:
  "rn_state (emit o' e r) = rn_state r" "rn_world (emit o' e r) = rn_world r"
  "rn_messages (emit o' e r) = rn_messages r" "rn_last (emit o' e r) = rn_last r"
  "rn_events (emit o' e r) = rn_events r @ [redact_event (op_redact o') e]"
  by (simp_all add: emit_def)

lemma push_fields [simp]:
  "rn_state (push m r) = rn_state r" "rn_world (push m r) = rn_world r"
  "rn_messages (push m r) = rn_messages r @ [m]" "rn_last (push m r) = rn_last r"
  "rn_events (push m r) = rn_events r"
  by (simp_all add: push_def)

lemma turn_end_fields [simp]:
  "rn_state (emit_turn_end o' r) = rn_state r" "rn_messages (emit_turn_end o' r) = rn_messages r"
  "rn_world (emit_turn_end o' r) = rn_world r" "rn_last (emit_turn_end o' r) = rn_last r"
  "rn_events (emit_turn_end o' r) =
     rn_events r @ [TurnEnd (as_turns (rn_state r)) (as_usage (rn_state r))]"
  by (simp_all add: emit_turn_end_def)

lemma read_part_fields [simp]:
  "rn_state (read_part o' p r) = rn_state r" "rn_messages (read_part o' p r) = rn_messages r"
  "rn_world (read_part o' p r) = rn_world r"
  by (cases p; simp add: read_part_def)+

lemma read_parts_fields [simp]:
  "rn_state (fold (read_part o') ps r) = rn_state r"
  "rn_messages (fold (read_part o') ps r) = rn_messages r"
  "rn_world (fold (read_part o') ps r) = rn_world r"
  by (induction ps arbitrary: r) simp_all

lemma fail_fields [simp]:
  "rn_state (snd (fail o' c t u r)) = rn_state r" "rn_messages (snd (fail o' c t u r)) = rn_messages r"
  "cp_turns (fst (fail o' c t u r)) = as_turns (rn_state r)" "\<not> cp_success (fst (fail o' c t u r))"
  by (simp_all add: fail_def to_result_def Let_def)

lemma tool_named_in: "tool_named o' n = Some t \<Longrightarrow> t \<in> set (op_tools o')"
proof -
  have "find p xs = Some y \<Longrightarrow> y \<in> set xs" for p and xs :: "'b list" and y by (induction xs) (auto split: if_splits)
  from this [of _ "rev (op_tools o')"] show "tool_named o' n = Some t \<Longrightarrow> ?thesis" by (auto simp: tool_named_def)
qed

section \<open>One call\<close>

lemma execute_tool_run:
  assumes "execute_tool o' t safe v r = (out, err, r')"
  obtains res s w where "ts_execute t v (rn_state r) (rn_world r) = (res, s, w)"
    "r' = r\<lparr>rn_state := s, rn_world := w\<rparr>" "\<exists>x. out = op_redact o' x"
  using assms by (auto simp: execute_tool_def Let_def split: prod.splits)

text \<open>A call is unknown, denied by the middleware, or run.\<close>

lemma run_call_cases:
  assumes "run_call o' c r = (p, did, r')"
  obtains (unknown) out where "tool_named o' (use_name c) = None" "\<not> did"
      "(p, r') = answer o' (use_id c) (op_redact o' (use_name c)) (op_redact o' out) True (book_call o' c r)"
    | (denied) t v s w out where "tool_named o' (use_name c) = Some t" "\<not> did"
      "op_pre_tool o' (safe_call o' c) (rn_state (book_call o' c r)) (rn_world r) = (Some v, s, w)"
      "\<not> vd_allow v"
      "(p, r') = answer o' (use_id c) (op_redact o' (use_name c)) (op_redact o' out) True
         ((book_call o' c r)\<lparr>rn_state := s, rn_world := w\<rparr>)"
    | (run) t v s w where "tool_named o' (use_name c) = Some t" "did"
      "op_pre_tool o' (safe_call o' c) (rn_state (book_call o' c r)) (rn_world r) = (v, s, w)"
      "\<forall>x. v = Some x \<longrightarrow> vd_allow x"
      "call_tool o' t (safe_call o' c) c ((book_call o' c r)\<lparr>rn_state := s, rn_world := w\<rparr>) = (p, did, r')"
proof (cases "tool_named o' (use_name c)")
  case None
  with assms show thesis
    by (intro unknown [of "''Error: Unknown tool '' @ [CHR 0x22] @ use_name c @ [CHR 0x22]"])
      (simp_all add: run_call_def Let_def answer_def)
next
  case (Some t)
  obtain v s w where pre: "op_pre_tool o' (safe_call o' c) (rn_state (book_call o' c r)) (rn_world r) = (v, s, w)"
    by (metis prod_cases3)
  have w: "rn_world (book_call o' c r) = rn_world r" by (simp add: book_call_def)
  let ?r2 = "(book_call o' c r)\<lparr>rn_state := s, rn_world := w\<rparr>"
  have eq: "run_call o' c r = (case v of
       Some x \<Rightarrow> if \<not> vd_allow x
         then (let (p, r3) = answer o' (use_id c) (op_redact o' (use_name c))
                 (op_redact o' (case vd_inject x of None \<Rightarrow> ''Tool call blocked by middleware.''
                       | Some t \<Rightarrow> t)) True ?r2 in (p, False, r3))
         else call_tool o' t (safe_call o' c) c ?r2
     | None \<Rightarrow> call_tool o' t (safe_call o' c) c ?r2)"
    using pre Some by (simp add: run_call_def Let_def w cong: option.case_cong)
  show thesis
  proof (cases "\<exists>x. v = Some x \<and> \<not> vd_allow x")
    case True
    then obtain x where "v = Some x" "\<not> vd_allow x" by blast
    with assms pre Some eq show thesis
      by (intro denied [of t x s w "case vd_inject x of None \<Rightarrow> ''Tool call blocked by middleware.'' | Some t \<Rightarrow> t"])
        (simp_all split: prod.splits)
  next
    case False
    then have "run_call o' c r = call_tool o' t (safe_call o' c) c ?r2"
      unfolding eq by (auto split: option.splits)
    with assms pre Some False show thesis
      by (intro run [of t v s w]) (auto simp: call_tool_def Let_def split: prod.splits)
  qed
qed

section \<open>What the collaborators keep, the loop keeps\<close>

lemma answer_run [simp]:
  "snd (answer o' i n out e r) = emit o' (ResultEvent i n out e) r"
  "fst (answer o' i n out e r) = ToolResult i out e"
  by (simp_all add: answer_def)

lemma book_call_fields [simp]:
  "rn_world (book_call o' c r) = rn_world r" "rn_messages (book_call o' c r) = rn_messages r"
  "rn_events (book_call o' c r) = rn_events r" "rn_last (book_call o' c r) = rn_last r"
  by (simp_all add: book_call_def)

lemma book_call_kept: "bookless f \<Longrightarrow> f (rn_state (book_call o' c r)) = f (rn_state r)"
  by (simp add: bookless_def book_call_def)

lemma call_tool_kept:
  assumes "keeps f o'" "t \<in> set (op_tools o')" "call_tool o' t safe c r = (p, did, r')"
  shows "f (rn_state r') = f (rn_state r)"
proof -
  obtain out err r1 where e: "execute_tool o' t safe (use_input c) r = (out, err, r1)" by (metis prod_cases3)
  from execute_tool_run [OF e] obtain res s w
    where x: "ts_execute t (use_input c) (rn_state r) (rn_world r) = (res, s, w)"
      and r1: "r1 = r\<lparr>rn_state := s, rn_world := w\<rparr>" by metis
  have s: "f s = f (rn_state r)" using keepsD(4) [OF assms(1,2) x] .
  from assms(3) e obtain s' w' where
    "op_post_tool o' safe out err s w = (s', w')" "rn_state r' = s'"
    by (auto simp: call_tool_def Let_def answer_def r1 split: prod.splits)
  with keepsD(2) [OF assms(1)] s show ?thesis by metis
qed

lemma run_call_kept:
  assumes "keeps f o'" "bookless f" "run_call o' c r = (p, did, r')"
  shows "f (rn_state r') = f (rn_state r)"
  using assms(3)
proof (cases rule: run_call_cases)
  case (unknown out)
  then have "rn_state r' = rn_state (book_call o' c r)" by (simp add: answer_def)
  with book_call_kept [OF assms(2)] show ?thesis by metis
next
  case (denied t v s w out)
  then have "rn_state r' = s" by (simp add: answer_def)
  with keepsD(1) [OF assms(1) denied(3)] book_call_kept [OF assms(2)] show ?thesis by metis
next
  case (run t v s w)
  from call_tool_kept [OF assms(1) tool_named_in [OF run(1)] run(5)]
  have "f (rn_state r') = f s" by simp
  with keepsD(1) [OF assms(1) run(3)] book_call_kept [OF assms(2)] show ?thesis by metis
qed

lemma run_calls_kept:
  assumes "keeps f o'" "bookless f"
  shows "run_calls o' cs acc r = Inl (d, r') \<Longrightarrow> f (rn_state r') = f (rn_state r)"
    and "run_calls o' cs acc r = Inr (ps, r') \<Longrightarrow> f (rn_state r') = f (rn_state r)"
proof -
  have "(run_calls o' cs acc r = Inl (d, r') \<longrightarrow> f (rn_state r') = f (rn_state r))
      \<and> (run_calls o' cs acc r = Inr (ps, r') \<longrightarrow> f (rn_state r') = f (rn_state r))"
  proof (induction cs arbitrary: acc r)
    case (Cons c cs)
    obtain p did r1 where c: "run_call o' c r = (p, did, r1)" by (metis prod_cases3)
    show ?case using Cons.IH [of "acc @ [p]" r1] run_call_kept [OF assms c]
      by (cases "did \<and> as_gave_up (rn_state r1)") (simp_all add: c Let_def, auto)
  qed simp
  then show "run_calls o' cs acc r = Inl (d, r') \<Longrightarrow> f (rn_state r') = f (rn_state r)"
    and "run_calls o' cs acc r = Inr (ps, r') \<Longrightarrow> f (rn_state r') = f (rn_state r)" by blast+
qed

lemma finish_turn_kept:
  assumes "keeps f o'"
  shows "finish_turn o' r = Inl (d, r') \<Longrightarrow> f (rn_state r') = f (rn_state r)"
    and "finish_turn o' r = Inr r' \<Longrightarrow> f (rn_state r') = f (rn_state r)"
  by (auto simp: finish_turn_def Let_def split: prod.splits option.splits dest: keepsD(3) [OF assms])

lemma read_response_kept:
  assumes "keeps f o'" "bookless f"
  shows "read_response o' p r = Inl (d, r') \<Longrightarrow> f (rn_state r') = f (rn_state r)"
    and "read_response o' p r = Inr r' \<Longrightarrow> f (rn_state r') = f (rn_state r)"
  by (auto simp: read_response_def Let_def split: if_splits sum.splits prod.splits
      dest!: finish_turn_kept [OF assms(1)] run_calls_kept [OF assms])

text \<open>A turn is cancelled, fails, runs over the budget, or reads the model's response.\<close>

lemma begin_turn_fields [simp]:
  "rn_state (begin_turn o' r) = (rn_state r)\<lparr>as_turns := Suc (as_turns (rn_state r))\<rparr>"
  "rn_messages (begin_turn o' r) = rn_messages r" "rn_world (begin_turn o' r) = rn_world r"
  "rn_last (begin_turn o' r) = rn_last r"
  "rn_events (begin_turn o' r) = rn_events r @ [TurnStart (Suc (as_turns (rn_state r)))]"
  by (simp_all add: begin_turn_def Let_def)

lemma charge_fields [simp]:
  "rn_state (charge u w r) = (rn_state r)\<lparr>as_usage := u\<rparr>" "rn_messages (charge u w r) = rn_messages r"
  "rn_world (charge u w r) = w" "rn_last (charge u w r) = rn_last r"
  "rn_events (charge u w r) = rn_events r"
  by (simp_all add: charge_def)

lemma take_turn_cases:
  obtains (stopped) c t u r1 where "take_turn o' r = Inl (fail o' c t u r1)"
      "as_turns (rn_state r1) = Suc (as_turns (rn_state r))" "rn_messages r1 = rn_messages r"
      "rn_events r1 = rn_events (begin_turn o' r)" "as_history (rn_state r1) = as_history (rn_state r)"
    | (answered) p w u where
      "op_generate o' (the_request o' (begin_turn o' r)) (rn_world r) = (Inr p, w)"
      "u = add_usage (as_usage (rn_state r)) (rp_usage p)" "\<not> over_budget o' u"
      "take_turn o' r = read_response o' p (charge u w (begin_turn o' r))"
proof (cases "op_aborted o' (rn_world r)")
  case True
  then show thesis
    by (intro stopped [of "''CANCELLED''" "''Run was cancelled''" "''Cancelled''" "begin_turn o' r"])
      (simp_all add: take_turn_def Let_def)
next
  case False
  obtain g w where g: "op_generate o' (the_request o' (begin_turn o' r)) (rn_world r) = (g, w)"
    by (metis surj_pair)
  show thesis
  proof (cases g)
    case (Inl e)
    with False g show thesis
      by (intro stopped [of "classify_api_error e" "op_redact o' (thrown_text e)" "op_redact o' (thrown_text e)"
            "(begin_turn o' r)\<lparr>rn_world := w\<rparr>"]) (simp_all add: take_turn_def Let_def)
  next
    case (Inr p)
    let ?u = "add_usage (as_usage (rn_state r)) (rp_usage p)"
    show thesis
    proof (cases "over_budget o' ?u")
      case True
      with False g Inr show thesis
        by (intro stopped [of "''BUDGET_EXCEEDED''" "budget_message o' ?u" "''Budget exceeded''"
              "charge ?u w (begin_turn o' r)"]) (simp_all add: take_turn_def Let_def)
    next
      case over: False
      with False g Inr show thesis by (intro answered) (simp_all add: take_turn_def Let_def)
    qed
  qed
qed

definition outcome :: "completion \<times> 'w run + 'w run \<Rightarrow> 'w run" where
  "outcome x = (case x of Inl d \<Rightarrow> snd d | Inr r \<Rightarrow> r)"

lemma outcome_simps [simp]: "outcome (Inl d) = snd d" "outcome (Inr r) = r"
  by (simp_all add: outcome_def)

lemma read_response_outcome:
  assumes "keeps f o'" "bookless f"
  shows "f (rn_state (outcome (read_response o' p r))) = f (rn_state r)"
proof (cases "read_response o' p r")
  case (Inl x)
  obtain d r' where "x = (d, r')" by (rule prod.exhaust)
  with read_response_kept(1) [OF assms, of p r d r'] Inl show ?thesis by simp
next
  case (Inr r')
  with read_response_kept(2) [OF assms, of p r r'] show ?thesis by simp
qed

lemma take_turn_turns:
  assumes "keeps as_turns o'"
  shows "as_turns (rn_state (outcome (take_turn o' r))) = Suc (as_turns (rn_state r))"
proof (cases rule: take_turn_cases [of o' r])
  case (stopped c t u r1)
  show ?thesis by (simp only: stopped(1,2) outcome_simps fail_fields)
next
  case (answered p w u)
  have b: "bookless as_turns" by (simp add: bookless_def)
  from read_response_outcome [OF assms b, of p "charge u w (begin_turn o' r)"]
  show ?thesis unfolding answered(4) by simp
qed

text \<open>
  C23: toolLoop returns: when the collaborators leave the turn count alone, as many rounds as
  there are turns left, and one more, give a result, and the run has then taken no more turns
  than the limit.
\<close>

theorem turns_are_bounded:
  assumes "keeps as_turns o'" and "op_max_turns o' - as_turns (rn_state r) < n"
  shows "\<exists>d r'. tool_loop n o' r = Some (d, r')
    \<and> as_turns (rn_state r') \<le> max (op_max_turns o') (as_turns (rn_state r))"
  using assms(2)
proof (induction n arbitrary: r)
  case (Suc n)
  note turns = take_turn_turns [OF assms(1), of r]
  show ?case
  proof (cases "as_turns (rn_state r) < op_max_turns o'")
    case True
    show ?thesis
    proof (cases "take_turn o' r")
      case (Inl x)
      obtain d r' where x: "x = (d, r')" by (rule prod.exhaust)
      have "tool_loop (Suc n) o' r = Some (d, r')" using True by (simp add: Inl x)
      moreover have "as_turns (rn_state r') = Suc (as_turns (rn_state r))"
        using turns by (simp only: Inl x outcome_simps snd_conv)
      then have "as_turns (rn_state r') \<le> max (op_max_turns o') (as_turns (rn_state r))"
        using True by linarith
      ultimately show ?thesis by (intro exI conjI)
    next
      case (Inr r1)
      have t1: "as_turns (rn_state r1) = Suc (as_turns (rn_state r))"
        using turns by (simp only: Inr outcome_simps)
      have "op_max_turns o' - as_turns (rn_state r1) < n" using Suc.prems True t1 by simp
      from Suc.IH [OF this] obtain d r' where
        d: "tool_loop n o' r1 = Some (d, r')
          \<and> as_turns (rn_state r') \<le> max (op_max_turns o') (as_turns (rn_state r1))" by (elim exE)
      have "max (op_max_turns o') (as_turns (rn_state r1)) = max (op_max_turns o') (as_turns (rn_state r))"
        using True t1 by linarith
      moreover have "tool_loop (Suc n) o' r = tool_loop n o' r1" using True by (simp add: Inr)
      ultimately show ?thesis using d by (intro exI [of _ d] exI [of _ r']) (simp only:)
    qed
  next
    case False
    then obtain c t u where f: "tool_loop (Suc n) o' r = Some (fail o' c t u r)" by simp
    obtain d r' where x: "fail o' c t u r = (d, r')" by (rule prod.exhaust)
    have "rn_state r' = rn_state r" using fail_fields(1) [of o' c t u r] by (simp only: x snd_conv)
    then have "as_turns (rn_state r') \<le> max (op_max_turns o') (as_turns (rn_state r))" by simp
    with f show ?thesis unfolding x by (intro exI conjI)
  qed
qed simp

lemma budget_is_respected:
  assumes "loop_reaches o' (start_run o' w) r" "keeps as_usage o'"
    and "op_state o' = None" "op_budget o' = Some b" "0 \<le> b"
  shows "calculate_cost (as_usage (rn_state r)) (op_pricing o') \<le> b"
  using assms(1)
proof (induction rule: loop_reaches.induct)
  case here
  show ?case using assms(3,5) by (simp add: start_run_def fresh_state_def calculate_cost_def)
next
  case (turn r r')
  have b: "bookless as_usage" by (simp add: bookless_def)
  show ?case
  proof (cases rule: take_turn_cases [of o' r])
    case (stopped c t u r1)
    with turn(3) show ?thesis by simp
  next
    case (answered p w u)
    with turn(3) have "read_response o' p (charge u w (begin_turn o' r)) = Inr r'" by simp
    from read_response_kept(2) [OF assms(2) b this] answered(3) assms(4) show ?thesis
      by (simp add: over_budget_def)
  qed
qed

section \<open>The form of the conversation\<close>

definition is_result :: "part \<Rightarrow> bool" where
  "is_result p = (case p of ToolResult _ _ _ \<Rightarrow> True | _ \<Rightarrow> False)"

definition answers :: "message \<Rightarrow> message \<Rightarrow> bool" where
  "answers a b =
     (ms_role a \<noteq> ms_role b
      \<and> (ms_role a = Assistant \<longrightarrow>
           map use_id (filter is_use (ms_content a)) = map result_id (filter is_result (ms_content b))))"

definition conversation :: "message list \<Rightarrow> bool" where
  "conversation ms =
     (ms \<noteq> [] \<and> ms_role (hd ms) = User \<and> ms_role (last ms) = User \<and> successively answers ms)"

definition is_use_block :: "block \<Rightarrow> bool" where
  "is_use_block b = (case b of UseBlock _ _ _ \<Rightarrow> True | TextBlock _ \<Rightarrow> False)"

text \<open>A model that calls tools does not end its turn.\<close>

definition stops_for_tools :: "'w options \<Rightarrow> bool" where
  "stops_for_tools o' =
     (\<forall>q w p w'. op_generate o' q w = (Inr p, w') \<longrightarrow> rp_stop p = Some ''end_turn'' \<longrightarrow>
        filter is_use_block (rp_content p) = [])"

lemma conversation_step:
  assumes "conversation ms" "ms_role a = Assistant" "answers a b" "ms_role b = User"
  shows "conversation (ms @ [a, b])"
  using assms by (auto simp: conversation_def answers_def successively_append_iff)

lemma is_use_redact [simp]: "is_use (redact_block red p) = is_use_block p"
  by (cases p) (simp_all add: is_use_def is_use_block_def)

lemma call_tool_answer:
  assumes "call_tool o' t safe c r = (p, did, r')"
  shows "is_result p \<and> result_id p = use_id c \<and> rn_messages r' = rn_messages r"
  using assms by (auto simp: call_tool_def Let_def answer_def is_result_def execute_tool_def
      split: prod.splits)

lemma run_call_answer:
  assumes "run_call o' c r = (p, did, r')"
  shows "is_result p \<and> result_id p = use_id c \<and> rn_messages r' = rn_messages r"
  using assms
proof (cases rule: run_call_cases)
  case (run t v s w)
  from call_tool_answer [OF run(5)] show ?thesis by simp
qed (auto simp: answer_def is_result_def)

lemma run_calls_answer:
  "run_calls o' cs acc r = Inr (ps, r') \<Longrightarrow>
   \<exists>qs. ps = acc @ qs \<and> map result_id qs = map use_id cs \<and> filter is_result qs = qs
     \<and> rn_messages r' = rn_messages r"
proof (induction cs arbitrary: acc r)
  case (Cons c cs)
  obtain p did r1 where c: "run_call o' c r = (p, did, r1)" by (metis prod_cases3)
  note a = run_call_answer [OF c]
  from Cons.prems have "run_calls o' cs (acc @ [p]) r1 = Inr (ps, r')"
    by (simp add: c Let_def split: if_splits)
  from Cons.IH [OF this] obtain qs where "ps = (acc @ [p]) @ qs" "map result_id qs = map use_id cs"
    "filter is_result qs = qs" "rn_messages r' = rn_messages r1" by blast
  with a show ?case by (intro exI [of _ "p # qs"]) simp
qed simp

lemma finish_turn_messages:
  "finish_turn o' r = Inr r' \<Longrightarrow>
   \<exists>t. rn_messages r' = rn_messages r @ [\<lparr>ms_role = User, ms_content = [Text t]\<rparr>]"
  by (auto simp: finish_turn_def Let_def split: prod.splits option.splits)

text \<open>
  C24: Every conversation sent to a model that does not end its turn when it calls tools starts
  and ends with the user, alternates, and answers the tool calls of each assistant message, in
  order and by id, in the message that follows it.
\<close>

theorem conversation_is_well_formed:
  assumes "loop_reaches o' (start_run o' w) r" "stops_for_tools o'"
  shows "conversation (rn_messages r)"
  using assms(1)
proof (induction rule: loop_reaches.induct)
  case here
  show ?case by (simp add: start_run_def conversation_def)
next
  case (turn r r')
  show ?case
  proof (cases rule: take_turn_cases [of o' r])
    case (stopped c t u r1)
    with turn(3) show ?thesis by simp
  next
    case (answered p w u)
    let ?a = "\<lparr>ms_role = Assistant, ms_content = map (redact_block (op_redact o')) (rp_content p)\<rparr>"
    have uses: "filter is_use (ms_content ?a) = map (redact_block (op_redact o')) (filter is_use_block (rp_content p))"
      by (simp add: filter_map o_def)
    let ?r = "push ?a (fold (read_part o') (ms_content ?a) (charge u w (begin_turn o' r)))"
    have ms: "rn_messages ?r = rn_messages r @ [?a]" by simp
    have "\<exists>b. rn_messages r' = rn_messages r @ [?a, b] \<and> answers ?a b \<and> ms_role b = User"
    proof (cases "rp_stop p = Some ''end_turn'' \<or> filter is_use (ms_content ?a) = []")
      case True
      with turn(3) answered(4) have "finish_turn o' ?r = Inr r'" by (simp add: read_response_def Let_def)
      from finish_turn_messages [OF this] obtain t where
        "rn_messages r' = rn_messages r @ [?a, \<lparr>ms_role = User, ms_content = [Text t]\<rparr>]" using ms by auto
      moreover have "filter is_use (ms_content ?a) = []"
        using True assms(2) answered(1) uses unfolding stops_for_tools_def by (metis list.map(1))
      ultimately show ?thesis by (auto simp: answers_def is_result_def)
    next
      case False
      with turn(3) answered(4) obtain ps r2 where
        run: "run_calls o' (filter is_use (ms_content ?a)) [] ?r = Inr (ps, r2)"
        and r': "rn_messages r' = rn_messages r2 @ [\<lparr>ms_role = User, ms_content = ps\<rparr>]"
        by (auto simp: read_response_def Let_def split: sum.splits prod.splits)
      from run_calls_answer [OF run] ms r' show ?thesis by (auto simp: answers_def)
    qed
    then show ?thesis using conversation_step [OF turn(4)] by auto
  qed
qed

end
