(* ===== verification/ToolRedaction.thy ===== *)
theory ToolRedaction
  imports ToolSafety
begin

text \<open>
  Every text that leaves \<open>tool_loop\<close> has been redacted: the messages sent to the model, the events
  and the result are unchanged by redacting them again, when the redaction is idempotent.
\<close>

section \<open>Redacted values\<close>

lemma update_subset: "set (AList.update k v al) \<subseteq> insert (k, v) (set al)"
  by (induction al) auto

lemma fold_update_subset: "set (fold (\<lambda>(k, v). AList.update k v) es al) \<subseteq> set es \<union> set al"
proof (induction es arbitrary: al)
  case (Cons e es)
  obtain k v where e: "e = (k, v)" by fastforce
  from Cons.IH [of "AList.update k v al"] update_subset [of k v al] show ?case by (auto simp: e)
qed simp

lemma from_entries_subset: "set (from_entries es) \<subseteq> set es"
  using fold_update_subset [of es "[]"] by (simp add: from_entries_def)

lemma fold_update_distinct:
  "distinct (map fst al) \<Longrightarrow> distinct (map fst (fold (\<lambda>(k, v). AList.update k v) es al))"
  by (induction es arbitrary: al) (auto simp: distinct_update)

lemma distinct_from_entries: "distinct (map fst (from_entries es))"
  by (simp add: from_entries_def fold_update_distinct)

lemma update_new: "k \<notin> fst ` set al \<Longrightarrow> AList.update k v al = al @ [(k, v)]"
  by (induction al) auto

lemma fold_update_new:
  "distinct (map fst (al @ es)) \<Longrightarrow> fold (\<lambda>(k, v). AList.update k v) es al = al @ es"
proof (induction es arbitrary: al)
  case (Cons e es)
  obtain k v where e: "e = (k, v)" by fastforce
  from Cons.prems have "AList.update k v al = al @ [e]" by (auto simp: e intro: update_new)
  with Cons show ?case by (simp add: e)
qed simp

lemma from_entries_id: "distinct (map fst es) \<Longrightarrow> from_entries es = es"
  using fold_update_new [of "[]" es] by (simp add: from_entries_def)

text \<open>Redacting a redacted value changes nothing.\<close>

lemma redact_value_idem:
  assumes "\<And>t. red (red t) = red t"
  shows "redact_value red (redact_value red v) = redact_value red v"
proof (induction v)
  case (JObj ms)
  let ?g = "\<lambda>(k, v). (red k, redact_value red v)"
  let ?es = "from_entries (map ?g ms)"
  have "?g e = e" if "e \<in> set ?es" for e
  proof -
    from that from_entries_subset have "e \<in> ?g ` set ms" by fastforce
    then obtain k v where "(k, v) \<in> set ms" and e: "e = (red k, redact_value red v)" by auto
    with JObj [of "(k, v)" v] show ?thesis by (simp add: e assms)
  qed
  then have "map ?g ?es = ?es" by (simp add: map_idI)
  then show ?case by (simp add: from_entries_id distinct_from_entries)
qed (simp_all add: assms)

section \<open>Redacted messages and events\<close>

fun clean_part :: "(string \<Rightarrow> string) \<Rightarrow> part \<Rightarrow> bool" where
  "clean_part red (Text t) = (red t = t)"
| "clean_part red (ToolUse i n v) = (red i = i \<and> red n = n \<and> redact_value red v = v)"
| "clean_part red (ToolResult i t b) = (red i = i \<and> red t = t)"

definition clean_message :: "(string \<Rightarrow> string) \<Rightarrow> message \<Rightarrow> bool" where
  "clean_message red m = list_all (clean_part red) (ms_content m)"

definition clean_event :: "(string \<Rightarrow> string) \<Rightarrow> event \<Rightarrow> bool" where
  "clean_event red e = (redact_event red e = e)"

definition clean_entry :: "(string \<Rightarrow> string) \<Rightarrow> string \<times> json \<Rightarrow> bool" where
  "clean_entry red e = (red (fst e) = fst e \<and> redact_value red (snd e) = snd e)"

definition clean_run :: "'w options \<Rightarrow> 'w run \<Rightarrow> bool" where
  "clean_run o' r =
     (list_all (clean_message (op_redact o')) (rn_messages r)
      \<and> list_all (clean_event (op_redact o')) (rn_events r))"

definition clean_result :: "'w options \<Rightarrow> completion \<Rightarrow> bool" where
  "clean_result o' d =
     (op_redact o' (cp_summary d) = cp_summary d \<and> list_all (clean_entry (op_redact o')) (cp_history d))"

text \<open>The redaction of a program is idempotent.\<close>

definition idempotent :: "'w options \<Rightarrow> bool" where
  "idempotent o' = (\<forall>t. op_redact o' (op_redact o' t) = op_redact o' t)"

lemma idempotentD: "idempotent o' \<Longrightarrow> op_redact o' (op_redact o' t) = op_redact o' t"
  by (simp add: idempotent_def)

lemma redact_event_idem: "idempotent o' \<Longrightarrow> clean_event (op_redact o') (redact_event (op_redact o') e)"
  by (cases e) (simp_all add: clean_event_def idempotentD redact_value_idem)

lemma redact_block_clean: "idempotent o' \<Longrightarrow> clean_part (op_redact o') (redact_block (op_redact o') p)"
  by (cases p) (simp_all add: idempotentD redact_value_idem)

lemma to_result_clean: "idempotent o' \<Longrightarrow> clean_result o' (to_result o' ok t r)"
  by (auto simp: clean_result_def to_result_def Let_def idempotentD list_all_iff clean_entry_def
      redact_value_idem)

text \<open>A run is clean when its fields are; changes of the state or the environment keep it clean.\<close>

lemma clean_emit [simp]: "idempotent o' \<Longrightarrow> clean_run o' (emit o' e r) = clean_run o' r"
  by (simp add: clean_run_def redact_event_idem)

lemma clean_turn_end [simp]: "idempotent o' \<Longrightarrow> clean_run o' (emit_turn_end o' r) = clean_run o' r"
  by (simp add: emit_turn_end_def)

lemma clean_push [simp]: "clean_run o' (push m r) = (clean_message (op_redact o') m \<and> clean_run o' r)"
  by (auto simp: clean_run_def)

lemma clean_set [simp]:
  "clean_run o' (r\<lparr>rn_state := s\<rparr>) = clean_run o' r"
  "clean_run o' (r\<lparr>rn_world := w\<rparr>) = clean_run o' r"
  by (simp_all add: clean_run_def)

lemma clean_begin [simp]: "idempotent o' \<Longrightarrow> clean_run o' (begin_turn o' r) = clean_run o' r"
  by (simp add: begin_turn_def Let_def)

lemma clean_charge [simp]: "clean_run o' (charge u w r) = clean_run o' r"
  by (simp add: charge_def)

lemma clean_book [simp]: "clean_run o' (book_call o' c r) = clean_run o' r"
  by (simp add: book_call_def)

lemma clean_start: "idempotent o' \<Longrightarrow> clean_run o' (start_run o' w)"
  by (simp add: clean_run_def start_run_def clean_message_def idempotentD)

lemma clean_read [simp]:
  assumes "idempotent o'"
  shows "clean_run o' (fold (read_part o') ps r) = clean_run o' r"
proof (induction ps arbitrary: r)
  case (Cons p ps)
  have "clean_run o' (read_part o' p r) = clean_run o' r"
    using assms by (cases p) (simp_all add: read_part_def, simp add: clean_run_def)
  with Cons show ?case by simp
qed simp

section \<open>Turns\<close>

lemma fail_clean:
  assumes "idempotent o'" "clean_run o' r"
  shows "clean_result o' (fst (fail o' c t u r))" "clean_run o' (snd (fail o' c t u r))"
  using assms by (simp_all add: fail_def Let_def to_result_clean)

lemma call_tool_clean:
  assumes "idempotent o'" "call_tool o' t safe c r = (p, did, r')" "clean_run o' r"
    and "op_redact o' (use_id c) = use_id c"
  shows "clean_part (op_redact o') p \<and> clean_run o' r'"
proof -
  obtain out err r1 where e: "execute_tool o' t safe (use_input c) r = (out, err, r1)" by (metis prod_cases3)
  from execute_tool_run [OF e] obtain s w x where "r1 = r\<lparr>rn_state := s, rn_world := w\<rparr>"
    "out = op_redact o' x" by metis
  with assms e show ?thesis
    by (auto simp: call_tool_def Let_def answer_def idempotentD split: prod.splits)
qed

lemma run_call_clean:
  assumes "idempotent o'" "run_call o' c r = (p, did, r')" "clean_run o' r"
    and "op_redact o' (use_id c) = use_id c"
  shows "clean_part (op_redact o') p \<and> clean_run o' r'"
  using assms(2)
proof (cases rule: run_call_cases)
  case (unknown out)
  with assms show ?thesis by (simp add: answer_def idempotentD)
next
  case (denied t v s w out)
  with assms show ?thesis by (simp add: answer_def idempotentD)
next
  case (run t v s w)
  from call_tool_clean [OF assms(1) run(5)] assms(3,4) show ?thesis by simp
qed

text \<open>The result of a turn is clean: a finished run with its result, or a run that goes on.\<close>

definition clean_outcome :: "'w options \<Rightarrow> completion \<times> 'w run + 'w run \<Rightarrow> bool" where
  "clean_outcome o' x =
     (case x of Inl d \<Rightarrow> clean_result o' (fst d) \<and> clean_run o' (snd d) | Inr r \<Rightarrow> clean_run o' r)"

lemma run_calls_clean:
  assumes "idempotent o'"
  shows "clean_run o' r \<Longrightarrow> list_all (clean_part (op_redact o')) cs \<Longrightarrow> list_all is_use cs \<Longrightarrow>
    list_all (clean_part (op_redact o')) acc \<Longrightarrow>
    (case run_calls o' cs acc r of
       Inl d \<Rightarrow> clean_result o' (fst d) \<and> clean_run o' (snd d)
     | Inr x \<Rightarrow> list_all (clean_part (op_redact o')) (fst x) \<and> clean_run o' (snd x))"
proof (induction cs arbitrary: acc r)
  case (Cons c cs)
  obtain p did r1 where c: "run_call o' c r = (p, did, r1)" by (metis prod_cases3)
  have "op_redact o' (use_id c) = use_id c" using Cons.prems(2,3) by (cases c) (simp_all add: is_use_def)
  from run_call_clean [OF assms c Cons.prems(1) this] have p: "clean_part (op_redact o') p" and r1: "clean_run o' r1"
    by simp_all
  show ?case
  proof (cases "did \<and> as_gave_up (rn_state r1)")
    case True
    with r1 assms show ?thesis by (simp add: c Let_def to_result_clean)
  next
    case False
    then have "run_calls o' (c # cs) acc r = run_calls o' cs (acc @ [p]) r1" by (auto simp: c)
    with Cons.IH [of r1 "acc @ [p]"] Cons.prems p r1 show ?thesis by simp
  qed
qed simp

lemma finish_turn_clean:
  assumes "idempotent o'" "clean_run o' r"
  shows "clean_outcome o' (finish_turn o' r)"
proof -
  obtain i s w where f: "op_pre_completion o' (rn_state r) (rn_world r) = (i, s, w)" by (metis prod_cases3)
  show ?thesis
  proof (cases "truthy_str i")
    case None
    with f assms show ?thesis by (simp add: finish_turn_def Let_def clean_outcome_def to_result_clean)
  next
    case (Some t)
    with f assms show ?thesis
      by (simp add: finish_turn_def Let_def clean_outcome_def clean_message_def idempotentD)
  qed
qed

lemma read_response_clean:
  assumes "idempotent o'" "clean_run o' r"
  shows "clean_outcome o' (read_response o' p r)"
proof -
  let ?c = "map (redact_block (op_redact o')) (rp_content p)"
  let ?r = "push \<lparr>ms_role = Assistant, ms_content = ?c\<rparr> (fold (read_part o') ?c r)"
  have c: "list_all (clean_part (op_redact o')) ?c"
    using assms(1) by (simp add: list_all_iff redact_block_clean)
  then have r: "clean_run o' ?r" using assms by (simp add: clean_message_def)
  show ?thesis
  proof (cases "rp_stop p = Some ''end_turn'' \<or> filter is_use ?c = []")
    case True
    then have "read_response o' p r = finish_turn o' ?r" by (simp add: read_response_def Let_def)
    with finish_turn_clean [OF assms(1) r] show ?thesis by (simp only:)
  next
    case False
    have "list_all (clean_part (op_redact o')) (filter is_use ?c)" "list_all is_use (filter is_use ?c)"
      using c by (auto simp: list_all_iff)
    from run_calls_clean [OF assms(1) r this, of "[]"] False assms(1) show ?thesis
      by (cases "run_calls o' (filter is_use ?c) [] ?r")
        (auto simp: read_response_def Let_def clean_outcome_def clean_message_def split: prod.splits)
  qed
qed

lemma take_turn_clean:
  assumes "idempotent o'" "clean_run o' r"
  shows "clean_outcome o' (take_turn o' r)"
proof (cases rule: take_turn_cases [of o' r])
  case (stopped c t u r1)
  have "clean_run o' r1 = clean_run o' (begin_turn o' r)"
    by (simp only: clean_run_def stopped(3,4) begin_turn_fields)
  with assms have "clean_run o' r1" by simp
  from fail_clean [OF assms(1) this] show ?thesis by (simp add: stopped(1) clean_outcome_def)
next
  case (answered p w u)
  with assms show ?thesis by (simp add: read_response_clean)
qed

text \<open>
  C25: With an idempotent redaction, every text in the messages, the events, the result and the
  history of a finished run is redacted: redacting it again changes nothing, the names of object
  members included.
\<close>

theorem nothing_leaves_unredacted:
  assumes "tool_loop n o' (start_run o' w) = Some (d, r)" and "idempotent o'"
  shows "clean_result o' d \<and> clean_run o' r"
proof -
  have "clean_run o' r0 \<Longrightarrow> tool_loop n o' r0 = Some (d, r) \<Longrightarrow> clean_result o' d \<and> clean_run o' r" for r0
  proof (induction n arbitrary: r0)
    case (Suc n)
    show ?case
    proof (cases "as_turns (rn_state r0) < op_max_turns o'")
      case True
      note t = take_turn_clean [OF assms(2) Suc.prems(1)]
      show ?thesis
      proof (cases "take_turn o' r0")
        case (Inl x)
        with True Suc.prems(2) have "x = (d, r)" by simp
        with t Inl show ?thesis by (simp add: clean_outcome_def)
      next
        case (Inr r1)
        with True Suc.prems(2) have "tool_loop n o' r1 = Some (d, r)" by simp
        moreover have "clean_run o' r1" using t Inr by (simp add: clean_outcome_def)
        ultimately show ?thesis using Suc.IH by blast
      qed
    next
      case False
      with Suc.prems(2) obtain c t u where "fail o' c t u r0 = (d, r)" by auto
      with fail_clean [OF assms(2) Suc.prems(1), of c t u] show ?thesis by simp
    qed
  qed simp
  with clean_start [OF assms(2)] assms(1) show ?thesis by blast
qed

end
