(* ===== verification/ToolMiddleware.thy ===== *)
theory ToolMiddleware
  imports ToolSafety JsRegex
begin

text \<open>
  \<open>harness/tool-middleware.ts\<close>: the middleware the fix agent's loop runs under. It blocks commands
  that leave the sandbox, counts edits, notes a passing test command and asks for tests and for a
  review of the diff before the agent may finish. The theorems compose it with \<open>tool_loop\<close>. The tool
  schemas make \<open>command\<close> and \<open>path\<close> strings; another value is read as the one that is missing.
\<close>

section \<open>Patterns\<close>

definition word_re :: "string \<Rightarrow> regex" where
  "word_re w = cats [WordEdge, lit w, WordEdge]"

definition two_words_re :: "string \<Rightarrow> string \<Rightarrow> regex" where
  "two_words_re v w = cats [WordEdge, lit v, plus (Cls is_space), lit w, WordEdge]"

definition test_command_patterns :: "regex list" where
  "test_command_patterns =
     map word_re [''npm test'', ''vitest'', ''jest'', ''pytest'', ''pnpm test'']"

definition test_failure_patterns :: "regex list" where
  "test_failure_patterns =
     [lit_i ''fail'', lit_i ''error'', Cat (lit ''Exit code: '') (Cls (\<lambda>c. c \<noteq> CHR ''0''))]"

definition dangerous_command_patterns :: "regex list" where
  "dangerous_command_patterns =
     [two_words_re ''git'' ''push'', two_words_re ''git'' ''remote'', word_re ''curl'', word_re ''wget'',
      word_re ''ssh'', word_re ''nc'', word_re ''scp'']"

section \<open>The middleware\<close>

definition string_member :: "string \<Rightarrow> json \<Rightarrow> string option" where
  "string_member k v =
     (case v of
        JObj ms \<Rightarrow> (case map_of ms k of Some (JStr s) \<Rightarrow> Some s | _ \<Rightarrow> None)
      | _ \<Rightarrow> None)"

definition command_of :: "json \<Rightarrow> string" where
  "command_of v = (case string_member ''command'' v of None \<Rightarrow> ''undefined'' | Some c \<Rightarrow> c)"

definition edited_path :: "json \<Rightarrow> string" where
  "edited_path v =
     (case string_member ''path'' v of
        None \<Rightarrow> []
      | Some p \<Rightarrow> if starts_with p ''/'' then tl p else p)"

definition is_edit :: "tool_call \<Rightarrow> bool" where
  "is_edit c = (tc_name c \<in> {''edit'', ''write''})"

definition edit_count :: "agent_state \<Rightarrow> string \<Rightarrow> nat" where
  "edit_count s p = (case map_of (as_edits s) p of None \<Rightarrow> 0 | Some n \<Rightarrow> n)"

definition blocked_text :: "string \<Rightarrow> string" where
  "blocked_text cmd =
     ''Command blocked: '' @ [CHR 0x22] @ cmd @ [CHR 0x22]
     @ '' is not allowed in the sandbox. Only local operations (read, edit, build, test) are permitted.''"

definition edit_warning :: "nat \<Rightarrow> string" where
  "edit_warning n =
     ''Warning: you have edited this file 3+ times ('' @ digits n
     @ ''). Consider a different approach.''"

definition dangerous :: "string \<Rightarrow> bool" where
  "dangerous cmd = list_ex (\<lambda>re. js_test re cmd) dangerous_command_patterns"

definition default_pre_tool :: "tool_call \<Rightarrow> agent_state \<Rightarrow> verdict option" where
  "default_pre_tool c s =
     (if tc_name c = ''bash'' \<and> dangerous (command_of (tc_input c))
      then Some \<lparr>vd_allow = False, vd_inject = Some (blocked_text (command_of (tc_input c)))\<rparr>
      else if is_edit c \<and> 3 \<le> edit_count s (edited_path (tc_input c))
      then Some \<lparr>vd_allow = True, vd_inject = Some (edit_warning (edit_count s (edited_path (tc_input c))))\<rparr>
      else None)"

definition is_test_command :: "string \<Rightarrow> bool" where
  "is_test_command cmd = list_ex (\<lambda>re. js_test re cmd) test_command_patterns"

definition reports_failure :: "string \<Rightarrow> bool" where
  "reports_failure out = list_ex (\<lambda>re. js_test re out) test_failure_patterns"

definition default_post_tool :: "tool_call \<Rightarrow> string \<Rightarrow> bool \<Rightarrow> agent_state \<Rightarrow> agent_state" where
  "default_post_tool c out err s =
     (let p = edited_path (tc_input c);
          s1 = (if is_edit c then s\<lparr>as_edits := AList.update p (edit_count s p + 1) (as_edits s)\<rparr> else s)
      in if tc_name c = ''bash'' \<and> is_test_command (command_of (tc_input c))
            \<and> \<not> (err \<or> reports_failure out)
         then s1\<lparr>as_tests_ran := True\<rparr> else s1)"

definition untested_text :: string where
  "untested_text = ''You have not run tests yet. Please run tests before completing.''"

definition diff_command :: string where
  "diff_command =
     ''cd /home/user/repo && { git diff HEAD --name-only; git ls-files --others --exclude-standard; } | sort -u''"

definition in_scope :: "string list \<Rightarrow> string \<Rightarrow> bool" where
  "in_scope stack f =
     list_ex (\<lambda>t. f = t \<or> ends_with f (CHR ''/'' # t) \<or> ends_with t (CHR ''/'' # f)) stack"

definition scope_text :: "string list \<Rightarrow> string list \<Rightarrow> string" where
  "scope_text extra stack =
     ''Before finishing, review your diff for scope. You modified files not referenced in the stack trace: [''
     @ join '', '' extra @ '']. The error only references: ['' @ join '', '' stack
     @ '']. For each extra file, confirm it is necessary to fix the reported error. If any change is not directly required, revert it with bash (git checkout <file>) and then finish.''"

text \<open>\<open>sandbox\<close> runs a command and gives its standard output, or throws; there may be none.\<close>

type_synonym 'w sandbox = "string \<Rightarrow> 'w \<Rightarrow> string option \<times> 'w"

definition default_pre_completion ::
  "'w sandbox option \<Rightarrow> agent_state \<Rightarrow> 'w \<Rightarrow> string option \<times> agent_state \<times> 'w" where
  "default_pre_completion sandbox s w =
     (if \<not> as_tests_ran s then (Some untested_text, s, w)
      else case sandbox of
        None \<Rightarrow> (None, s, w)
      | Some run \<Rightarrow>
          if as_scope_done s \<or> as_stack_files s = [] then (None, s, w)
          else
            (let (out, w1) = run diff_command w; s1 = s\<lparr>as_scope_done := True\<rparr>
             in case out of
                  None \<Rightarrow> (None, s1, w1)
                | Some t \<Rightarrow>
                    (let files = filter (\<lambda>f. f \<noteq> []) (split_on (CHR 0x0A) (trim t));
                         extra = filter (\<lambda>f. \<not> in_scope (as_stack_files s) f) files
                     in (if extra \<noteq> [] then Some (scope_text extra (as_stack_files s)) else None, s1, w1))))"

text \<open>A loop that runs under this middleware.\<close>

definition with_default_middleware :: "'w sandbox option \<Rightarrow> 'w options \<Rightarrow> 'w options" where
  "with_default_middleware sandbox o' =
     o'\<lparr>op_pre_tool := \<lambda>c s w. (default_pre_tool c s, s, w),
        op_post_tool := \<lambda>c out err s w. (default_post_tool c out err s, w),
        op_pre_completion := default_pre_completion sandbox\<rparr>"

lemma with_default_fields [simp]:
  "op_redact (with_default_middleware b o') = op_redact o'"
  "op_tools (with_default_middleware b o') = op_tools o'"
  "op_max_turns (with_default_middleware b o') = op_max_turns o'"
  "op_state (with_default_middleware b o') = op_state o'"
  "op_pre_tool (with_default_middleware b o') c s w = (default_pre_tool c s, s, w)"
  "op_post_tool (with_default_middleware b o') c out err s w = (default_post_tool c out err s, w)"
  "op_pre_completion (with_default_middleware b o') = default_pre_completion b"
  by (simp_all add: with_default_middleware_def)

section \<open>A blocked command\<close>

lemma blocked_command_is_not_run:
  assumes "run_call (with_default_middleware sandbox o') c r = (p, did, r')"
    and "op_redact o' (use_name c) = ''bash''"
    and "dangerous (command_of (redact_value (op_redact o') (use_input c)))"
  shows "\<not> did \<and> (\<exists>out. p = ToolResult (use_id c) out True) \<and> rn_world r' = rn_world r
    \<and> as_tests_ran (rn_state r') = as_tests_ran (rn_state r) \<and> as_edits (rn_state r') = as_edits (rn_state r)"
  using assms(1)
proof (cases rule: run_call_cases)
  case (unknown out)
  then show ?thesis by (auto simp: answer_def book_call_def)
next
  case (denied t v s w out)
  then show ?thesis by (auto simp: answer_def book_call_def)
next
  case (run t v s w)
  from run(3) have "v = default_pre_tool (safe_call (with_default_middleware sandbox o') c)
      (rn_state (book_call (with_default_middleware sandbox o') c r))"
    unfolding with_default_fields prod.inject by (elim conjE) (rule sym)
  with assms(2,3) have "v = Some \<lparr>vd_allow = False, vd_inject = Some (blocked_text
      (command_of (redact_value (op_redact o') (use_input c))))\<rparr>"
    by (simp add: default_pre_tool_def safe_call_def)
  with run(4) show ?thesis by simp
qed

section \<open>A warning that is never delivered\<close>

text \<open>The same loop, whose middleware says nothing when it allows a call.\<close>

definition only_denies :: "'w options \<Rightarrow> 'w options" where
  "only_denies o' =
     o'\<lparr>op_pre_tool := \<lambda>c s w. (case op_pre_tool o' c s w of (v, s', w') \<Rightarrow>
          (case v of Some x \<Rightarrow> if vd_allow x then None else Some x | None \<Rightarrow> None, s', w'))\<rparr>"

lemma only_denies_fields [simp]:
  "op_redact (only_denies o') = op_redact o'" "op_max_turns (only_denies o') = op_max_turns o'"
  "op_tools (only_denies o') = op_tools o'" "op_trace (only_denies o') = op_trace o'"
  "op_post_tool (only_denies o') = op_post_tool o'"
  "op_pre_completion (only_denies o') = op_pre_completion o'"
  "op_generate (only_denies o') = op_generate o'" "op_aborted (only_denies o') = op_aborted o'"
  "op_budget (only_denies o') = op_budget o'" "op_pricing (only_denies o') = op_pricing o'"
  "op_model (only_denies o') = op_model o'" "op_system (only_denies o') = op_system o'"
  "op_show_cost (only_denies o') = op_show_cost o'" "op_show_budget (only_denies o') = op_show_budget o'"
  by (simp_all add: only_denies_def)

lemma only_denies_parts:
  "emit (only_denies o') = emit o'" "answer (only_denies o') = answer o'"
  "book_call (only_denies o') = book_call o'" "safe_call (only_denies o') = safe_call o'"
  "tool_named (only_denies o') = tool_named o'" "execute_tool (only_denies o') = execute_tool o'"
  "to_result (only_denies o') = to_result o'" "read_part (only_denies o') = read_part o'"
  "the_request (only_denies o') = the_request o'" "over_budget (only_denies o') = over_budget o'"
  "budget_message (only_denies o') = budget_message o'"
  "emit_turn_end (only_denies o') = emit_turn_end o'" "call_tool (only_denies o') = call_tool o'"
  "finish_turn (only_denies o') = finish_turn o'" "fail (only_denies o') = fail o'"
  "begin_turn (only_denies o') = begin_turn o'"
  by (intro ext; unfold emit_def answer_def book_call_def safe_call_def tool_named_def call_tool_def
      execute_tool_def to_result_def read_part_def the_request_def over_budget_def budget_message_def
      emit_turn_end_def finish_turn_def fail_def begin_turn_def only_denies_fields; rule refl)+

lemma only_denies_call: "run_call (only_denies o') = run_call o'"
proof (intro ext)
  fix c and r :: "'a run"
  obtain v s w where pre: "op_pre_tool o' (safe_call o' c) (rn_state (book_call o' c r)) (rn_world r) = (v, s, w)"
    by (metis prod_cases3)
  have pre': "op_pre_tool (only_denies o') (safe_call o' c) (rn_state (book_call o' c r)) (rn_world r) =
      (case v of Some x \<Rightarrow> if vd_allow x then None else Some x | None \<Rightarrow> None, s, w)"
    by (simp add: only_denies_def pre)
  show "run_call (only_denies o') c r = run_call o' c r"
    unfolding run_call_def only_denies_parts only_denies_fields Let_def book_call_fields pre pre'
    by (cases v) (simp_all split: option.split)
qed

lemma only_denies_calls: "run_calls (only_denies o') cs acc r = run_calls o' cs acc r"
  by (induction cs arbitrary: acc r) (simp_all only: run_calls.simps only_denies_parts only_denies_call
      only_denies_fields)

lemma only_denies_turn: "take_turn (only_denies o') r = take_turn o' r"
  unfolding take_turn_def read_response_def only_denies_parts only_denies_fields only_denies_calls
  by (rule refl)

lemma allowing_verdict_is_ignored:
  "tool_loop n (only_denies o') r = tool_loop n o' r"
proof (induction n arbitrary: r)
  case (Suc n)
  then show ?case
    unfolding tool_loop.simps only_denies_turn only_denies_parts only_denies_fields
    by (simp split: sum.split)
qed simp

text \<open>The warning after three edits is such a verdict.\<close>

lemma edit_warning_allows:
  assumes "is_edit c" "3 \<le> edit_count s (edited_path (tc_input c))"
  shows "\<exists>v. default_pre_tool c s = Some v \<and> vd_allow v
    \<and> vd_inject v = Some (edit_warning (edit_count s (edited_path (tc_input c))))"
  using assms by (auto simp: default_pre_tool_def is_edit_def)

section \<open>No success without a test\<close>

definition test_call :: "string \<times> json \<Rightarrow> bool" where
  "test_call e = (fst e = ''bash'' \<and> is_test_command (command_of (snd e)))"

definition tests_booked :: "agent_state \<Rightarrow> bool" where
  "tests_booked s = (\<not> as_tests_ran s \<or> list_ex test_call (as_history s))"

text \<open>Tools that leave the marks of the loop alone.\<close>

definition tools_keep_marks :: "'w options \<Rightarrow> bool" where
  "tools_keep_marks o' =
     list_all (\<lambda>t. \<forall>v s w. as_tests_ran (fst (snd (ts_execute t v s w))) = as_tests_ran s
        \<and> as_history (fst (snd (ts_execute t v s w))) = as_history s) (op_tools o')"

lemma tools_keep_marksD:
  assumes "tools_keep_marks o'" "t \<in> set (op_tools o')" "ts_execute t v s w = (x, s', w')"
  shows "as_tests_ran s' = as_tests_ran s" "as_history s' = as_history s"
proof -
  from assms(1,2) have "as_tests_ran (fst (snd (ts_execute t v s w))) = as_tests_ran s
        \<and> as_history (fst (snd (ts_execute t v s w))) = as_history s"
    by (auto simp: tools_keep_marks_def list_all_iff)
  with assms(3) show "as_tests_ran s' = as_tests_ran s" "as_history s' = as_history s" by simp_all
qed

lemma post_tool_marks:
  "as_history (default_post_tool c out err s) = as_history s"
  "as_tests_ran (default_post_tool c out err s) \<Longrightarrow>
     as_tests_ran s \<or> test_call (tc_name c, tc_input c)"
  by (auto simp: default_post_tool_def Let_def test_call_def split: if_splits)

lemma call_tool_booked:
  assumes "tools_keep_marks o'" "t \<in> set (op_tools o')" "tests_booked (rn_state r)"
    and "(tc_name safe, tc_input safe) \<in> set (as_history (rn_state r))"
    and "call_tool (with_default_middleware sandbox o') t safe c r = (p, did, r')"
  shows "tests_booked (rn_state r')"
proof -
  let ?o = "with_default_middleware sandbox o'"
  obtain out err r1 where e: "execute_tool ?o t safe (use_input c) r = (out, err, r1)" by (metis prod_cases3)
  from execute_tool_run [OF e] obtain x s w
    where x: "ts_execute t (use_input c) (rn_state r) (rn_world r) = (x, s, w)"
      and r1: "rn_state r1 = s" by (metis run.select_convs(1) run.surjective run.update_convs(1,5))
  note k = tools_keep_marksD [OF assms(1,2) x]
  from assms(5) e have r': "rn_state r' = default_post_tool safe out err s"
    by (auto simp: call_tool_def Let_def answer_def r1 split: prod.splits)
  have "as_history (rn_state r') = as_history (rn_state r)" by (simp only: r' post_tool_marks(1) k)
  moreover have "as_tests_ran (rn_state r) \<or> test_call (tc_name safe, tc_input safe)"
    if "as_tests_ran (rn_state r')"
    using post_tool_marks(2) [of safe out err s] that by (simp only: r' k)
  ultimately show ?thesis using assms(3,4) by (auto simp: tests_booked_def list_ex_iff)
qed

lemma run_call_booked:
  assumes "tools_keep_marks o'" "tests_booked (rn_state r)"
    and "run_call (with_default_middleware sandbox o') c r = (p, did, r')"
  shows "tests_booked (rn_state r')"
proof -
  let ?o = "with_default_middleware sandbox o'"
  let ?b = "book_call ?o c r"
  have b: "tests_booked (rn_state ?b)" using assms(2) by (auto simp: tests_booked_def book_call_def)
  have h: "(tc_name (safe_call ?o c), tc_input (safe_call ?o c)) \<in> set (as_history (rn_state ?b))"
    by (simp add: book_call_def safe_call_def)
  from assms(3) show ?thesis
  proof (cases rule: run_call_cases)
    case (unknown out)
    then have "rn_state r' = rn_state ?b" by (simp add: answer_def)
    with b show ?thesis by (simp only:)
  next
    case (denied t v s w out)
    then have "rn_state r' = s" by (simp add: answer_def)
    moreover from denied(3) have "s = rn_state ?b" by (simp only: with_default_fields prod.inject)
    ultimately show ?thesis using b by (simp only:)
  next
    case (run t v s w)
    from run(3) have s: "s = rn_state ?b" by (simp only: with_default_fields prod.inject)
    have "t \<in> set (op_tools o')" using tool_named_in [OF run(1)] by simp
    from call_tool_booked [OF assms(1) this _ _ run(5)] b h s show ?thesis by simp
  qed
qed

text \<open>A finished run gave up or ran a test; a run that goes on has booked its tests.\<close>

definition tested_outcome :: "completion \<times> 'w run + 'w run \<Rightarrow> bool" where
  "tested_outcome x =
     (case x of
        Inl d \<Rightarrow> cp_success (fst d) \<longrightarrow> as_gave_up (rn_state (snd d))
                   \<or> list_ex test_call (as_history (rn_state (snd d)))
      | Inr r \<Rightarrow> tests_booked (rn_state r))"

lemma run_calls_booked:
  assumes "tools_keep_marks o'"
  shows "tests_booked (rn_state r) \<Longrightarrow>
    (case run_calls (with_default_middleware sandbox o') cs acc r of
       Inl d \<Rightarrow> as_gave_up (rn_state (snd d)) | Inr x \<Rightarrow> tests_booked (rn_state (snd x)))"
proof (induction cs arbitrary: acc r)
  case (Cons c cs)
  let ?o = "with_default_middleware sandbox o'"
  obtain p did r1 where c: "run_call ?o c r = (p, did, r1)" by (metis prod_cases3)
  from run_call_booked [OF assms Cons.prems c] have r1: "tests_booked (rn_state r1)" .
  show ?case
  proof (cases "did \<and> as_gave_up (rn_state r1)")
    case True
    then show ?thesis by (simp add: c Let_def)
  next
    case False
    then have "run_calls ?o (c # cs) acc r = run_calls ?o cs (acc @ [p]) r1" by (auto simp: c)
    with Cons.IH [OF r1] show ?thesis by (simp only:)
  qed
qed simp

lemma finish_turn_tested:
  assumes "tests_booked (rn_state r)"
  shows "tested_outcome (finish_turn (with_default_middleware sandbox o') r)"
proof -
  let ?o = "with_default_middleware sandbox o'"
  obtain i s w where f: "default_pre_completion sandbox (rn_state r) (rn_world r) = (i, s, w)"
    by (metis prod_cases3)
  have s: "as_tests_ran s = as_tests_ran (rn_state r)" "as_history s = as_history (rn_state r)"
    using f by (auto simp: default_pre_completion_def Let_def split: if_splits option.splits prod.splits)
  have "truthy_str i \<noteq> None" if "\<not> as_tests_ran (rn_state r)"
    using f that by (auto simp: default_pre_completion_def truthy_str_def untested_text_def)
  with f s assms show ?thesis
    by (cases "truthy_str i") (auto simp: finish_turn_def Let_def tested_outcome_def tests_booked_def)
qed

lemma read_response_tested:
  assumes "tools_keep_marks o'" "tests_booked (rn_state r)"
  shows "tested_outcome (read_response (with_default_middleware sandbox o') p r)"
proof -
  let ?o = "with_default_middleware sandbox o'"
  let ?c = "map (redact_block (op_redact ?o)) (rp_content p)"
  let ?r = "push \<lparr>ms_role = Assistant, ms_content = ?c\<rparr> (fold (read_part ?o) ?c r)"
  have r: "tests_booked (rn_state ?r)" using assms(2) by simp
  show ?thesis
  proof (cases "rp_stop p = Some ''end_turn'' \<or> filter is_use ?c = []")
    case True
    then have "read_response ?o p r = finish_turn ?o ?r" by (simp add: read_response_def Let_def)
    with finish_turn_tested [OF r] show ?thesis by (simp only:)
  next
    case False
    from run_calls_booked [OF assms(1) r, of sandbox "filter is_use ?c" "[]"] False show ?thesis
      by (cases "run_calls ?o (filter is_use ?c) [] ?r")
        (auto simp: read_response_def Let_def tested_outcome_def split: prod.splits)
  qed
qed

lemma take_turn_tested:
  assumes "tools_keep_marks o'" "tests_booked (rn_state r)"
  shows "tested_outcome (take_turn (with_default_middleware sandbox o') r)"
proof (cases rule: take_turn_cases [of "with_default_middleware sandbox o'" r])
  case (stopped c t u r1)
  have "\<not> cp_success (fst (fail (with_default_middleware sandbox o') c t u r1))" by (rule fail_fields)
  then show ?thesis by (simp add: stopped(1) tested_outcome_def)
next
  case (answered p w u)
  have "tests_booked (rn_state (charge u w (begin_turn (with_default_middleware sandbox o') r)))"
    using assms(2) by (simp add: tests_booked_def)
  from read_response_tested [OF assms(1) this] show ?thesis by (simp only: answered(4))
qed

text \<open>
  C26: When the state a run starts from, fresh or supplied by the caller, counts the tests as
  run only if its history has a test command of the shell tool, and the tools leave the marks of
  the loop alone, a run under the default middleware that reports success gave up or its history
  has a test command of the shell tool (possibly one that the supplied history brought along).
\<close>

theorem success_needs_a_test:
  assumes "tool_loop n (with_default_middleware sandbox o') (start_run o' w) = Some (d, r)"
    and "cp_success d" "tests_booked (rn_state (start_run o' w))" "tools_keep_marks o'"
  shows "as_gave_up (rn_state r) \<or> list_ex test_call (as_history (rn_state r))"
proof -
  let ?o = "with_default_middleware sandbox o'"
  have "tests_booked (rn_state r0) \<Longrightarrow> tool_loop n ?o r0 = Some (d, r) \<Longrightarrow> ?thesis" for r0
  proof (induction n arbitrary: r0)
    case (Suc n)
    show ?case
    proof (cases "as_turns (rn_state r0) < op_max_turns ?o")
      case True
      note t = take_turn_tested [OF assms(4) Suc.prems(1), of sandbox]
      show ?thesis
      proof (cases "take_turn ?o r0")
        case (Inl x)
        with True Suc.prems(2) have "x = (d, r)" by simp
        with t Inl assms(2) show ?thesis by (simp add: tested_outcome_def)
      next
        case (Inr r1)
        with True Suc.prems(2) have "tool_loop n ?o r1 = Some (d, r)" by simp
        moreover have "tests_booked (rn_state r1)" using t Inr by (simp add: tested_outcome_def)
        ultimately show ?thesis using Suc.IH by blast
      qed
    next
      case False
      with Suc.prems(2) obtain c t u where "fail ?o c t u r0 = (d, r)" by auto
      with fail_fields(4) [of ?o c t u r0] assms(2) show ?thesis by simp
    qed
  qed simp
  with assms(1,3) show ?thesis by blast
qed

end
