(* ===== verification/ToolExamples.thy ===== *)
theory ToolExamples
  imports ToolRedaction ToolMiddleware
begin

text \<open>
  A small run of the loop: a model that first runs the tests with the shell tool and then ends its
  turn, under the default middleware, with a redaction that drops one character. The theorems of the
  loop are applied to it.
\<close>

definition drop_hashes :: "string \<Rightarrow> string" where
  "drop_hashes s = filter (\<lambda>c. c \<noteq> CHR ''#'') s"

definition shell_tool :: "nat tool_spec" where
  "shell_tool = \<lparr>ts_name = ''bash'', ts_description = [], ts_schema = JNull,
     ts_execute = \<lambda>v s w. (Inr ''2 passed #1'', s, w)\<rparr>"

definition call_tests :: response where
  "call_tests = \<lparr>rp_content = [TextBlock ''testing'',
       UseBlock ''u1'' ''bash'' (JObj [(''command'', JStr ''npm test'')])],
     rp_usage = \<lparr>us_input = 10, us_output = 5, us_cache_read = 0, us_cache_write = 0\<rparr>,
     rp_stop = Some ''tool_use''\<rparr>"

definition say_done :: response where
  "say_done = \<lparr>rp_content = [TextBlock ''fixed #1''],
     rp_usage = \<lparr>us_input = 20, us_output = 5, us_cache_read = 0, us_cache_write = 0\<rparr>,
     rp_stop = Some ''end_turn''\<rparr>"

definition sonnet_pricing :: pricing where
  "sonnet_pricing = \<lparr>pr_input = 3, pr_output = 15, pr_cache_write = 15 / 4, pr_cache_read = 3 / 10\<rparr>"

definition bare_options :: "nat options" where
  "bare_options =
     \<lparr>op_model = ''m'', op_system = ''s'', op_user = ''fix #1'', op_max_turns = 4,
      op_tools = [shell_tool], op_state = None,
      op_pre_tool = \<lambda>c s w. (None, s, w), op_post_tool = \<lambda>c out err s w. (s, w),
      op_pre_completion = \<lambda>s w. (None, s, w),
      op_generate = \<lambda>q w. (Inr (if w = 0 then call_tests else say_done), Suc w),
      op_aborted = \<lambda>w. False, op_budget = Some 1, op_pricing = sonnet_pricing, op_trace = None,
      op_redact = drop_hashes, op_show_cost = \<lambda>x. [], op_show_budget = \<lambda>x. []\<rparr>"

definition fix_options :: "nat options" where
  "fix_options = with_default_middleware None bare_options"

lemma demo_keeps: "keeps as_turns fix_options" "keeps as_usage fix_options"
  by (auto simp: keeps_def fix_options_def with_default_middleware_def bare_options_def shell_tool_def
      default_post_tool_def default_pre_completion_def Let_def)

lemma demo_run:
  "map_option (\<lambda>x. (cp_success (fst x), cp_turns (fst x), cp_summary (fst x)))
     (tool_loop 5 fix_options (start_run fix_options 0)) = Some (True, 2, ''fixed 1'')"
  by code_simp

theorem turns_are_bounded_witness:
  "\<exists>d r. tool_loop 5 fix_options (start_run fix_options 0) = Some (d, r) \<and> as_turns (rn_state r) \<le> 4"
proof -
  have "op_max_turns fix_options = 4" "as_turns (rn_state (start_run fix_options 0)) = 0"
    by (simp_all add: fix_options_def bare_options_def start_run_def fresh_state_def)
  with turns_are_bounded [OF demo_keeps(1), of "start_run fix_options 0" 5] show ?thesis by simp
qed

text \<open>The state after the first turn.\<close>

definition after_tests :: "nat run" where
  "after_tests = (case take_turn fix_options (start_run fix_options 0) of
     Inr r \<Rightarrow> r | Inl d \<Rightarrow> snd d)"

lemma first_turn_goes_on:
  "(case take_turn fix_options (start_run fix_options 0) of Inr r \<Rightarrow> True | Inl d \<Rightarrow> False)"
  by code_simp

lemma after_tests_reached: "loop_reaches fix_options (start_run fix_options 0) after_tests"
proof (rule loop_reaches.turn [OF loop_reaches.here])
  show "as_turns (rn_state (start_run fix_options 0)) < op_max_turns fix_options"
    by (simp add: fix_options_def bare_options_def start_run_def fresh_state_def)
  show "take_turn fix_options (start_run fix_options 0) = Inr after_tests"
    using first_turn_goes_on by (simp add: after_tests_def split: sum.splits)
qed

theorem conversation_is_well_formed_witness:
  "conversation (rn_messages after_tests) \<and> length (rn_messages after_tests) = 3"
proof -
  have "stops_for_tools fix_options"
    by (auto simp: stops_for_tools_def fix_options_def with_default_middleware_def bare_options_def
        call_tests_def say_done_def is_use_block_def)
  with conversation_is_well_formed [OF after_tests_reached]
  have "conversation (rn_messages after_tests)" .
  moreover have "length (rn_messages after_tests) = 3" by code_simp
  ultimately show ?thesis by simp
qed

lemma demo_returns: "\<exists>d r. tool_loop 5 fix_options (start_run fix_options 0) = Some (d, r) \<and> cp_success d
    \<and> \<not> as_gave_up (rn_state r)"
proof -
  have "(case tool_loop 5 fix_options (start_run fix_options 0) of None \<Rightarrow> False
      | Some x \<Rightarrow> cp_success (fst x) \<and> \<not> as_gave_up (rn_state (snd x)))" by code_simp
  then show ?thesis by (auto split: option.splits)
qed

theorem nothing_leaves_unredacted_witness:
  "\<exists>d r. tool_loop 5 fix_options (start_run fix_options 0) = Some (d, r) \<and> clean_run fix_options r"
proof -
  from demo_returns obtain d r where dr: "tool_loop 5 fix_options (start_run fix_options 0) = Some (d, r)"
    by blast
  have "idempotent fix_options"
    by (simp add: idempotent_def fix_options_def bare_options_def drop_hashes_def)
  from nothing_leaves_unredacted [OF dr this] have "clean_run fix_options r" ..
  with dr show ?thesis by (intro exI conjI)
qed

theorem success_needs_a_test_witness:
  "\<exists>d r. tool_loop 5 fix_options (start_run bare_options 0) = Some (d, r)
     \<and> list_ex test_call (as_history (rn_state r))"
proof -
  have same: "start_run fix_options 0 = start_run bare_options 0"
    by (simp add: start_run_def fix_options_def with_default_middleware_def)
  from demo_returns obtain d r where dr: "tool_loop 5 fix_options (start_run bare_options 0) = Some (d, r)"
    "cp_success d" "\<not> as_gave_up (rn_state r)" unfolding same by blast
  have o: "tests_booked (rn_state (start_run bare_options 0))" "tools_keep_marks bare_options"
    by (simp_all add: bare_options_def tools_keep_marks_def shell_tool_def start_run_def fresh_state_def tests_booked_def)
  from success_needs_a_test [OF dr(1) [unfolded fix_options_def] dr(2) o] dr(1,3) show ?thesis by blast
qed

definition push_call :: part where
  "push_call = ToolUse ''u9'' ''bash'' (JObj [(''command'', JStr ''git push origin'')])"

lemma push_is_dangerous: "dangerous (command_of (redact_value drop_hashes (use_input push_call)))"
  by code_simp

end
