(* ===== verification/Programs.thy ===== *)
theory Programs
  imports Prelude
begin

text \<open>
  Code that changes state and may throw, as a function from the state to a result and the state
  after it: the left results are exceptions. \<open>attempt\<close> is \<open>try\<close>, with the outcome as a value, and
  \<open>rescue\<close> is \<open>catch\<close>. A triple \<open>meets P m Q E\<close> says what holds after a run that starts in \<open>P\<close>, when it
  returns and when it throws; the rules follow the structure of a program.
\<close>

type_synonym ('s, 'e, 'a) prog = "'s \<Rightarrow> ('e + 'a) \<times> 's"

definition pure :: "'a \<Rightarrow> ('s, 'e, 'a) prog" where
  "pure a s = (Inr a, s)"

definition throw :: "'e \<Rightarrow> ('s, 'e, 'a) prog" where
  "throw e s = (Inl e, s)"

definition andthen :: "('s, 'e, 'a) prog \<Rightarrow> ('a \<Rightarrow> ('s, 'e, 'b) prog) \<Rightarrow> ('s, 'e, 'b) prog" where
  "andthen m f s = (case m s of (Inl e, t) \<Rightarrow> (Inl e, t) | (Inr a, t) \<Rightarrow> f a t)"

text \<open>\<open>try\<close>: the outcome as a value.\<close>

definition attempt :: "('s, 'e, 'a) prog \<Rightarrow> ('s, 'e, 'e + 'a) prog" where
  "attempt m s = (case m s of (r, t) \<Rightarrow> (Inr r, t))"

definition rescue :: "('s, 'e, 'a) prog \<Rightarrow> ('e \<Rightarrow> ('s, 'e, 'a) prog) \<Rightarrow> ('s, 'e, 'a) prog" where
  "rescue m h = andthen (attempt m) (\<lambda>r. case r of Inl e \<Rightarrow> h e | Inr a \<Rightarrow> pure a)"

text \<open>A change of the state.\<close>

definition modify :: "('s \<Rightarrow> 's) \<Rightarrow> ('s, 'e, unit) prog" where
  "modify f s = (Inr (), f s)"

fun each :: "('a \<Rightarrow> ('s, 'e, unit) prog) \<Rightarrow> 'a list \<Rightarrow> ('s, 'e, unit) prog" where
  "each f [] = pure ()"
| "each f (x # xs) = andthen (f x) (\<lambda>_. each f xs)"

lemma andthen_pure: "andthen (pure x) f = f x"
  by (simp add: fun_eq_iff andthen_def pure_def)

lemma andthen_assoc: "andthen (andthen m f) g = andthen m (\<lambda>x. andthen (f x) g)"
  by (auto simp: fun_eq_iff andthen_def split: prod.split sum.split)

section \<open>Triples\<close>

definition meets ::
  "('s \<Rightarrow> bool) \<Rightarrow> ('s, 'e, 'a) prog \<Rightarrow> ('a \<Rightarrow> 's \<Rightarrow> bool) \<Rightarrow> ('e \<Rightarrow> 's \<Rightarrow> bool) \<Rightarrow> bool" where
  "meets P m Q E \<longleftrightarrow>
     (\<forall>s. P s \<longrightarrow> (case m s of (Inl e, t) \<Rightarrow> E e t | (Inr a, t) \<Rightarrow> Q a t))"

named_theorems meets_rules \<open>triples that follow the structure of a program\<close>

lemma meetsD:
  "meets P m Q E \<Longrightarrow> P s \<Longrightarrow> m s = (Inr a, t) \<Longrightarrow> Q a t"
  "meets P m Q E \<Longrightarrow> P s \<Longrightarrow> m s = (Inl e, t) \<Longrightarrow> E e t"
  by (force simp: meets_def)+

lemma meets_pure [meets_rules]: "(\<And>s. P s \<Longrightarrow> Q a s) \<Longrightarrow> meets P (pure a) Q E"
  by (simp add: meets_def pure_def)

lemma meets_throw [meets_rules]: "(\<And>s. P s \<Longrightarrow> E e s) \<Longrightarrow> meets P (throw e) Q E"
  by (simp add: meets_def throw_def)

lemma meets_modify [meets_rules]: "(\<And>s. P s \<Longrightarrow> Q () (f s)) \<Longrightarrow> meets P (modify f) Q E"
  by (simp add: meets_def modify_def)

lemma meets_andthen [meets_rules]:
  "meets P m R E \<Longrightarrow> (\<And>a. meets (R a) (f a) Q E) \<Longrightarrow> meets P (andthen m f) Q E"
  unfolding meets_def andthen_def by (fastforce split: prod.splits sum.splits)

lemma meets_attempt:
  "meets P m (\<lambda>a. Q (Inr a)) (\<lambda>e. Q (Inl e)) \<Longrightarrow> meets P (attempt m) Q E"
  unfolding meets_def attempt_def by (fastforce split: prod.splits sum.splits)

lemma meets_rescue:
  assumes "meets P m Q R" "\<And>e. meets (R e) (h e) Q E"
  shows "meets P (rescue m h) Q E"
  unfolding rescue_def
proof (rule meets_andthen)
  show "meets P (attempt m) (\<lambda>r s. case r of Inl e \<Rightarrow> R e s | Inr a \<Rightarrow> Q a s) E"
    using assms(1) by (intro meets_attempt) simp
  fix r
  show "meets (\<lambda>s. case r of Inl e \<Rightarrow> R e s | Inr a \<Rightarrow> Q a s) (case r of Inl e \<Rightarrow> h e | Inr a \<Rightarrow> pure a) Q E"
    using assms(2) by (cases r) (simp_all add: meets_pure)
qed

lemma meets_weaken:
  "meets P m Q E \<Longrightarrow> (\<And>s. P' s \<Longrightarrow> P s) \<Longrightarrow> (\<And>a s. Q a s \<Longrightarrow> Q' a s) \<Longrightarrow> (\<And>e s. E e s \<Longrightarrow> E' e s) \<Longrightarrow>
   meets P' m Q' E'"
  unfolding meets_def by (fastforce split: prod.splits sum.splits)

lemma meets_conj:
  "meets P m Q E \<Longrightarrow> meets P' m Q' E' \<Longrightarrow>
   meets (\<lambda>s. P s \<and> P' s) m (\<lambda>a s. Q a s \<and> Q' a s) (\<lambda>e s. E e s \<and> E' e s)"
  unfolding meets_def by (fastforce split: prod.splits sum.splits)

text \<open>What does not depend on the state is kept.\<close>

lemma meets_frame: "meets P m Q E \<Longrightarrow> meets (\<lambda>s. P s \<and> c) m (\<lambda>a s. Q a s \<and> c) E"
  by (cases c) (simp_all add: meets_def)

lemma meets_ex:
  assumes "\<And>x. meets (P x) m Q E"
  shows "meets (\<lambda>s. \<exists>x. P x s) m Q E"
  unfolding meets_def by (intro allI impI, elim exE) (rule assms [unfolded meets_def, rule_format])

lemma meets_any: "meets P m (\<lambda>_ _. True) (\<lambda>_ _. True)"
  by (simp add: meets_def split: prod.split sum.split)

lemma meets_cases [meets_rules]:
  "(b \<Longrightarrow> meets P m Q E) \<Longrightarrow> (\<not> b \<Longrightarrow> meets P n Q E) \<Longrightarrow> meets P (if b then m else n) Q E"
  "(x = None \<Longrightarrow> meets P k Q E) \<Longrightarrow> (\<And>y. x = Some y \<Longrightarrow> meets P (g y) Q E) \<Longrightarrow>
     meets P (case x of None \<Rightarrow> k | Some y \<Rightarrow> g y) Q E"
  "(\<And>e. r = Inl e \<Longrightarrow> meets P (h e) Q E) \<Longrightarrow> (\<And>a. r = Inr a \<Longrightarrow> meets P (j a) Q E) \<Longrightarrow>
     meets P (case r of Inl e \<Rightarrow> h e | Inr a \<Rightarrow> j a) Q E"
  by (auto split: option.split sum.split)

text \<open>A property that every step keeps, whether it returns or throws.\<close>

definition keeps_always :: "('s \<Rightarrow> bool) \<Rightarrow> ('s, 'e, 'a) prog \<Rightarrow> bool" where
  "keeps_always I m = meets I m (\<lambda>_. I) (\<lambda>_. I)"

lemma keeps_always_run: "keeps_always I m \<Longrightarrow> I s \<Longrightarrow> m s = (r, t) \<Longrightarrow> I t"
  by (cases r) (auto simp: keeps_always_def dest: meetsD)

lemma keeps_always_rules [meets_rules]:
  "keeps_always I (pure a)" "keeps_always I (throw e)"
  "(\<And>s. I s \<Longrightarrow> I (f s)) \<Longrightarrow> keeps_always I (modify f)"
  "keeps_always I m \<Longrightarrow> (\<And>a. keeps_always I (g a)) \<Longrightarrow> keeps_always I (andthen m g)"
  "keeps_always I m \<Longrightarrow> keeps_always I (attempt m)"
  by (auto simp: keeps_always_def intro: meets_pure meets_throw meets_modify meets_andthen meets_attempt)

lemma keeps_always_rescue [meets_rules]:
  "keeps_always I m \<Longrightarrow> (\<And>e. keeps_always I (h e)) \<Longrightarrow> keeps_always I (rescue m h)"
  unfolding keeps_always_def by (rule meets_rescue)

lemma keeps_always_each [meets_rules]:
  "(\<And>x. x \<in> set xs \<Longrightarrow> keeps_always I (f x)) \<Longrightarrow> keeps_always I (each f xs)"
  by (induction xs) (simp_all add: keeps_always_rules)

lemma keeps_always_cases [meets_rules]:
  "(b \<Longrightarrow> keeps_always I m) \<Longrightarrow> (\<not> b \<Longrightarrow> keeps_always I n) \<Longrightarrow> keeps_always I (if b then m else n)"
  "(x = None \<Longrightarrow> keeps_always I k) \<Longrightarrow> (\<And>y. x = Some y \<Longrightarrow> keeps_always I (g y)) \<Longrightarrow>
     keeps_always I (case x of None \<Rightarrow> k | Some y \<Rightarrow> g y)"
  by (auto split: option.split)

end
