(* ===== verification/ReasonCodes.thy ===== *)
theory ReasonCodes
  imports IssueStatus
begin

text \<open>
  \<open>reason-codes.ts\<close>: the reasons an issue is handed to a human with. Every code of the shared
  contract has a remediation, so the reasons built here pass the contract of \<open>updateGroupStatus\<close>. An
  arrow or a dash of the source's texts, outside the 8-bit characters, is written in ASCII.
\<close>

datatype reason_kind =
    MissingGithubToken
  | RepoAccessDenied
  | EmptyRepository
  | InvalidDefaultBranch
  | UnresolvableHead
  | TokenDecryptFailed
  | AuthInvalid
  | PolicyBlocked
  | MissingLlmKey
  | MalformedDiff
  | VerificationFailed
  | SourcemapUnresolved
  | ArtifactFetchFailed
  | InsufficientContext
  | WorkerRuntimeError
  | LeaseLostReason
  | BudgetExhausted
  | TestsFailed
  | LowConfidenceFix
  | ReproNotAchievable
  | VerificationInfraError
  | DraftCapReached
  | TriageUnfixable
  | UnfixableNoAppFrames
  | UnfixableTestError
  | UnfixableThirdParty
  | UnfixableInfra
  | UnfixableNoSourcemap
  | BillingLimitReached
  | DependencyInstallFailed

fun code_text :: "reason_kind \<Rightarrow> string" where
  "code_text MissingGithubToken = ''missing_github_token''"
| "code_text RepoAccessDenied = ''repo_access_denied''"
| "code_text EmptyRepository = ''empty_repository''"
| "code_text InvalidDefaultBranch = ''invalid_default_branch''"
| "code_text UnresolvableHead = ''unresolvable_head''"
| "code_text TokenDecryptFailed = ''token_decrypt_failed''"
| "code_text AuthInvalid = ''auth_invalid''"
| "code_text PolicyBlocked = ''policy_blocked''"
| "code_text MissingLlmKey = ''missing_llm_key''"
| "code_text MalformedDiff = ''malformed_diff''"
| "code_text VerificationFailed = ''verification_failed''"
| "code_text SourcemapUnresolved = ''sourcemap_unresolved''"
| "code_text ArtifactFetchFailed = ''artifact_fetch_failed''"
| "code_text InsufficientContext = ''insufficient_context''"
| "code_text WorkerRuntimeError = ''worker_runtime_error''"
| "code_text LeaseLostReason = ''lease_lost''"
| "code_text BudgetExhausted = ''budget_exhausted''"
| "code_text TestsFailed = ''tests_failed''"
| "code_text LowConfidenceFix = ''low_confidence_fix''"
| "code_text ReproNotAchievable = ''repro_not_achievable''"
| "code_text VerificationInfraError = ''verification_infra_error''"
| "code_text DraftCapReached = ''draft_cap_reached''"
| "code_text TriageUnfixable = ''triage_unfixable''"
| "code_text UnfixableNoAppFrames = ''unfixable_no_app_frames''"
| "code_text UnfixableTestError = ''unfixable_test_error''"
| "code_text UnfixableThirdParty = ''unfixable_third_party''"
| "code_text UnfixableInfra = ''unfixable_infra''"
| "code_text UnfixableNoSourcemap = ''unfixable_no_sourcemap''"
| "code_text BillingLimitReached = ''billing_limit_reached''"
| "code_text DependencyInstallFailed = ''dependency_install_failed''"

fun default_remediation :: "reason_kind \<Rightarrow> string" where
  "default_remediation MissingGithubToken =
     ''Connect the GitHub App to this repository (Settings -> GitHub) so Opslane can read and open PRs.''"
| "default_remediation RepoAccessDenied =
     ''Confirm the GitHub App is installed on this repository and has read + pull-request permissions.''"
| "default_remediation EmptyRepository =
     ''Push at least one commit to this repository, then retry - there is no branch for Opslane to work from yet.''"
| "default_remediation InvalidDefaultBranch =
     ''This repository's default branch points at a branch that no longer exists. Set a valid default branch in GitHub (Settings -> Branches), then retry.''"
| "default_remediation UnresolvableHead =
     ''Opslane could not determine this repository's default branch. Check the repository is not in an unusual state, then retry.''"
| "default_remediation TokenDecryptFailed =
     ''Re-connect the GitHub integration - the stored credential could not be decrypted.''"
| "default_remediation AuthInvalid =
     ''Re-authenticate the GitHub connection; the existing token was rejected as invalid.''"
| "default_remediation PolicyBlocked =
     ''A repository or org policy blocked the change. Review branch-protection / app permissions, then retry.''"
| "default_remediation MissingLlmKey =
     ''Set the ANTHROPIC_API_KEY environment variable on the worker with a valid Anthropic API key.''"
| "default_remediation MalformedDiff =
     ''Review the error manually - the agent could not produce a valid, applicable diff.''"
| "default_remediation VerificationFailed =
     ''Review the candidate fix manually - Opslane could not verify it satisfied the failing behavior.''"
| "default_remediation SourcemapUnresolved =
     ''Upload source maps for this release (see the SDK build plugin) so the stack trace resolves to original source.''"
| "default_remediation ArtifactFetchFailed =
     ''Retry later - Opslane could not fetch a stored artifact (screenshot/replay) needed to analyze this error.''"
| "default_remediation InsufficientContext =
     ''Add a replay, breadcrumbs, or a reproduction so Opslane has enough context to investigate.''"
| "default_remediation WorkerRuntimeError =
     ''Review the error manually - the Opslane worker hit an unexpected internal error while processing this incident.''"
| "default_remediation LeaseLostReason =
     ''No action needed - the job lease expired mid-run and the incident will be retried automatically.''"
| "default_remediation BudgetExhausted =
     ''Review the error manually - the agent could not complete within its turn/budget limits. Consider guiding it with more context.''"
| "default_remediation TestsFailed =
     ''Review the candidate diff manually - the agent produced a fix but the test suite still fails, so it may be partial or cause regressions.''"
| "default_remediation LowConfidenceFix =
     ''Review the candidate diff and root-cause writeup, then apply or refine the fix manually - it did not clear the bar for an automatic PR.''"
| "default_remediation ReproNotAchievable =
     ''Review the candidate diff and evidence manually - Opslane could not construct a reliable reproduction test for this error, so the fix is verified only against the existing suite.''"
| "default_remediation VerificationInfraError =
     ''No immediate action needed - verification infrastructure failed (dependency install, test runner crash, or timeout), so the fix could not be proven either way. It will be retried on recurrence; if it persists, check worker logs.''"
| "default_remediation DraftCapReached =
     ''Review or close an existing Opslane draft PR, then retry this fix. The candidate diff remains available on the incident.''"
| "default_remediation TriageUnfixable =
     ''Review the error manually - triage determined it cannot be fixed with application code changes.''"
| "default_remediation UnfixableNoAppFrames =
     ''Add the `crossorigin` attribute to your <script> tags (with CORS headers) and throw Error objects (not strings) so the SDK captures real stack frames.''"
| "default_remediation UnfixableTestError =
     ''No action needed - this looks like a deliberate test error thrown to exercise Opslane.''"
| "default_remediation UnfixableThirdParty =
     ''Review manually - the error originates entirely in third-party code, so the fix is not in your application source.''"
| "default_remediation UnfixableInfra =
     ''Investigate infrastructure/network (CORS, DNS, timeouts, 5xx) - this is not an application code bug.''"
| "default_remediation UnfixableNoSourcemap =
     ''Upload source maps for this release so the minified stack trace resolves to original source, then retry.''"
| "default_remediation BillingLimitReached =
     ''This organization has used its included fix PRs for the month. Upgrade in Settings -> Billing to resume automated fix PRs.''"
| "default_remediation DependencyInstallFailed =
     ''Check that your dependencies install cleanly on a fresh checkout - Opslane could not install them, so it could not build or test a fix.''"

text \<open>The optional arguments of \<open>buildReason\<close> that are not given take the registry's text.\<close>

datatype runtime_platform = Javascript | Python

definition python_frames_remediation :: string where
  "python_frames_remediation =
     ''Capture a complete Python traceback with application frames and confirm deployed file paths correspond to tracked repository files.''"

definition build_reason ::
  "reason_kind \<Rightarrow> string option \<Rightarrow> string option \<Rightarrow> runtime_platform \<Rightarrow> reason" where
  "build_reason code msg rem plat =
     (let d = (if code = UnfixableNoAppFrames \<and> plat = Python then python_frames_remediation
               else default_remediation code)
      in \<lparr>reason_code = code_text code,
          reason_message = (case msg of None \<Rightarrow> d | Some m \<Rightarrow> m),
          remediation = (case rem of None \<Rightarrow> d | Some r \<Rightarrow> r)\<rparr>)"

definition reproduction_remediation :: "string list \<Rightarrow> string \<Rightarrow> string" where
  "reproduction_remediation steps fallback =
     (if steps \<noteq> [] then ''Reproduce with: '' @ join ''; '' steps else fallback)"

datatype diagnosis_outcome = CodeFix | NotActionable | NeedsMoreContext | IncompleteDiagnosis

record decision =
  dc_outcome :: diagnosis_outcome
  dc_external_system :: bool

definition reason_code_for_decision :: "decision option \<Rightarrow> reason_kind" where
  "reason_code_for_decision d =
     (case d of None \<Rightarrow> InsufficientContext
      | Some x \<Rightarrow>
          (case dc_outcome x of
             NotActionable \<Rightarrow> if dc_external_system x then UnfixableThirdParty else UnfixableInfra
           | CodeFix \<Rightarrow> LowConfidenceFix
           | _ \<Rightarrow> InsufficientContext))"

definition incomplete_message :: "reason_kind \<Rightarrow> string option" where
  "incomplete_message code =
     (case code of
        BudgetExhausted \<Rightarrow> Some ''The fix attempt stopped before it produced a result: it reached its turn or spend limit, or a model call failed.''
      | WorkerRuntimeError \<Rightarrow> Some ''The fix attempt stopped on an internal error before it produced a result.''
      | _ \<Rightarrow> None)"

definition is_incomplete_reason_code :: "reason_kind option \<Rightarrow> bool" where
  "is_incomplete_reason_code c = (case c of None \<Rightarrow> False | Some k \<Rightarrow> incomplete_message k \<noteq> None)"

definition incomplete_reason :: "reason_kind \<Rightarrow> reason" where
  "incomplete_reason k = build_reason k (incomplete_message k) None Javascript"

section \<open>Complete reasons\<close>

lemma code_text_not_empty [simp]: "code_text k \<noteq> []"
  by (cases k) simp_all

lemma default_remediation_not_empty [simp]: "default_remediation k \<noteq> []"
  by (cases k) simp_all

lemma code_text_inj: "code_text a = code_text b \<Longrightarrow> a = b"
  by (cases a; cases b) simp_all

lemma built_reason_is_complete:
  assumes "msg \<noteq> Some []" "rem \<noteq> Some []"
  shows "reason_complete (build_reason k msg rem plat)
    \<and> status_precheck GNeedsHuman (f\<lparr>sf_reason := Some (build_reason k msg rem plat),
          sf_terminal_fix_job := Some (c # jid)\<rparr>) lease = None"
proof -
  have "reason_complete (build_reason k msg rem plat)"
    using assms by (auto simp: reason_complete_def build_reason_def Let_def python_frames_remediation_def
        split: option.split)
  then show ?thesis by (simp add: status_precheck_def terminal_job_def)
qed

end
