(* ===== verification/Pipeline.thy ===== *)
theory Pipeline
  imports Programs Delivery Redact ReasonCodes
begin

text \<open>
  \<open>pipeline.ts\<close>: from the agent's fix to a pull request. The agent, the database, the provider and the
  clone are operations of an environment; \<open>run_pipeline\<close> calls them in the order of the source and
  records every call, so that the theorems can speak of what happened before a write. An operation
  may throw; what is not caught ends the run.
\<close>

section \<open>Computations that call out and may throw\<close>

type_synonym exn = string

datatype call =
    AgentFix
  | InsertLedger
  | Reserve delivery_request
  | RecordPr string nat
  | ListPulls string
  | BranchHead string
  | AssertLease
  | Push string string string
  | RecordPushed string
  | CreatePr string string bool
  | UsageEvent string bool

type_synonym ('w, 'a) io = "('w \<times> call list, exn, 'a) prog"

definition perform :: "call \<Rightarrow> ('w \<Rightarrow> (exn + 'a) \<times> 'w) \<Rightarrow> ('w, 'a) io" where
  "perform c g s = (let (r, w) = g (fst s) in (r, w, snd s @ [c]))"

text \<open>An optional callback that is not given does nothing.\<close>

definition perform_if :: "call \<Rightarrow> ('w \<Rightarrow> (exn + unit) \<times> 'w) option \<Rightarrow> ('w, unit) io" where
  "perform_if c g = (case g of None \<Rightarrow> pure () | Some f \<Rightarrow> perform c f)"

section \<open>Inputs and results\<close>

record fix_result =
  fx_ready :: bool
  fx_draft_eligible :: bool
  fx_diff :: "string option"
  fx_confidence :: "string option"
  fx_reason :: "reason option"
  fx_evidence :: "string option"
  fx_narrative :: "string option"

record pipeline_input =
  pi_group :: ident
  pi_fix_attempt :: "ident option"
  pi_title :: string
  pi_repo :: string
  pi_friction :: bool
  pi_human :: bool
  pi_python :: bool
  pi_draft_when_unverified :: bool

record open_pull =
  ou_url :: string
  ou_number :: nat
  ou_head :: string

datatype pr_result = PrMade string nat | PrFailed reason

text \<open>The environment; \<open>pv_client\<close> is false when there is no token to make a client of.\<close>

record 'w provider =
  pv_agent_fix :: "'w \<Rightarrow> (exn + fix_result) \<times> 'w"
  pv_insert_ledger :: "'w \<Rightarrow> (exn + unit) \<times> 'w"
  pv_reserve :: "(delivery_request \<Rightarrow> 'w \<Rightarrow> (exn + reserve_result) \<times> 'w) option"
  pv_record_pr :: "(string \<Rightarrow> nat \<Rightarrow> 'w \<Rightarrow> (exn + unit) \<times> 'w) option"
  pv_client :: bool
  pv_list_pulls :: "string \<Rightarrow> 'w \<Rightarrow> (exn + open_pull option) \<times> 'w"
  pv_branch_head :: "string \<Rightarrow> 'w \<Rightarrow> (exn + string option) \<times> 'w"
  pv_assert_lease :: "('w \<Rightarrow> (exn + unit) \<times> 'w) option"
  pv_push :: "string \<Rightarrow> string \<Rightarrow> string \<Rightarrow> 'w \<Rightarrow> (exn + string) \<times> 'w"
  pv_record_pushed :: "(string \<Rightarrow> 'w \<Rightarrow> (exn + unit) \<times> 'w) option"
  pv_create_pr :: "string \<Rightarrow> string \<Rightarrow> bool \<Rightarrow> 'w \<Rightarrow> (exn + pr_result) \<times> 'w"
  pv_sha256 :: "string \<Rightarrow> string"
  pv_fallback_narrative :: string
  pv_commit_message :: "string option \<Rightarrow> string option \<Rightarrow> string"

datatype pipeline_status = PrCreatedStatus | PrDraftStatus | NeedsHumanStatus

record pipeline_result =
  pl_status :: pipeline_status
  pl_url :: "string option"
  pl_number :: "nat option"
  pl_head :: "string option"
  pl_confidence :: "string option"
  pl_reason :: "reason option"
  pl_candidate :: "string option"
  pl_evidence :: "string option"
  pl_narrative :: "string option"

section \<open>The diff\<close>

definition max_stored_diff :: nat where "max_stored_diff = 262144"

definition bound_diff :: "string option \<Rightarrow> string option" where
  "bound_diff d =
     (case d of None \<Rightarrow> None
      | Some s \<Rightarrow>
          if s = [] \<or> trim s = [] then None
          else (let t = scrub_secrets s
                in Some (if max_stored_diff < length t
                         then take max_stored_diff t @ [CHR 0x0A] @ ''... [truncated]'' else t)))"

text \<open>What the reservation keeps: the bounded diff, or the diff itself when it is blank.\<close>

definition stored_diff :: "string \<Rightarrow> string" where
  "stored_diff d = (case bound_diff (Some d) of None \<Rightarrow> d | Some b \<Rightarrow> b)"

text \<open>The lines of a text for an expression with the flag \<open>m\<close>.\<close>

definition text_lines :: "string \<Rightarrow> string list" where
  "text_lines s = concat (map (split_on (CHR 0x0D)) (split_on (CHR 0x0A) s))"

definition header_path :: "string \<Rightarrow> string option" where
  "header_path l =
     (if list_ex (starts_with l) [''--- a/'', ''--- b/'', ''+++ a/'', ''+++ b/''] \<and> drop 6 l \<noteq> []
      then Some (drop 6 l) else None)"

definition unsafe_path :: "string \<Rightarrow> bool" where
  "unsafe_path p = (contains p ''..'' \<or> starts_with p ''/'' \<or> CHR 0x00 \<in> set p)"

definition diff_paths :: "string \<Rightarrow> string list" where
  "diff_paths d = List.map_filter header_path (text_lines d)"

text \<open>The first unsafe path, if any.\<close>

definition validate_diff_paths :: "string \<Rightarrow> string option" where
  "validate_diff_paths d =
     map_option (\<lambda>p. ''Unsafe diff path: '' @ p) (find unsafe_path (diff_paths d))"

section \<open>Decisions\<close>

definition draft_candidate :: "pipeline_input \<Rightarrow> fix_result \<Rightarrow> bool" where
  "draft_candidate i fx =
     (\<not> fx_ready fx \<and> fx_draft_eligible fx \<and> pi_draft_when_unverified i \<and> \<not> pi_python i)"

definition opens_pr :: "pipeline_input \<Rightarrow> fix_result \<Rightarrow> bool" where
  "opens_pr i fx = (fx_ready fx \<or> draft_candidate i fx)"

definition first_posture :: "pipeline_input \<Rightarrow> fix_result \<Rightarrow> posture" where
  "first_posture i fx =
     (if \<not> pi_human i then Draft else if draft_candidate i fx then Draft else Ready)"

definition operation_id :: "pipeline_input \<Rightarrow> ident" where
  "operation_id i = (case pi_fix_attempt i of None \<Rightarrow> pi_group i | Some a \<Rightarrow> a)"

definition branch_of :: "pipeline_input \<Rightarrow> string" where
  "branch_of i = ''opslane/fix-'' @ take 8 (operation_id i)"

definition request_of ::
  "'w provider \<Rightarrow> pipeline_input \<Rightarrow> posture \<Rightarrow> string \<Rightarrow> delivery_request" where
  "request_of v i ps diff =
     \<lparr>dr_operation = fix_operation (operation_id i), dr_branch = branch_of i, dr_posture = ps,
      dr_hash = pv_sha256 v diff,
      dr_diff = stored_diff diff\<rparr>"

definition repo_ok :: "string \<Rightarrow> bool" where
  "repo_ok r = (case split_on (CHR ''/'') r of (a # b # _) \<Rightarrow> a \<noteq> [] \<and> b \<noteq> [] | _ \<Rightarrow> False)"

definition narrative_of :: "'w provider \<Rightarrow> pipeline_input \<Rightarrow> fix_result \<Rightarrow> string option" where
  "narrative_of v i fx =
     (if pi_friction i then None
      else Some (case fx_narrative fx of None \<Rightarrow> pv_fallback_narrative v | Some n \<Rightarrow> n))"

definition commit_message :: "'w provider \<Rightarrow> pipeline_input \<Rightarrow> fix_result \<Rightarrow> string" where
  "commit_message v i fx =
     (if pi_friction i then ''fix: '' @ take 72 (pi_title i)
      else pv_commit_message v (narrative_of v i fx) (fx_evidence fx))"

section \<open>Results\<close>

definition handed_over ::
  "reason option \<Rightarrow> string option \<Rightarrow> string option \<Rightarrow> fix_result \<Rightarrow> string option \<Rightarrow> pipeline_result" where
  "handed_over why conf diff fx narr =
     \<lparr>pl_status = NeedsHumanStatus, pl_url = None, pl_number = None, pl_head = None,
      pl_confidence = conf, pl_reason = why, pl_candidate = bound_diff diff,
      pl_evidence = fx_evidence fx, pl_narrative = narr\<rparr>"

definition delivered ::
  "posture \<Rightarrow> string \<Rightarrow> nat \<Rightarrow> string \<Rightarrow> fix_result \<Rightarrow> string \<Rightarrow> string option \<Rightarrow> pipeline_result" where
  "delivered ps url n head fx diff narr =
     \<lparr>pl_status = (if ps = Draft then PrDraftStatus else PrCreatedStatus), pl_url = Some url,
      pl_number = Some n, pl_head = Some head, pl_confidence = fx_confidence fx,
      pl_reason = (if ps = Draft then fx_reason fx else None),
      pl_candidate = (if ps = Draft then bound_diff (Some diff) else None),
      pl_evidence = fx_evidence fx, pl_narrative = narr\<rparr>"

definition push_failed :: "exn \<Rightarrow> reason" where
  "push_failed e =
     \<lparr>reason_code = ''repo_access_denied'', reason_message = ''Failed to push branch: '' @ e,
      remediation = ''Ensure GITHUB_TOKEN has push access to the repository''\<rparr>"

definition malformed_diff :: "string \<Rightarrow> reason" where
  "malformed_diff e =
     \<lparr>reason_code = ''malformed_diff'', reason_message = e,
      remediation = ''Review the generated diff manually - it contains path traversal''\<rparr>"

section \<open>Stages\<close>

definition record_pr :: "'w provider \<Rightarrow> string \<Rightarrow> nat \<Rightarrow> ('w, unit) io" where
  "record_pr v url n = perform_if (RecordPr url n) (map_option (\<lambda>f. f url n) (pv_record_pr v))"

definition record_pushed :: "'w provider \<Rightarrow> string \<Rightarrow> ('w, unit) io" where
  "record_pushed v h = perform_if (RecordPushed h) (map_option (\<lambda>f. f h) (pv_record_pushed v))"

definition assert_lease :: "'w provider \<Rightarrow> ('w, unit) io" where
  "assert_lease v = perform_if AssertLease (pv_assert_lease v)"

definition open_pr ::
  "'w provider \<Rightarrow> pipeline_input \<Rightarrow> fix_result \<Rightarrow> string \<Rightarrow> posture \<Rightarrow> string \<Rightarrow> string \<Rightarrow>
   ('w, pipeline_result) io" where
  "open_pr v i fx branch ps diff head =
     andthen (assert_lease v) (\<lambda>_.
     andthen (perform (CreatePr branch diff (ps = Draft)) (pv_create_pr v branch diff (ps = Draft))) (\<lambda>pr.
       case pr of
         PrFailed why \<Rightarrow> pure (handed_over (Some why) None (Some diff) fx None)
       | PrMade url n \<Rightarrow>
           andthen (record_pr v url n) (\<lambda>_.
           andthen (perform (UsageEvent url (ps = Draft)) (\<lambda>w. (Inr (), w))) (\<lambda>_.
             pure (delivered ps url n head fx diff (narrative_of v i fx))))))"

definition push_branch ::
  "'w provider \<Rightarrow> pipeline_input \<Rightarrow> fix_result \<Rightarrow> string \<Rightarrow> posture \<Rightarrow> string \<Rightarrow> ('w, pipeline_result) io" where
  "push_branch v i fx branch ps diff =
     andthen (if pv_client v then perform (BranchHead branch) (pv_branch_head v branch) else pure None) (\<lambda>found.
     andthen (assert_lease v) (\<lambda>_.
     andthen (case truthy_str found of
                Some h \<Rightarrow> pure (Inr h)
              | None \<Rightarrow> attempt (perform (Push branch (commit_message v i fx) diff)
                           (pv_push v branch (commit_message v i fx) diff))) (\<lambda>pushed.
       case pushed of
         Inl e \<Rightarrow> pure (handed_over (Some (push_failed e)) None (Some diff) fx None)
       | Inr head \<Rightarrow>
           andthen (record_pushed v head) (\<lambda>_. open_pr v i fx branch ps diff head))))"

definition publish ::
  "'w provider \<Rightarrow> pipeline_input \<Rightarrow> fix_result \<Rightarrow> string \<Rightarrow> posture \<Rightarrow> string \<Rightarrow> ('w, pipeline_result) io" where
  "publish v i fx branch ps diff =
     (if \<not> repo_ok (pi_repo i)
      then pure (handed_over
             (Some (build_reason RepoAccessDenied (Some (''Invalid repository format: '' @ pi_repo i)) None Javascript))
             None (Some diff) fx (narrative_of v i fx))
      else
        andthen (if pv_client v then perform (ListPulls branch) (pv_list_pulls v branch) else pure None) (\<lambda>found.
          case found of
            Some u \<Rightarrow>
              andthen (record_pr v (ou_url u) (ou_number u)) (\<lambda>_.
              andthen (record_pushed v (ou_head u)) (\<lambda>_.
                pure (delivered ps (ou_url u) (ou_number u) (ou_head u) fx diff None)))
          | None \<Rightarrow> push_branch v i fx branch ps diff))"

definition settled_posture :: "pipeline_input \<Rightarrow> delivery_reservation \<Rightarrow> posture" where
  "settled_posture i r =
     (if dv_state r = Open then dv_posture r
      else if \<not> pi_human i then Draft else dv_posture r)"

text \<open>A delivery that is open with its whole identity needs no further write.\<close>

definition open_identity :: "delivery_reservation \<Rightarrow> (string \<times> nat \<times> string) option" where
  "open_identity r =
     (case (dv_state r, truthy_str (dv_pr_url r), truthy_num (dv_pr_number r), truthy_str (dv_head r)) of
        (Open, Some url, Some n, Some head) \<Rightarrow> Some (url, n, head)
      | _ \<Rightarrow> None)"

definition cap_reached_reason :: reason where
  "cap_reached_reason =
     build_reason DraftCapReached
       (Some ''This project has reached its open Opslane draft PR limit.'') None Javascript"

definition after_reserve ::
  "'w provider \<Rightarrow> pipeline_input \<Rightarrow> fix_result \<Rightarrow> string \<Rightarrow> reserve_result \<Rightarrow> ('w, pipeline_result) io" where
  "after_reserve v i fx diff res =
     (case res of
        CapReached \<Rightarrow> pure (handed_over (Some cap_reached_reason) (fx_confidence fx) (Some diff) fx None)
      | ReservedAs r \<Rightarrow>
          (case open_identity r of
             Some (url, n, head) \<Rightarrow>
               andthen (record_pr v url n) (\<lambda>_.
                 pure (delivered (settled_posture i r) url n head fx (dv_diff r) (narrative_of v i fx)))
           | None \<Rightarrow> publish v i fx (dv_branch r) (settled_posture i r) (dv_diff r)))"

definition deliver ::
  "'w provider \<Rightarrow> pipeline_input \<Rightarrow> fix_result \<Rightarrow> string \<Rightarrow> ('w, pipeline_result) io" where
  "deliver v i fx diff =
     (case pv_reserve v of
        None \<Rightarrow> publish v i fx (branch_of i) (first_posture i fx) diff
      | Some reserve \<Rightarrow>
          (let q = request_of v i (first_posture i fx) diff
           in andthen (perform (Reserve q) (reserve q)) (after_reserve v i fx diff)))"

text \<open>The ledger is written whether the agent returned or threw; a failure to write it is logged.\<close>

definition run_agent :: "'w provider \<Rightarrow> ('w, fix_result) io" where
  "run_agent v =
     andthen (attempt (perform AgentFix (pv_agent_fix v))) (\<lambda>res.
     andthen (attempt (perform InsertLedger (pv_insert_ledger v))) (\<lambda>_.
       case res of Inl e \<Rightarrow> throw e | Inr fx \<Rightarrow> pure fx))"

definition deliver_fix :: "'w provider \<Rightarrow> pipeline_input \<Rightarrow> fix_result \<Rightarrow> ('w, pipeline_result) io" where
  "deliver_fix v i fx =
     (case fx_diff fx of
        None \<Rightarrow> throw ''TypeError''
      | Some diff \<Rightarrow>
          (case validate_diff_paths diff of
             Some e \<Rightarrow> pure (handed_over (Some (malformed_diff e)) None (Some diff) fx None)
           | None \<Rightarrow> deliver v i fx diff))"

definition run_pipeline :: "'w provider \<Rightarrow> pipeline_input \<Rightarrow> ('w, pipeline_result) io" where
  "run_pipeline v i =
     andthen (run_agent v) (\<lambda>fx.
       if opens_pr i fx then deliver_fix v i fx
       else pure (handed_over (fx_reason fx) (fx_confidence fx) (fx_diff fx) fx None))"

end
