(* ===== verification/PipelineSafety.thy ===== *)
theory PipelineSafety
  imports Pipeline
begin

text \<open>
  What \<open>run_pipeline\<close> guarantees about the order of its calls, by a small program logic over the
  trace of calls: every write to the provider directly follows a check of the lease and comes after
  the reservation of the delivery, an automatic fix only ever writes drafts, and a pull request that
  is returned has been recorded.
\<close>

section \<open>A program logic for traces\<close>

text \<open>From a trace with \<open>P\<close> the computation ends with a result and a trace in \<open>Q\<close>.\<close>

definition spec :: "(call list \<Rightarrow> bool) \<Rightarrow> ('w, 'a) io \<Rightarrow> (exn + 'a \<Rightarrow> call list \<Rightarrow> bool) \<Rightarrow> bool" where
  "spec P m Q = (\<forall>w tr. P tr \<longrightarrow> Q (fst (m (w, tr))) (snd (snd (m (w, tr)))))"

text \<open>A result that is no exception.\<close>

definition returned :: "(exn \<Rightarrow> call list \<Rightarrow> bool) \<Rightarrow> ('a \<Rightarrow> call list \<Rightarrow> bool) \<Rightarrow> exn + 'a \<Rightarrow> call list \<Rightarrow> bool" where
  "returned E Q r tr = (case r of Inl e \<Rightarrow> E e tr | Inr a \<Rightarrow> Q a tr)"

lemma returned_simps [simp]: "returned E Q (Inl e) tr = E e tr" "returned E Q (Inr a) tr = Q a tr"
  by (simp_all add: returned_def)

lemma specD: "spec P m Q \<Longrightarrow> P tr \<Longrightarrow> m (w, tr) = (r, w1, tr1) \<Longrightarrow> Q r tr1"
  unfolding spec_def by (metis fst_conv snd_conv)

named_theorems spec_rules \<open>rules that follow the structure of a computation\<close>

lemma spec_pure [spec_rules]: "(\<And>tr. P tr \<Longrightarrow> Q a tr) \<Longrightarrow> spec P (pure a) (returned E Q)"
  by (simp add: spec_def pure_def)

lemma spec_throw [spec_rules]: "(\<And>tr. P tr \<Longrightarrow> E e tr) \<Longrightarrow> spec P (throw e) (returned E Q)"
  by (simp add: spec_def throw_def)

lemma spec_andthen [spec_rules]:
  assumes "spec P m (returned E R)" and "\<And>a. spec (R a) (f a) (returned E Q)"
  shows "spec P (andthen m f) (returned E Q)"
  unfolding spec_def
proof (intro allI impI)
  fix w tr
  assume "P tr"
  obtain r w1 tr1 where m: "m (w, tr) = (r, w1, tr1)" by (rule prod_cases3)
  with assms(1) \<open>P tr\<close> have r: "returned E R r tr1" by (rule specD)
  show "returned E Q (fst (andthen m f (w, tr))) (snd (snd (andthen m f (w, tr))))"
  proof (cases r)
    case (Inl e)
    with m r show ?thesis by (simp add: andthen_def)
  next
    case (Inr a)
    with r have "R a tr1" by simp
    with assms(2) [of a] have "returned E Q (fst (f a (w1, tr1))) (snd (snd (f a (w1, tr1))))"
      unfolding spec_def by blast
    with m Inr show ?thesis by (simp add: andthen_def)
  qed
qed

lemma spec_perform [spec_rules]:
  assumes "\<And>tr a. P tr \<Longrightarrow> Q a (tr @ [c])" "\<And>tr e. P tr \<Longrightarrow> E e (tr @ [c])"
  shows "spec P (perform c g) (returned E Q)"
  using assms by (simp add: spec_def perform_def Let_def returned_def split: prod.split sum.split)

text \<open>What is known of the results of the operation.\<close>

lemma spec_perform_result:
  assumes "\<And>tr a w w'. P tr \<Longrightarrow> g w = (Inr a, w') \<Longrightarrow> Q a (tr @ [c])" "\<And>tr e. P tr \<Longrightarrow> E e (tr @ [c])"
  shows "spec P (perform c g) (returned E Q)"
  using assms by (simp add: spec_def perform_def Let_def returned_def split: prod.split sum.split)

lemma spec_attempt:
  assumes "spec P m (returned F R)"
    and "\<And>e tr. F e tr \<Longrightarrow> Q (Inl e) tr" "\<And>a tr. R a tr \<Longrightarrow> Q (Inr a) tr"
  shows "spec P (attempt m) (returned E Q)"
  unfolding spec_def
proof (intro allI impI)
  fix w tr
  assume "P tr"
  obtain r w1 tr1 where m: "m (w, tr) = (r, w1, tr1)" by (rule prod_cases3)
  with assms(1) \<open>P tr\<close> have "returned F R r tr1" by (rule specD)
  with m assms(2,3) show "returned E Q (fst (attempt m (w, tr))) (snd (snd (attempt m (w, tr))))"
    by (cases r) (simp_all add: attempt_def)
qed

lemma spec_perform_if:
  assumes "g = None \<Longrightarrow> (\<And>tr. P tr \<Longrightarrow> Q () tr)" "\<And>tr. P tr \<Longrightarrow> Q () (tr @ [c])"
    "\<And>tr e. P tr \<Longrightarrow> E e (tr @ [c])"
  shows "spec P (perform_if c g) (returned E Q)"
proof (cases g)
  case None
  with assms(1) show ?thesis by (auto simp: perform_if_def intro: spec_pure)
next
  case (Some f)
  with assms(2,3) show ?thesis by (simp add: perform_if_def spec_perform)
qed

lemma spec_weaken:
  assumes "spec P m (returned E Q)" "\<And>tr. P' tr \<Longrightarrow> P tr"
    "\<And>a tr. Q a tr \<Longrightarrow> Q' a tr" "\<And>e tr. E e tr \<Longrightarrow> E' e tr"
  shows "spec P' m (returned E' Q')"
  unfolding spec_def
proof (intro allI impI)
  fix w tr
  assume "P' tr"
  then have "P tr" by (rule assms(2))
  with assms(1) have "returned E Q (fst (m (w, tr))) (snd (snd (m (w, tr))))" unfolding spec_def by blast
  then show "returned E' Q' (fst (m (w, tr))) (snd (snd (m (w, tr))))"
    using assms(3,4) by (cases "fst (m (w, tr))") simp_all
qed

section \<open>Invariants of the trace\<close>

definition is_write :: "call \<Rightarrow> bool" where
  "is_write c = (case c of Push _ _ _ \<Rightarrow> True | CreatePr _ _ _ \<Rightarrow> True | _ \<Rightarrow> False)"

definition leased :: "call list \<Rightarrow> bool" where
  "leased tr = (tr \<noteq> [] \<and> last tr = AssertLease)"

abbreviation keeps_trace :: "(call list \<Rightarrow> bool) \<Rightarrow> ('w, 'a) io \<Rightarrow> bool" where
  "keeps_trace I m \<equiv> spec I m (returned (\<lambda>_. I) (\<lambda>_. I))"

text \<open>
  A property that every call but a write keeps, and that a permitted write keeps directly after a
  check of the lease.
\<close>

locale trace_invariant =
  fixes I :: "call list \<Rightarrow> bool" and permitted :: "call \<Rightarrow> bool"
  assumes other: "I tr \<Longrightarrow> \<not> is_write c \<Longrightarrow> I (tr @ [c])"
    and leased_write: "I tr \<Longrightarrow> leased tr \<Longrightarrow> is_write c \<Longrightarrow> permitted c \<Longrightarrow> I (tr @ [c])"
begin

lemma keeps_pure: "keeps_trace I (pure a)"
  by (rule spec_pure)

lemma keeps_andthen: "keeps_trace I m \<Longrightarrow> (\<And>a. keeps_trace I (f a)) \<Longrightarrow> keeps_trace I (andthen m f)"
  by (rule spec_andthen)

lemma keeps_call: "\<not> is_write c \<Longrightarrow> keeps_trace I (perform c g)"
  by (intro spec_perform other)

lemma record_pr_keeps: "keeps_trace I (record_pr v url n)"
  unfolding record_pr_def by (intro spec_perform_if) (auto intro: other simp: is_write_def)

lemma record_pushed_keeps: "keeps_trace I (record_pushed v h)"
  unfolding record_pushed_def by (intro spec_perform_if) (auto intro: other simp: is_write_def)

lemma lease_gives:
  assumes "pv_assert_lease v \<noteq> None"
  shows "spec I (assert_lease v) (returned (\<lambda>_. I) (\<lambda>_ tr. I tr \<and> leased tr))"
  unfolding assert_lease_def using assms
  by (intro spec_perform_if) (auto intro: other simp: is_write_def leased_def)

lemma open_pr_keeps:
  assumes "pv_assert_lease v \<noteq> None" "permitted (CreatePr branch diff (ps = Draft))"
  shows "keeps_trace I (open_pr v i fx branch ps diff head)"
  unfolding open_pr_def
proof (rule spec_andthen [OF lease_gives [OF assms(1)]])
  fix u :: unit
  let ?create = "perform (CreatePr branch diff (ps = Draft)) (pv_create_pr v branch diff (ps = Draft))"
  have w: "spec (\<lambda>tr. I tr \<and> leased tr) ?create (returned (\<lambda>_. I) (\<lambda>_. I))"
    using assms(2) by (intro spec_perform) (auto intro: leased_write simp: is_write_def)
  show "spec (\<lambda>tr. I tr \<and> leased tr) (andthen ?create (\<lambda>pr. case pr of
         PrFailed why \<Rightarrow> pure (handed_over (Some why) None (Some diff) fx None)
       | PrMade url n \<Rightarrow>
           andthen (record_pr v url n) (\<lambda>_.
           andthen (perform (UsageEvent url (ps = Draft)) (\<lambda>w. (Inr (), w))) (\<lambda>_.
             pure (delivered ps url n head fx diff (narrative_of v i fx))))))
     (returned (\<lambda>_. I) (\<lambda>_. I))"
  proof (rule spec_andthen [OF w])
    fix pr
    show "keeps_trace I (case pr of
         PrFailed why \<Rightarrow> pure (handed_over (Some why) None (Some diff) fx None)
       | PrMade url n \<Rightarrow>
           andthen (record_pr v url n) (\<lambda>_.
           andthen (perform (UsageEvent url (ps = Draft)) (\<lambda>w. (Inr (), w))) (\<lambda>_.
             pure (delivered ps url n head fx diff (narrative_of v i fx)))))"
      by (cases pr) (auto intro!: keeps_andthen keeps_pure keeps_call record_pr_keeps simp: is_write_def)
  qed
qed

lemma push_branch_keeps:
  assumes "pv_assert_lease v \<noteq> None" "permitted (Push branch (commit_message v i fx) diff)"
    "permitted (CreatePr branch diff (ps = Draft))"
  shows "keeps_trace I (push_branch v i fx branch ps diff)"
  unfolding push_branch_def
proof (rule spec_andthen)
  show "keeps_trace I (if pv_client v then perform (BranchHead branch) (pv_branch_head v branch) else pure None)"
    by (auto intro!: spec_rules intro: other simp: is_write_def)
next
  fix found
  have p: "spec (\<lambda>tr. I tr \<and> leased tr) (case truthy_str found of
                Some h \<Rightarrow> pure (Inr h)
              | None \<Rightarrow> attempt (perform (Push branch (commit_message v i fx) diff)
                           (pv_push v branch (commit_message v i fx) diff)))
       (returned (\<lambda>_. I) (\<lambda>_. I))"
  proof (cases "truthy_str found")
    case None
    have "spec (\<lambda>tr. I tr \<and> leased tr) (perform (Push branch (commit_message v i fx) diff)
        (pv_push v branch (commit_message v i fx) diff)) (returned (\<lambda>_. I) (\<lambda>_. I))"
      using assms(2) by (intro spec_perform) (auto intro: leased_write simp: is_write_def)
    then show ?thesis unfolding None option.case by (rule spec_attempt)
  next
    case (Some h)
    then show ?thesis by (auto intro: spec_rules)
  qed
  show "keeps_trace I (andthen (assert_lease v) (\<lambda>_.
    andthen (case truthy_str found of
                Some h \<Rightarrow> pure (Inr h)
              | None \<Rightarrow> attempt (perform (Push branch (commit_message v i fx) diff)
                           (pv_push v branch (commit_message v i fx) diff))) (\<lambda>pushed.
       case pushed of
         Inl e \<Rightarrow> pure (handed_over (Some (push_failed e)) None (Some diff) fx None)
       | Inr head \<Rightarrow>
           andthen (record_pushed v head) (\<lambda>_. open_pr v i fx branch ps diff head))))"
  proof (rule spec_andthen [OF lease_gives [OF assms(1)]], rule spec_andthen [OF p])
    fix pushed
    show "keeps_trace I (case pushed of
         Inl e \<Rightarrow> pure (handed_over (Some (push_failed e)) None (Some diff) fx None)
       | Inr head \<Rightarrow> andthen (record_pushed v head) (\<lambda>_. open_pr v i fx branch ps diff head))"
      using open_pr_keeps [OF assms(1,3)]
      by (cases pushed) (auto intro!: keeps_andthen keeps_pure record_pushed_keeps)
  qed
qed

lemma publish_keeps:
  assumes "pv_assert_lease v \<noteq> None" "permitted (Push branch (commit_message v i fx) diff)"
    "permitted (CreatePr branch diff (ps = Draft))"
  shows "keeps_trace I (publish v i fx branch ps diff)"
proof (cases "repo_ok (pi_repo i)")
  case False
  then show ?thesis by (auto simp: publish_def intro: spec_rules)
next
  case True
  have l: "keeps_trace I (if pv_client v then perform (ListPulls branch) (pv_list_pulls v branch) else pure None)"
    by (auto intro!: spec_rules intro: other simp: is_write_def)
  have "keeps_trace I (case found of
            Some u \<Rightarrow>
              andthen (record_pr v (ou_url u) (ou_number u)) (\<lambda>_.
              andthen (record_pushed v (ou_head u)) (\<lambda>_.
                pure (delivered ps (ou_url u) (ou_number u) (ou_head u) fx diff None)))
          | None \<Rightarrow> push_branch v i fx branch ps diff)" for found
    using push_branch_keeps [OF assms]
    by (cases found) (auto intro!: keeps_andthen keeps_pure record_pr_keeps record_pushed_keeps)
  note found = this
  have "publish v i fx branch ps diff =
      andthen (if pv_client v then perform (ListPulls branch) (pv_list_pulls v branch) else pure None)
       (\<lambda>found. case found of
            Some u \<Rightarrow>
              andthen (record_pr v (ou_url u) (ou_number u)) (\<lambda>_.
              andthen (record_pushed v (ou_head u)) (\<lambda>_.
                pure (delivered ps (ou_url u) (ou_number u) (ou_head u) fx diff None)))
          | None \<Rightarrow> push_branch v i fx branch ps diff)"
    using True by (simp only: publish_def not_True_eq_False if_False)
  then show ?thesis by (simp only: spec_andthen [OF l found])
qed

lemma after_reserve_keeps:
  assumes "pv_assert_lease v \<noteq> None"
    and "\<And>r. res = ReservedAs r \<Longrightarrow> open_identity r = None \<Longrightarrow>
      permitted (Push (dv_branch r) (commit_message v i fx) (dv_diff r))
      \<and> permitted (CreatePr (dv_branch r) (dv_diff r) (settled_posture i r = Draft))"
  shows "keeps_trace I (after_reserve v i fx diff res)"
proof (cases res)
  case CapReached
  then show ?thesis by (simp add: after_reserve_def keeps_pure)
next
  case (ReservedAs r)
  show ?thesis
  proof (cases "open_identity r")
    case None
    with ReservedAs show ?thesis
      using publish_keeps [OF assms(1) conjunct1 conjunct2, OF assms(2) assms(2), OF ReservedAs None ReservedAs None]
      by (simp add: after_reserve_def)
  next
    case (Some x)
    with ReservedAs show ?thesis
      by (auto simp: after_reserve_def intro!: keeps_andthen keeps_pure record_pr_keeps split: prod.split)
  qed
qed

lemma deliver_keeps:
  assumes "pv_assert_lease v \<noteq> None"
    and "pv_reserve v = None \<Longrightarrow> permitted (Push (branch_of i) (commit_message v i fx) diff)
      \<and> permitted (CreatePr (branch_of i) diff (first_posture i fx = Draft))"
    and "\<And>f w r w'. pv_reserve v = Some f \<Longrightarrow>
      f (request_of v i (first_posture i fx) diff) w = (Inr (ReservedAs r), w') \<Longrightarrow>
      open_identity r = None \<Longrightarrow> permitted (Push (dv_branch r) (commit_message v i fx) (dv_diff r))
        \<and> permitted (CreatePr (dv_branch r) (dv_diff r) (settled_posture i r = Draft))"
  shows "keeps_trace I (deliver v i fx diff)"
proof (cases "pv_reserve v")
  case None
  with publish_keeps [OF assms(1) conjunct1 conjunct2, OF assms(2) assms(2), OF None None]
  show ?thesis by (simp add: deliver_def)
next
  case (Some f)
  let ?q = "request_of v i (first_posture i fx) diff"
  have r: "spec I (perform (Reserve ?q) (f ?q)) (returned (\<lambda>_. I)
      (\<lambda>a tr. I tr \<and> (\<exists>w w'. f ?q w = (Inr a, w'))))"
    by (rule spec_perform_result) (auto intro: other simp: is_write_def)
  have "spec (\<lambda>tr. I tr \<and> (\<exists>w w'. f ?q w = (Inr a, w'))) (after_reserve v i fx diff a)
      (returned (\<lambda>_. I) (\<lambda>_. I))" for a
  proof (cases "\<exists>w w'. f ?q w = (Inr a, w')")
    case True
    then have "keeps_trace I (after_reserve v i fx diff a)"
      using assms(3) [OF Some] by (intro after_reserve_keeps assms(1)) blast
    then show ?thesis by (rule spec_weaken) simp_all
  next
    case False
    then show ?thesis by (simp add: spec_def)
  qed
  from spec_andthen [OF r this] show ?thesis by (simp add: deliver_def Some Let_def)
qed

lemma run_agent_keeps: "keeps_trace I (run_agent v)"
  unfolding run_agent_def
proof (rule keeps_andthen)
  show "keeps_trace I (attempt (perform AgentFix (pv_agent_fix v)))"
    by (rule spec_attempt [OF keeps_call]) (simp_all add: is_write_def)
next
  fix res :: "exn + fix_result"
  show "keeps_trace I (andthen (attempt (perform InsertLedger (pv_insert_ledger v)))
     (\<lambda>_. case res of Inl e \<Rightarrow> throw e | Inr fx \<Rightarrow> pure fx))"
  proof (rule keeps_andthen)
    show "keeps_trace I (attempt (perform InsertLedger (pv_insert_ledger v)))"
      by (rule spec_attempt [OF keeps_call]) (simp_all add: is_write_def)
    show "keeps_trace I (case res of Inl e \<Rightarrow> throw e | Inr fx \<Rightarrow> pure fx)" for x :: "exn + unit"
      by (cases res) (simp_all add: spec_throw keeps_pure)
  qed
qed

lemma deliver_fix_keeps:
  assumes "\<And>diff. keeps_trace I (deliver v i fx diff)"
  shows "keeps_trace I (deliver_fix v i fx)"
  using assms by (auto simp: deliver_fix_def spec_throw keeps_pure split: option.split)

lemma run_pipeline_keeps:
  assumes "\<And>fx diff. keeps_trace I (deliver v i fx diff)"
  shows "keeps_trace I (run_pipeline v i)"
  unfolding run_pipeline_def
  by (rule keeps_andthen [OF run_agent_keeps]) (simp add: deliver_fix_keeps assms keeps_pure)

end

section \<open>Fences\<close>

definition lease_fenced :: "call list \<Rightarrow> bool" where
  "lease_fenced tr =
     ((case tr of [] \<Rightarrow> True | c # _ \<Rightarrow> \<not> is_write c)
      \<and> successively (\<lambda>a c. is_write c \<longrightarrow> a = AssertLease) tr)"

lemma fenced_snoc: "lease_fenced (tr @ [c]) = (lease_fenced tr \<and> (is_write c \<longrightarrow> leased tr))"
proof (cases tr)
  case Nil
  then show ?thesis by (simp add: lease_fenced_def leased_def)
next
  case (Cons a as)
  have "successively P ((a # as) @ [c]) = (successively P (a # as) \<and> P (last (a # as)) c)" for P
    by (simp only: successively_append_iff) auto
  from this [of "\<lambda>a c. is_write c \<longrightarrow> a = AssertLease"] show ?thesis
    by (auto simp: lease_fenced_def leased_def Cons)
qed

interpretation fence: trace_invariant lease_fenced "\<lambda>_. True"
  by unfold_locales (simp_all add: fenced_snoc)

definition is_reserve :: "call \<Rightarrow> bool" where
  "is_reserve c = (case c of Reserve _ \<Rightarrow> True | _ \<Rightarrow> False)"

fun reserved_before :: "bool \<Rightarrow> call list \<Rightarrow> bool" where
  "reserved_before seen [] = True"
| "reserved_before seen (c # cs) = ((is_write c \<longrightarrow> seen) \<and> reserved_before (seen \<or> is_reserve c) cs)"

lemma reserved_before_snoc:
  "reserved_before seen (tr @ [c]) =
     (reserved_before seen tr \<and> (is_write c \<longrightarrow> seen \<or> list_ex is_reserve tr))"
  by (induction tr arbitrary: seen) auto

lemma quiet_reserved: "list_all (\<lambda>c. \<not> is_write c) tr \<Longrightarrow> reserved_before seen tr"
  by (induction tr arbitrary: seen) auto

interpretation reserved: trace_invariant "\<lambda>tr. list_ex is_reserve tr \<and> reserved_before False tr" "\<lambda>_. True"
  by unfold_locales (simp_all add: reserved_before_snoc)

text \<open>Before the reservation nothing is written at all.\<close>

interpretation quiet: trace_invariant "list_all (\<lambda>c. \<not> is_write c)" "\<lambda>_. False"
  by unfold_locales simp_all

lemma deliver_reserved:
  assumes "pv_assert_lease v \<noteq> None" "pv_reserve v = Some f"
  shows "spec (list_all (\<lambda>c. \<not> is_write c)) (deliver v i fx diff)
    (returned (\<lambda>_. reserved_before False) (\<lambda>_. reserved_before False))"
proof -
  let ?q = "request_of v i (first_posture i fx) diff"
  let ?I = "\<lambda>tr. list_ex is_reserve tr \<and> reserved_before False tr"
  have r: "spec (list_all (\<lambda>c. \<not> is_write c)) (perform (Reserve ?q) (f ?q))
      (returned (\<lambda>_. reserved_before False) (\<lambda>_. ?I))"
    by (rule spec_perform) (auto simp: is_write_def is_reserve_def reserved_before_snoc quiet_reserved)
  have "keeps_trace ?I (after_reserve v i fx diff a)" for a
    by (rule reserved.after_reserve_keeps) (simp_all add: assms(1))
  then have "spec ?I (after_reserve v i fx diff a)
      (returned (\<lambda>_. reserved_before False) (\<lambda>_. reserved_before False))" for a
    by (rule spec_weaken) simp_all
  from spec_andthen [OF r this] show ?thesis by (simp add: deliver_def assms(2) Let_def)
qed

lemma run_pipeline_reserved:
  assumes "pv_assert_lease v \<noteq> None" "pv_reserve v = Some f"
  shows "spec (list_all (\<lambda>c. \<not> is_write c)) (run_pipeline v i)
    (returned (\<lambda>_. reserved_before False) (\<lambda>_. reserved_before False))"
  unfolding run_pipeline_def
proof (rule spec_andthen)
  show "spec (list_all (\<lambda>c. \<not> is_write c)) (run_agent v)
      (returned (\<lambda>_. reserved_before False) (\<lambda>_. list_all (\<lambda>c. \<not> is_write c)))"
    by (rule spec_weaken [OF quiet.run_agent_keeps]) (simp_all add: quiet_reserved)
next
  fix fx
  have d: "spec (list_all (\<lambda>c. \<not> is_write c)) (deliver_fix v i fx)
      (returned (\<lambda>_. reserved_before False) (\<lambda>_. reserved_before False))"
    using deliver_reserved [OF assms]
    by (auto simp: deliver_fix_def quiet_reserved intro!: spec_throw spec_pure split: option.split)
  then show "spec (list_all (\<lambda>c. \<not> is_write c))
      (if opens_pr i fx then deliver_fix v i fx
       else pure (handed_over (fx_reason fx) (fx_confidence fx) (fx_diff fx) fx None))
      (returned (\<lambda>_. reserved_before False) (\<lambda>_. reserved_before False))"
    by (simp add: spec_pure quiet_reserved)
qed

text \<open>
  C27: Given a lease check and a reservation callback, every push and every creation of a pull
  request directly follows a check of the lease, and comes after the reservation of the
  delivery, whatever the agent, the database and the provider answer or throw.
\<close>

theorem writes_are_fenced:
  assumes "run_pipeline v i (w, []) = (r, w', tr)"
    and "pv_assert_lease v \<noteq> None" "pv_reserve v \<noteq> None"
  shows "lease_fenced tr \<and> reserved_before False tr"
proof -
  obtain f where f: "pv_reserve v = Some f" using assms(3) by blast
  have "keeps_trace lease_fenced (run_pipeline v i)"
    by (rule fence.run_pipeline_keeps, rule fence.deliver_keeps) (simp_all add: assms(2))
  from specD [OF this _ assms(1)] have "returned (\<lambda>_. lease_fenced) (\<lambda>_. lease_fenced) r tr" by (simp add: lease_fenced_def)
  moreover from specD [OF run_pipeline_reserved [OF assms(2) f] _ assms(1)]
  have "returned (\<lambda>_. reserved_before False) (\<lambda>_. reserved_before False) r tr" by simp
  ultimately show ?thesis by (cases r) simp_all
qed

section \<open>Drafts\<close>

definition draft_only :: "call \<Rightarrow> bool" where
  "draft_only c = (case c of CreatePr _ _ d \<Rightarrow> d | _ \<Rightarrow> True)"

interpretation drafts: trace_invariant "list_all draft_only" draft_only
  by unfold_locales (auto simp: draft_only_def is_write_def split: call.splits)

text \<open>A reservation that is open carries the identity of its pull request.\<close>

definition open_is_identified :: "'w provider \<Rightarrow> bool" where
  "open_is_identified v =
     (\<forall>f q w r w'. pv_reserve v = Some f \<longrightarrow> f q w = (Inr (ReservedAs r), w') \<longrightarrow>
        dv_state r = Open \<longrightarrow> open_identity r \<noteq> None)"

lemma automatic_fix_opens_drafts:
  assumes "run_pipeline v i (w, []) = (r, w', tr)"
    and "\<not> pi_human i" "pv_assert_lease v \<noteq> None" "open_is_identified v"
  shows "list_all draft_only tr"
proof -
  have "keeps_trace (list_all draft_only) (run_pipeline v i)"
  proof (rule drafts.run_pipeline_keeps, rule drafts.deliver_keeps)
    fix fx diff
    show "draft_only (Push (branch_of i) (commit_message v i fx) diff)
      \<and> draft_only (CreatePr (branch_of i) diff (first_posture i fx = Draft))"
      by (simp add: draft_only_def first_posture_def assms(2))
    fix f w x w'
    assume "pv_reserve v = Some f" "open_identity x = None"
      and "f (request_of v i (first_posture i fx) diff) w = (Inr (ReservedAs x), w')"
    then have "dv_state x \<noteq> Open" using assms(4) unfolding open_is_identified_def by blast
    then show "draft_only (Push (dv_branch x) (commit_message v i fx) (dv_diff x))
      \<and> draft_only (CreatePr (dv_branch x) (dv_diff x) (settled_posture i x = Draft))"
      by (simp add: draft_only_def settled_posture_def assms(2))
  qed (rule assms(3))
  from specD [OF this _ assms(1)] show ?thesis by (cases r) simp_all
qed

section \<open>The diff that is pushed\<close>

definition writes_diff :: "string \<Rightarrow> call \<Rightarrow> bool" where
  "writes_diff d c = (case c of Push _ _ e \<Rightarrow> e = d | CreatePr _ e _ \<Rightarrow> e = d | _ \<Rightarrow> True)"

interpretation diffs: trace_invariant "list_all (writes_diff d)" "writes_diff d" for d
  by unfold_locales (auto simp: writes_diff_def is_write_def split: call.splits)

text \<open>An agent that answers with \<open>fx\<close>, and a database without an earlier reservation.\<close>

definition agent_answers :: "'w provider \<Rightarrow> fix_result \<Rightarrow> bool" where
  "agent_answers v fx = (\<forall>w. fst (pv_agent_fix v w) = Inr fx)"

definition reserves_fresh :: "'w provider \<Rightarrow> bool" where
  "reserves_fresh v =
     (\<exists>f. pv_reserve v = Some f
        \<and> (\<forall>q w r w'. f q w = (Inr (ReservedAs r), w') \<longrightarrow> r = fresh_reservation q))"

lemma run_agent_answers:
  assumes "agent_answers v fx"
  shows "spec (list_all (writes_diff d)) (run_agent v)
    (returned (\<lambda>_. list_all (writes_diff d)) (\<lambda>a tr. list_all (writes_diff d) tr \<and> a = fx))"
proof -
  have keep: "keeps_trace (list_all (writes_diff d)) (run_agent v)" by (rule diffs.run_agent_keeps)
  have "fst (run_agent v s) = Inr fx" for s
  proof -
    have "fst (pv_agent_fix v (fst s)) = Inr fx" using assms by (simp add: agent_answers_def)
    then obtain w1 where a: "pv_agent_fix v (fst s) = (Inr fx, w1)" by (metis prod.collapse)
    obtain l w2 where "pv_insert_ledger v w1 = (l, w2)" by (rule prod.exhaust)
    with a show ?thesis
      by (simp add: run_agent_def andthen_def attempt_def perform_def pure_def Let_def)
  qed
  with keep show ?thesis unfolding spec_def by simp
qed

lemma stored_diff_differs:
  "max_stored_diff + 16 < length d \<Longrightarrow> trim d \<noteq> [] \<Longrightarrow> stored_diff d \<noteq> d"
  "length d \<le> max_stored_diff \<Longrightarrow> trim d \<noteq> [] \<Longrightarrow> scrub_secrets d \<noteq> d \<Longrightarrow> stored_diff d \<noteq> d"
proof -
  have len: "trim d \<noteq> [] \<Longrightarrow> length (stored_diff d) \<le> max_stored_diff + 16"
    by (auto simp: stored_diff_def bound_diff_def Let_def trim_def trim_left_def trim_right_def)
  then show "max_stored_diff + 16 < length d \<Longrightarrow> trim d \<noteq> [] \<Longrightarrow> stored_diff d \<noteq> d" by auto
  show "length d \<le> max_stored_diff \<Longrightarrow> trim d \<noteq> [] \<Longrightarrow> scrub_secrets d \<noteq> d \<Longrightarrow> stored_diff d \<noteq> d"
    by (auto simp: stored_diff_def bound_diff_def Let_def trim_def trim_left_def trim_right_def
        dest!: arg_cong [where f = length])
qed

text \<open>
  C28: For a first delivery the diff that is pushed and opened is not the one the agent verified
  but the one stored with the reservation, which has been scrubbed and cut: a diff of more than
  262160 characters, or one that scrubbing changes, is pushed altered.
\<close>

theorem stored_diff_is_pushed:
  assumes "run_pipeline v i (w, []) = (r, w', tr)"
    and "pv_assert_lease v \<noteq> None" "agent_answers v fx" "fx_diff fx = Some diff" "reserves_fresh v"
  shows "list_all (writes_diff (stored_diff diff)) tr
    \<and> (max_stored_diff + 16 < length diff \<longrightarrow> trim diff \<noteq> [] \<longrightarrow> stored_diff diff \<noteq> diff)
    \<and> (length diff \<le> max_stored_diff \<longrightarrow> trim diff \<noteq> [] \<longrightarrow> scrub_secrets diff \<noteq> diff \<longrightarrow>
         stored_diff diff \<noteq> diff)"
proof -
  let ?I = "list_all (writes_diff (stored_diff diff))"
  obtain f where f: "pv_reserve v = Some f"
    "\<And>q w r w'. f q w = (Inr (ReservedAs r), w') \<Longrightarrow> r = fresh_reservation q"
    using assms(5) unfolding reserves_fresh_def by blast
  have "keeps_trace ?I (deliver v i fx diff)"
  proof (rule diffs.deliver_keeps [OF assms(2)])
    fix g w x w'
    assume "pv_reserve v = Some g" "g (request_of v i (first_posture i fx) diff) w = (Inr (ReservedAs x), w')"
    with f have "x = fresh_reservation (request_of v i (first_posture i fx) diff)" by simp
    then have "dv_diff x = stored_diff diff" by (simp add: fresh_reservation_def request_of_def)
    then show "writes_diff (stored_diff diff) (Push (dv_branch x) (commit_message v i fx) (dv_diff x))
      \<and> writes_diff (stored_diff diff) (CreatePr (dv_branch x) (dv_diff x) (settled_posture i x = Draft))"
      by (simp add: writes_diff_def)
  qed (simp add: f)
  then have "keeps_trace ?I (deliver_fix v i fx)"
    using assms(4) by (auto simp: deliver_fix_def spec_pure split: option.split)
  then have step: "spec (\<lambda>tr. ?I tr \<and> a = fx) (if opens_pr i a then deliver_fix v i a
      else pure (handed_over (fx_reason a) (fx_confidence a) (fx_diff a) a None))
      (returned (\<lambda>_. ?I) (\<lambda>_. ?I))" for a
    by (cases "a = fx") (auto simp: spec_def spec_pure pure_def)
  have "keeps_trace ?I (run_pipeline v i)"
    unfolding run_pipeline_def by (rule spec_andthen [OF run_agent_answers [OF assms(3)] step])
  from specD [OF this _ assms(1)] have "?I tr" by (cases r) simp_all
  with stored_diff_differs [of diff] show ?thesis by blast
qed

section \<open>The pull request that is returned\<close>

definition recorded :: "'w provider \<Rightarrow> string \<Rightarrow> nat \<Rightarrow> call list \<Rightarrow> bool" where
  "recorded v url n tr = (pv_record_pr v \<noteq> None \<longrightarrow> RecordPr url n \<in> set tr)"

lemma recorded_snoc [simp]: "recorded v url n tr \<Longrightarrow> recorded v url n (tr @ [c])"
  by (auto simp: recorded_def)

definition identified :: "'w provider \<Rightarrow> pipeline_result \<Rightarrow> call list \<Rightarrow> bool" where
  "identified v res tr =
     (pl_status res = NeedsHumanStatus
      \<or> (\<exists>url n h. pl_url res = Some url \<and> pl_number res = Some n \<and> pl_head res = Some h
           \<and> recorded v url n tr))"

abbreviation identifies :: "'w provider \<Rightarrow> ('w, pipeline_result) io \<Rightarrow> bool" where
  "identifies v m \<equiv> spec (\<lambda>_. True) m (returned (\<lambda>_ _. True) (identified v))"

lemma identified_handed [simp]: "identified v (handed_over a b c fx d) tr"
  by (simp add: identified_def handed_over_def)

lemma identified_delivered: "recorded v url n tr \<Longrightarrow> identified v (delivered ps url n h fx d nr) tr"
  by (simp add: identified_def delivered_def)

lemma spec_any: "spec P m (returned (\<lambda>_ _. True) (\<lambda>_ _. True))"
  by (simp add: spec_def returned_def split: sum.split)

lemma record_pr_records:
  "spec P (record_pr v url n) (returned (\<lambda>_ _. True) (\<lambda>_. recorded v url n))"
  unfolding record_pr_def by (rule spec_perform_if) (auto simp: recorded_def)

lemma identifies_handed: "identifies v (pure (handed_over a b c fx d))"
  by (rule spec_pure) simp

text \<open>Recording, one more call, and the result.\<close>

lemma identifies_recorded:
  assumes "spec (recorded v url n) m (returned (\<lambda>_ _. True) (\<lambda>_. recorded v url n))"
  shows "identifies v (andthen (record_pr v url n) (\<lambda>_. andthen m (\<lambda>_. pure (delivered ps url n h fx d nr))))"
proof (rule spec_andthen [OF record_pr_records])
  fix u :: unit
  show "spec (recorded v url n) (andthen m (\<lambda>_. pure (delivered ps url n h fx d nr)))
      (returned (\<lambda>_ _. True) (identified v))"
    by (rule spec_andthen [OF assms]) (rule spec_pure, rule identified_delivered)
qed

lemma open_pr_identifies: "identifies v (open_pr v i fx b ps d h)"
  unfolding open_pr_def
proof (rule spec_andthen [OF spec_any], rule spec_andthen [OF spec_any])
  fix pr
  have "spec (recorded v url n) (perform (UsageEvent url (ps = Draft)) (\<lambda>w. (Inr (), w)))
      (returned (\<lambda>_ _. True) (\<lambda>_. recorded v url n))" for url n
    by (rule spec_perform) simp_all
  then have made: "identifies v (andthen (record_pr v url n) (\<lambda>_.
      andthen (perform (UsageEvent url (ps = Draft)) (\<lambda>w. (Inr (), w))) (\<lambda>_.
        pure (delivered ps url n h fx d (narrative_of v i fx)))))" for url n
    by (rule identifies_recorded)
  show "identifies v (case pr of
         PrFailed why \<Rightarrow> pure (handed_over (Some why) None (Some d) fx None)
       | PrMade url n \<Rightarrow>
           andthen (record_pr v url n) (\<lambda>_.
           andthen (perform (UsageEvent url (ps = Draft)) (\<lambda>w. (Inr (), w))) (\<lambda>_.
             pure (delivered ps url n h fx d (narrative_of v i fx)))))"
    using made identifies_handed by (cases pr) (simp_all only: pr_result.case)
qed

lemma push_branch_identifies: "identifies v (push_branch v i fx b ps d)"
  unfolding push_branch_def
proof (rule spec_andthen [OF spec_any], rule spec_andthen [OF spec_any], rule spec_andthen [OF spec_any])
  fix pushed
  show "identifies v (case pushed of
         Inl e \<Rightarrow> pure (handed_over (Some (push_failed e)) None (Some d) fx None)
       | Inr head \<Rightarrow> andthen (record_pushed v head) (\<lambda>_. open_pr v i fx b ps d head))"
    by (cases pushed) (auto simp: identifies_handed intro: spec_andthen [OF spec_any open_pr_identifies])
qed

lemma publish_identifies: "identifies v (publish v i fx b ps d)"
proof (cases "repo_ok (pi_repo i)")
  case False
  then show ?thesis by (simp add: publish_def identifies_handed)
next
  case True
  have "spec (recorded v url n) (record_pushed v h) (returned (\<lambda>_ _. True) (\<lambda>_. recorded v url n))" for url n h
    unfolding record_pushed_def by (rule spec_perform_if) simp_all
  then have "identifies v (case found of
            Some u \<Rightarrow>
              andthen (record_pr v (ou_url u) (ou_number u)) (\<lambda>_.
              andthen (record_pushed v (ou_head u)) (\<lambda>_.
                pure (delivered ps (ou_url u) (ou_number u) (ou_head u) fx d None)))
          | None \<Rightarrow> push_branch v i fx b ps d)" for found
    by (cases found) (simp_all add: push_branch_identifies identifies_recorded)
  with True show ?thesis
    by (simp only: publish_def not_True_eq_False if_False) (rule spec_andthen [OF spec_any])
qed

lemma after_reserve_identifies: "identifies v (after_reserve v i fx d res)"
proof (cases res)
  case CapReached
  then show ?thesis by (simp add: after_reserve_def identifies_handed)
next
  case (ReservedAs r)
  have "identifies v (andthen (record_pr v url n) (\<lambda>_. pure (delivered ps url n h fx e nr)))" for url n ps h e nr
    by (rule spec_andthen [OF record_pr_records]) (rule spec_pure, rule identified_delivered)
  with ReservedAs publish_identifies show ?thesis
    by (cases "open_identity r") (auto simp: after_reserve_def)
qed

lemma deliver_identifies: "identifies v (deliver v i fx d)"
proof (cases "pv_reserve v")
  case None
  then show ?thesis by (simp add: deliver_def publish_identifies)
next
  case (Some f)
  then show ?thesis
    by (simp add: deliver_def Let_def) (rule spec_andthen [OF spec_any], rule after_reserve_identifies)
qed

lemma returned_pull_request_is_recorded:
  assumes "run_pipeline v i (w, []) = (Inr res, w', tr)"
    and "pl_status res \<noteq> NeedsHumanStatus"
  shows "\<exists>url n h. pl_url res = Some url \<and> pl_number res = Some n \<and> pl_head res = Some h
    \<and> (pv_record_pr v = None \<or> RecordPr url n \<in> set tr)"
proof -
  have "identifies v (deliver_fix v i fx)" for fx
    using deliver_identifies
    by (auto simp: deliver_fix_def identifies_handed spec_throw split: option.split)
  then have "identifies v (run_pipeline v i)"
    unfolding run_pipeline_def by (intro spec_andthen [OF spec_any]) (simp add: identifies_handed)
  from specD [OF this _ assms(1)] have "identified v res tr" by simp
  with assms(2) show ?thesis by (auto simp: identified_def recorded_def)
qed

section \<open>Witnesses\<close>

definition demo_fix :: fix_result where
  "demo_fix = \<lparr>fx_ready = True, fx_draft_eligible = False, fx_diff = Some ''+++ b/a.ts'',
     fx_confidence = Some ''high'', fx_reason = None, fx_evidence = None, fx_narrative = Some ''n''\<rparr>"

definition demo_pipeline_input :: pipeline_input where
  "demo_pipeline_input = \<lparr>pi_group = ''i1'', pi_fix_attempt = None, pi_title = ''t'', pi_repo = ''o/r'',
     pi_friction = False, pi_human = False, pi_python = False, pi_draft_when_unverified = False\<rparr>"

definition demo_provider :: "unit provider" where
  "demo_provider =
     \<lparr>pv_agent_fix = \<lambda>w. (Inr demo_fix, w), pv_insert_ledger = \<lambda>w. (Inl ''down'', w),
      pv_reserve = Some (\<lambda>q w. (Inr (ReservedAs (fresh_reservation q)), w)),
      pv_record_pr = Some (\<lambda>u n w. (Inr (), w)), pv_client = True,
      pv_list_pulls = \<lambda>b w. (Inr None, w), pv_branch_head = \<lambda>b w. (Inr None, w),
      pv_assert_lease = Some (\<lambda>w. (Inr (), w)), pv_push = \<lambda>b c d w. (Inr ''abc'', w),
      pv_record_pushed = Some (\<lambda>h w. (Inr (), w)),
      pv_create_pr = \<lambda>b d dr w. (Inr (PrMade ''u7'' 7), w), pv_sha256 = \<lambda>d. ''h'',
      pv_fallback_narrative = ''f'', pv_commit_message = \<lambda>n e. ''fix: t''\<rparr>"

lemma demo_pipeline_runs:
  "\<exists>res tr. run_pipeline demo_provider demo_pipeline_input ((), []) = (Inr res, (), tr)
     \<and> pl_status res = PrDraftStatus"
proof -
  obtain r w tr where run: "run_pipeline demo_provider demo_pipeline_input ((), []) = (r, w, tr)"
    by (rule prod_cases3)
  have "validate_diff_paths ''+++ b/a.ts'' = None" "repo_ok ''o/r''" by code_simp+
  then have "(case fst (run_pipeline demo_provider demo_pipeline_input ((), [])) of
      Inl e \<Rightarrow> False | Inr res \<Rightarrow> pl_status res = PrDraftStatus)"
    by (simp add: run_pipeline_def run_agent_def deliver_fix_def deliver_def after_reserve_def publish_def
        push_branch_def open_pr_def record_pr_def record_pushed_def assert_lease_def andthen_def
        attempt_def perform_def perform_if_def pure_def opens_pr_def demo_provider_def demo_fix_def
        demo_pipeline_input_def open_identity_def settled_posture_def fresh_reservation_def
        delivered_def truthy_str_def Let_def)
  then have "case r of Inl e \<Rightarrow> False | Inr res \<Rightarrow> pl_status res = PrDraftStatus" by (simp only: run fst_conv)
  then obtain res where "r = Inr res" "pl_status res = PrDraftStatus" by (cases r) simp_all
  with run show ?thesis by (intro exI [of _ res] exI [of _ tr]) simp
qed

theorem writes_are_fenced_witness:
  "\<exists>res tr. run_pipeline demo_provider demo_pipeline_input ((), []) = (Inr res, (), tr)
     \<and> lease_fenced tr \<and> reserved_before False tr"
proof -
  from demo_pipeline_runs obtain res tr where
    run: "run_pipeline demo_provider demo_pipeline_input ((), []) = (Inr res, (), tr)" by blast
  have "pv_assert_lease demo_provider \<noteq> None" "pv_reserve demo_provider \<noteq> None"
    by (simp_all add: demo_provider_def)
  from writes_are_fenced [OF run this] run show ?thesis by blast
qed

theorem stored_diff_is_pushed_witness:
  "\<exists>res tr. run_pipeline demo_provider demo_pipeline_input ((), []) = (Inr res, (), tr)
     \<and> list_all (writes_diff (stored_diff ''+++ b/a.ts'')) tr"
proof -
  from demo_pipeline_runs obtain res tr where
    run: "run_pipeline demo_provider demo_pipeline_input ((), []) = (Inr res, (), tr)" by blast
  have "pv_assert_lease demo_provider \<noteq> None" "agent_answers demo_provider demo_fix"
    "fx_diff demo_fix = Some ''+++ b/a.ts''" "reserves_fresh demo_provider"
    by (auto simp: demo_provider_def demo_fix_def agent_answers_def reserves_fresh_def)
  from stored_diff_is_pushed [OF run this] run show ?thesis by blast
qed

end
