(* ===== verification/Session.thy ===== *)
theory Session
  imports Prelude
begin

text \<open>
  The durable session identity of the browser SDK (\<open>session.ts\<close>). The module's variable \<open>state\<close> is
  \<open>tab_state\<close>, the item of \<open>sessionStorage\<close> is \<open>tab_cell\<close>, and \<open>tab_ids\<close> counts the ids drawn from
  the browser's random source. A \<open>browser\<close> is what one call sees of its surroundings: the clock,
  and whether the storage can be read and be written. Text in the storage is kept as the value
  that \<open>JSON.parse\<close> gives for it; numbers are exact.
\<close>

section \<open>State\<close>

record session_state =
  se_id :: ident
  se_seq :: nat
  se_activity :: time
  se_user :: "string option"

record session_progress =
  sp_id :: ident
  sp_next :: nat

record session_rotation =
  sr_previous :: session_progress
  sr_new :: ident

datatype cell = NoItem | NotJson | Item json

record tab =
  tab_state :: "session_state option"
  tab_cell :: cell
  tab_ids :: nat

record browser =
  br_now :: time
  br_readable :: bool
  br_writable :: bool

record randomness =
  rd_uuid :: "nat \<Rightarrow> ident option"
  rd_bytes :: "nat \<Rightarrow> nat list"

definition idle_ms :: time where "idle_ms = 30 * 60 * 1000"

section \<open>Helpers\<close>

definition hex_byte :: "nat \<Rightarrow> string" where
  "hex_byte b = [hex_digit (b div 16), hex_digit (b mod 16)]"

definition new_id :: "randomness \<Rightarrow> nat \<Rightarrow> ident" where
  "new_id r n =
     (case rd_uuid r n of
        Some u \<Rightarrow> u
      | None \<Rightarrow> ''sess_'' @ concat (map hex_byte (rd_bytes r n)))"

definition user_of_json :: "json \<Rightarrow> string option option" where
  "user_of_json v = (case v of JNull \<Rightarrow> Some None | JStr u \<Rightarrow> Some (Some u) | _ \<Rightarrow> None)"

definition session_of_json :: "json \<Rightarrow> session_state option" where
  "session_of_json v =
     (case v of
        JObj fs \<Rightarrow>
          (case (map_of fs ''id'', map_of fs ''seq'', map_of fs ''lastActivityAt'',
                 Option.bind (map_of fs ''userId'') user_of_json) of
             (Some (JStr i), Some (JNum q), Some (JNum a), Some u) \<Rightarrow>
               if of_int \<lfloor>q\<rfloor> = q \<and> 0 \<le> q
               then Some \<lparr>se_id = i, se_seq = nat \<lfloor>q\<rfloor>, se_activity = a, se_user = u\<rparr> else None
           | _ \<Rightarrow> None)
      | _ \<Rightarrow> None)"

definition json_of_session :: "session_state \<Rightarrow> json" where
  "json_of_session s =
     JObj [(''id'', JStr (se_id s)), (''seq'', JNum (real (se_seq s))),
           (''lastActivityAt'', JNum (se_activity s)),
           (''userId'', case se_user s of None \<Rightarrow> JNull | Some u \<Rightarrow> JStr u)]"

definition read_storage :: "browser \<Rightarrow> tab \<Rightarrow> session_state option" where
  "read_storage b t =
     (if br_readable b then (case tab_cell t of Item v \<Rightarrow> session_of_json v | _ \<Rightarrow> None) else None)"

definition write_storage :: "browser \<Rightarrow> session_state \<Rightarrow> tab \<Rightarrow> tab" where
  "write_storage b s t =
     (if br_writable b then t\<lparr>tab_cell := Item (json_of_session s)\<rparr> else t)"

definition is_expired :: "browser \<Rightarrow> session_state \<Rightarrow> bool" where
  "is_expired b s = (idle_ms < br_now b - se_activity s)"

text \<open>Drawing a new identity, keeping it and storing it.\<close>

definition start_session ::
  "randomness \<Rightarrow> browser \<Rightarrow> string option \<Rightarrow> tab \<Rightarrow> session_state \<times> tab" where
  "start_session r b u t =
     (let s = \<lparr>se_id = new_id r (tab_ids t), se_seq = 0, se_activity = br_now b, se_user = u\<rparr>
      in (s, write_storage b s (t\<lparr>tab_state := Some s, tab_ids := Suc (tab_ids t)\<rparr>)))"

definition load_session :: "randomness \<Rightarrow> browser \<Rightarrow> tab \<Rightarrow> session_state \<times> tab" where
  "load_session r b t =
     (case tab_state t of
        Some s \<Rightarrow> (s, t)
      | None \<Rightarrow>
          (case read_storage b t of
             None \<Rightarrow> start_session r b None t
           | Some s \<Rightarrow>
               if is_expired b s then start_session r b (se_user s) t
               else (s, t\<lparr>tab_state := Some s\<rparr>)))"

section \<open>Operations\<close>

definition ensure_session_id :: "randomness \<Rightarrow> browser \<Rightarrow> tab \<Rightarrow> ident \<times> tab" where
  "ensure_session_id r b t = (let (s, t1) = load_session r b t in (se_id s, t1))"

definition get_session_id :: "tab \<Rightarrow> ident" where
  "get_session_id t = (case tab_state t of None \<Rightarrow> [] | Some s \<Rightarrow> se_id s)"

definition keep_session :: "browser \<Rightarrow> session_state \<Rightarrow> tab \<Rightarrow> tab" where
  "keep_session b s t = write_storage b s (t\<lparr>tab_state := Some s\<rparr>)"

definition touch_session :: "randomness \<Rightarrow> browser \<Rightarrow> tab \<Rightarrow> tab" where
  "touch_session r b t =
     (let (s, t1) = load_session r b t in keep_session b (s\<lparr>se_activity := br_now b\<rparr>) t1)"

definition next_chunk_seq :: "randomness \<Rightarrow> browser \<Rightarrow> tab \<Rightarrow> nat \<times> tab" where
  "next_chunk_seq r b t =
     (let (s, t1) = load_session r b t
      in (se_seq s, keep_session b (s\<lparr>se_seq := se_seq s + 1, se_activity := br_now b\<rparr>) t1))"

definition peek_chunk_seq :: "randomness \<Rightarrow> browser \<Rightarrow> tab \<Rightarrow> nat \<times> tab" where
  "peek_chunk_seq r b t = (let (s, t1) = load_session r b t in (se_seq s, t1))"

definition progress_of :: "session_state \<Rightarrow> session_progress" where
  "progress_of s = \<lparr>sp_id = se_id s, sp_next = se_seq s\<rparr>"

definition get_session_progress :: "randomness \<Rightarrow> browser \<Rightarrow> tab \<Rightarrow> session_progress \<times> tab" where
  "get_session_progress r b t = (let (s, t1) = load_session r b t in (progress_of s, t1))"

definition rotate_session_if_idle ::
  "randomness \<Rightarrow> browser \<Rightarrow> tab \<Rightarrow> session_rotation option \<times> tab" where
  "rotate_session_if_idle r b t =
     (let (s, t1) = load_session r b t
      in if \<not> is_expired b s then (None, t1)
         else let (s2, t2) = start_session r b (se_user s) t1
              in (Some \<lparr>sr_previous = progress_of s, sr_new = se_id s2\<rparr>, t2))"

definition set_session_user :: "randomness \<Rightarrow> browser \<Rightarrow> string option \<Rightarrow> tab \<Rightarrow> bool \<times> tab" where
  "set_session_user r b u t =
     (let (s, t1) = load_session r b t
      in if se_user s = u then (False, t1) else (True, snd (start_session r b u t1)))"

definition reset_session_id :: "tab \<Rightarrow> tab" where
  "reset_session_id t = t\<lparr>tab_state := None\<rparr>"

definition rehydrate_from_storage :: "browser \<Rightarrow> tab \<Rightarrow> tab" where
  "rehydrate_from_storage b t = t\<lparr>tab_state := read_storage b t\<rparr>"

section \<open>Round trip\<close>

lemma session_of_json_of_session [simp]: "session_of_json (json_of_session s) = Some s"
proof -
  have "user_of_json (case se_user s of None \<Rightarrow> JNull | Some u \<Rightarrow> JStr u) = Some (se_user s)"
    by (simp add: user_of_json_def split: option.splits)
  then show ?thesis by (simp add: session_of_json_def json_of_session_def)
qed

text \<open>
  A tab is in step with its storage when the session in memory, if there is one, is the one that
  reading the storage gives.
\<close>

definition stored :: "tab \<Rightarrow> session_state option" where
  "stored t = (case tab_cell t of Item v \<Rightarrow> session_of_json v | _ \<Rightarrow> None)"

definition in_step :: "tab \<Rightarrow> bool" where
  "in_step t = (tab_state t \<noteq> None \<longrightarrow> stored t = tab_state t)"

definition usable :: "browser \<Rightarrow> bool" where
  "usable b = (br_readable b \<and> br_writable b)"

named_theorems session_simps \<open>what the operations on the session do to the tab\<close>

lemma read_storage_usable [session_simps]: "usable b \<Longrightarrow> read_storage b t = stored t"
  by (simp add: usable_def read_storage_def stored_def)

lemma keep_session_tab [session_simps]:
  "tab_state (keep_session b s t) = Some s" "tab_ids (keep_session b s t) = tab_ids t"
  "usable b \<Longrightarrow> stored (keep_session b s t) = Some s"
  by (simp_all add: keep_session_def write_storage_def usable_def stored_def)

lemma start_session_tab [session_simps]:
  "tab_state (snd (start_session r b u t)) = Some (fst (start_session r b u t))"
  "tab_ids (snd (start_session r b u t)) = Suc (tab_ids t)"
  "usable b \<Longrightarrow> stored (snd (start_session r b u t)) = Some (fst (start_session r b u t))"
  "se_id (fst (start_session r b u t)) = new_id r (tab_ids t)"
  "se_seq (fst (start_session r b u t)) = 0"
  by (simp_all add: start_session_def write_storage_def usable_def stored_def Let_def)

text \<open>Loading gives the session that is current, or a new one.\<close>

definition current :: "tab \<Rightarrow> session_state option" where
  "current t = (case tab_state t of None \<Rightarrow> stored t | Some s \<Rightarrow> Some s)"

lemma in_step_keep: "usable b \<Longrightarrow> in_step (keep_session b s t)"
  by (simp add: in_step_def session_simps)

lemma in_step_start: "usable b \<Longrightarrow> in_step (snd (start_session r b u t))"
  by (simp add: in_step_def session_simps)

lemma load_session_cases:
  assumes "usable b" and "in_step t" and "load_session r b t = (s, t1)"
  obtains (kept) "current t = Some s" "tab_state t1 = Some s" "tab_ids t1 = tab_ids t"
      "tab_cell t1 = tab_cell t" "stored t1 = Some s"
    | (started) u where "tab_state t = None" "(s, t1) = start_session r b u t"
proof (cases "tab_state t")
  case (Some s0)
  with assms have "s0 = s" "t1 = t" by (auto simp: load_session_def)
  with Some assms show ?thesis by (intro kept) (simp_all add: current_def in_step_def)
next
  case None
  show ?thesis
  proof (cases "stored t")
    case empty: None
    with None assms show ?thesis by (intro started [of None]) (auto simp: load_session_def session_simps)
  next
    case (Some s0)
    show ?thesis
    proof (cases "is_expired b s0")
      case True
      with None Some assms show ?thesis
        by (intro started [of "se_user s0"]) (auto simp: load_session_def session_simps)
    next
      case False
      with None Some assms have "s0 = s" "t1 = t\<lparr>tab_state := Some s\<rparr>"
        by (auto simp: load_session_def session_simps)
      with None Some show ?thesis by (intro kept) (simp_all add: current_def stored_def)
    qed
  qed
qed

lemma load_session_in_step:
  assumes "usable b" and "in_step t"
  shows "in_step (snd (load_session r b t))"
proof -
  obtain s t1 where l: "load_session r b t = (s, t1)" by force
  from assms l have "in_step t1"
  proof (cases rule: load_session_cases)
    case kept
    then show ?thesis by (simp add: in_step_def)
  next
    case (started u)
    then have "t1 = snd (start_session r b u t)" by (metis snd_conv)
    with assms show ?thesis by (simp add: in_step_start)
  qed
  with l show ?thesis by simp
qed

lemma load_session_state: "tab_state (snd (load_session r b t)) = Some (fst (load_session r b t))"
  by (simp add: load_session_def session_simps split: option.splits)

lemma current_load:
  assumes "usable b" and "in_step t"
  shows "current (snd (load_session r b t)) = Some (fst (load_session r b t))"
  by (simp add: load_session_def current_def session_simps split: option.splits)

section \<open>Reloading the page\<close>

lemma load_after_keep:
  assumes "usable b" "usable b'" and "\<not> is_expired b' s"
  shows "load_session r b' (reset_session_id (keep_session b s t))
    = (s, (keep_session b s t)\<lparr>tab_state := Some s\<rparr>)"
  using assms
  by (simp add: load_session_def reset_session_id_def session_simps stored_def keep_session_def
      write_storage_def usable_def)

text \<open>
  C38: Reading back the session that an operation stored gives the session itself: after a page
  reload within the idle period the next chunk continues the numbering of the same session for
  the same user.
\<close>

theorem session_survives_reload:
  assumes "usable b" "usable b'" and "br_now b' \<le> br_now b + idle_ms"
    and "next_chunk_seq r b t = (n, t1)"
    and "next_chunk_seq r b' (reset_session_id t1) = (m, t2)"
  shows "m = n + 1 \<and> get_session_id t2 = get_session_id t1
    \<and> map_option se_user (tab_state t2) = map_option se_user (tab_state t1)
    \<and> read_storage b' (reset_session_id t1) = tab_state t1"
proof -
  obtain s t0 where l: "load_session r b t = (s, t0)" by force
  let ?s = "s\<lparr>se_seq := se_seq s + 1, se_activity := br_now b\<rparr>"
  have n: "n = se_seq s" "t1 = keep_session b ?s t0"
    using assms(4) l by (auto simp: next_chunk_seq_def)
  have "\<not> is_expired b' ?s" using assms(3) by (simp add: is_expired_def)
  note r = load_after_keep [OF assms(1,2) this, of r t0]
  have "stored (reset_session_id t1) = Some ?s"
    using assms(1) by (simp add: n reset_session_id_def keep_session_def write_storage_def
        usable_def stored_def)
  with assms(5) r show ?thesis
    by (auto simp: n next_chunk_seq_def get_session_id_def session_simps assms(2))
qed

definition example_random :: randomness where
  "example_random = \<lparr>rd_uuid = (\<lambda>n. None), rd_bytes = (\<lambda>n. [n, 255])\<rparr>"

lemma session_survives_reload_witness:
  "fst (next_chunk_seq example_random (\<lparr>br_now = 5000, br_readable = True, br_writable = True\<rparr>)
      (reset_session_id (snd (next_chunk_seq example_random
        (\<lparr>br_now = 2000, br_readable = True, br_writable = True\<rparr>)
        (\<lparr>tab_state = None, tab_cell = NotJson, tab_ids = 7\<rparr>))))) = 1"
proof -
  let ?b = "\<lparr>br_now = 2000, br_readable = True, br_writable = True\<rparr>"
  let ?b' = "\<lparr>br_now = 5000, br_readable = True, br_writable = True\<rparr>"
  let ?t = "\<lparr>tab_state = None, tab_cell = NotJson, tab_ids = 7\<rparr>"
  obtain n t1 where a: "next_chunk_seq example_random ?b ?t = (n, t1)" by force
  obtain m t2 where b: "next_chunk_seq example_random ?b' (reset_session_id t1) = (m, t2)" by force
  have "m = n + 1"
    using session_survives_reload [OF _ _ _ a b] by (simp add: usable_def idle_ms_def)
  moreover have "n = 0"
    using a by (simp add: next_chunk_seq_def load_session_def read_storage_def start_session_def Let_def)
  ultimately show ?thesis using a b by simp
qed

text \<open>
  The session that only memory holds is lost with the page: when the session of the store is read
  but cannot be written, the page that follows hands out the same number of the same session.
\<close>

lemma failed_write_repeats_number:
  assumes "tab_state t = None" "tab_cell t = Item (json_of_session s)"
    and "br_readable b" "\<not> br_writable b" "\<not> is_expired b s"
    and "br_readable b'" "\<not> is_expired b' s"
    and "next_chunk_seq r b t = (n, t1)" "next_chunk_seq r b' (reset_session_id t1) = (m, t2)"
  shows "m = n \<and> get_session_id t2 = get_session_id t1"
  using assms
  by (auto simp: next_chunk_seq_def load_session_def read_storage_def keep_session_def write_storage_def
      reset_session_id_def get_session_id_def)

end
