(* ===== verification/Replay.thy ===== *)
theory Replay
  imports Session
begin

text \<open>
  Session recording in the browser SDK: the stream of \<open>replay.ts\<close>, cut into chunks, and the
  uploads of \<open>chunk-upload.ts\<close>. A handler of the module is a function on the record of the
  module's variables; what is awaited (a registration, the import of the recorder, an upload) is
  an entry of a list of continuations, and its answer is an input of its own. The recorder is
  third-party code: its emissions are inputs, and \<open>rp_asked\<close> notes that it was asked for a full
  snapshot as the last act of a handler. \<open>rp_sent\<close> is the log of the requests that were made.
\<close>

section \<open>State\<close>

datatype rr_type = Meta | FullSnapshot | OtherType

record rr_event =
  rr_type :: rr_type
  rr_json :: string

type_synonym emission = "rr_event \<times> bool"

record chunk =
  ch_session :: ident
  ch_seq :: int
  ch_events :: "rr_event list"
  ch_full :: bool
  ch_keepalive :: bool

datatype start_phase = Registering nat ident | Importing nat

datatype upload_result = Landed bool | StopUploads

record replay =
  rp_tab :: tab
  rp_buffer :: "rr_event list"
  rp_bytes :: nat
  rp_session :: ident
  rp_seq :: int
  rp_installed :: bool
  rp_recording :: bool
  rp_snapshot_fn :: bool
  rp_start_gen :: nat
  rp_rotation_gen :: nat
  rp_ready :: bool
  rp_awaiting :: bool
  rp_meta :: "rr_event option"
  rp_flushing :: bool
  rp_listener :: bool
  rp_stopped :: bool
  rp_starts :: "start_phase list"
  rp_rotations :: "(nat \<times> ident) list"
  rp_inline :: "((ident \<times> int) \<times> rr_event list) list"
  rp_sent :: "chunk list"
  rp_asked :: bool

text \<open>
  What one handler sees of its surroundings. The third-party compressor gives the size of the
  compressed body of a chunk, or nothing where it is not supported.
\<close>

record env =
  en_random :: randomness
  en_browser :: browser
  en_gzip :: "rr_event list \<Rightarrow> bool \<Rightarrow> nat option"
  en_enabled :: bool
  en_supported :: bool

definition max_chunk_raw_bytes :: nat where "max_chunk_raw_bytes = 20 * 1024 * 1024"
definition inline_budget_bytes :: nat where "inline_budget_bytes = 64 * 1024"

definition fresh_page :: "tab \<Rightarrow> chunk list \<Rightarrow> replay" where
  "fresh_page t sent =
     \<lparr>rp_tab = reset_session_id t, rp_buffer = [], rp_bytes = 0, rp_session = [], rp_seq = -1,
      rp_installed = False, rp_recording = False, rp_snapshot_fn = False, rp_start_gen = 0,
      rp_rotation_gen = 0, rp_ready = False, rp_awaiting = False, rp_meta = None,
      rp_flushing = False, rp_listener = False, rp_stopped = False, rp_starts = [],
      rp_rotations = [], rp_inline = [], rp_sent = sent, rp_asked = False\<rparr>"

section \<open>Uploads\<close>

definition chunk_result :: "nat \<Rightarrow> bool \<Rightarrow> upload_result" where
  "chunk_result status ok = (if status = 403 \<or> status = 410 then StopUploads else Landed ok)"

definition send_chunk ::
  "ident \<Rightarrow> int \<Rightarrow> rr_event list \<Rightarrow> bool \<Rightarrow> bool \<Rightarrow> replay \<Rightarrow> replay" where
  "send_chunk sid seq evs full keep s =
     s\<lparr>rp_sent := rp_sent s @ [\<lparr>ch_session = sid, ch_seq = seq, ch_events = evs, ch_full = full,
                               ch_keepalive = keep\<rparr>]\<rparr>"

definition upload_chunk :: "env \<Rightarrow> ident \<Rightarrow> int \<Rightarrow> rr_event list \<Rightarrow> bool \<Rightarrow> replay \<Rightarrow> replay" where
  "upload_chunk e sid seq evs full s =
     (if rp_stopped s \<or> evs = [] then s
      else case en_gzip e evs full of
        None \<Rightarrow> s
      | Some _ \<Rightarrow> send_chunk sid seq evs full False s)"

definition flush_inline :: "env \<Rightarrow> ident \<Rightarrow> int \<Rightarrow> rr_event list \<Rightarrow> replay \<Rightarrow> replay" where
  "flush_inline e sid seq evs s =
     (if rp_stopped s \<or> evs = [] \<or> seq < 0 then s
      else case en_gzip e evs False of
        None \<Rightarrow> s
      | Some n \<Rightarrow> if inline_budget_bytes < n then s else send_chunk sid seq evs False True s)"

definition ship_chunk :: "env \<Rightarrow> ident \<Rightarrow> int \<Rightarrow> rr_event list \<Rightarrow> replay \<Rightarrow> replay" where
  "ship_chunk e sid seq evs s = upload_chunk e sid seq evs True s"

section \<open>The stream\<close>

definition approx_event_bytes :: "rr_event \<Rightarrow> nat" where
  "approx_event_bytes ev = utf8_length (rr_json ev)"

definition take_full_snapshot :: "replay \<Rightarrow> replay" where
  "take_full_snapshot s = (if rp_snapshot_fn s then s\<lparr>rp_asked := True\<rparr> else s)"

text \<open>A buffer that opens with a full snapshot, after its metadata when that was held back.\<close>

definition restart_buffer :: "rr_event \<Rightarrow> replay \<Rightarrow> replay" where
  "restart_buffer ev s =
     (let buf = (case rp_meta s of None \<Rightarrow> [ev] | Some m \<Rightarrow> [m, ev])
      in s\<lparr>rp_buffer := buf, rp_bytes := sum_list (map approx_event_bytes buf), rp_meta := None\<rparr>)"

text \<open>The number the chunk in hand is shipped under.\<close>

definition claim_seq :: "env \<Rightarrow> replay \<Rightarrow> int \<times> replay" where
  "claim_seq e s =
     (if 0 \<le> rp_seq s then (rp_seq s, s)
      else let (n, t) = next_chunk_seq (en_random e) (en_browser e) (rp_tab s)
           in (int n, s\<lparr>rp_tab := t\<rparr>))"

definition ship_if :: "env \<Rightarrow> ident \<Rightarrow> int \<Rightarrow> rr_event list \<Rightarrow> replay \<Rightarrow> replay" where
  "ship_if e sid seq evs s = (if 0 \<le> seq \<and> sid \<noteq> [] then ship_chunk e sid seq evs s else s)"

definition begin_session_rotation ::
  "env \<Rightarrow> ident \<Rightarrow> session_progress \<Rightarrow> replay \<Rightarrow> replay" where
  "begin_session_rotation e new prev s =
     (let pending = rp_buffer s;
          seq = (if pending \<noteq> [] then (if 0 \<le> rp_seq s then rp_seq s else int (sp_next prev)) else -1);
          old = (if sp_id prev \<noteq> [] then sp_id prev else rp_session s);
          s1 = s\<lparr>rp_rotation_gen := rp_rotation_gen s + 1, rp_buffer := [], rp_bytes := 0,
                 rp_seq := -1, rp_session := new, rp_ready := False, rp_awaiting := False,
                 rp_meta := None, rp_rotations := rp_rotations s @ [(rp_rotation_gen s + 1, new)]\<rparr>
      in if pending \<noteq> [] then ship_if e old seq pending s1 else s1)"

definition push_event :: "env \<Rightarrow> rr_event \<Rightarrow> replay \<Rightarrow> replay" where
  "push_event e ev s =
     (let s1 = s\<lparr>rp_buffer := rp_buffer s @ [ev], rp_bytes := rp_bytes s + approx_event_bytes ev,
                 rp_tab := touch_session (en_random e) (en_browser e) (rp_tab s)\<rparr>
      in if max_chunk_raw_bytes < rp_bytes s1 then take_full_snapshot s1 else s1)"

definition checkout :: "env \<Rightarrow> rr_event \<Rightarrow> replay \<Rightarrow> replay" where
  "checkout e ev s =
     (if rp_buffer s = [] then restart_buffer ev s
      else let (seq, s1) = claim_seq e s
           in ship_if e (rp_session s1) seq (rp_buffer s) ((restart_buffer ev s1)\<lparr>rp_seq := -1\<rparr>))"

definition before_ready :: "rr_event \<Rightarrow> replay \<Rightarrow> replay" where
  "before_ready ev s =
     (if rr_type ev = Meta then s\<lparr>rp_meta := Some ev\<rparr>
      else if rr_type ev = FullSnapshot \<and> rp_awaiting s
      then (restart_buffer ev s)\<lparr>rp_awaiting := False, rp_ready := True\<rparr>
      else s)"

definition on_emit :: "env \<Rightarrow> emission \<Rightarrow> replay \<Rightarrow> replay" where
  "on_emit e em s0 =
     (let (ev, is_checkout) = em;
          (rot, t) = rotate_session_if_idle (en_random e) (en_browser e) (rp_tab s0);
          s = s0\<lparr>rp_tab := t\<rparr>
      in case rot of
           Some x \<Rightarrow> begin_session_rotation e (sr_new x) (sr_previous x) s
         | None \<Rightarrow>
             if \<not> rp_ready s then before_ready ev s
             else if is_checkout \<and> rr_type ev = Meta then s\<lparr>rp_meta := Some ev\<rparr>
             else if is_checkout \<and> rr_type ev \<noteq> FullSnapshot then s
             else if is_checkout then checkout e ev s
             else push_event e ev s)"

definition flush_replay_buffer_for_error :: "env \<Rightarrow> replay \<Rightarrow> replay" where
  "flush_replay_buffer_for_error e s =
     (if \<not> rp_installed s \<or> \<not> rp_ready s \<or> rp_buffer s = [] \<or> rp_flushing s then s
      else let (seq, s1) = claim_seq e (s\<lparr>rp_flushing := True\<rparr>);
               s2 = s1\<lparr>rp_buffer := [], rp_bytes := 0, rp_seq := -1, rp_meta := None\<rparr>
           in take_full_snapshot (ship_if e (rp_session s) seq (rp_buffer s) s2))"

definition on_hidden :: "env \<Rightarrow> replay \<Rightarrow> replay" where
  "on_hidden e s =
     (if rp_buffer s = [] then s
      else let (seq, s1) = claim_seq e s;
               s2 = s1\<lparr>rp_buffer := [], rp_bytes := 0, rp_seq := -1,
                       rp_inline := rp_inline s1 @ [((rp_session s1, seq), rp_buffer s)]\<rparr>
           in take_full_snapshot (flush_inline e (rp_session s1) seq (rp_buffer s) s2))"

section \<open>Starting and stopping\<close>

definition stop_replay_capture :: "replay \<Rightarrow> replay" where
  "stop_replay_capture s =
     s\<lparr>rp_start_gen := rp_start_gen s + 1, rp_rotation_gen := rp_rotation_gen s + 1,
       rp_listener := False, rp_snapshot_fn := False, rp_buffer := [], rp_bytes := 0,
       rp_seq := -1, rp_session := [], rp_ready := False, rp_awaiting := False, rp_meta := None,
       rp_flushing := False, rp_installed := False, rp_recording := False\<rparr>"

definition start_replay_capture :: "env \<Rightarrow> replay \<Rightarrow> replay" where
  "start_replay_capture e s =
     (if rp_installed s \<or> \<not> en_enabled e \<or> \<not> en_supported e then s
      else let (sid, t) = ensure_session_id (en_random e) (en_browser e) (rp_tab s)
           in s\<lparr>rp_tab := t, rp_installed := True, rp_start_gen := rp_start_gen s + 1,
                rp_starts := rp_starts s @ [Registering (rp_start_gen s + 1) sid]\<rparr>)"

text \<open>The rest of \<open>startReplayCapture\<close> once \<open>registerStableSession\<close> has returned.\<close>

definition capture_registered :: "nat \<Rightarrow> ident option \<Rightarrow> replay \<Rightarrow> replay" where
  "capture_registered gen sid s =
     (case sid of
        Some i \<Rightarrow>
          if i \<noteq> [] \<and> gen = rp_start_gen s \<and> rp_installed s
          then s\<lparr>rp_session := i, rp_ready := False, rp_awaiting := True, rp_stopped := False,
                 rp_listener := True, rp_starts := rp_starts s @ [Importing gen]\<rparr>
          else if gen = rp_start_gen s then s\<lparr>rp_installed := False\<rparr> else s
      | None \<Rightarrow> if gen = rp_start_gen s then s\<lparr>rp_installed := False\<rparr> else s)"

definition without_nth :: "nat \<Rightarrow> 'a list \<Rightarrow> 'a list" where
  "without_nth i xs = take i xs @ drop (Suc i) xs"

definition start_registered :: "env \<Rightarrow> nat \<Rightarrow> bool \<Rightarrow> replay \<Rightarrow> replay" where
  "start_registered e i ok s0 =
     (if length (rp_starts s0) \<le> i then s0
      else case rp_starts s0 ! i of
        Importing _ \<Rightarrow> s0
      | Registering gen sid \<Rightarrow>
          let s = s0\<lparr>rp_starts := without_nth i (rp_starts s0)\<rparr>
          in if \<not> ok then capture_registered gen None s
             else let (latest, t) = ensure_session_id (en_random e) (en_browser e) (rp_tab s);
                      s1 = s\<lparr>rp_tab := t\<rparr>
                  in if latest = sid then capture_registered gen (Some sid) s1
                     else if gen = rp_start_gen s1 \<and> rp_installed s1
                     then s1\<lparr>rp_starts := rp_starts s1 @ [Registering gen latest]\<rparr>
                     else capture_registered gen None s1)"

datatype import_answer =
    ImportFailed
  | RecordThrew "emission list"
  | Recorded "emission list" bool

definition recorder_imported :: "env \<Rightarrow> nat \<Rightarrow> import_answer \<Rightarrow> replay \<Rightarrow> replay" where
  "recorder_imported e i ans s0 =
     (if length (rp_starts s0) \<le> i then s0
      else case rp_starts s0 ! i of
        Registering _ _ \<Rightarrow> s0
      | Importing gen \<Rightarrow>
          let s = s0\<lparr>rp_starts := without_nth i (rp_starts s0)\<rparr>
          in case ans of
               ImportFailed \<Rightarrow> stop_replay_capture s
             | RecordThrew ems \<Rightarrow>
                 stop_replay_capture (fold (on_emit e) ems (s\<lparr>rp_snapshot_fn := True\<rparr>))
             | Recorded ems stoppable \<Rightarrow>
                 let s1 = fold (on_emit e) ems (s\<lparr>rp_snapshot_fn := True\<rparr>)
                 in if \<not> rp_installed s1 \<or> gen \<noteq> rp_start_gen s1 then s1
                    else if stoppable then s1\<lparr>rp_recording := True\<rparr>
                    else stop_replay_capture s1)"

definition rotation_registered :: "nat \<Rightarrow> bool \<Rightarrow> replay \<Rightarrow> replay" where
  "rotation_registered i ok s0 =
     (if length (rp_rotations s0) \<le> i then s0
      else let (gen, new) = rp_rotations s0 ! i;
               s = s0\<lparr>rp_rotations := without_nth i (rp_rotations s0)\<rparr>
           in if gen \<noteq> rp_rotation_gen s then s
              else if \<not> ok then stop_replay_capture s
              else if \<not> rp_installed s then s
              else take_full_snapshot (s\<lparr>rp_session := new, rp_awaiting := True\<rparr>))"

definition upload_answered :: "upload_result \<Rightarrow> replay \<Rightarrow> replay" where
  "upload_answered res s =
     (case res of
        StopUploads \<Rightarrow> stop_replay_capture (s\<lparr>rp_stopped := True\<rparr>)
      | Landed _ \<Rightarrow> s)"

definition inline_answered :: "env \<Rightarrow> nat \<Rightarrow> upload_result \<Rightarrow> replay \<Rightarrow> replay" where
  "inline_answered e i res s0 =
     (if length (rp_inline s0) \<le> i then s0
      else let ((sid, seq), evs) = rp_inline s0 ! i;
               s = s0\<lparr>rp_inline := without_nth i (rp_inline s0)\<rparr>
           in case res of
                StopUploads \<Rightarrow> stop_replay_capture (s\<lparr>rp_stopped := True\<rparr>)
              | Landed ok \<Rightarrow> if ok then s else ship_chunk e sid seq evs s)"

text \<open>\<open>rotateForIdentity\<close> of \<open>core.ts\<close>, with \<open>handleIdentityChange\<close> as its listener.\<close>

definition rotate_for_identity :: "env \<Rightarrow> string option \<Rightarrow> replay \<Rightarrow> replay" where
  "rotate_for_identity e user s =
     (let (prev, t1) = get_session_progress (en_random e) (en_browser e) (rp_tab s);
          (changed, t2) = set_session_user (en_random e) (en_browser e) user t1;
          s1 = s\<lparr>rp_tab := t2\<rparr>
      in if \<not> changed \<or> \<not> rp_listener s then s1
         else begin_session_rotation e (get_session_id t2) prev s1)"

section \<open>Inputs\<close>

datatype input =
    Emit "emission list"
  | ErrorAccepted
  | TurnEnds
  | Hidden
  | IdentityChanged "string option"
  | StartCapture
  | StartRegistered nat bool
  | RecorderImported nat import_answer
  | RotationRegistered nat bool
  | UploadAnswered upload_result
  | InlineAnswered nat upload_result
  | StopCapture
  | PageReload

text \<open>One input is one turn: a burst of emissions is what the recorder delivers synchronously.\<close>

fun handle :: "env \<Rightarrow> input \<Rightarrow> replay \<Rightarrow> replay" where
  "handle e (Emit ems) s = fold (on_emit e) ems (s\<lparr>rp_asked := False\<rparr>)"
| "handle e ErrorAccepted s = flush_replay_buffer_for_error e s"
| "handle e TurnEnds s = s\<lparr>rp_flushing := False\<rparr>"
| "handle e Hidden s = on_hidden e s"
| "handle e (IdentityChanged u) s = rotate_for_identity e u s"
| "handle e StartCapture s = start_replay_capture e s"
| "handle e (StartRegistered i ok) s = start_registered e i ok s"
| "handle e (RecorderImported i ans) s = recorder_imported e i ans s"
| "handle e (RotationRegistered i ok) s = rotation_registered i ok s"
| "handle e (UploadAnswered res) s = upload_answered res s"
| "handle e (InlineAnswered i res) s = inline_answered e i res s"
| "handle e StopCapture s = stop_replay_capture s"
| "handle e PageReload s = fresh_page (rp_tab s) (rp_sent s)"

end
