(* ===== verification/ReplaySafety.thy ===== *)
theory ReplaySafety
  imports Replay
begin

text \<open>
  What is shipped by a recorded session: no two chunks share a session and a number, across page
  reloads, idle rotations and changes of identity; and every chunk opens with a full snapshot when
  the recorder delivers the snapshots it is asked for.
\<close>

section \<open>Numbers that are booked\<close>

type_synonym booking = "((ident \<times> int) \<times> rr_event list)"

definition booked :: "replay \<Rightarrow> booking list" where
  "booked s = map (\<lambda>c. ((ch_session c, ch_seq c), ch_events c)) (rp_sent s) @ rp_inline s"

text \<open>
  The bookings \<open>B\<close> fit the tab: one content per number, numbers of the current session below the
  next one, and no identity that can still be drawn.
\<close>

definition one_content :: "booking set \<Rightarrow> bool" where
  "one_content B = (\<forall>k e e'. (k, e) \<in> B \<longrightarrow> (k, e') \<in> B \<longrightarrow> e = e')"

definition undrawn :: "randomness \<Rightarrow> tab \<Rightarrow> ident \<Rightarrow> bool" where
  "undrawn r t i = (\<exists>k \<ge> tab_ids t. new_id r k = i)"

definition book_ok :: "randomness \<Rightarrow> booking set \<Rightarrow> tab \<Rightarrow> bool" where
  "book_ok r B t =
     (in_step t \<and> one_content B
      \<and> (\<forall>i n e. ((i, n), e) \<in> B \<longrightarrow> \<not> undrawn r t i)
      \<and> (\<forall>c. current t = Some c \<longrightarrow> \<not> undrawn r t (se_id c)
           \<and> (\<forall>n e. ((se_id c, n), e) \<in> B \<longrightarrow> n < int (se_seq c))))"

lemma book_ok_mono: "book_ok r B t \<Longrightarrow> A \<subseteq> B \<Longrightarrow> book_ok r A t"
  unfolding book_ok_def one_content_def by blast

lemma undrawn_le: "undrawn r t' i \<Longrightarrow> tab_ids t \<le> tab_ids t' \<Longrightarrow> undrawn r t i"
  unfolding undrawn_def using le_trans by blast

lemma undrawn_new: "inj (new_id r) \<Longrightarrow> undrawn r t (new_id r k) \<longleftrightarrow> tab_ids t \<le> k"
  unfolding undrawn_def by (auto dest: injD)

lemma current_of_state: "tab_state t = Some c \<Longrightarrow> current t = Some c"
  by (simp add: current_def)

lemma book_ok_start:
  assumes "book_ok r B t" "usable b" "inj (new_id r)"
  shows "book_ok r B (snd (start_session r b u t))"
proof -
  let ?t = "snd (start_session r b u t)"
  have ids: "tab_ids ?t = Suc (tab_ids t)" by (simp add: session_simps)
  have cur: "current ?t = Some (fst (start_session r b u t))"
    by (simp add: current_of_state session_simps)
  have drawn: "undrawn r t (new_id r (tab_ids t))" by (auto simp: undrawn_def)
  have "\<not> undrawn r ?t (new_id r (tab_ids t))"
    using undrawn_new [OF assms(3)] ids by simp
  moreover have "((new_id r (tab_ids t), n), e) \<notin> B" for n e
    using assms(1) drawn unfolding book_ok_def by blast
  moreover have "\<not> undrawn r ?t i" if "((i, n), e) \<in> B" for i n e
    using assms(1) that undrawn_le [of r ?t i t] ids unfolding book_ok_def by auto
  ultimately show ?thesis
    using assms(1,2) cur unfolding book_ok_def
    by (auto simp: in_step_start session_simps)
qed

lemma book_ok_load:
  assumes "book_ok r B t" "usable b" "inj (new_id r)"
  shows "book_ok r B (snd (load_session r b t))"
proof -
  obtain s t1 where l: "load_session r b t = (s, t1)" by force
  have "in_step t" using assms(1) by (simp add: book_ok_def)
  with assms(2) have "book_ok r B t1" using l
  proof (cases rule: load_session_cases)
    case kept
    then have "current t1 = current t" "in_step t1" by (simp_all add: current_def in_step_def)
    with kept assms(1) show ?thesis by (simp add: book_ok_def undrawn_def)
  next
    case (started u)
    then have "t1 = snd (start_session r b u t)" by (metis snd_conv)
    with assms show ?thesis by (simp add: book_ok_start)
  qed
  with l show ?thesis by simp
qed

lemma book_ok_keep:
  assumes "book_ok r B t" "usable b" "current t = Some c"
    and "se_id s = se_id c" "se_seq c \<le> se_seq s"
  shows "book_ok r B (keep_session b s t)"
proof -
  have "undrawn r (keep_session b s t) = undrawn r t"
    by (intro ext) (simp add: undrawn_def session_simps)
  moreover have "current (keep_session b s t) = Some s"
    by (simp add: current_of_state session_simps)
  ultimately show ?thesis
    using assms in_step_keep [OF assms(2)] unfolding book_ok_def
    by (metis of_nat_le_iff option.inject order_less_le_trans)
qed

lemma book_ok_insert:
  assumes "book_ok r B t" "\<And>e'. ((i, n), e') \<in> B \<Longrightarrow> e' = e" "\<not> undrawn r t i"
    and "\<And>c. current t = Some c \<Longrightarrow> se_id c = i \<Longrightarrow> n < int (se_seq c)"
  shows "book_ok r (insert ((i, n), e) B) t"
proof -
  have "one_content (insert ((i, n), e) B)"
    using assms(1,2) unfolding book_ok_def one_content_def by blast
  then show ?thesis using assms unfolding book_ok_def by blast
qed

text \<open>A number handed out by the session is booked for one content.\<close>

lemma book_ok_next:
  assumes "book_ok r B t" "usable b" "inj (new_id r)" and "next_chunk_seq r b t = (n, t1)"
  shows "book_ok r (insert ((get_session_id t1, int n), e) B) t1"
proof -
  obtain s t0 where l: "load_session r b t = (s, t0)" by force
  let ?s = "s\<lparr>se_seq := se_seq s + 1, se_activity := br_now b\<rparr>"
  have n: "n = se_seq s" "t1 = keep_session b ?s t0"
    using assms(4) l by (auto simp: next_chunk_seq_def)
  have "in_step t" using assms(1) by (simp add: book_ok_def)
  have c: "current t0 = Some s" using current_load [OF assms(2) \<open>in_step t\<close>, of r] l by simp
  have b0: "book_ok r B t0" using book_ok_load [OF assms(1-3)] l by simp
  have b1: "book_ok r B t1" unfolding n(2) by (rule book_ok_keep [OF b0 assms(2) c]) simp_all
  have c1: "current t1 = Some ?s" by (simp add: n current_of_state session_simps)
  have i: "get_session_id t1 = se_id s" by (simp add: n get_session_id_def session_simps)
  show ?thesis
  proof (rule book_ok_insert [OF b1])
    show "e' = e" if "((get_session_id t1, int n), e') \<in> B" for e'
      using b0 c that unfolding book_ok_def i n(1) by fastforce
    show "\<not> undrawn r t1 (get_session_id t1)" using b1 c1 unfolding book_ok_def i by simp
    show "int n < int (se_seq d)" if "current t1 = Some d" "se_id d = get_session_id t1" for d
      using that c1 n(1) by auto
  qed
qed

text \<open>So is the next number of a session that is replaced.\<close>

lemma book_ok_retire:
  assumes "book_ok r B t" "usable b" "inj (new_id r)" "current t = Some c"
  shows "book_ok r (insert ((se_id c, int (se_seq c)), e) B) (snd (start_session r b u t))"
proof (rule book_ok_insert [OF book_ok_start [OF assms(1-3)]])
  let ?t = "snd (start_session r b u t)"
  show "e' = e" if "((se_id c, int (se_seq c)), e') \<in> B" for e'
    using assms(1,4) that unfolding book_ok_def by fastforce
  have und: "\<not> undrawn r t (se_id c)" using assms(1,4) unfolding book_ok_def by blast
  then show "\<not> undrawn r ?t (se_id c)"
    using undrawn_le [of r ?t "se_id c" t] by (auto simp: session_simps)
  show "int (se_seq c) < int (se_seq d)" if "current ?t = Some d" "se_id d = se_id c" for d
  proof -
    have "se_id d = new_id r (tab_ids t)"
      using that(1) by (auto simp: current_of_state session_simps)
    then have "undrawn r t (se_id c)" using that(2) by (auto simp: undrawn_def)
    with und show ?thesis by simp
  qed
qed

section \<open>The control state\<close>

definition phase_gen :: "start_phase \<Rightarrow> nat" where
  "phase_gen p = (case p of Registering g _ \<Rightarrow> g | Importing g \<Rightarrow> g)"

text \<open>A start that is still the current one: what its phase says of the listener.\<close>

definition phase_ok :: "nat \<Rightarrow> bool \<Rightarrow> bool \<Rightarrow> start_phase \<Rightarrow> bool" where
  "phase_ok gen listener installed p =
     (phase_gen p \<le> gen
      \<and> (phase_gen p = gen \<longrightarrow>
           (case p of Registering _ _ \<Rightarrow> \<not> listener | Importing _ \<Rightarrow> installed \<longrightarrow> listener)))"

definition rotation_ok :: "nat \<Rightarrow> bool \<Rightarrow> ident \<Rightarrow> nat \<times> ident \<Rightarrow> bool" where
  "rotation_ok gen listener sid x =
     (fst x \<le> gen \<and> (fst x = gen \<longrightarrow> listener \<and> snd x = sid))"

definition control_ok :: "replay \<Rightarrow> bool" where
  "control_ok s =
     ((rp_listener s \<longrightarrow> rp_installed s \<and> map_option se_id (tab_state (rp_tab s)) = Some (rp_session s))
      \<and> (rp_recording s \<longrightarrow> rp_listener s) \<and> (rp_ready s \<longrightarrow> rp_listener s)
      \<and> (rp_awaiting s \<longrightarrow> rp_listener s) \<and> (rp_buffer s \<noteq> [] \<longrightarrow> rp_ready s) \<and> rp_seq s = -1
      \<and> list_all (rotation_ok (rp_rotation_gen s) (rp_listener s) (rp_session s)) (rp_rotations s)
      \<and> list_all (phase_ok (rp_start_gen s) (rp_listener s) (rp_installed s)) (rp_starts s)
      \<and> distinct (map phase_gen (rp_starts s)))"

definition replay_ok :: "randomness \<Rightarrow> replay \<Rightarrow> bool" where
  "replay_ok r s = (control_ok s \<and> book_ok r (set (booked s)) (rp_tab s))"

text \<open>A request only adds to the log.\<close>

definition sent_if :: "env \<Rightarrow> ident \<Rightarrow> int \<Rightarrow> rr_event list \<Rightarrow> replay \<Rightarrow> chunk list" where
  "sent_if e sid seq evs s =
     (if 0 \<le> seq \<and> sid \<noteq> [] \<and> \<not> rp_stopped s \<and> evs \<noteq> [] \<and> en_gzip e evs True \<noteq> None
      then [\<lparr>ch_session = sid, ch_seq = seq, ch_events = evs, ch_full = True, ch_keepalive = False\<rparr>]
      else [])"

lemma ship_if_eq: "ship_if e sid seq evs s = s\<lparr>rp_sent := rp_sent s @ sent_if e sid seq evs s\<rparr>"
  by (simp add: ship_if_def ship_chunk_def upload_chunk_def send_chunk_def sent_if_def
      split: option.splits)

definition inline_if :: "env \<Rightarrow> ident \<Rightarrow> int \<Rightarrow> rr_event list \<Rightarrow> replay \<Rightarrow> chunk list" where
  "inline_if e sid seq evs s =
     (if rp_stopped s \<or> evs = [] \<or> seq < 0 then []
      else case en_gzip e evs False of
        None \<Rightarrow> []
      | Some n \<Rightarrow>
          if inline_budget_bytes < n then []
          else [\<lparr>ch_session = sid, ch_seq = seq, ch_events = evs, ch_full = False, ch_keepalive = True\<rparr>])"

lemma flush_inline_eq:
  "flush_inline e sid seq evs s = s\<lparr>rp_sent := rp_sent s @ inline_if e sid seq evs s\<rparr>"
  by (simp add: flush_inline_def send_chunk_def inline_if_def split: option.splits)

lemma inline_if_in:
  "set (inline_if e sid seq evs s) \<subseteq>
    {\<lparr>ch_session = sid, ch_seq = seq, ch_events = evs, ch_full = False, ch_keepalive = True\<rparr>}"
  by (cases "en_gzip e evs False") (auto simp: inline_if_def)

lemma booked_sent: "set (booked (s\<lparr>rp_sent := rp_sent s @ xs\<rparr>)) =
    set (booked s) \<union> (\<lambda>c. ((ch_session c, ch_seq c), ch_events c)) ` set xs"
  by (auto simp: booked_def)

lemma booked_ship: "set (booked (ship_if e sid seq evs s)) \<subseteq> insert ((sid, seq), evs) (set (booked s))"
  by (auto simp: ship_if_eq booked_sent sent_if_def)

lemma booked_cong [simp]:
  "booked (s\<lparr>rp_tab := t\<rparr>) = booked s" "booked (s\<lparr>rp_buffer := b\<rparr>) = booked s"
  "booked (s\<lparr>rp_bytes := n\<rparr>) = booked s" "booked (s\<lparr>rp_session := i\<rparr>) = booked s"
  "booked (s\<lparr>rp_seq := q\<rparr>) = booked s" "booked (s\<lparr>rp_installed := x\<rparr>) = booked s"
  "booked (s\<lparr>rp_recording := x\<rparr>) = booked s" "booked (s\<lparr>rp_snapshot_fn := x\<rparr>) = booked s"
  "booked (s\<lparr>rp_start_gen := n\<rparr>) = booked s" "booked (s\<lparr>rp_rotation_gen := n\<rparr>) = booked s"
  "booked (s\<lparr>rp_ready := x\<rparr>) = booked s" "booked (s\<lparr>rp_awaiting := x\<rparr>) = booked s"
  "booked (s\<lparr>rp_meta := m\<rparr>) = booked s" "booked (s\<lparr>rp_flushing := x\<rparr>) = booked s"
  "booked (s\<lparr>rp_listener := x\<rparr>) = booked s" "booked (s\<lparr>rp_stopped := x\<rparr>) = booked s"
  "booked (s\<lparr>rp_starts := ps\<rparr>) = booked s" "booked (s\<lparr>rp_rotations := rs\<rparr>) = booked s"
  "booked (s\<lparr>rp_asked := x\<rparr>) = booked s"
  by (simp_all add: booked_def)

lemma take_full_snapshot_eq:
  "take_full_snapshot s = s\<lparr>rp_asked := rp_asked s \<or> rp_snapshot_fn s\<rparr>"
  by (simp add: take_full_snapshot_def)

text \<open>The control state does not read the log, the pending metadata or the sizes.\<close>

lemma control_ok_cong [simp]:
  "control_ok (s\<lparr>rp_sent := x1\<rparr>) = control_ok s" "control_ok (s\<lparr>rp_inline := x2\<rparr>) = control_ok s"
  "control_ok (s\<lparr>rp_bytes := x3\<rparr>) = control_ok s" "control_ok (s\<lparr>rp_meta := x4\<rparr>) = control_ok s"
  "control_ok (s\<lparr>rp_flushing := x5\<rparr>) = control_ok s" "control_ok (s\<lparr>rp_stopped := x5\<rparr>) = control_ok s"
  "control_ok (s\<lparr>rp_snapshot_fn := x5\<rparr>) = control_ok s" "control_ok (s\<lparr>rp_asked := x5\<rparr>) = control_ok s"
  by (simp_all add: control_ok_def)

lemma replay_ok_cong [simp]:
  "replay_ok r (s\<lparr>rp_bytes := x3\<rparr>) = replay_ok r s" "replay_ok r (s\<lparr>rp_meta := x4\<rparr>) = replay_ok r s"
  "replay_ok r (s\<lparr>rp_flushing := x5\<rparr>) = replay_ok r s" "replay_ok r (s\<lparr>rp_stopped := x5\<rparr>) = replay_ok r s"
  "replay_ok r (s\<lparr>rp_snapshot_fn := x5\<rparr>) = replay_ok r s" "replay_ok r (s\<lparr>rp_asked := x5\<rparr>) = replay_ok r s"
  by (simp_all add: replay_ok_def)

lemma replay_ok_snapshot [simp]: "replay_ok r (take_full_snapshot s) = replay_ok r s"
  by (simp add: take_full_snapshot_eq)

text \<open>
  Changes of the tab that keep the session's identity, and shipping under a number that is booked.
\<close>

lemma replay_ok_tab:
  assumes "control_ok s" "book_ok r (set (booked s)) t"
    and "rp_listener s \<Longrightarrow> map_option se_id (tab_state t) = map_option se_id (tab_state (rp_tab s))"
  shows "replay_ok r (s\<lparr>rp_tab := t\<rparr>)"
  using assms
  by (simp add: replay_ok_def control_ok_def)

lemma replay_ok_ship:
  assumes "control_ok s" "book_ok r (insert ((sid, seq), evs) (set (booked s))) (rp_tab s)"
  shows "replay_ok r (ship_if e sid seq evs s)"
proof -
  have "control_ok (ship_if e sid seq evs s)" "rp_tab (ship_if e sid seq evs s) = rp_tab s"
    using assms(1) by (simp_all add: ship_if_eq)
  with assms(2) booked_ship show ?thesis unfolding replay_ok_def by (metis book_ok_mono)
qed

section \<open>Handlers\<close>

text \<open>What one turn of a page may see: a working storage and a random source that does not repeat.\<close>

definition env_ok :: "randomness \<Rightarrow> env \<Rightarrow> bool" where
  "env_ok r e = (en_random e = r \<and> usable (en_browser e) \<and> inj (new_id r))"

lemma replay_ok_load:
  assumes "replay_ok r s" "env_ok r e"
  shows "replay_ok r (s\<lparr>rp_tab := snd (load_session (en_random e) (en_browser e) (rp_tab s))\<rparr>)"
proof (rule replay_ok_tab)
  show "control_ok s" using assms(1) by (simp add: replay_ok_def)
  show "book_ok r (set (booked s)) (snd (load_session (en_random e) (en_browser e) (rp_tab s)))"
    using assms by (simp add: replay_ok_def env_ok_def book_ok_load)
  assume "rp_listener s"
  then obtain c where "tab_state (rp_tab s) = Some c"
    using assms(1) by (auto simp: replay_ok_def control_ok_def)
  then show "map_option se_id (tab_state (snd (load_session (en_random e) (en_browser e) (rp_tab s))))
      = map_option se_id (tab_state (rp_tab s))"
    by (simp add: load_session_def)
qed

lemma replay_ok_touch:
  assumes "replay_ok r s" "env_ok r e"
  shows "replay_ok r (s\<lparr>rp_tab := touch_session (en_random e) (en_browser e) (rp_tab s)\<rparr>)"
proof -
  obtain c t where l: "load_session (en_random e) (en_browser e) (rp_tab s) = (c, t)" by force
  have s1: "replay_ok r (s\<lparr>rp_tab := t\<rparr>)" using replay_ok_load [OF assms] l by simp
  have c: "tab_state t = Some c"
    using l by (metis fst_conv snd_conv load_session_state [of "en_random e" "en_browser e" "rp_tab s"])
  let ?t = "keep_session (en_browser e) (c\<lparr>se_activity := br_now (en_browser e)\<rparr>) t"
  have "replay_ok r ((s\<lparr>rp_tab := t\<rparr>)\<lparr>rp_tab := ?t\<rparr>)"
  proof (rule replay_ok_tab)
    show "control_ok (s\<lparr>rp_tab := t\<rparr>)" using s1 by (simp add: replay_ok_def)
    show "book_ok r (set (booked (s\<lparr>rp_tab := t\<rparr>))) ?t"
      using s1 assms(2) c
      by (intro book_ok_keep [where c = c]) (simp_all add: replay_ok_def env_ok_def current_of_state)
    show "map_option se_id (tab_state ?t) = map_option se_id (tab_state (rp_tab (s\<lparr>rp_tab := t\<rparr>)))"
      by (simp add: c session_simps)
  qed
  then show ?thesis by (simp add: touch_session_def l)
qed

text \<open>Claiming a number books it for what is shipped under it.\<close>

lemma claim_seq_ok:
  assumes "replay_ok r s" "env_ok r e" "rp_listener s" and "claim_seq e s = (seq, s1)"
  shows "control_ok s1 \<and> book_ok r (insert ((rp_session s, seq), evs) (set (booked s))) (rp_tab s1)
    \<and> 0 \<le> seq \<and> (\<exists>t. s1 = s\<lparr>rp_tab := t\<rparr>)"
proof -
  obtain n t where n: "next_chunk_seq (en_random e) (en_browser e) (rp_tab s) = (n, t)" by force
  obtain c where c: "tab_state (rp_tab s) = Some c" "se_id c = rp_session s"
    using assms(1,3) by (auto simp: replay_ok_def control_ok_def)
  have s1: "seq = int n" "s1 = s\<lparr>rp_tab := t\<rparr>"
    using assms(1,4) n by (auto simp: claim_seq_def replay_ok_def control_ok_def)
  have t: "get_session_id t = rp_session s" "map_option se_id (tab_state t) = Some (rp_session s)"
    using n c by (auto simp: next_chunk_seq_def load_session_def get_session_id_def session_simps)
  have book: "book_ok r (insert ((rp_session s, int n), evs) (set (booked s))) t"
    using book_ok_next [of r "set (booked s)" "rp_tab s" "en_browser e" n t evs] assms(1,2) n t(1)
    by (simp add: replay_ok_def env_ok_def)
  moreover have "replay_ok r (s\<lparr>rp_tab := t\<rparr>)"
  proof (rule replay_ok_tab)
    show "control_ok s" using assms(1) by (simp add: replay_ok_def)
    show "book_ok r (set (booked s)) t" using book_ok_mono [OF book] by blast
  qed (use c t in simp)
  ultimately show ?thesis using s1 by (auto simp: replay_ok_def)
qed

lemma rotation_ok_later:
  "list_all (rotation_ok g l i) xs \<Longrightarrow> list_all (rotation_ok (Suc g) l' i') xs"
  by (auto simp: list_all_iff rotation_ok_def)

lemma replay_ok_rotate:
  assumes "replay_ok r s" "env_ok r e" "rp_listener s" "tab_state (rp_tab s) = Some c"
    and "start_session (en_random e) (en_browser e) u (rp_tab s) = (d, t)"
  shows "replay_ok r (begin_session_rotation e (se_id d) (progress_of c) (s\<lparr>rp_tab := t\<rparr>))"
proof -
  let ?s = "s\<lparr>rp_tab := t, rp_rotation_gen := rp_rotation_gen s + 1, rp_buffer := [], rp_bytes := 0,
      rp_seq := -1, rp_session := se_id d, rp_ready := False, rp_awaiting := False, rp_meta := None,
      rp_rotations := rp_rotations s @ [(rp_rotation_gen s + 1, se_id d)]\<rparr>"
  have id: "se_id c = rp_session s" and seq: "rp_seq s = -1"
    using assms(1,3,4) by (auto simp: replay_ok_def control_ok_def)
  have t: "tab_state t = Some d"
    using assms(5) start_session_tab(1) [of "en_random e" "en_browser e" u "rp_tab s"] by simp
  have book: "book_ok r (insert ((rp_session s, int (se_seq c)), evs) (set (booked s))) t" for evs
    using book_ok_retire [of r "set (booked s)" "rp_tab s" "en_browser e" c evs u] assms id
    by (simp add: replay_ok_def env_ok_def current_of_state)
  have ctl: "control_ok ?s"
    using assms(1,3) t rotation_ok_later
    by (auto simp: replay_ok_def control_ok_def rotation_ok_def [where x = "(_, _)"])
  have bk: "booked ?s = booked s" by simp
  have plain: "replay_ok r ?s"
    unfolding replay_ok_def using ctl book_ok_mono [OF book] by auto
  have "replay_ok r (ship_if e (rp_session s) (int (se_seq c)) (rp_buffer s) ?s)"
    by (rule replay_ok_ship [OF ctl]) (use book in \<open>simp only: bk\<close>, simp)
  moreover have "begin_session_rotation e (se_id d) (progress_of c) (s\<lparr>rp_tab := t\<rparr>) =
      (if rp_buffer s = [] then ?s
       else ship_if e (rp_session s) (int (se_seq c)) (rp_buffer s) ?s)"
    by (simp add: begin_session_rotation_def progress_of_def id seq Let_def)
  ultimately show ?thesis using plain by presburger
qed

lemma restart_buffer_eq:
  "\<exists>buf n. restart_buffer ev s = s\<lparr>rp_buffer := buf, rp_bytes := n, rp_meta := None\<rparr>"
  by (simp add: restart_buffer_def Let_def) blast

lemma replay_ok_refill:
  "replay_ok r s \<Longrightarrow> rp_ready s \<Longrightarrow> replay_ok r (s\<lparr>rp_buffer := buf\<rparr>)"
  by (auto simp: replay_ok_def control_ok_def)

lemma replay_ok_restart:
  assumes "replay_ok r s" "rp_ready s"
  shows "replay_ok r (restart_buffer ev s)"
proof -
  obtain buf n where "restart_buffer ev s = s\<lparr>rp_buffer := buf, rp_bytes := n, rp_meta := None\<rparr>"
    using restart_buffer_eq by blast
  with replay_ok_refill [OF assms] show ?thesis by simp
qed

lemma replay_ok_before_ready:
  assumes "replay_ok r s"
  shows "replay_ok r (before_ready ev s)"
proof -
  obtain buf n where b: "restart_buffer ev s = s\<lparr>rp_buffer := buf, rp_bytes := n, rp_meta := None\<rparr>"
    using restart_buffer_eq by blast
  have "replay_ok r (s\<lparr>rp_buffer := buf, rp_bytes := n, rp_meta := None, rp_awaiting := False,
      rp_ready := True\<rparr>)" if "rp_awaiting s"
    using assms that by (auto simp: replay_ok_def control_ok_def)
  with assms b show ?thesis by (simp add: before_ready_def)
qed

lemma replay_ok_push:
  assumes "replay_ok r s" "env_ok r e" "rp_ready s"
  shows "replay_ok r (push_event e ev s)"
proof -
  let ?t = "touch_session (en_random e) (en_browser e) (rp_tab s)"
  have "replay_ok r ((s\<lparr>rp_tab := ?t\<rparr>)\<lparr>rp_buffer := rp_buffer s @ [ev]\<rparr>)"
    by (rule replay_ok_refill [OF replay_ok_touch [OF assms(1,2)]]) (simp add: assms(3))
  then have "replay_ok r ((s\<lparr>rp_tab := ?t\<rparr>)\<lparr>rp_buffer := rp_buffer s @ [ev],
      rp_bytes := rp_bytes s + approx_event_bytes ev\<rparr>)"
    by simp
  also have "(s\<lparr>rp_tab := ?t\<rparr>)\<lparr>rp_buffer := rp_buffer s @ [ev],
      rp_bytes := rp_bytes s + approx_event_bytes ev\<rparr> =
    s\<lparr>rp_buffer := rp_buffer s @ [ev], rp_bytes := rp_bytes s + approx_event_bytes ev, rp_tab := ?t\<rparr>"
    by simp
  finally show ?thesis by (simp add: push_event_def Let_def)
qed

lemma replay_ok_checkout:
  assumes "replay_ok r s" "env_ok r e" "rp_ready s"
  shows "replay_ok r (checkout e ev s)"
proof (cases "rp_buffer s = []")
  case True
  with assms show ?thesis by (simp add: checkout_def replay_ok_restart)
next
  case False
  obtain seq s1 where q: "claim_seq e s = (seq, s1)" by force
  obtain buf n where b: "restart_buffer ev s1 = s1\<lparr>rp_buffer := buf, rp_bytes := n, rp_meta := None\<rparr>"
    using restart_buffer_eq by blast
  have l: "rp_listener s" using assms(1,3) by (simp add: replay_ok_def control_ok_def)
  note c = claim_seq_ok [OF assms(1,2) l q, of "rp_buffer s"]
  let ?s = "(restart_buffer ev s1)\<lparr>rp_seq := -1\<rparr>"
  have "replay_ok r (ship_if e (rp_session s1) seq (rp_buffer s) ?s)"
  proof (rule replay_ok_ship)
    show "control_ok ?s" using c assms(3) b by (auto simp: control_ok_def)
    show "book_ok r (insert ((rp_session s1, seq), rp_buffer s) (set (booked ?s))) (rp_tab ?s)"
      using c b by auto
  qed
  with False q show ?thesis by (simp add: checkout_def)
qed

text \<open>An emission while nothing listens does not find an idle session.\<close>

definition quiet :: "env \<Rightarrow> replay \<Rightarrow> bool" where
  "quiet e s = (rp_listener s \<or> fst (rotate_session_if_idle (en_random e) (en_browser e) (rp_tab s)) = None)"

lemma begin_session_rotation_fields [simp]:
  "rp_listener (begin_session_rotation e i p s) = rp_listener s"
  "rp_installed (begin_session_rotation e i p s) = rp_installed s"
  "rp_start_gen (begin_session_rotation e i p s) = rp_start_gen s"
  "rp_starts (begin_session_rotation e i p s) = rp_starts s"
  by (simp_all add: begin_session_rotation_def ship_if_eq Let_def)

lemma claim_seq_fields:
  "claim_seq e s = (q, s1) \<Longrightarrow> \<exists>t. s1 = s\<lparr>rp_tab := t\<rparr>"
  by (auto simp: claim_seq_def split: if_splits prod.splits intro: exI [of _ "rp_tab s"])

lemma checkout_fields [simp]:
  "rp_listener (checkout e ev s) = rp_listener s" "rp_installed (checkout e ev s) = rp_installed s"
  "rp_start_gen (checkout e ev s) = rp_start_gen s" "rp_starts (checkout e ev s) = rp_starts s"
  by (auto simp: checkout_def ship_if_eq restart_buffer_def Let_def split: prod.splits
      dest!: claim_seq_fields)

lemma on_emit_fields [simp]:
  "rp_listener (on_emit e em s) = rp_listener s" "rp_installed (on_emit e em s) = rp_installed s"
  "rp_start_gen (on_emit e em s) = rp_start_gen s" "rp_starts (on_emit e em s) = rp_starts s"
  by (auto simp: on_emit_def before_ready_def restart_buffer_def push_event_def take_full_snapshot_def
      Let_def split: prod.splits option.splits)

lemma rotate_session_cases:
  assumes "load_session r b t = (c, t1)"
  shows "rotate_session_if_idle r b t =
    (if is_expired b c
     then let (d, t2) = start_session r b (se_user c) t1
          in (Some \<lparr>sr_previous = progress_of c, sr_new = se_id d\<rparr>, t2)
     else (None, t1))"
  by (simp add: rotate_session_if_idle_def assms)

lemma replay_ok_on_emit:
  assumes "replay_ok r s" "env_ok r e" "quiet e s"
  shows "replay_ok r (on_emit e em s)"
proof -
  obtain ev chk where em: "em = (ev, chk)" by (cases em)
  obtain c t1 where l: "load_session (en_random e) (en_browser e) (rp_tab s) = (c, t1)" by force
  have s1: "replay_ok r (s\<lparr>rp_tab := t1\<rparr>)" using replay_ok_load [OF assms(1,2)] l by simp
  have c: "tab_state t1 = Some c"
    using load_session_state [of "en_random e" "en_browser e" "rp_tab s"] l by simp
  show ?thesis
  proof (cases "is_expired (en_browser e) c")
    case True
    obtain d t2 where d: "start_session (en_random e) (en_browser e) (se_user c) t1 = (d, t2)" by force
    have "rp_listener s" using assms(3) l True d by (simp add: quiet_def rotate_session_cases)
    then have "replay_ok r (begin_session_rotation e (se_id d) (progress_of c) ((s\<lparr>rp_tab := t1\<rparr>)\<lparr>rp_tab := t2\<rparr>))"
      using c d by (intro replay_ok_rotate [OF s1 assms(2)]) simp_all
    with True l d show ?thesis by (simp add: on_emit_def em rotate_session_cases)
  next
    case False
    let ?s = "s\<lparr>rp_tab := t1\<rparr>"
    have "replay_ok r (if \<not> rp_ready ?s then before_ready ev ?s
        else if chk \<and> rr_type ev = Meta then ?s\<lparr>rp_meta := Some ev\<rparr>
        else if chk \<and> rr_type ev \<noteq> FullSnapshot then ?s
        else if chk then checkout e ev ?s else push_event e ev ?s)"
      using s1 replay_ok_before_ready [OF s1] replay_ok_checkout [OF s1 assms(2)]
        replay_ok_push [OF s1 assms(2)]
      by (simp split del: if_split) (auto split: if_split)
    with False l show ?thesis by (simp add: on_emit_def em rotate_session_cases Let_def)
  qed
qed

lemma quiet_on_emit:
  assumes "replay_ok r s" "quiet e s"
  shows "quiet e (on_emit e em s)"
proof (cases "rp_listener s")
  case True
  then show ?thesis by (simp add: quiet_def)
next
  case False
  obtain ev chk where em: "em = (ev, chk)" by (cases em)
  obtain c t1 where l: "load_session (en_random e) (en_browser e) (rp_tab s) = (c, t1)" by force
  have c: "tab_state t1 = Some c"
    using load_session_state [of "en_random e" "en_browser e" "rp_tab s"] l by simp
  have exp: "\<not> is_expired (en_browser e) c"
    using assms(2) False l by (auto simp: quiet_def rotate_session_cases split: if_splits prod.splits)
  have "\<not> rp_ready s" using assms(1) False by (auto simp: replay_ok_def control_ok_def)
  then have "rp_tab (on_emit e em s) = t1"
    using l exp
    by (simp add: on_emit_def em rotate_session_cases before_ready_def restart_buffer_def Let_def)
  moreover have "load_session (en_random e) (en_browser e) t1 = (c, t1)"
    using c by (simp add: load_session_def)
  ultimately show ?thesis using exp by (simp add: quiet_def rotate_session_cases)
qed

lemma fold_emit_ok:
  assumes "replay_ok r s" "env_ok r e" "quiet e s"
  shows "replay_ok r (fold (on_emit e) ems s)"
  using assms
proof (induction ems arbitrary: s)
  case Nil
  then show ?case by simp
next
  case (Cons em ems)
  then show ?case by (simp add: replay_ok_on_emit quiet_on_emit)
qed

lemma fold_emit_fields [simp]:
  "rp_listener (fold (on_emit e) ems s) = rp_listener s"
  "rp_installed (fold (on_emit e) ems s) = rp_installed s"
  "rp_start_gen (fold (on_emit e) ems s) = rp_start_gen s"
  "rp_starts (fold (on_emit e) ems s) = rp_starts s"
  by (induction ems arbitrary: s) simp_all

lemma replay_ok_clear:
  "replay_ok r s \<Longrightarrow> replay_ok r (s\<lparr>rp_buffer := [], rp_bytes := 0, rp_seq := -1, rp_meta := None\<rparr>)"
  by (simp add: replay_ok_def control_ok_def)

lemma replay_ok_flush:
  assumes "replay_ok r s" "env_ok r e"
  shows "replay_ok r (flush_replay_buffer_for_error e s)"
proof (cases "\<not> rp_installed s \<or> \<not> rp_ready s \<or> rp_buffer s = [] \<or> rp_flushing s")
  case True
  with assms show ?thesis by (simp add: flush_replay_buffer_for_error_def)
next
  case False
  let ?f = "s\<lparr>rp_flushing := True\<rparr>"
  obtain seq s1 where q: "claim_seq e ?f = (seq, s1)" by force
  have f: "replay_ok r ?f" "rp_listener ?f"
    using assms(1) False by (auto simp: replay_ok_def control_ok_def)
  note c = claim_seq_ok [OF f(1) assms(2) f(2) q, of "rp_buffer s"]
  let ?s = "s1\<lparr>rp_buffer := [], rp_bytes := 0, rp_seq := -1, rp_meta := None\<rparr>"
  have "replay_ok r (ship_if e (rp_session s) seq (rp_buffer s) ?s)"
  proof (rule replay_ok_ship)
    show "control_ok ?s" using c by (auto simp: control_ok_def)
    show "book_ok r (insert ((rp_session s, seq), rp_buffer s) (set (booked ?s))) (rp_tab ?s)"
      using c by auto
  qed
  with False q show ?thesis by (simp add: flush_replay_buffer_for_error_def)
qed

lemma replay_ok_hidden:
  assumes "replay_ok r s" "env_ok r e"
  shows "replay_ok r (on_hidden e s)"
proof (cases "rp_buffer s = []")
  case True
  with assms show ?thesis by (simp add: on_hidden_def)
next
  case False
  obtain seq s1 where q: "claim_seq e s = (seq, s1)" by force
  have l: "rp_listener s" using assms(1) False by (simp add: replay_ok_def control_ok_def)
  note c = claim_seq_ok [OF assms(1,2) l q, of "rp_buffer s"]
  let ?k = "((rp_session s, seq), rp_buffer s)"
  let ?s = "s1\<lparr>rp_buffer := [], rp_bytes := 0, rp_seq := -1, rp_inline := rp_inline s1 @ [?k]\<rparr>"
  have sess: "rp_session s1 = rp_session s" "booked s1 = booked s" using c by auto
  have "control_ok (flush_inline e (rp_session s) seq (rp_buffer s) ?s)"
    using c by (auto simp: flush_inline_eq control_ok_def)
  moreover have "set (booked (flush_inline e (rp_session s) seq (rp_buffer s) ?s))
      \<subseteq> insert ?k (set (booked s1))"
    using inline_if_in [of e "rp_session s" seq "rp_buffer s" ?s]
    by (auto simp: flush_inline_eq booked_def)
  ultimately have "replay_ok r (flush_inline e (rp_session s) seq (rp_buffer s) ?s)"
    unfolding replay_ok_def
    using c sess by (auto simp: flush_inline_eq intro: book_ok_mono)
  with False q sess show ?thesis by (simp add: on_hidden_def)
qed

lemma rotation_ok_stop:
  "list_all (rotation_ok g l i) xs \<Longrightarrow> list_all (rotation_ok (Suc g) False j) xs"
  by (rule rotation_ok_later)

lemma phase_ok_stop:
  "list_all (phase_ok g l i) xs \<Longrightarrow> list_all (phase_ok (Suc g) l' i') xs"
  by (auto simp: list_all_iff phase_ok_def)

lemma replay_ok_stop: "replay_ok r s \<Longrightarrow> replay_ok r (stop_replay_capture s)"
  by (auto simp: stop_replay_capture_def replay_ok_def control_ok_def
      intro: rotation_ok_stop phase_ok_stop)

lemma replay_ok_stop_uploads:
  "replay_ok r s \<Longrightarrow> replay_ok r (stop_replay_capture (s\<lparr>rp_stopped := True\<rparr>))"
  by (simp add: replay_ok_stop)

lemma ensure_session_load:
  "ensure_session_id r b t = (se_id (fst (load_session r b t)), snd (load_session r b t))"
  by (simp add: ensure_session_id_def split: prod.splits)

lemma replay_ok_start_capture:
  assumes "replay_ok r s" "env_ok r e"
  shows "replay_ok r (start_replay_capture e s)"
proof -
  let ?t = "snd (load_session (en_random e) (en_browser e) (rp_tab s))"
  have t: "replay_ok r (s\<lparr>rp_tab := ?t\<rparr>)" by (rule replay_ok_load [OF assms])
  have g: "phase_gen p \<le> rp_start_gen s" if "p \<in> set (rp_starts s)" for p
    using assms(1) that by (auto simp: replay_ok_def control_ok_def list_all_iff phase_ok_def)
  have "replay_ok r ((s\<lparr>rp_tab := ?t\<rparr>)\<lparr>rp_installed := True, rp_start_gen := Suc (rp_start_gen s),
      rp_starts := rp_starts s @ [Registering (Suc (rp_start_gen s)) i]\<rparr>)"
    if "\<not> rp_installed s" for i
    using t that g phase_ok_stop
    by (auto simp: replay_ok_def control_ok_def phase_ok_def [where p = "Registering _ _"] phase_gen_def
        split: start_phase.splits; force)
  then show ?thesis
    using assms(1) by (simp add: start_replay_capture_def ensure_session_load)
qed

text \<open>Continuations: the entry that is answered is taken out first.\<close>

lemma set_without_nth: "set (without_nth i xs) \<subseteq> set xs"
  by (simp add: without_nth_def set_take_subset set_drop_subset)

lemma list_all_without_nth: "list_all p xs \<Longrightarrow> list_all p (without_nth i xs)"
  using set_without_nth [of i xs] by (auto simp: list_all_iff)

lemma map_without_nth: "map f (without_nth i xs) = without_nth i (map f xs)"
  by (simp add: without_nth_def take_map drop_map)

lemma distinct_without_nth: "distinct xs \<Longrightarrow> distinct (without_nth i xs)"
  by (simp add: without_nth_def set_take_disj_set_drop_if_distinct)

lemma nth_not_in_without:
  assumes "distinct xs" "i < length xs"
  shows "xs ! i \<notin> set (without_nth i xs)"
proof -
  have "take i xs @ xs ! i # drop (Suc i) xs = xs" using assms(2) by (simp add: id_take_nth_drop [symmetric])
  then have "distinct (take i xs @ xs ! i # drop (Suc i) xs)" using assms(1) by simp
  then show ?thesis by (auto simp: without_nth_def)
qed

lemma replay_ok_drop_start:
  "replay_ok r s \<Longrightarrow> replay_ok r (s\<lparr>rp_starts := without_nth i (rp_starts s)\<rparr>)"
  by (simp add: replay_ok_def control_ok_def list_all_without_nth map_without_nth
      distinct_without_nth)

lemma replay_ok_drop_rotation:
  "replay_ok r s \<Longrightarrow> replay_ok r (s\<lparr>rp_rotations := without_nth i (rp_rotations s)\<rparr>)"
  by (auto simp: replay_ok_def control_ok_def list_all_without_nth)

lemma replay_ok_drop_inline:
  assumes "replay_ok r s"
  shows "replay_ok r (s\<lparr>rp_inline := without_nth i (rp_inline s)\<rparr>)"
proof -
  have "set (booked (s\<lparr>rp_inline := without_nth i (rp_inline s)\<rparr>)) \<subseteq> set (booked s)"
    using set_without_nth [of i "rp_inline s"] by (auto simp: booked_def)
  with assms show ?thesis by (auto simp: replay_ok_def intro: book_ok_mono)
qed

lemma capture_registered_ok:
  assumes "replay_ok r s" and "rp_start_gen s = gen \<Longrightarrow> \<not> rp_listener s"
    and "gen \<notin> phase_gen ` set (rp_starts s)" and "gen \<le> rp_start_gen s"
    and "\<And>i. sid = Some i \<Longrightarrow> map_option se_id (tab_state (rp_tab s)) = Some i"
  shows "replay_ok r (capture_registered gen sid s)"
proof (cases "gen = rp_start_gen s")
  case False
  with assms(1) show ?thesis by (simp add: capture_registered_def split: option.splits)
next
  case True
  then have l: "\<not> rp_listener s" using assms(2) by simp
  have others: "phase_gen p < rp_start_gen s" if "p \<in> set (rp_starts s)" for p
  proof -
    have "phase_gen p \<le> rp_start_gen s"
      using assms(1) that by (auto simp: replay_ok_def control_ok_def list_all_iff phase_ok_def)
    moreover have "phase_gen p \<noteq> rp_start_gen s" using assms(3) True that by force
    ultimately show ?thesis by simp
  qed
  have rots: "fst x < rp_rotation_gen s" if "x \<in> set (rp_rotations s)" for x
    using assms(1) that l by (fastforce simp: replay_ok_def control_ok_def list_all_iff rotation_ok_def)
  have off: "replay_ok r (s\<lparr>rp_installed := False\<rparr>)"
    using assms(1) l others
    by (auto simp: replay_ok_def control_ok_def list_all_iff phase_ok_def dest: less_imp_neq)
  have on: "replay_ok r (s\<lparr>rp_session := i, rp_ready := False, rp_awaiting := True, rp_stopped := False,
      rp_listener := True, rp_starts := rp_starts s @ [Importing gen]\<rparr>)"
    if "sid = Some i" "rp_installed s" for i
  proof -
    have "list_all (rotation_ok (rp_rotation_gen s) True i) (rp_rotations s)"
      using rots by (auto simp: list_all_iff rotation_ok_def dest: less_imp_neq intro: less_imp_le)
    moreover have "list_all (phase_ok gen True True) (rp_starts s)"
      using others True by (auto simp: list_all_iff phase_ok_def dest: less_imp_neq intro: less_imp_le)
    moreover have "phase_ok gen True True (Importing gen)" by (simp add: phase_ok_def phase_gen_def)
    ultimately show ?thesis
      using assms(1,3) assms(5) [OF that(1)] that l True
      by (auto simp: replay_ok_def control_ok_def phase_gen_def [of "Importing _"])
  qed
  show ?thesis
    using off on True assms(1) by (auto simp: capture_registered_def split: option.splits)
qed

lemma replay_ok_start_registered:
  assumes "replay_ok r s" "env_ok r e"
  shows "replay_ok r (start_registered e i ok s)"
proof (cases "i < length (rp_starts s) \<and> (\<exists>g sid. rp_starts s ! i = Registering g sid)")
  case False
  then show ?thesis
    using assms(1) by (auto simp: start_registered_def split: start_phase.splits)
next
  case True
  then obtain g sid where p: "i < length (rp_starts s)" "rp_starts s ! i = Registering g sid" by blast
  let ?s = "s\<lparr>rp_starts := without_nth i (rp_starts s)\<rparr>"
  let ?t = "snd (load_session (en_random e) (en_browser e) (rp_tab s))"
  let ?id = "se_id (fst (load_session (en_random e) (en_browser e) (rp_tab s)))"
  have s: "replay_ok r ?s" by (rule replay_ok_drop_start [OF assms(1)])
  have t: "replay_ok r (?s\<lparr>rp_tab := ?t\<rparr>)" using replay_ok_load [OF s assms(2)] by simp
  have ctl: "distinct (map phase_gen (rp_starts s))"
      "list_all (phase_ok (rp_start_gen s) (rp_listener s) (rp_installed s)) (rp_starts s)"
    using assms(1) by (simp_all add: replay_ok_def control_ok_def)
  have ph: "phase_ok (rp_start_gen s) (rp_listener s) (rp_installed s) (Registering g sid)"
    using ctl(2) p by (metis list_all_length)
  have g: "g \<le> rp_start_gen s" "rp_start_gen s = g \<Longrightarrow> \<not> rp_listener s"
    using ph by (auto simp: phase_ok_def phase_gen_def)
  have new: "g \<notin> phase_gen ` set (without_nth i (rp_starts s))"
    using nth_not_in_without [OF ctl(1), of i] p by (simp add: map_without_nth [symmetric] phase_gen_def)
  have none: "replay_ok r (capture_registered g None ?s)"
    by (rule capture_registered_ok [OF s]) (use g new in simp_all)
  have none': "replay_ok r (capture_registered g None (?s\<lparr>rp_tab := ?t\<rparr>))"
    by (rule capture_registered_ok [OF t]) (use g new in simp_all)
  have some: "replay_ok r (capture_registered g (Some ?id) (?s\<lparr>rp_tab := ?t\<rparr>))"
    by (rule capture_registered_ok [OF t]) (use g new in \<open>simp_all add: load_session_state\<close>)
  have again: "replay_ok r ((?s\<lparr>rp_tab := ?t\<rparr>)\<lparr>rp_starts := without_nth i (rp_starts s) @ [Registering g x]\<rparr>)" for x
    using t new g
    by (auto simp: replay_ok_def control_ok_def phase_gen_def [of "Registering _ _"]
        phase_ok_def [where p = "Registering _ _"])
  show ?thesis
  proof (cases "?id = sid")
    case True
    with p none some show ?thesis by (simp add: start_registered_def ensure_session_load Let_def)
  next
    case False
    with p none none' again show ?thesis
      by (auto simp: start_registered_def ensure_session_load Let_def)
  qed
qed

text \<open>An import is answered while something listens, or before the session has become idle.\<close>

lemma replay_ok_imported:
  assumes "replay_ok r s" "env_ok r e" "quiet e s"
  shows "replay_ok r (recorder_imported e i ans s)"
proof (cases "i < length (rp_starts s) \<and> (\<exists>g. rp_starts s ! i = Importing g)")
  case False
  then show ?thesis
    using assms(1) by (auto simp: recorder_imported_def split: start_phase.splits)
next
  case True
  then obtain g where p: "i < length (rp_starts s)" "rp_starts s ! i = Importing g" by blast
  let ?s = "s\<lparr>rp_starts := without_nth i (rp_starts s)\<rparr>"
  let ?f = "\<lambda>ems. fold (on_emit e) ems (?s\<lparr>rp_snapshot_fn := True\<rparr>)"
  have s: "replay_ok r ?s" by (rule replay_ok_drop_start [OF assms(1)])
  have f: "replay_ok r (?f ems)" for ems
    using s assms(2,3) by (intro fold_emit_ok) (simp_all add: quiet_def)
  have "phase_ok (rp_start_gen s) (rp_listener s) (rp_installed s) (Importing g)"
    using assms(1) p by (metis control_ok_def list_all_length replay_ok_def)
  then have l: "rp_listener s" if "g = rp_start_gen s" "rp_installed s"
    using that by (simp add: phase_ok_def phase_gen_def)
  have rec: "replay_ok r ((?f ems)\<lparr>rp_recording := True\<rparr>)" if "g = rp_start_gen s" "rp_installed s" for ems
    using f [of ems] l [OF that] by (auto simp: replay_ok_def control_ok_def)
  show ?thesis
    using p s f rec
    by (auto simp: recorder_imported_def Let_def replay_ok_stop split: import_answer.splits)
qed

lemma replay_ok_rotation_registered:
  assumes "replay_ok r s"
  shows "replay_ok r (rotation_registered i ok s)"
proof (cases "i < length (rp_rotations s)")
  case False
  with assms show ?thesis by (simp add: rotation_registered_def)
next
  case True
  obtain g new where p: "rp_rotations s ! i = (g, new)" by force
  let ?s = "s\<lparr>rp_rotations := without_nth i (rp_rotations s)\<rparr>"
  have s: "replay_ok r ?s" by (rule replay_ok_drop_rotation [OF assms])
  have "rotation_ok (rp_rotation_gen s) (rp_listener s) (rp_session s) (g, new)"
    using assms True p by (metis control_ok_def list_all_length replay_ok_def)
  then have "replay_ok r (?s\<lparr>rp_session := new, rp_awaiting := True\<rparr>)" if "g = rp_rotation_gen s"
    using s that by (auto simp: replay_ok_def control_ok_def rotation_ok_def [where x = "(_, _)"])
  with True p s show ?thesis by (simp add: rotation_registered_def replay_ok_stop Let_def)
qed

lemma replay_ok_uploads:
  "replay_ok r s \<Longrightarrow> replay_ok r (upload_answered res s)"
  by (simp add: upload_answered_def replay_ok_stop split: upload_result.splits)

definition ship_log :: "env \<Rightarrow> ident \<Rightarrow> int \<Rightarrow> rr_event list \<Rightarrow> replay \<Rightarrow> chunk list" where
  "ship_log e sid seq evs s =
     (if rp_stopped s \<or> evs = [] \<or> en_gzip e evs True = None then []
      else [\<lparr>ch_session = sid, ch_seq = seq, ch_events = evs, ch_full = True, ch_keepalive = False\<rparr>])"

lemma ship_chunk_eq: "ship_chunk e sid seq evs s = s\<lparr>rp_sent := rp_sent s @ ship_log e sid seq evs s\<rparr>"
  by (simp add: ship_chunk_def upload_chunk_def send_chunk_def ship_log_def split: option.splits)

lemma ship_log_in:
  "(\<lambda>c. ((ch_session c, ch_seq c), ch_events c)) ` set (ship_log e sid seq evs s) \<subseteq> {((sid, seq), evs)}"
  by (simp add: ship_log_def)

lemma replay_ok_inline_answered:
  assumes "replay_ok r s"
  shows "replay_ok r (inline_answered e i res s)"
proof (cases "i < length (rp_inline s)")
  case False
  with assms show ?thesis by (simp add: inline_answered_def)
next
  case True
  obtain sid seq evs where p: "rp_inline s ! i = ((sid, seq), evs)" by (metis surj_pair)
  let ?s = "s\<lparr>rp_inline := without_nth i (rp_inline s)\<rparr>"
  have s: "replay_ok r ?s" by (rule replay_ok_drop_inline [OF assms])
  have k: "((sid, seq), evs) \<in> set (booked s)"
    using nth_mem [OF True] p by (simp add: booked_def)
  let ?xs = "ship_log e sid seq evs ?s"
  have "set (booked (?s\<lparr>rp_sent := rp_sent ?s @ ?xs\<rparr>)) \<subseteq> set (booked s)"
    using ship_log_in [of e sid seq evs ?s] k set_without_nth [of i "rp_inline s"]
    unfolding booked_def by auto
  moreover have "control_ok (?s\<lparr>rp_sent := rp_sent ?s @ ?xs\<rparr>)" using s by (simp add: replay_ok_def)
  ultimately have "replay_ok r (ship_chunk e sid seq evs ?s)"
    using assms unfolding ship_chunk_eq by (auto simp: replay_ok_def intro: book_ok_mono)
  with True p s show ?thesis
    by (simp add: inline_answered_def replay_ok_stop Let_def split: upload_result.splits)
qed

lemma replay_ok_identity:
  assumes "replay_ok r s" "env_ok r e"
  shows "replay_ok r (rotate_for_identity e u s)"
proof -
  obtain c t1 where l: "load_session (en_random e) (en_browser e) (rp_tab s) = (c, t1)" by force
  have s1: "replay_ok r (s\<lparr>rp_tab := t1\<rparr>)" using replay_ok_load [OF assms] l by simp
  have c: "tab_state t1 = Some c"
    using load_session_state [of "en_random e" "en_browser e" "rp_tab s"] l by simp
  have l1: "load_session (en_random e) (en_browser e) t1 = (c, t1)" using c by (simp add: load_session_def)
  obtain d t2 where d: "start_session (en_random e) (en_browser e) u t1 = (d, t2)" by force
  have t2: "get_session_id t2 = se_id d"
    using start_session_tab(1) [of "en_random e" "en_browser e" u t1] d by (simp add: get_session_id_def)
  have silent: "replay_ok r ((s\<lparr>rp_tab := t1\<rparr>)\<lparr>rp_tab := t2\<rparr>)" if "\<not> rp_listener s"
  proof (rule replay_ok_tab)
    show "control_ok (s\<lparr>rp_tab := t1\<rparr>)" using s1 by (simp add: replay_ok_def)
    show "book_ok r (set (booked (s\<lparr>rp_tab := t1\<rparr>))) t2"
      using book_ok_start [of r "set (booked s)" t1 "en_browser e" u] s1 assms(2) d
      by (simp add: replay_ok_def env_ok_def)
  qed (use that in simp)
  have loud: "replay_ok r (begin_session_rotation e (se_id d) (progress_of c) ((s\<lparr>rp_tab := t1\<rparr>)\<lparr>rp_tab := t2\<rparr>))"
    if "rp_listener s"
    using that c d by (intro replay_ok_rotate [OF s1 assms(2)]) simp_all
  show ?thesis
    using s1 silent loud l l1 d t2
    by (simp add: rotate_for_identity_def get_session_progress_def set_session_user_def Let_def)
qed

section \<open>No two chunks share a number\<close>

text \<open>
  One turn of a page. The recorder emits while it runs; an import that is answered while nothing
  listens finds a session that is not idle.
\<close>

definition input_ok :: "env \<Rightarrow> input \<Rightarrow> replay \<Rightarrow> bool" where
  "input_ok e i s =
     (case i of
        Emit _ \<Rightarrow> rp_recording s
      | RecorderImported _ _ \<Rightarrow> quiet e s
      | _ \<Rightarrow> True)"

inductive replay_step :: "randomness \<Rightarrow> replay \<Rightarrow> replay \<Rightarrow> bool" for r where
  turn: "env_ok r e \<Longrightarrow> input_ok e i s \<Longrightarrow> replay_step r s (handle e i s)"

lemma replay_ok_reload:
  assumes "replay_ok r s" shows "replay_ok r (fresh_page (rp_tab s) (rp_sent s))"
proof -
  have "in_step (rp_tab s)" using assms by (simp add: replay_ok_def book_ok_def)
  then have "current (reset_session_id (rp_tab s)) = current (rp_tab s) \<or> tab_state (rp_tab s) = None"
    by (auto simp: in_step_def current_def reset_session_id_def stored_def)
  then have cur: "current (reset_session_id (rp_tab s)) = current (rp_tab s)"
    by (auto simp: current_def reset_session_id_def stored_def)
  have "book_ok r (set (booked s)) (reset_session_id (rp_tab s))"
    using assms cur by (simp add: replay_ok_def book_ok_def undrawn_def in_step_def reset_session_id_def)
  moreover have "set (booked (fresh_page (rp_tab s) (rp_sent s))) \<subseteq> set (booked s)"
    by (auto simp: booked_def fresh_page_def)
  ultimately show ?thesis
    by (auto simp: replay_ok_def control_ok_def fresh_page_def intro: book_ok_mono)
qed

lemma replay_ok_handle:
  assumes "replay_ok r s" "env_ok r e" "input_ok e i s"
  shows "replay_ok r (handle e i s)"
proof (cases i)
  case (Emit ems)
  have "rp_listener s" using assms Emit by (auto simp: replay_ok_def control_ok_def input_ok_def)
  then have "replay_ok r (fold (on_emit e) ems (s\<lparr>rp_asked := False\<rparr>))"
    using assms by (intro fold_emit_ok) (simp_all add: quiet_def)
  with Emit show ?thesis by simp
next
  case (RecorderImported k ans)
  with assms show ?thesis by (simp add: replay_ok_imported input_ok_def)
qed (simp_all add: assms replay_ok_flush replay_ok_hidden replay_ok_identity replay_ok_start_capture
    replay_ok_start_registered replay_ok_rotation_registered replay_ok_uploads
    replay_ok_inline_answered replay_ok_stop replay_ok_reload)

lemma replay_ok_reachable:
  "(replay_step r)\<^sup>*\<^sup>* s t \<Longrightarrow> replay_ok r s \<Longrightarrow> replay_ok r t"
  by (induction rule: rtranclp_induct) (auto elim!: replay_step.cases intro: replay_ok_handle)

lemma replay_ok_fresh_page:
  assumes "\<And>c. stored t = Some c \<Longrightarrow> \<not> undrawn r t (se_id c)"
  shows "replay_ok r (fresh_page t [])"
  using assms
  by (auto simp: replay_ok_def control_ok_def fresh_page_def booked_def book_ok_def in_step_def
      one_content_def current_def reset_session_id_def stored_def undrawn_def)

lemma sent_booked: "x \<in> set (rp_sent s) \<Longrightarrow> ((ch_session x, ch_seq x), ch_events x) \<in> set (booked s)"
  by (simp add: booked_def image_iff) blast

text \<open>
  C36: As long as sessionStorage can be read and written, freshly drawn session identities are
  distinct (also from the one stored at first), and the import of the recorder does not find the
  session idle while nothing listens, no two chunks of a tab are sent under one session and
  number with different contents: whatever the interleaving of emissions, error flushes, hidden
  pages, idle rotations, identity changes, restarts and page reloads, two requests that agree in
  session and sequence number carry the same events.
\<close>

theorem chunks_never_collide:
  assumes "(replay_step r)\<^sup>*\<^sup>* (fresh_page t []) s"
    and "\<And>c. stored t = Some c \<Longrightarrow> \<not> undrawn r t (se_id c)"
    and "x \<in> set (rp_sent s)" "y \<in> set (rp_sent s)"
    and "ch_session x = ch_session y" "ch_seq x = ch_seq y"
  shows "ch_events x = ch_events y"
proof -
  have "replay_ok r s" by (rule replay_ok_reachable [OF assms(1) replay_ok_fresh_page [OF assms(2)]])
  then have one: "one_content (set (booked s))" by (simp add: replay_ok_def book_ok_def)
  have "((ch_session x, ch_seq x), ch_events y) \<in> set (booked s)"
    using sent_booked [OF assms(4)] assms(5,6) by simp
  with one sent_booked [OF assms(3)] show ?thesis unfolding one_content_def by blast
qed
end
