(* ===== verification/ReplayStream.thy ===== *)
theory ReplayStream
  imports ReplaySafety
begin

text \<open>
  Every chunk of a recording opens with a full snapshot, provided that the recorder delivers the
  snapshot it is asked for before anything else happens, and the flag that is sent with it.
\<close>

section \<open>The stream\<close>

definition opens_with_snapshot :: "rr_event list \<Rightarrow> bool" where
  "opens_with_snapshot evs =
     (case evs of
        [] \<Rightarrow> False
      | a # rest \<Rightarrow> rr_type a = FullSnapshot
          \<or> (rr_type a = Meta \<and> (case rest of [] \<Rightarrow> False | b # _ \<Rightarrow> rr_type b = FullSnapshot)))"

definition chunk_ok :: "chunk \<Rightarrow> bool" where
  "chunk_ok c = (opens_with_snapshot (ch_events c) \<and> ch_full c = (\<not> ch_keepalive c))"

definition stream_weak :: "replay \<Rightarrow> bool" where
  "stream_weak s =
     ((rp_buffer s \<noteq> [] \<longrightarrow> rp_ready s \<and> opens_with_snapshot (rp_buffer s))
      \<and> (rp_ready s \<or> rp_recording s \<longrightarrow> rp_snapshot_fn s)
      \<and> (case rp_meta s of None \<Rightarrow> True | Some m \<Rightarrow> rr_type m = Meta)
      \<and> list_all (\<lambda>x. opens_with_snapshot (snd x)) (rp_inline s) \<and> list_all chunk_ok (rp_sent s))"

text \<open>An empty buffer of a running stream waits for a snapshot that was asked for.\<close>

definition stream_ok :: "replay \<Rightarrow> bool" where
  "stream_ok s = (stream_weak s \<and> (rp_ready s \<longrightarrow> rp_buffer s \<noteq> [] \<or> rp_asked s))"

definition stream_filled :: "replay \<Rightarrow> bool" where
  "stream_filled s = (stream_weak s \<and> (rp_ready s \<longrightarrow> rp_buffer s \<noteq> []))"

lemma filled_ok: "stream_filled s \<Longrightarrow> stream_ok s"
  by (simp add: stream_filled_def stream_ok_def)

lemma stream_tab [simp]:
  "stream_weak (s\<lparr>rp_tab := t\<rparr>) = stream_weak s" "stream_weak (s\<lparr>rp_asked := a\<rparr>) = stream_weak s"
  "stream_weak (s\<lparr>rp_flushing := a\<rparr>) = stream_weak s" "stream_weak (s\<lparr>rp_seq := q\<rparr>) = stream_weak s"
  "stream_weak (s\<lparr>rp_stopped := a\<rparr>) = stream_weak s" "stream_weak (s\<lparr>rp_starts := xs\<rparr>) = stream_weak s"
  "stream_weak (s\<lparr>rp_rotations := ys\<rparr>) = stream_weak s" "stream_weak (s\<lparr>rp_installed := a\<rparr>) = stream_weak s"
  "stream_weak (s\<lparr>rp_awaiting := a\<rparr>) = stream_weak s" "stream_weak (s\<lparr>rp_session := i\<rparr>) = stream_weak s"
  "stream_weak (s\<lparr>rp_start_gen := n\<rparr>) = stream_weak s" "stream_weak (s\<lparr>rp_listener := a\<rparr>) = stream_weak s"
  "stream_weak (s\<lparr>rp_bytes := n\<rparr>) = stream_weak s"
  by (simp_all add: stream_weak_def)

lemma opens_append: "opens_with_snapshot xs \<Longrightarrow> opens_with_snapshot (xs @ ys)"
  by (auto simp: opens_with_snapshot_def split: list.splits)

lemma stream_weak_ship:
  "stream_weak s \<Longrightarrow> opens_with_snapshot evs \<Longrightarrow> stream_weak (ship_if e sid seq evs s)"
  by (simp add: ship_if_eq sent_if_def stream_weak_def chunk_ok_def)

lemma restart_buffer_opens:
  assumes "stream_weak s" "rr_type ev = FullSnapshot" "rp_snapshot_fn s"
  shows "stream_filled ((restart_buffer ev s)\<lparr>rp_ready := True\<rparr>)"
  using assms
  by (cases "rp_meta s")
    (simp_all add: stream_filled_def stream_weak_def restart_buffer_def opens_with_snapshot_def)

section \<open>Emissions\<close>

lemma rotation_stream:
  assumes "stream_weak s"
  shows "stream_filled (begin_session_rotation e new prev s)"
proof -
  let ?s = "s\<lparr>rp_rotation_gen := rp_rotation_gen s + 1, rp_buffer := [], rp_bytes := 0, rp_seq := -1,
      rp_session := new, rp_ready := False, rp_awaiting := False, rp_meta := None,
      rp_rotations := rp_rotations s @ [(rp_rotation_gen s + 1, new)]\<rparr>"
  have w: "stream_weak ?s" using assms by (simp add: stream_weak_def)
  have "stream_filled (ship_if e i q (rp_buffer s) ?s)" if "rp_buffer s \<noteq> []" for i q
    using stream_weak_ship [OF w] assms that by (simp add: stream_filled_def stream_weak_def ship_if_eq)
  with w show ?thesis by (simp add: begin_session_rotation_def stream_filled_def Let_def)
qed

lemma before_ready_stream:
  assumes "stream_weak s" "\<not> rp_ready s" "rp_snapshot_fn s"
  shows "stream_filled (before_ready ev s)"
proof -
  have "stream_filled ((restart_buffer ev s)\<lparr>rp_awaiting := False, rp_ready := True\<rparr>)"
    if "rr_type ev = FullSnapshot"
    using restart_buffer_opens [OF assms(1) that assms(3)] by (simp add: stream_filled_def stream_weak_def)
  with assms show ?thesis by (simp add: before_ready_def stream_filled_def stream_weak_def)
qed

lemma push_stream:
  assumes "stream_filled s" "rp_ready s"
  shows "stream_filled (push_event e ev s)"
  using assms
  by (simp add: push_event_def take_full_snapshot_def stream_filled_def stream_weak_def opens_append
      Let_def)

lemma claim_seq_tab: "claim_seq e s = (q, s1) \<Longrightarrow> s1 = s\<lparr>rp_tab := rp_tab s1\<rparr>"
  using claim_seq_fields by fastforce

lemma checkout_stream:
  assumes "stream_weak s" "rp_ready s" "rr_type ev = FullSnapshot"
  shows "stream_filled (checkout e ev s)"
proof (cases "rp_buffer s = []")
  case True
  have "stream_filled ((restart_buffer ev s)\<lparr>rp_ready := True\<rparr>)"
    using assms by (intro restart_buffer_opens) (simp_all add: stream_weak_def)
  with True assms(2) show ?thesis
    by (simp add: checkout_def stream_filled_def stream_weak_def restart_buffer_def Let_def)
next
  case False
  obtain q s1 where q: "claim_seq e s = (q, s1)" by force
  obtain t where s1: "s1 = s\<lparr>rp_tab := t\<rparr>" using claim_seq_fields [OF q] by blast
  let ?s = "(restart_buffer ev s1)\<lparr>rp_seq := -1\<rparr>"
  have f: "stream_filled ((restart_buffer ev s1)\<lparr>rp_ready := True\<rparr>)"
    using assms s1 by (intro restart_buffer_opens) (simp_all add: stream_weak_def)
  have "rp_ready (restart_buffer ev s1)" using assms(2) s1 by (simp add: restart_buffer_def Let_def)
  then have "stream_filled ?s" using f by (simp add: stream_filled_def stream_weak_def)
  moreover have "opens_with_snapshot (rp_buffer s)" using assms(1) False by (simp add: stream_weak_def)
  ultimately have "stream_weak (ship_if e (rp_session s1) q (rp_buffer s) ?s)"
    and "rp_ready ?s \<longrightarrow> rp_buffer ?s \<noteq> []"
    by (simp_all add: stream_filled_def stream_weak_ship)
  then have "stream_filled (ship_if e (rp_session s1) q (rp_buffer s) ?s)"
    by (simp add: stream_filled_def ship_if_eq)
  with False q show ?thesis by (simp add: checkout_def)
qed

lemma on_emit_cases:
  obtains (rotated) new prev t where "on_emit e (ev, c) s = begin_session_rotation e new prev (s\<lparr>rp_tab := t\<rparr>)"
    | (kept) t where "on_emit e (ev, c) s =
        (if \<not> rp_ready s then before_ready ev (s\<lparr>rp_tab := t\<rparr>)
         else if c \<and> rr_type ev = Meta then s\<lparr>rp_tab := t, rp_meta := Some ev\<rparr>
         else if c \<and> rr_type ev \<noteq> FullSnapshot then s\<lparr>rp_tab := t\<rparr>
         else if c then checkout e ev (s\<lparr>rp_tab := t\<rparr>) else push_event e ev (s\<lparr>rp_tab := t\<rparr>))"
proof -
  obtain rot t where r: "rotate_session_if_idle (en_random e) (en_browser e) (rp_tab s) = (rot, t)" by force
  show ?thesis
  proof (cases rot)
    case None
    with r show ?thesis by (intro kept [of t]) (simp add: on_emit_def Let_def)
  next
    case (Some x)
    with r show ?thesis by (intro rotated) (simp add: on_emit_def)
  qed
qed

lemma plain_emission:
  assumes "stream_filled s" "rp_snapshot_fn s"
  shows "stream_filled (on_emit e (ev, False) s)"
proof -
  have w: "stream_weak (s\<lparr>rp_tab := t\<rparr>)" "stream_filled (s\<lparr>rp_tab := t\<rparr>)" for t
    using assms(1) by (simp_all add: stream_filled_def)
  show ?thesis
  proof (cases rule: on_emit_cases [of e ev False s])
    case (rotated new prev t)
    with w show ?thesis by (simp add: rotation_stream)
  next
    case (kept t)
    then show ?thesis
      using w [of t] assms(2) before_ready_stream [of "s\<lparr>rp_tab := t\<rparr>" ev] push_stream [of "s\<lparr>rp_tab := t\<rparr>" e ev]
      by (cases "rp_ready s") simp_all
  qed
qed

lemma checkout_emission:
  assumes "stream_weak s" "rp_snapshot_fn s"
  shows "rr_type ev = Meta \<Longrightarrow> stream_weak (on_emit e (ev, True) s)"
    and "rr_type ev = FullSnapshot \<Longrightarrow> stream_filled (on_emit e (ev, True) s)"
proof -
  have w: "stream_weak (s\<lparr>rp_tab := t\<rparr>)" for t using assms(1) by simp
  have both: "(rr_type ev = Meta \<longrightarrow> stream_weak (on_emit e (ev, True) s))
      \<and> (rr_type ev = FullSnapshot \<longrightarrow> stream_filled (on_emit e (ev, True) s))"
  proof (cases rule: on_emit_cases [of e ev True s])
    case (rotated new prev t)
    then have "stream_filled (on_emit e (ev, True) s)" using w by (simp add: rotation_stream)
    then show ?thesis by (simp add: stream_filled_def)
  next
    case (kept t)
    have "stream_weak (s\<lparr>rp_tab := t, rp_meta := Some ev\<rparr>)" if "rr_type ev = Meta"
      using assms(1) that by (simp add: stream_weak_def)
    with kept show ?thesis
      using w [of t] assms(2) before_ready_stream [of "s\<lparr>rp_tab := t\<rparr>" ev]
        checkout_stream [of "s\<lparr>rp_tab := t\<rparr>" ev e]
      by (cases "rp_ready s") (simp_all add: stream_filled_def)
  qed
  then show "rr_type ev = Meta \<Longrightarrow> stream_weak (on_emit e (ev, True) s)"
    and "rr_type ev = FullSnapshot \<Longrightarrow> stream_filled (on_emit e (ev, True) s)" by simp_all
qed

section \<open>Turns\<close>

text \<open>
  What the recorder owes: after a snapshot was asked for, the next turn is its checkout, metadata
  and full snapshot; otherwise it emits such a checkout or events that are no checkout. The other
  turns come when nothing is owed.
\<close>

fun delivers :: "input \<Rightarrow> replay \<Rightarrow> bool" where
  "delivers (Emit ems) s =
     (rp_recording s
      \<and> ((case ems of
            [(m, True), (f, True)] \<Rightarrow> rr_type m = Meta \<and> rr_type f = FullSnapshot
          | _ \<Rightarrow> False)
         \<or> (\<not> rp_asked s \<and> list_all (\<lambda>(ev, c). \<not> c) ems)))"
| "delivers (RecorderImported i (RecordThrew ems)) s = (\<not> rp_asked s \<and> list_all (\<lambda>(ev, c). \<not> c) ems)"
| "delivers (RecorderImported i (Recorded ems ok)) s = (\<not> rp_asked s \<and> list_all (\<lambda>(ev, c). \<not> c) ems)"
| "delivers i s = (\<not> rp_asked s)"

lemma ok_filled: "stream_ok s \<Longrightarrow> \<not> rp_asked s \<Longrightarrow> stream_filled s"
  by (simp add: stream_ok_def stream_filled_def)

lemma on_emit_fn [simp]: "rp_snapshot_fn (on_emit e em s) = rp_snapshot_fn s"
proof -
  obtain ev c where em: "em = (ev, c)" by (cases em)
  have ck: "rp_snapshot_fn (checkout e ev s) = rp_snapshot_fn s" for s
    by (auto simp: checkout_def ship_if_eq restart_buffer_def Let_def split: prod.splits
        dest!: claim_seq_fields)
  show ?thesis unfolding em
  proof (cases rule: on_emit_cases [of e ev c s])
    case rotated
    then show "rp_snapshot_fn (on_emit e (ev, c) s) = rp_snapshot_fn s"
      by (simp add: begin_session_rotation_def ship_if_eq Let_def)
  next
    case kept
    then show "rp_snapshot_fn (on_emit e (ev, c) s) = rp_snapshot_fn s"
      by (simp add: ck before_ready_def restart_buffer_def push_event_def take_full_snapshot_def Let_def)
  qed
qed

lemma plain_emissions:
  "stream_filled s \<Longrightarrow> rp_snapshot_fn s \<Longrightarrow> list_all (\<lambda>(ev, c). \<not> c) ems \<Longrightarrow>
   stream_filled (fold (on_emit e) ems s)"
proof (induction ems arbitrary: s)
  case Nil
  then show ?case by simp
next
  case (Cons em ems)
  obtain ev c where "em = (ev, c)" by (cases em)
  with Cons show ?case by (simp add: plain_emission)
qed

lemma checkout_emissions:
  assumes "stream_weak s" "rp_snapshot_fn s" "rr_type m = Meta" "rr_type f = FullSnapshot"
  shows "stream_filled (fold (on_emit e) [(m, True), (f, True)] s)"
  using assms by (simp add: checkout_emission)

lemma stop_stream: "stream_weak s \<Longrightarrow> stream_filled (stop_replay_capture s)"
  by (simp add: stop_replay_capture_def stream_filled_def stream_weak_def)

lemma cleared_stream:
  assumes "stream_weak s" "opens_with_snapshot evs" "rp_ready s"
  shows "stream_ok (take_full_snapshot (ship_if e sid q evs
    (s\<lparr>rp_buffer := [], rp_bytes := 0, rp_seq := -1, rp_meta := None\<rparr>)))"
proof -
  have "stream_weak (s\<lparr>rp_buffer := [], rp_bytes := 0, rp_seq := -1, rp_meta := None\<rparr>)"
    using assms(1) by (simp add: stream_weak_def)
  note w = stream_weak_ship [OF this assms(2), of e sid q]
  have "rp_snapshot_fn s" using assms(1,3) by (simp add: stream_weak_def)
  with w show ?thesis by (simp add: stream_ok_def take_full_snapshot_eq ship_if_eq)
qed

lemma flush_stream:
  assumes "stream_filled s"
  shows "stream_ok (flush_replay_buffer_for_error e s)"
proof (cases "\<not> rp_installed s \<or> \<not> rp_ready s \<or> rp_buffer s = [] \<or> rp_flushing s")
  case True
  with assms show ?thesis by (simp add: flush_replay_buffer_for_error_def filled_ok)
next
  case False
  obtain q s1 where q: "claim_seq e (s\<lparr>rp_flushing := True\<rparr>) = (q, s1)" by force
  obtain t where s1: "s1 = s\<lparr>rp_flushing := True, rp_tab := t\<rparr>" using claim_seq_fields [OF q] by auto
  have "opens_with_snapshot (rp_buffer s)" "stream_weak s1" "rp_ready s1"
    using assms False s1 by (simp_all add: stream_filled_def stream_weak_def)
  from cleared_stream [OF this(2,1,3)] False q show ?thesis
    by (simp add: flush_replay_buffer_for_error_def)
qed

lemma hidden_stream:
  assumes "stream_filled s"
  shows "stream_ok (on_hidden e s)"
proof (cases "rp_buffer s = []")
  case True
  with assms show ?thesis by (simp add: on_hidden_def filled_ok)
next
  case False
  obtain q s1 where q: "claim_seq e s = (q, s1)" by force
  obtain t where s1: "s1 = s\<lparr>rp_tab := t\<rparr>" using claim_seq_fields [OF q] by auto
  let ?s = "s1\<lparr>rp_buffer := [], rp_bytes := 0, rp_seq := -1,
      rp_inline := rp_inline s1 @ [((rp_session s1, q), rp_buffer s)]\<rparr>"
  have o: "opens_with_snapshot (rp_buffer s)" "rp_snapshot_fn s"
    using assms False by (simp_all add: stream_filled_def stream_weak_def)
  then have "stream_weak ?s" using assms s1 by (simp add: stream_filled_def stream_weak_def)
  moreover have "list_all chunk_ok (inline_if e (rp_session s1) q (rp_buffer s) ?s)"
    using inline_if_in [of e "rp_session s1" q "rp_buffer s" ?s] o(1)
    by (auto simp: list_all_iff chunk_ok_def)
  ultimately have "stream_weak (flush_inline e (rp_session s1) q (rp_buffer s) ?s)"
    by (simp add: flush_inline_eq stream_weak_def)
  then have "stream_ok (take_full_snapshot (flush_inline e (rp_session s1) q (rp_buffer s) ?s))"
    using o(2) s1 by (simp add: stream_ok_def take_full_snapshot_eq flush_inline_eq)
  with False q show ?thesis by (simp add: on_hidden_def)
qed

lemma capture_stream:
  assumes "stream_filled s" "gen = rp_start_gen s \<Longrightarrow> rp_buffer s = []"
  shows "stream_filled (capture_registered gen sid s)"
  using assms
  by (auto simp: capture_registered_def stream_filled_def stream_weak_def split: option.splits)

lemma registered_stream:
  assumes "stream_filled s" "control_ok s"
  shows "stream_filled (start_registered e i ok s)"
proof (cases "i < length (rp_starts s) \<and> (\<exists>g sid. rp_starts s ! i = Registering g sid)")
  case False
  then show ?thesis
    using assms(1) by (auto simp: start_registered_def split: start_phase.splits)
next
  case True
  then obtain g sid where p: "i < length (rp_starts s)" "rp_starts s ! i = Registering g sid" by blast
  let ?s = "s\<lparr>rp_starts := without_nth i (rp_starts s)\<rparr>"
  let ?t = "snd (load_session (en_random e) (en_browser e) (rp_tab s))"
  have "phase_ok (rp_start_gen s) (rp_listener s) (rp_installed s) (Registering g sid)"
    using assms(2) p by (metis control_ok_def list_all_length)
  then have b: "rp_buffer s = []" if "g = rp_start_gen s"
    using that assms(2) by (auto simp: phase_ok_def phase_gen_def control_ok_def)
  have s: "stream_filled ?s" "stream_filled (?s\<lparr>rp_tab := ?t\<rparr>)"
    and r: "stream_filled (?s\<lparr>rp_tab := ?t, rp_starts := xs\<rparr>)" for xs
    using assms(1) by (simp_all add: stream_filled_def)
  have c: "stream_filled (capture_registered g x ?s)"
    "stream_filled (capture_registered g x (?s\<lparr>rp_tab := ?t\<rparr>))" for x
    using b by (intro capture_stream s; simp)+
  show ?thesis
    using p c r by (simp add: start_registered_def ensure_session_load Let_def)
qed

lemma imported_stream:
  assumes "stream_filled s" "delivers (RecorderImported i ans) s"
  shows "stream_filled (recorder_imported e i ans s)"
proof (cases "i < length (rp_starts s) \<and> (\<exists>g. rp_starts s ! i = Importing g)")
  case False
  then show ?thesis
    using assms(1) by (auto simp: recorder_imported_def split: start_phase.splits)
next
  case True
  then obtain g where p: "i < length (rp_starts s)" "rp_starts s ! i = Importing g" by blast
  let ?s = "s\<lparr>rp_starts := without_nth i (rp_starts s), rp_snapshot_fn := True\<rparr>"
  have s: "stream_filled ?s" "rp_snapshot_fn ?s"
    using assms(1) by (simp_all add: stream_filled_def stream_weak_def)
  have f: "stream_filled (fold (on_emit e) ems ?s)" "rp_snapshot_fn (fold (on_emit e) ems ?s)"
    if "list_all (\<lambda>(ev, c). \<not> c) ems" for ems
  proof -
    show "stream_filled (fold (on_emit e) ems ?s)" by (rule plain_emissions [OF s that])
    have "rp_snapshot_fn (fold (on_emit e) ems u) = rp_snapshot_fn u" for u
      by (induction ems arbitrary: u) simp_all
    then show "rp_snapshot_fn (fold (on_emit e) ems ?s)" by simp
  qed
  show ?thesis
  proof (cases ans)
    case ImportFailed
    have "stream_filled (stop_replay_capture (s\<lparr>rp_starts := without_nth i (rp_starts s)\<rparr>))"
      using assms(1) by (intro stop_stream) (simp add: stream_filled_def)
    with p ImportFailed show ?thesis by (simp add: recorder_imported_def Let_def)
  next
    case (RecordThrew ems)
    then show ?thesis
      using p f [of ems] assms(2) stop_stream [of "fold (on_emit e) ems ?s"]
      by (simp add: recorder_imported_def stream_filled_def [of "fold _ _ _"] Let_def)
  next
    case (Recorded ems stoppable)
    let ?f = "fold (on_emit e) ems ?s"
    have w: "stream_filled ?f" "rp_snapshot_fn ?f" using f [of ems] assms(2) Recorded by simp_all
    then have "stream_filled (stop_replay_capture ?f)" "stream_filled (?f\<lparr>rp_recording := True\<rparr>)"
      using stop_stream by (simp_all add: stream_filled_def stream_weak_def)
    with p w Recorded show ?thesis by (simp add: recorder_imported_def Let_def)
  qed
qed

lemma rotation_registered_stream:
  assumes "stream_filled s"
  shows "stream_filled (rotation_registered i ok s)"
proof -
  have "stream_weak (s\<lparr>rp_rotations := xs\<rparr>)" for xs using assms by (simp add: stream_filled_def)
  from stop_stream [OF this] show ?thesis
    using assms by (simp add: rotation_registered_def stream_filled_def take_full_snapshot_eq Let_def
        split: prod.splits)
qed

lemma inline_stream:
  assumes "stream_filled s"
  shows "stream_filled (inline_answered e i res s)"
proof (cases "i < length (rp_inline s)")
  case False
  with assms show ?thesis by (simp add: inline_answered_def)
next
  case True
  obtain sid seq evs where p: "rp_inline s ! i = ((sid, seq), evs)" by (metis surj_pair)
  let ?s = "s\<lparr>rp_inline := without_nth i (rp_inline s)\<rparr>"
  have s: "stream_filled ?s"
    using assms by (simp add: stream_filled_def stream_weak_def list_all_without_nth)
  have "opens_with_snapshot evs"
    using assms True p nth_mem [OF True] by (auto simp: stream_filled_def stream_weak_def list_all_iff)
  then have "stream_filled (ship_chunk e sid seq evs ?s)"
    using s by (simp add: ship_chunk_eq ship_log_def stream_filled_def stream_weak_def chunk_ok_def)
  moreover have "stream_filled (stop_replay_capture (?s\<lparr>rp_stopped := True\<rparr>))"
    using s by (intro stop_stream) (simp add: stream_filled_def)
  ultimately show ?thesis
    using True p s by (simp add: inline_answered_def Let_def split: upload_result.splits)
qed

lemma identity_stream:
  assumes "stream_filled s"
  shows "stream_filled (rotate_for_identity e u s)"
proof -
  have w: "stream_filled (s\<lparr>rp_tab := t\<rparr>)" "stream_weak (s\<lparr>rp_tab := t\<rparr>)" for t
    using assms by (simp_all add: stream_filled_def)
  then show ?thesis
    by (simp add: rotate_for_identity_def rotation_stream Let_def split: prod.splits)
qed

lemma start_stream: "stream_filled s \<Longrightarrow> stream_filled (start_replay_capture e s)"
  by (simp add: start_replay_capture_def stream_filled_def split: prod.splits)

lemma uploads_stream: "stream_filled s \<Longrightarrow> stream_filled (upload_answered res s)"
  using stop_stream [of "s\<lparr>rp_stopped := True\<rparr>"]
  by (simp add: upload_answered_def stream_filled_def [of s] split: upload_result.splits)

lemma reload_stream: "stream_filled s \<Longrightarrow> stream_filled (fresh_page (rp_tab s) (rp_sent s))"
  by (simp add: fresh_page_def stream_filled_def stream_weak_def)

lemma stream_ok_handle:
  assumes "stream_ok s" "delivers i s" "control_ok s"
  shows "stream_ok (handle e i s)"
proof (cases i)
  case (Emit ems)
  have w: "stream_weak (s\<lparr>rp_asked := False\<rparr>)" using assms(1) by (simp add: stream_ok_def)
  have fn: "rp_snapshot_fn (s\<lparr>rp_asked := False\<rparr>)"
    using assms(1,2) Emit by (simp add: stream_ok_def stream_weak_def)
  show ?thesis
  proof (cases "\<not> rp_asked s \<and> list_all (\<lambda>(ev, c). \<not> c) ems")
    case True
    then have "stream_filled (s\<lparr>rp_asked := False\<rparr>)"
      using ok_filled [OF assms(1)] by (simp add: stream_filled_def)
    from plain_emissions [OF this fn] True show ?thesis using Emit by (simp add: filled_ok)
  next
    case False
    then obtain m f where "ems = [(m, True), (f, True)]" "rr_type m = Meta" "rr_type f = FullSnapshot"
      using assms(2) Emit by (auto split: list.splits prod.splits bool.splits)
    with checkout_emissions [OF w fn] Emit show ?thesis by (simp add: filled_ok)
  qed
next
  case (RecorderImported k ans)
  then have f: "stream_filled s" using assms by (cases ans) (simp_all add: ok_filled)
  from imported_stream [OF this] assms(2) RecorderImported show ?thesis by (simp add: filled_ok)
next
  case TurnEnds
  with assms show ?thesis by (simp add: stream_ok_def)
next
  case StopCapture
  with assms filled_ok [OF stop_stream, of s] show ?thesis by (simp add: stream_ok_def [of s])
qed (use assms ok_filled [OF assms(1)] in \<open>simp_all add: filled_ok flush_stream hidden_stream
    identity_stream registered_stream rotation_registered_stream inline_stream start_stream
    uploads_stream reload_stream\<close>)


section \<open>Every chunk opens with a full snapshot\<close>

inductive delivered_step :: "randomness \<Rightarrow> replay \<Rightarrow> replay \<Rightarrow> bool" for r where
  turn: "env_ok r e \<Longrightarrow> input_ok e i s \<Longrightarrow> delivers i s \<Longrightarrow> delivered_step r s (handle e i s)"

lemma delivered_reachable:
  "(delivered_step r)\<^sup>*\<^sup>* s t \<Longrightarrow> stream_ok s \<and> replay_ok r s \<Longrightarrow> stream_ok t \<and> replay_ok r t"
proof (induction rule: rtranclp_induct)
  case base
  then show ?case by simp
next
  case (step u v)
  then have u: "stream_ok u" "replay_ok r u" by simp_all
  from step(2) show ?case
  proof cases
    case (turn e i)
    with u show ?thesis
      by (simp add: stream_ok_handle replay_ok_handle replay_ok_def [of r u])
  qed
qed

text \<open>
  C37: When the recorder delivers each snapshot it is asked for, every chunk that is sent opens
  with a full snapshot, after its metadata if that was held back; yet the flag sent with it says
  so only for ordinary uploads, while the tail of a hidden page is declared to have none.
\<close>

theorem chunks_open_with_snapshot:
  assumes "(delivered_step r)\<^sup>*\<^sup>* (fresh_page t []) s"
    and "\<And>c. stored t = Some c \<Longrightarrow> \<not> undrawn r t (se_id c)"
    and "c \<in> set (rp_sent s)"
  shows "opens_with_snapshot (ch_events c) \<and> ch_full c = (\<not> ch_keepalive c)"
proof -
  have "stream_ok (fresh_page t [])" by (simp add: stream_ok_def stream_weak_def fresh_page_def)
  with delivered_reachable [OF assms(1)] replay_ok_fresh_page [OF assms(2)] have "stream_ok s" by simp
  with assms(3) show ?thesis
    by (simp add: stream_ok_def stream_weak_def list_all_iff chunk_ok_def)
qed


section \<open>A recorded page\<close>

definition page_random :: randomness where
  "page_random = \<lparr>rd_uuid = (\<lambda>n. Some (replicate (Suc n) (CHR ''u''))), rd_bytes = (\<lambda>n. [])\<rparr>"

definition page_env :: env where
  "page_env = \<lparr>en_random = page_random,
     en_browser = \<lparr>br_now = 0, br_readable = True, br_writable = True\<rparr>,
     en_gzip = (\<lambda>evs full. Some 100), en_enabled = True, en_supported = True\<rparr>"

definition page_tab :: tab where
  "page_tab = \<lparr>tab_state = None, tab_cell = NoItem, tab_ids = 0\<rparr>"

definition page_meta :: rr_event where "page_meta = \<lparr>rr_type = Meta, rr_json = ''m''\<rparr>"
definition page_full :: rr_event where "page_full = \<lparr>rr_type = FullSnapshot, rr_json = ''f''\<rparr>"

text \<open>The states of a page whose tail is sent inline, refused, and uploaded again.\<close>

definition page_session :: "nat \<Rightarrow> session_state" where
  "page_session n = \<lparr>se_id = ''u'', se_seq = n, se_activity = 0, se_user = None\<rparr>"

definition page_at :: "nat \<Rightarrow> tab" where
  "page_at n = \<lparr>tab_state = Some (page_session n), tab_cell = Item (json_of_session (page_session n)),
                tab_ids = 1\<rparr>"

definition page1 :: replay where
  "page1 = (fresh_page page_tab [])\<lparr>rp_tab := page_at 0, rp_installed := True, rp_start_gen := 1,
     rp_starts := [Registering 1 ''u'']\<rparr>"

definition page2 :: replay where
  "page2 = page1\<lparr>rp_session := ''u'', rp_awaiting := True, rp_listener := True,
     rp_starts := [Importing 1]\<rparr>"

definition page3 :: replay where
  "page3 = page2\<lparr>rp_starts := [], rp_snapshot_fn := True, rp_buffer := [page_meta, page_full],
     rp_bytes := 2, rp_awaiting := False, rp_ready := True, rp_recording := True\<rparr>"

definition page_chunk :: "bool \<Rightarrow> chunk" where
  "page_chunk inline = \<lparr>ch_session = ''u'', ch_seq = 0, ch_events = [page_meta, page_full],
     ch_full = (\<not> inline), ch_keepalive = inline\<rparr>"

definition page4 :: replay where
  "page4 = page3\<lparr>rp_tab := page_at 1, rp_buffer := [], rp_bytes := 0,
     rp_inline := [((''u'', 0), [page_meta, page_full])], rp_sent := [page_chunk True],
     rp_asked := True\<rparr>"

definition page5 :: replay where
  "page5 = page4\<lparr>rp_inline := [], rp_sent := [page_chunk True, page_chunk False]\<rparr>"

lemma page_random_inj: "inj (new_id page_random)"
proof (rule injI)
  fix m n assume "new_id page_random m = new_id page_random n"
  then have "length (replicate (Suc m) (CHR ''u'')) = length (replicate (Suc n) (CHR ''u''))"
    by (simp only: new_id_def page_random_def randomness.simps option.case)
  then show "m = n" by simp
qed

lemma page_env_ok: "env_ok page_random page_env"
  using page_random_inj by (simp add: env_ok_def page_env_def usable_def)

lemmas page_simps = page_env_def page_random_def page_tab_def fresh_page_def reset_session_id_def
  load_session_def new_id_def without_nth_def page_at_def page_session_def page1_def page2_def
  page3_def page4_def page5_def page_chunk_def Let_def

lemma page_turns:
  "handle page_env StartCapture (fresh_page page_tab []) = page1"
  "handle page_env (StartRegistered 0 True) page1 = page2"
  "handle page_env Hidden page3 = page4"
  "handle page_env (InlineAnswered 0 (Landed False)) page4 = page5"
proof -
  show "handle page_env StartCapture (fresh_page page_tab []) = page1"
    by (simp add: page_simps start_replay_capture_def ensure_session_id_def read_storage_def
        start_session_def write_storage_def)
  show "handle page_env (StartRegistered 0 True) page1 = page2"
    by (simp add: page_simps start_registered_def ensure_session_id_def capture_registered_def)
  show "handle page_env Hidden page3 = page4"
    by (simp add: page_simps on_hidden_def claim_seq_def next_chunk_seq_def keep_session_def
        write_storage_def flush_inline_def inline_budget_bytes_def send_chunk_def
        take_full_snapshot_def)
  show "handle page_env (InlineAnswered 0 (Landed False)) page4 = page5"
    by (simp add: page_simps inline_answered_def ship_chunk_def upload_chunk_def send_chunk_def)
qed

lemma page_import:
  "handle page_env (RecorderImported 0 (Recorded [(page_meta, False), (page_full, False)] True)) page2
    = page3"
proof -
  let ?p = "page2\<lparr>rp_starts := [], rp_snapshot_fn := True\<rparr>"
  have l: "load_session page_random (en_browser page_env) (page_at 0) = (page_session 0, page_at 0)"
    by (simp add: load_session_def page_at_def)
  have r: "rotate_session_if_idle page_random (en_browser page_env) (page_at 0) = (None, page_at 0)"
    using rotate_session_cases [OF l] by (simp add: is_expired_def idle_ms_def page_session_def page_env_def)
  have a: "on_emit page_env (page_meta, False) ?p = ?p\<lparr>rp_meta := Some page_meta\<rparr>"
    using r by (simp add: on_emit_def page_env_def page2_def page1_def fresh_page_def before_ready_def
        page_meta_def Let_def)
  have b: "on_emit page_env (page_full, False) (?p\<lparr>rp_meta := Some page_meta\<rparr>) =
      ?p\<lparr>rp_buffer := [page_meta, page_full], rp_bytes := 2, rp_awaiting := False, rp_ready := True\<rparr>"
    using r by (simp add: on_emit_def page_env_def page2_def page1_def fresh_page_def before_ready_def
        page_meta_def page_full_def restart_buffer_def approx_event_bytes_def utf8_length_def Let_def)
  have "page2\<lparr>rp_starts := without_nth 0 (rp_starts page2), rp_snapshot_fn := True\<rparr> = ?p"
    by (simp add: page2_def without_nth_def)
  with a b show ?thesis
    by (simp add: recorder_imported_def page2_def [symmetric] Let_def)
      (simp add: page3_def page2_def page1_def fresh_page_def)
qed


lemma page_inputs_ok:
  "input_ok page_env StartCapture (fresh_page page_tab [])" "delivers StartCapture (fresh_page page_tab [])"
  "input_ok page_env (StartRegistered 0 True) page1" "delivers (StartRegistered 0 True) page1"
  "input_ok page_env Hidden page3" "delivers Hidden page3"
  by (simp_all add: input_ok_def page1_def page2_def page3_def fresh_page_def)

lemma page_import_ok:
  "input_ok page_env (RecorderImported 0 a) page2"
  "delivers (RecorderImported 0 (Recorded [(page_meta, False), (page_full, False)] True)) page2"
  by (simp_all add: input_ok_def quiet_def page2_def page1_def fresh_page_def)

lemma page_delivered: "(delivered_step page_random)\<^sup>*\<^sup>* (fresh_page page_tab []) page4"
proof -
  let ?d = "delivered_step page_random"
  note turn = delivered_step.turn [OF page_env_ok]
  have 1: "?d (fresh_page page_tab []) page1" using turn [OF page_inputs_ok(1,2)] page_turns(1) by simp
  have 2: "?d page1 page2" using turn [OF page_inputs_ok(3,4)] page_turns(2) by simp
  have 3: "?d page2 page3" using turn [OF page_import_ok] page_import by simp
  have 4: "?d page3 page4" using turn [OF page_inputs_ok(5,6)] page_turns(3) by simp
  from 1 2 3 4 show ?thesis by (meson converse_rtranclp_into_rtranclp r_into_rtranclp)
qed

lemma delivered_replay: "(delivered_step r)\<^sup>*\<^sup>* s t \<Longrightarrow> (replay_step r)\<^sup>*\<^sup>* s t"
  by (induction rule: rtranclp_induct)
    (auto elim!: delivered_step.cases intro: rtranclp.rtrancl_into_rtrancl replay_step.intros)

lemma page_replayed: "(replay_step page_random)\<^sup>*\<^sup>* (fresh_page page_tab []) page5"
proof -
  have "replay_step page_random page4 page5"
    using replay_step.turn [OF page_env_ok, of "InlineAnswered 0 (Landed False)" page4] page_turns(4)
    by (simp add: input_ok_def)
  with delivered_replay [OF page_delivered] show ?thesis by (rule rtranclp.rtrancl_into_rtrancl)
qed

lemma page_tab_empty: "stored page_tab = None"
  by (simp add: stored_def page_tab_def)

lemma chunks_never_collide_witness:
  "ch_events (page_chunk True) = ch_events (page_chunk False)
    \<and> [page_chunk True, page_chunk False] = rp_sent page5 \<and> page_chunk True \<noteq> page_chunk False"
proof -
  have sent: "[page_chunk True, page_chunk False] = rp_sent page5" by (simp add: page5_def)
  have "ch_events (page_chunk True) = ch_events (page_chunk False)"
  proof (rule chunks_never_collide [OF page_replayed])
    show "page_chunk True \<in> set (rp_sent page5)" "page_chunk False \<in> set (rp_sent page5)"
      using sent [symmetric] by simp_all
  qed (simp_all add: page_tab_empty page_chunk_def)
  then show ?thesis using sent by (simp add: page_chunk_def)
qed

lemma chunks_open_with_snapshot_witness:
  "opens_with_snapshot (ch_events (page_chunk True)) \<and> \<not> ch_full (page_chunk True)
    \<and> rp_sent page4 = [page_chunk True]"
proof -
  have sent: "rp_sent page4 = [page_chunk True]" by (simp add: page4_def)
  then have "opens_with_snapshot (ch_events (page_chunk True))
      \<and> ch_full (page_chunk True) = (\<not> ch_keepalive (page_chunk True))"
    by (intro chunks_open_with_snapshot [OF page_delivered]) (simp_all add: page_tab_empty)
  then show ?thesis using sent by (simp add: page_chunk_def)
qed

end
