(* ===== verification/SdkConfig.thy ===== *)
theory SdkConfig
  imports Prelude
begin

text \<open>
  The configuration of the browser SDK (\<open>config.ts\<close>): validation, defaults, and the module's
  variable \<open>currentConfig\<close> as an option. The hook \<open>beforeSend\<close> is the application's: a function on
  events that may throw (\<open>Inl\<close>, with the event as it left it), drop the event (\<open>None\<close>) or return one. Parsing a URL is the
  browser's: \<open>protocol_of\<close> gives the protocol of a text that parses.
\<close>

record 'e init_options =
  io_api_key :: string
  io_endpoint :: "string option"
  io_release :: "string option"
  io_environment :: "string option"
  io_max_breadcrumbs :: "int option"
  io_breadcrumb_max_age :: "time option"
  io_flush_interval :: "time option"
  io_max_batch_size :: "int option"
  io_debug :: "bool option"
  io_reporting_enabled :: "bool option"
  io_replay_enabled :: "bool option"
  io_sample_rate :: "real option"
  io_error_throttle_ms :: "time option"
  io_before_send :: "('e \<Rightarrow> 'e + 'e option) option"

record 'e sdk_config =
  cf_endpoint :: string
  cf_api_key :: string
  cf_release :: string
  cf_environment :: string
  cf_max_breadcrumbs :: int
  cf_breadcrumb_max_age :: time
  cf_flush_interval :: time
  cf_max_batch_size :: int
  cf_debug :: bool
  cf_reporting_enabled :: bool
  cf_replay_enabled :: bool
  cf_sample_rate :: real
  cf_error_throttle_ms :: time
  cf_before_send :: "('e \<Rightarrow> 'e + 'e option) option"

datatype config_error =
    ApiKeyRequired | InvalidApiKey string | EndpointRequired | NoOrigin | EndpointInvalid

definition default_endpoint :: string where "default_endpoint = ''https://app.opslane.com''"
definition public_key_prefix :: string where "public_key_prefix = ''opslane_pk_''"

definition or_default :: "'a \<Rightarrow> 'a option \<Rightarrow> 'a" where
  "or_default d x = (case x of None \<Rightarrow> d | Some v \<Rightarrow> v)"

definition without_trailing_slashes :: "string \<Rightarrow> string" where
  "without_trailing_slashes s = rev (dropWhile (\<lambda>c. c = CHR ''/'') (rev s))"

definition resolve_endpoint ::
  "(string \<Rightarrow> string option) \<Rightarrow> string option \<Rightarrow> string option \<Rightarrow> config_error + string" where
  "resolve_endpoint protocol_of origin given =
     (let endpoint = or_default default_endpoint given;
          absolute =
            (if starts_with endpoint ''/''
             then (case origin of
                     None \<Rightarrow> Inl NoOrigin
                   | Some o' \<Rightarrow>
                       if o' = [] \<or> o' = ''null'' then Inl NoOrigin
                       else Inr (o' @ without_trailing_slashes endpoint))
             else Inr endpoint)
      in case absolute of
           Inl e \<Rightarrow> Inl e
         | Inr url \<Rightarrow>
             if protocol_of url \<in> {Some ''http:'', Some ''https:''} then Inr url
             else Inl EndpointInvalid)"

definition load_config ::
  "(string \<Rightarrow> string option) \<Rightarrow> string option \<Rightarrow> 'e init_options \<Rightarrow> 'e sdk_config option \<Rightarrow>
   (config_error + unit) \<times> 'e sdk_config option" where
  "load_config protocol_of origin o' cur =
     (if io_api_key o' = [] then (Inl ApiKeyRequired, cur)
      else if \<not> starts_with (io_api_key o') public_key_prefix
      then (Inl (InvalidApiKey (take 11 (io_api_key o'))), cur)
      else if io_endpoint o' = Some [] then (Inl EndpointRequired, cur)
      else case resolve_endpoint protocol_of origin (io_endpoint o') of
        Inl e \<Rightarrow> (Inl e, cur)
      | Inr url \<Rightarrow>
          (Inr (), Some
            \<lparr>cf_endpoint = url, cf_api_key = io_api_key o',
             cf_release = or_default [] (io_release o'),
             cf_environment = or_default [] (io_environment o'),
             cf_max_breadcrumbs = or_default 50 (io_max_breadcrumbs o'),
             cf_breadcrumb_max_age = or_default 30000 (io_breadcrumb_max_age o'),
             cf_flush_interval = or_default 5000 (io_flush_interval o'),
             cf_max_batch_size = or_default 10 (io_max_batch_size o'),
             cf_debug = or_default False (io_debug o'),
             cf_reporting_enabled = or_default True (io_reporting_enabled o'),
             cf_replay_enabled = or_default True (io_replay_enabled o'),
             cf_sample_rate = min 1 (max 0 (or_default 1 (io_sample_rate o'))),
             cf_error_throttle_ms = or_default 1000 (io_error_throttle_ms o'),
             cf_before_send = io_before_send o'\<rparr>))"

definition reset_config :: "'e sdk_config option" where "reset_config = None"

lemma load_config_keeps:
  "load_config p origin o' cur = (Inl e, cur') \<Longrightarrow> cur' = cur"
  by (auto simp: load_config_def split: if_splits sum.splits)

lemma sample_rate_bounds:
  "load_config p origin o' cur = (Inr (), Some c) \<Longrightarrow> 0 \<le> cf_sample_rate c \<and> cf_sample_rate c \<le> 1"
  by (auto simp: load_config_def split: if_splits sum.splits)

end
