(* ===== verification/Breadcrumbs.thy ===== *)
theory Breadcrumbs
  imports SdkConfig
begin

text \<open>
  The breadcrumb buffer of the browser SDK (\<open>breadcrumbs.ts\<close>). A breadcrumb is a record with its
  timestamp as text; reading that text as a time is the engine's (\<open>date_ms\<close>, \<open>None\<close> for NaN). A
  listener is known by its identity, and what calling it does to the rest of the program is a
  function on a world. The buffer is a refinement of the list of all breadcrumbs ever added.
\<close>

record crumb =
  bc_type :: string
  bc_timestamp :: string
  bc_category :: string
  bc_message :: string
  bc_data :: "json option"
  bc_level :: "string option"

record crumbs =
  cr_buffer :: "crumb list"
  cr_listeners :: "ident list"

definition default_max_breadcrumbs :: int where "default_max_breadcrumbs = 50"
definition default_max_age_ms :: time where "default_max_age_ms = 30000"

definition on_breadcrumb :: "ident \<Rightarrow> crumbs \<Rightarrow> crumbs" where
  "on_breadcrumb f s = s\<lparr>cr_listeners := cr_listeners s @ [f]\<rparr>"

definition unsubscribe :: "ident \<Rightarrow> crumbs \<Rightarrow> crumbs" where
  "unsubscribe f s = s\<lparr>cr_listeners := filter (\<lambda>l. l \<noteq> f) (cr_listeners s)\<rparr>"

definition max_breadcrumbs :: "'e sdk_config option \<Rightarrow> int" where
  "max_breadcrumbs cfg = (case cfg of None \<Rightarrow> default_max_breadcrumbs | Some c \<Rightarrow> cf_max_breadcrumbs c)"

definition max_age :: "'e sdk_config option \<Rightarrow> time" where
  "max_age cfg = (case cfg of None \<Rightarrow> default_max_age_ms | Some c \<Rightarrow> cf_breadcrumb_max_age c)"

definition fresh_crumb :: "(string \<Rightarrow> time option) \<Rightarrow> 'e sdk_config option \<Rightarrow> time \<Rightarrow> crumb \<Rightarrow> bool" where
  "fresh_crumb date_ms cfg now b =
     (case date_ms (bc_timestamp b) of None \<Rightarrow> False | Some t \<Rightarrow> now - max_age cfg \<le> t)"

definition evict_stale ::
  "(string \<Rightarrow> time option) \<Rightarrow> 'e sdk_config option \<Rightarrow> time \<Rightarrow> crumbs \<Rightarrow> crumbs" where
  "evict_stale date_ms cfg now s =
     s\<lparr>cr_buffer := filter (fresh_crumb date_ms cfg now) (cr_buffer s)\<rparr>"

text \<open>\<open>xs.slice(xs.length - max)\<close> when there are more than \<open>max\<close>; nothing is left for a negative one.\<close>

definition bounded_crumbs :: "int \<Rightarrow> crumb list \<Rightarrow> crumb list" where
  "bounded_crumbs mx xs = (if mx < int (length xs) then take_last (nat mx) xs else xs)"

definition add_breadcrumb ::
  "(string \<Rightarrow> time option) \<Rightarrow> (ident \<Rightarrow> crumb \<Rightarrow> 'w \<Rightarrow> 'w) \<Rightarrow> 'e sdk_config option \<Rightarrow> time \<Rightarrow> crumb \<Rightarrow>
   crumbs \<times> 'w \<Rightarrow> crumbs \<times> 'w" where
  "add_breadcrumb date_ms call cfg now b sw =
     (let s = evict_stale date_ms cfg now (fst sw);
          s1 = s\<lparr>cr_buffer := bounded_crumbs (max_breadcrumbs cfg) (cr_buffer s @ [b])\<rparr>
      in (s1, fold (\<lambda>f. call f b) (cr_listeners s1) (snd sw)))"

definition get_breadcrumbs ::
  "(string \<Rightarrow> time option) \<Rightarrow> 'e sdk_config option \<Rightarrow> time \<Rightarrow> crumbs \<Rightarrow> crumb list \<times> crumbs" where
  "get_breadcrumbs date_ms cfg now s =
     (let s1 = evict_stale date_ms cfg now s in (cr_buffer s1, s1))"

definition clear_breadcrumbs :: "crumbs \<Rightarrow> crumbs" where
  "clear_breadcrumbs s = s\<lparr>cr_buffer := [], cr_listeners := []\<rparr>"

section \<open>The specification\<close>

text \<open>
  What the buffer promises at a time: the newest of all breadcrumbs that are not older than the
  maximum age. The promise is stated for texts in the order of their times.
\<close>

definition recent ::
  "(string \<Rightarrow> time option) \<Rightarrow> 'e sdk_config option \<Rightarrow> time \<Rightarrow> crumb list \<Rightarrow> crumb list" where
  "recent date_ms cfg now history =
     take_last (nat (max_breadcrumbs cfg)) (filter (fresh_crumb date_ms cfg now) history)"

definition in_order :: "(string \<Rightarrow> time option) \<Rightarrow> crumb list \<Rightarrow> bool" where
  "in_order date_ms bs =
     sorted_wrt (\<lambda>a b. \<exists>t u. date_ms (bc_timestamp a) = Some t \<and> date_ms (bc_timestamp b) = Some u \<and> t \<le> u) bs"

text \<open>The breadcrumbs an application adds, each at its time.\<close>

fun add_all ::
  "(string \<Rightarrow> time option) \<Rightarrow> (ident \<Rightarrow> crumb \<Rightarrow> 'w \<Rightarrow> 'w) \<Rightarrow> 'e sdk_config option \<Rightarrow>
   (time \<times> crumb) list \<Rightarrow> crumbs \<times> 'w \<Rightarrow> crumbs \<times> 'w" where
  "add_all date_ms call cfg [] sw = sw"
| "add_all date_ms call cfg ((now, b) # rest) sw =
     add_all date_ms call cfg rest (add_breadcrumb date_ms call cfg now b sw)"

lemma bounded_crumbs_eq: "bounded_crumbs mx xs = take_last (nat mx) xs"
  by (simp add: bounded_crumbs_def take_last_all)

lemma take_last_append:
  "take_last n (take_last n xs @ ys) = take_last n (xs @ ys)"
  by (cases "n \<le> length xs") (simp_all add: take_last_def add.commute)

text \<open>A condition that, once it holds in a list, holds from there on commutes with \<open>take_last\<close>.\<close>

lemma filter_upward:
  assumes "sorted_wrt (\<lambda>a b. p a \<longrightarrow> p b) xs"
  shows "\<exists>as bs. xs = as @ bs \<and> filter p xs = bs \<and> (\<forall>a \<in> set as. \<not> p a)"
  using assms
proof (induction xs)
  case Nil
  then show ?case by simp
next
  case (Cons x xs)
  show ?case
  proof (cases "p x")
    case True
    with Cons.prems have "filter p (x # xs) = x # xs" by simp
    then show ?thesis by (intro exI [of _ "[]"] exI [of _ "x # xs"]) simp
  next
    case False
    from Cons obtain as bs where "xs = as @ bs" "filter p xs = bs" "\<forall>a \<in> set as. \<not> p a" by auto
    with False show ?thesis by (intro exI [of _ "x # as"] exI [of _ bs]) simp
  qed
qed

lemma filter_take_last:
  assumes "sorted_wrt (\<lambda>a b. p a \<longrightarrow> p b) xs"
  shows "filter p (take_last n xs) = take_last n (filter p xs)"
proof -
  obtain as bs where ab: "xs = as @ bs" "filter p xs = bs" "\<forall>a \<in> set as. \<not> p a"
    using filter_upward [OF assms] by blast
  have bs: "filter p bs = bs" by (metis ab(2) filter_filter filter_id_conv set_filter mem_Collect_eq)
  have none: "filter p (drop k as) = []" for k
    using ab(3) by (auto simp: filter_empty_conv dest: in_set_dropD)
  have "filter p (drop k bs) = drop k bs" for k
    using bs by (metis filter_id_conv in_set_dropD)
  with none show ?thesis unfolding ab(2) unfolding ab(1)
    by (simp add: take_last_def)
qed

lemma in_order_upward:
  "in_order date_ms bs \<Longrightarrow>
   sorted_wrt (\<lambda>a b. fresh_crumb date_ms cfg now a \<longrightarrow> fresh_crumb date_ms cfg now b) bs"
  unfolding in_order_def by (rule sorted_wrt_mono_rel) (auto simp: fresh_crumb_def)

lemma fresh_later:
  "now \<le> later \<Longrightarrow> fresh_crumb date_ms cfg later b \<Longrightarrow> fresh_crumb date_ms cfg now b"
  by (auto simp: fresh_crumb_def split: option.splits)

text \<open>One addition keeps the relation between the buffer and the history at every later time.\<close>

lemma add_refines:
  assumes "in_order date_ms (cr_buffer s @ [b])" "in_order date_ms (history @ [b])" "now \<le> t"
    and rel: "\<And>u. now \<le> u \<Longrightarrow> filter (fresh_crumb date_ms cfg u) (cr_buffer s) = recent date_ms cfg u history"
  shows "filter (fresh_crumb date_ms cfg t) (cr_buffer (fst (add_breadcrumb date_ms call cfg now b (s, w))))
    = recent date_ms cfg t (history @ [b])"
proof -
  let ?F = "fresh_crumb date_ms cfg" and ?n = "nat (max_breadcrumbs cfg)"
  have order: "in_order date_ms (filter (?F now) (cr_buffer s) @ [b])"
    using assms(1) by (auto simp: in_order_def sorted_wrt_append sorted_wrt_filter)
  have both: "filter (?F t) (filter (?F now) xs) = filter (?F t) xs" for xs
    using fresh_later [OF assms(3)] by (auto intro: filter_cong)
  have "cr_buffer (fst (add_breadcrumb date_ms call cfg now b (s, w)))
      = take_last ?n (filter (?F now) (cr_buffer s) @ [b])"
    by (simp add: add_breadcrumb_def evict_stale_def bounded_crumbs_eq Let_def)
  then have "filter (?F t) (cr_buffer (fst (add_breadcrumb date_ms call cfg now b (s, w))))
      = take_last ?n (filter (?F t) (filter (?F now) (cr_buffer s) @ [b]))"
    by (simp only: filter_take_last [OF in_order_upward [OF order]])
  also have "\<dots> = take_last ?n (recent date_ms cfg t history @ filter (?F t) [b])"
    using both rel [OF assms(3)] by simp
  also have "\<dots> = recent date_ms cfg t (history @ [b])"
    by (simp add: recent_def take_last_append)
  finally show ?thesis .
qed

lemma in_order_add:
  assumes "in_order date_ms (cr_buffer s @ b # rest)"
  shows "in_order date_ms (cr_buffer (fst (add_breadcrumb date_ms call cfg now b (s, w))) @ rest)"
proof -
  have "in_order date_ms ((filter (fresh_crumb date_ms cfg now) (cr_buffer s) @ [b]) @ rest)"
    using assms by (auto simp: in_order_def sorted_wrt_append sorted_wrt_filter)
  then show ?thesis
    using set_take_last [of "nat (max_breadcrumbs cfg)" "filter (fresh_crumb date_ms cfg now) (cr_buffer s) @ [b]"]
    by (auto simp: add_breadcrumb_def evict_stale_def bounded_crumbs_eq in_order_def sorted_wrt_append
        take_last_def sorted_wrt_drop Let_def dest!: in_set_dropD)
qed

lemma add_all_refines:
  assumes "in_order date_ms (history @ map snd added)" "in_order date_ms (cr_buffer (fst sw) @ map snd added)"
    and "sorted (start # map fst added @ [t])"
    and "\<And>u. start \<le> u \<Longrightarrow> filter (fresh_crumb date_ms cfg u) (cr_buffer (fst sw)) = recent date_ms cfg u history"
  shows "filter (fresh_crumb date_ms cfg t) (cr_buffer (fst (add_all date_ms call cfg added sw)))
    = recent date_ms cfg t (history @ map snd added)"
  using assms
proof (induction added arbitrary: sw history start)
  case Nil
  then show ?case by simp
next
  case (Cons x added)
  obtain now b where x: "x = (now, b)" by (cases x)
  obtain s w where sw: "sw = (s, w)" by (cases sw)
  let ?sw = "add_breadcrumb date_ms call cfg now b sw"
  have "filter (fresh_crumb date_ms cfg t) (cr_buffer (fst (add_all date_ms call cfg added ?sw)))
      = recent date_ms cfg t ((history @ [b]) @ map snd added)"
  proof (rule Cons.IH [of _ _ now])
    show "in_order date_ms ((history @ [b]) @ map snd added)" using Cons.prems(1) x by simp
    show "in_order date_ms (cr_buffer (fst ?sw) @ map snd added)"
      using in_order_add [of date_ms s b "map snd added"] Cons.prems(2) x sw by simp
    show "sorted (now # map fst added @ [t])" using Cons.prems(3) x by simp
    show "filter (fresh_crumb date_ms cfg u) (cr_buffer (fst ?sw)) = recent date_ms cfg u (history @ [b])"
      if "now \<le> u" for u
      unfolding sw
    proof (rule add_refines [OF _ _ that])
      show "in_order date_ms (cr_buffer s @ [b])" "in_order date_ms (history @ [b])"
        using Cons.prems(1,2) x sw by (auto simp: in_order_def sorted_wrt_append)
      show "filter (fresh_crumb date_ms cfg v) (cr_buffer s) = recent date_ms cfg v history" if "now \<le> v" for v
        using Cons.prems(3,4) x sw that by simp
    qed
  qed
  with x show ?case by simp
qed

text \<open>
  C40: The bounded, evicting buffer refines the list of all breadcrumbs ever added: when
  timestamps come in order and the clock does not run backwards, getBreadcrumbs gives exactly
  the newest maxBreadcrumbs of all those that are not older than breadcrumbMaxAge, although
  additions evict with the clock of their own time.
\<close>

theorem breadcrumbs_are_recent:
  assumes "in_order date_ms (map snd added)" "sorted (map fst added @ [now])"
    and "s = fst (add_all date_ms call cfg added (clear_breadcrumbs earlier, w))"
  shows "fst (get_breadcrumbs date_ms cfg now s) = recent date_ms cfg now (map snd added)
    \<and> snd (get_breadcrumbs date_ms cfg now s) = s\<lparr>cr_buffer := recent date_ms cfg now (map snd added)\<rparr>"
proof (cases added)
  case Nil
  then show ?thesis
    using assms(3) by (simp add: get_breadcrumbs_def evict_stale_def clear_breadcrumbs_def recent_def
        take_last_def)
next
  case (Cons x xs)
  have "filter (fresh_crumb date_ms cfg now) (cr_buffer s) = recent date_ms cfg now ([] @ map snd added)"
    unfolding assms(3)
    by (rule add_all_refines [where start = "fst x"])
      (use assms(1,2) Cons in \<open>simp_all add: clear_breadcrumbs_def recent_def take_last_def\<close>)
  then show ?thesis by (simp add: get_breadcrumbs_def evict_stale_def Let_def)
qed

definition click_at :: "string \<Rightarrow> crumb" where
  "click_at ts = \<lparr>bc_type = ''click'', bc_timestamp = ts, bc_category = ''ui'', bc_message = ''a'',
                  bc_data = None, bc_level = None\<rparr>"

definition ms_of :: "string \<Rightarrow> time option" where
  "ms_of s = Some (1000 * real (length s))"

lemma breadcrumbs_are_recent_witness:
  "fst (get_breadcrumbs ms_of (None :: unit sdk_config option) 35000
      (fst (add_all ms_of (\<lambda>f b n. Suc n) (None :: unit sdk_config option) [(1000, click_at ''1''), (9000, click_at ''123456789'')]
        (clear_breadcrumbs \<lparr>cr_buffer = [], cr_listeners = [''l'']\<rparr>, 0))))
   = [click_at ''123456789'']"
proof -
  let ?added = "[(1000 :: time, click_at ''1''), (9000, click_at ''123456789'')]"
  have o: "in_order ms_of (map snd ?added)" by (simp add: in_order_def click_at_def ms_of_def)
  have s: "sorted (map fst ?added @ [35000])" by simp
  have "fst (get_breadcrumbs ms_of (None :: unit sdk_config option) 35000
      (fst (add_all ms_of (\<lambda>f b n. Suc n) (None :: unit sdk_config option) ?added
        (clear_breadcrumbs \<lparr>cr_buffer = [], cr_listeners = [''l'']\<rparr>, 0))))
    = recent ms_of (None :: unit sdk_config option) 35000 (map snd ?added)"
    by (rule conjunct1 [OF breadcrumbs_are_recent [OF o s refl]])
  also have "\<dots> = [click_at ''123456789'']"
    by (simp add: recent_def fresh_crumb_def max_age_def default_max_age_ms_def max_breadcrumbs_def
        default_max_breadcrumbs_def click_at_def ms_of_def take_last_def)
  finally show ?thesis .
qed

end
