(* ===== verification/SdkEvents.thy ===== *)
theory SdkEvents
  imports Breadcrumbs JsRegex
begin

text \<open>
  The error event of the browser SDK on its way to the queue: the scrubbing of \<open>scrub.ts\<close>, the debug
  images of \<open>debug-images.ts\<close>, and the identity that \<open>core.ts\<close> attaches. A parsed URL belongs to the
  browser: it is a value of a type of its own with the operations of \<open>url_api\<close>.
\<close>

section \<open>Events\<close>

record user_context =
  uc_id :: string
  uc_email :: "string option"
  uc_account_id :: "string option"
  uc_account_name :: "string option"

record event_context =
  cx_url :: "string option"
  cx_user :: "user_context option"
  cx_rest :: json

record debug_image =
  di_code_file :: string
  di_debug_id :: string

record error_event =
  ee_type :: string
  ee_message :: string
  ee_stack :: string
  ee_breadcrumbs :: "crumb list"
  ee_context :: "event_context option"
  ee_debug_meta :: "debug_image list option"
  ee_rest :: json

section \<open>scrub.ts\<close>

record 'u url_api =
  ua_parse :: "string \<Rightarrow> 'u option"
  ua_strip :: "'u \<Rightarrow> 'u"
  ua_hash :: "'u \<Rightarrow> string"
  ua_without_hash :: "'u \<Rightarrow> 'u"
  ua_text :: "'u \<Rightarrow> string"

definition token_hash :: regex where
  "token_hash =
     Cat (alts [lit_i ''access_token'', lit_i ''id_token'', lit_i ''refresh_token'', lit_i ''token'',
                lit_i ''code'']) (lit ''='')"

definition scrub_url :: "'u url_api \<Rightarrow> string \<Rightarrow> string" where
  "scrub_url api raw =
     (if raw = [] then raw
      else case ua_parse api raw of
        None \<Rightarrow> takeWhile (\<lambda>c. c \<noteq> CHR ''?'' \<and> c \<noteq> CHR ''#'') raw
      | Some u0 \<Rightarrow>
          let u = ua_strip api u0
          in ua_text api (if ua_hash api u \<noteq> [] \<and> js_test token_hash (ua_hash api u)
                          then ua_without_hash api u else u))"

definition url_word :: "char \<Rightarrow> bool" where
  "url_word c = (alnum c \<or> one_of ''_-'' c)"

definition bearer :: regex where
  "bearer = cats [WordEdge, lit_i ''Bearer'', plus (Cls is_space),
                  plus (Cls (\<lambda>c. alnum c \<or> one_of ''._~+/=-'' c))]"

definition jwt :: regex where
  "jwt = cats [WordEdge, lit ''eyJ'', plus (Cls url_word), lit ''.'', plus (Cls url_word), lit ''.'',
               plus (Cls url_word)]"

definition joined_i :: "string \<Rightarrow> string \<Rightarrow> regex" where
  "joined_i a b = cats [lit_i a, opt (Cls (one_of ''_-'')), lit_i b]"

definition secret_kv :: regex where
  "secret_kv = cats
     [WordEdge,
      Cap 1 (alts [lit_i ''password'', lit_i ''passwd'', lit_i ''pwd'', lit_i ''secret'',
                   joined_i ''client'' ''secret'', joined_i ''api'' ''key'', joined_i ''access'' ''token'',
                   joined_i ''refresh'' ''token'', lit_i ''token'', lit_i ''authorization'', lit_i ''auth'',
                   lit_i ''session'', lit_i ''cookie'']),
      WordEdge,
      Cap 2 (cats [opt (Cls (one_of [CHR 0x22, CHR 0x27])), star (Cls is_space), Cls (one_of '':=''),
                   star (Cls is_space)]),
      Alt (cats [Cap 3 (Cls (one_of [CHR 0x22, CHR 0x27])),
                 Cap 4 (lazy_star (Cls (\<lambda>c. c \<noteq> CHR 0x0A \<and> c \<noteq> CHR 0x0D))), Backref 3])
          (Cap 5 (plus (Cls (\<lambda>c. \<not> is_space c \<and> \<not> one_of [CHR '','', CHR ''&'', CHR 0x22, CHR 0x27, CHR ''}''] c))))]"

definition url_in_text :: regex where
  "url_in_text = cats [lit_i ''http'', opt (Cls (fold_case (\<lambda>c. c = CHR ''s''))), lit ''://'',
                       plus (Cls (\<lambda>c. \<not> is_space c \<and> \<not> one_of [CHR 0x22, CHR 0x27] c))]"

definition redact_kv :: "match \<Rightarrow> string" where
  "redact_kv m =
     (let q = group_text m 3
      in group_text m 1 @ group_text m 2 @ q @ ''[redacted]'' @ q)"

definition scrub_text :: "string \<Rightarrow> string" where
  "scrub_text s =
     replace_all secret_kv redact_kv
       (replace_all bearer (\<lambda>_. ''Bearer [redacted]'')
         (replace_all jwt (\<lambda>_. ''[redacted-jwt]'') s))"

definition scrub_urls_in_text :: "'u url_api \<Rightarrow> string \<Rightarrow> string" where
  "scrub_urls_in_text api s = replace_all url_in_text (\<lambda>m. scrub_url api (m_text m)) s"

definition scrub_data_url :: "'u url_api \<Rightarrow> json \<Rightarrow> json" where
  "scrub_data_url api v =
     (case v of
        JObj fs \<Rightarrow> JObj (map (\<lambda>(k, x). (k, if k = ''url'' then (case x of JStr u \<Rightarrow> JStr (scrub_url api u) | _ \<Rightarrow> x)
                                           else x)) fs)
      | _ \<Rightarrow> v)"

definition scrub_breadcrumb :: "'u url_api \<Rightarrow> crumb \<Rightarrow> crumb" where
  "scrub_breadcrumb api b =
     b\<lparr>bc_message := scrub_text (scrub_urls_in_text api (bc_message b)),
       bc_data := map_option (scrub_data_url api) (bc_data b)\<rparr>"

definition scrub_event :: "'u url_api \<Rightarrow> error_event \<Rightarrow> error_event" where
  "scrub_event api ev =
     ev\<lparr>ee_message := scrub_text (ee_message ev), ee_stack := scrub_text (ee_stack ev),
        ee_context := map_option (\<lambda>c. c\<lparr>cx_url := map_option (scrub_url api) (cx_url c)\<rparr>) (ee_context ev),
        ee_breadcrumbs := map (scrub_breadcrumb api) (ee_breadcrumbs ev)\<rparr>"

section \<open>debug-images.ts\<close>

definition hex_lower :: "char \<Rightarrow> bool" where
  "hex_lower c = (digit c \<or> between CHR ''a'' CHR ''f'' c)"

definition debug_id_re :: regex where
  "debug_id_re =
     (let h = (\<lambda>n. Rep True n (Some n) (Cls hex_lower))
      in cats [AtStart, h 8, lit ''-'', h 4, lit ''-'', h 4, lit ''-'', h 4, lit ''-'', h 12, AtEnd])"

definition synthetic_stack_marker :: string where
  "synthetic_stack_marker = ''--- synthetic caller stack ---''"

definition max_images :: nat where "max_images = 64"
definition max_debug_meta_bytes :: nat where "max_debug_meta_bytes = 16 * 1024"

definition valid_code_file :: "string \<Rightarrow> bool" where
  "valid_code_file f =
     (1 \<le> utf8_length f \<and> utf8_length f \<le> 4096
      \<and> \<not> list_ex (\<lambda>c. (of_char c :: nat) < 32 \<or> (of_char c :: nat) = 127) f)"

definition position_re :: regex where
  "position_re = cats [AtStart, lit '':'', plus (Cls digit), lit '':'', plus (Cls digit),
                       Alt (Cls (\<lambda>c. \<not> digit c)) AtEnd]"

definition index_from :: "string \<Rightarrow> string \<Rightarrow> nat \<Rightarrow> nat option" where
  "index_from s w k = find (\<lambda>i. starts_with (drop i s) w) [k..<Suc (length s - length w)]"

text \<open>The offsets at which a file is named with a position; the fuel bounds the number of searches.\<close>

fun match_offsets :: "nat \<Rightarrow> string \<Rightarrow> string \<Rightarrow> nat \<Rightarrow> nat list" where
  "match_offsets 0 line f k = []"
| "match_offsets (Suc n) line f k =
     (if length line \<le> k then []
      else case index_from line f k of
        None \<Rightarrow> []
      | Some i \<Rightarrow>
          (if js_test position_re (drop (i + length f) line) then [i] else [])
          @ match_offsets n line f (i + length f))"

definition better_match :: "(nat \<times> string) option \<Rightarrow> nat \<times> string \<Rightarrow> (nat \<times> string) option" where
  "better_match best x =
     (case best of None \<Rightarrow> Some x | Some b \<Rightarrow> if fst b \<le> fst x then Some x else best)"

definition innermost_matched_file :: "string \<Rightarrow> string list \<Rightarrow> string option" where
  "innermost_matched_file line files =
     map_option snd
       (foldl better_match None
         (concat (map (\<lambda>f. map (\<lambda>i. (i, f)) (match_offsets (Suc (length line)) line f 0)) files)))"

definition valid_entries :: "(string \<times> json) list \<Rightarrow> debug_image list" where
  "valid_entries registry =
     concat (map (\<lambda>(f, v).
       if \<not> valid_code_file f then []
       else case v of
         JArr ids \<Rightarrow> concat (map (\<lambda>x. case x of
             JStr i \<Rightarrow> if js_test debug_id_re i then [\<lparr>di_code_file = f, di_debug_id = i\<rparr>] else []
           | _ \<Rightarrow> []) ids)
       | _ \<Rightarrow> []) registry)"

definition line_images :: "debug_image list \<Rightarrow> string \<Rightarrow> debug_image list" where
  "line_images entries line =
     (case innermost_matched_file line (map di_code_file entries) of
        None \<Rightarrow> []
      | Some f \<Rightarrow> filter (\<lambda>e. di_code_file e = f) entries)"

definition image_json :: "debug_image \<Rightarrow> string" where
  "image_json i =
     ''{'' @ json_quote ''type'' @ '':'' @ json_quote ''sourcemap'' @ '','' @ json_quote ''code_file'' @ '':''
     @ json_quote (di_code_file i) @ '','' @ json_quote ''debug_id'' @ '':'' @ json_quote (di_debug_id i) @ ''}''"

definition images_bytes :: "debug_image list \<Rightarrow> nat" where
  "images_bytes is =
     utf8_length (''{'' @ json_quote ''images'' @ '':['' @ join '','' (map image_json is) @ '']}'')"

function shrink_images :: "debug_image list \<Rightarrow> debug_image list" where
  "shrink_images is =
     (if is \<noteq> [] \<and> max_debug_meta_bytes < images_bytes is then shrink_images (butlast is) else is)"
  by pat_completeness auto

termination by (relation "measure length") auto

declare shrink_images.simps [simp del]

definition assemble_debug_meta :: "(string \<times> json) list option \<Rightarrow> string \<Rightarrow> debug_image list option" where
  "assemble_debug_meta registry stack =
     (case registry of
        None \<Rightarrow> None
      | Some [] \<Rightarrow> None
      | Some reg \<Rightarrow>
          let entries = valid_entries reg;
              lines = takeWhile (\<lambda>l. \<not> contains l synthetic_stack_marker) (split_on (CHR 0x0A) stack);
              unique = dedup (concat (map (line_images entries) lines));
              single = filter (\<lambda>i. count_where (\<lambda>j. di_code_file j = di_code_file i) unique = 1) unique
          in Some (shrink_images (take max_images single)))"

lemma shrink_images_bounds:
  "length (shrink_images is) \<le> length is
    \<and> (shrink_images is = [] \<or> images_bytes (shrink_images is) \<le> max_debug_meta_bytes)"
proof (induction "is" rule: shrink_images.induct)
  case (1 "is")
  show ?case
  proof (cases "is \<noteq> [] \<and> max_debug_meta_bytes < images_bytes is")
    case True
    have "length (shrink_images (butlast is)) \<le> length is"
      using 1 [OF True] by (metis diff_le_self le_trans length_butlast)
    moreover have "shrink_images is = shrink_images (butlast is)"
      using True by (simp add: shrink_images.simps [of "is"])
    ultimately show ?thesis using 1 [OF True] by simp
  next
    case False
    then have "shrink_images is = is" by (simp only: shrink_images.simps [of "is"] if_False)
    with False show ?thesis by (simp only: not_less) auto
  qed
qed

section \<open>The identity attached to an event\<close>

record stored_user =
  su_id :: string
  su_email :: "string option"
  su_account :: "(string option \<times> string option) option"

definition build_user_context :: "stored_user \<Rightarrow> user_context" where
  "build_user_context u =
     \<lparr>uc_id = su_id u, uc_email = su_email u, uc_account_id = Option.bind (su_account u) fst,
      uc_account_name = Option.bind (su_account u) snd\<rparr>"

definition max_id_length :: nat where "max_id_length = 256"
definition max_text_length :: nat where "max_text_length = 512"

text \<open>A safe integer is below 2 to the 53 in magnitude; its decimal notation is \<open>number_text\<close>.\<close>

definition number_text :: "real \<Rightarrow> string" where
  "number_text r = (if r < 0 then ''-'' else []) @ digits (nat \<lfloor>\<bar>r\<bar>\<rfloor>)"

definition is_safe_integer :: "real \<Rightarrow> bool" where
  "is_safe_integer r = (of_int \<lfloor>r\<rfloor> = r \<and> \<bar>r\<bar> \<le> 2 ^ 53 - 1)"

definition to_identifier :: "json \<Rightarrow> string option" where
  "to_identifier v =
     (let i = (case v of
                 JStr s \<Rightarrow> Some s
               | JNum r \<Rightarrow> if is_safe_integer r \<and> r \<noteq> 0 then Some (number_text r) else None
               | JBigInt s \<Rightarrow> if s \<noteq> ''0'' then Some s else None
               | _ \<Rightarrow> None)
      in case i of
           None \<Rightarrow> None
         | Some s \<Rightarrow> if s = [] \<or> s = ''undefined'' \<or> s = ''null'' \<or> max_id_length < length s then None else Some s)"

definition to_text :: "json \<Rightarrow> string option" where
  "to_text v = (case v of JStr s \<Rightarrow> if length s \<le> max_text_length then Some s else None | _ \<Rightarrow> None)"

record user_identity =
  ui_id :: json
  ui_email :: json
  ui_account :: "(json \<times> json) option"

definition normalize_user :: "user_identity option \<Rightarrow> stored_user option" where
  "normalize_user user =
     (case user of
        None \<Rightarrow> None
      | Some u \<Rightarrow>
          (case to_identifier (ui_id u) of
             None \<Rightarrow> None
           | Some i \<Rightarrow>
               Some \<lparr>su_id = i, su_email = to_text (ui_email u),
                     su_account = map_option (\<lambda>(a, n). (to_identifier a, to_text n)) (ui_account u)\<rparr>))"

lemma normalized_user_bounds:
  "normalize_user user = Some u \<Longrightarrow> su_id u \<noteq> [] \<and> length (su_id u) \<le> max_id_length"
  by (auto simp: normalize_user_def to_identifier_def Let_def split: option.splits if_splits)

end
