(* ===== verification/Transport.thy ===== *)
theory Transport
  imports SdkEvents "HOL-Library.Multiset"
begin

text \<open>
  The queue of error events in the browser SDK: \<open>throttle.ts\<close> and \<open>transport.ts\<close>. A flush sends one
  event after the other and awaits each answer, so it is cut into turns: the tick that starts it and
  one turn per answer. The requests of an unload are not awaited; their answers are inputs too.
  \<open>qe_ref\<close> is the identity of the queue's object. Where entries end is noted in the last three
  fields: delivered, dropped because the queue was full, or refused with an answer at unload.
\<close>

section \<open>throttle.ts\<close>

type_synonym seen = "(string \<times> time) list"

definition max_keys :: nat where "max_keys = 200"

definition frame_re :: regex where
  "frame_re = Alt (cats [WordEdge, lit ''at'', WordEdge])
                  (cats [lit '':'', plus (Cls digit), lit '':'', plus (Cls digit)])"

definition first_frame :: "string \<Rightarrow> string" where
  "first_frame stack =
     (case find (js_test frame_re) (split_on (CHR 0x0A) stack) of None \<Rightarrow> [] | Some l \<Rightarrow> trim l)"

definition throttle_key :: "string \<Rightarrow> string \<Rightarrow> string \<Rightarrow> string" where
  "throttle_key ty msg stack = ty @ ''::'' @ msg @ ''::'' @ first_frame stack"

text \<open>\<open>Map.set\<close>: a key that is there keeps its place.\<close>

definition map_set :: "string \<Rightarrow> time \<Rightarrow> seen \<Rightarrow> seen" where
  "map_set k v xs =
     (if k \<in> fst ` set xs then map (\<lambda>(k', v'). (k', if k' = k then v else v')) xs else xs @ [(k, v)])"

definition should_throttle :: "string \<Rightarrow> time \<Rightarrow> time \<Rightarrow> seen \<Rightarrow> bool \<times> seen" where
  "should_throttle key window now xs =
     (if window \<le> 0 then (False, xs)
      else if (case map_of xs key of None \<Rightarrow> False | Some prev \<Rightarrow> now - prev < window) then (True, xs)
      else let ys = map_set key now xs
           in (False, if max_keys < length ys then tl ys else ys))"

lemma throttle_bounded:
  "length xs \<le> max_keys \<Longrightarrow> length (snd (should_throttle k w now xs)) \<le> max_keys"
  by (auto simp: should_throttle_def map_set_def max_keys_def Let_def)

section \<open>The queue\<close>

datatype trigger_type = UncaughtError | CaptureException

record queued =
  qe_ref :: nat
  qe_payload :: error_event
  qe_trigger :: "trigger_type option"

record transport =
  tr_queue :: "queued list"
  tr_flushing :: bool
  tr_flight :: "queued list"
  tr_failed :: "queued list"
  tr_failures :: nat
  tr_next_attempt :: time
  tr_unload :: "queued list"
  tr_seen :: seen
  tr_refs :: nat
  tr_delivered :: "nat list"
  tr_dropped :: "nat list"
  tr_refused :: "nat list"

definition max_queue_size :: nat where "max_queue_size = 100"
definition base_backoff_ms :: time where "base_backoff_ms = 1000"
definition max_backoff_ms :: time where "max_backoff_ms = 30000"
definition keepalive_budget_bytes :: nat where "keepalive_budget_bytes = 60 * 1024"

definition no_transport :: transport where
  "no_transport =
     \<lparr>tr_queue = [], tr_flushing = False, tr_flight = [], tr_failed = [], tr_failures = 0,
      tr_next_attempt = 0, tr_unload = [], tr_seen = [], tr_refs = 0, tr_delivered = [],
      tr_dropped = [], tr_refused = []\<rparr>"

text \<open>What a turn sees: clock, \<open>Math.random()\<close>, configuration, current user, build registry, URLs.\<close>

record 'u sdk_env =
  sk_now :: time
  sk_random :: real
  sk_config :: "error_event sdk_config option"
  sk_user :: "stored_user option"
  sk_registry :: "(string \<times> json) list option"
  sk_url :: "'u url_api"
  sk_bytes :: "error_event \<Rightarrow> nat"

definition backoff_of :: "nat \<Rightarrow> time" where
  "backoff_of n = min (base_backoff_ms * 2 ^ (n - 1)) max_backoff_ms"

definition open_backoff :: "'u sdk_env \<Rightarrow> transport \<Rightarrow> transport" where
  "open_backoff e s =
     (let n = tr_failures s + 1; ex = backoff_of n; jitter = sk_random e * ex * (1 / 2)
      in s\<lparr>tr_failures := n, tr_next_attempt := sk_now e + ex + jitter\<rparr>)"

definition reset_backoff :: "transport \<Rightarrow> transport" where
  "reset_backoff s = s\<lparr>tr_failures := 0, tr_next_attempt := 0\<rparr>"

text \<open>The queue after a change, without its oldest entries beyond the limit.\<close>

definition keep_newest :: "queued list \<Rightarrow> transport \<Rightarrow> transport" where
  "keep_newest qs s =
     s\<lparr>tr_queue := take_last max_queue_size qs,
       tr_dropped := tr_dropped s @ map qe_ref (take (length qs - max_queue_size) qs)\<rparr>"

definition bind_user :: "stored_user option \<Rightarrow> error_event \<Rightarrow> error_event" where
  "bind_user user ev =
     (case user of
        None \<Rightarrow> ev
      | Some u \<Rightarrow>
          (case ee_context ev of
             None \<Rightarrow> ev\<lparr>ee_context := Some \<lparr>cx_url = None, cx_user = Some (build_user_context u), cx_rest = JObj []\<rparr>\<rparr>
           | Some c \<Rightarrow>
               if cx_user c = None
               then ev\<lparr>ee_context := Some (c\<lparr>cx_user := Some (build_user_context u)\<rparr>)\<rparr> else ev))"

definition bind_queued :: "'u sdk_env \<Rightarrow> queued \<Rightarrow> queued" where
  "bind_queued e q = q\<lparr>qe_payload := bind_user (sk_user e) (qe_payload q)\<rparr>"

section \<open>flushEvents\<close>

text \<open>The event that is sent next is given the user at that moment.\<close>

definition send_next :: "'u sdk_env \<Rightarrow> queued list \<Rightarrow> queued list" where
  "send_next e qs = (case qs of [] \<Rightarrow> [] | q # rest \<Rightarrow> bind_queued e q # rest)"

definition finish_flush :: "'u sdk_env \<Rightarrow> transport \<Rightarrow> transport" where
  "finish_flush e s =
     (let s1 = (if tr_failed s \<noteq> []
                then open_backoff e (keep_newest (tr_failed s @ tr_queue s) (s\<lparr>tr_failed := []\<rparr>))
                else reset_backoff s)
      in s1\<lparr>tr_flushing := False\<rparr>)"

definition flush_events :: "'u sdk_env \<Rightarrow> transport \<Rightarrow> transport" where
  "flush_events e s =
     (if tr_flushing s \<or> tr_queue s = [] then s
      else if sk_now e < tr_next_attempt s then s
      else let s1 = s\<lparr>tr_flushing := True, tr_queue := []\<rparr>
           in case sk_config e of
                None \<Rightarrow> finish_flush e (s1\<lparr>tr_failed := tr_queue s\<rparr>)
              | Some _ \<Rightarrow> s1\<lparr>tr_flight := send_next e (tr_queue s)\<rparr>)"

text \<open>The answer to the request in flight: \<open>ok\<close> is an answer with \<open>response.ok\<close>.\<close>

definition event_answered :: "'u sdk_env \<Rightarrow> bool \<Rightarrow> transport \<Rightarrow> transport" where
  "event_answered e ok s =
     (case tr_flight s of
        [] \<Rightarrow> s
      | q # rest \<Rightarrow>
          let s1 = (if ok then s\<lparr>tr_delivered := tr_delivered s @ [qe_ref q]\<rparr>
                    else s\<lparr>tr_failed := tr_failed s @ [q]\<rparr>);
              s2 = s1\<lparr>tr_flight := send_next e rest\<rparr>
          in if rest = [] then finish_flush e s2 else s2)"

section \<open>enqueueEvent\<close>

definition instrumented :: "'u sdk_env \<Rightarrow> error_event \<Rightarrow> error_event" where
  "instrumented e ev =
     (let scrubbed = scrub_event (sk_url e) ev
      in case assemble_debug_meta (sk_registry e) (ee_stack scrubbed) of
           None \<Rightarrow> scrubbed
         | Some images \<Rightarrow> scrubbed\<lparr>ee_debug_meta := Some images\<rparr>)"

definition processed :: "'u sdk_env \<Rightarrow> error_event sdk_config \<Rightarrow> error_event \<Rightarrow> error_event option" where
  "processed e c ev =
     (let i = instrumented e ev
      in case cf_before_send c of
           None \<Rightarrow> Some i
         | Some hook \<Rightarrow> (case hook i of Inl left_as \<Rightarrow> Some left_as | Inr res \<Rightarrow> res))"

definition enqueue_event ::
  "'u sdk_env \<Rightarrow> error_event \<Rightarrow> trigger_type option \<Rightarrow> transport \<Rightarrow> transport" where
  "enqueue_event e ev trigger s =
     (case sk_config e of
        None \<Rightarrow> s
      | Some c \<Rightarrow>
          if cf_sample_rate c < 1 \<and> cf_sample_rate c \<le> sk_random e then s
          else
            let (drop_it, xs) = should_throttle (throttle_key (ee_type ev) (ee_message ev) (ee_stack ev))
                                  (cf_error_throttle_ms c) (sk_now e) (tr_seen s);
                s1 = s\<lparr>tr_seen := xs\<rparr>
            in if drop_it then s1
               else case processed e c ev of
                 None \<Rightarrow> s1
               | Some p \<Rightarrow>
                   let q = \<lparr>qe_ref = tr_refs s1, qe_payload = p, qe_trigger = trigger\<rparr>;
                       s2 = keep_newest (tr_queue s1 @ [q]) (s1\<lparr>tr_refs := tr_refs s1 + 1\<rparr>)
                   in if cf_max_batch_size c \<le> int (length (tr_queue s2)) then flush_events e s2 else s2)"

section \<open>flushOnUnload\<close>

text \<open>The leading events that fit the budget, at least one, and the rest of the queue.\<close>

fun take_fitting :: "'u sdk_env \<Rightarrow> bool \<Rightarrow> nat \<Rightarrow> queued list \<Rightarrow> queued list \<times> queued list" where
  "take_fitting e some used [] = ([], [])"
| "take_fitting e some used (q # qs) =
     (let b = bind_queued e q; n = sk_bytes e (qe_payload b)
      in if some \<and> keepalive_budget_bytes < used + n then ([], b # qs)
         else let (taken, rest) = take_fitting e True (used + n) qs in (b # taken, rest))"

definition flush_on_unload :: "'u sdk_env \<Rightarrow> transport \<Rightarrow> transport" where
  "flush_on_unload e s =
     (if tr_queue s = [] \<or> sk_config e = None then s
      else let (taken, rest) = take_fitting e False 0 (tr_queue s)
           in s\<lparr>tr_queue := rest, tr_unload := tr_unload s @ taken\<rparr>)"

text \<open>An unload request was answered, with any status, or was rejected by the network.\<close>

datatype unload_answer = UnloadAnswer bool | UnloadRejected

definition unload_answered :: "nat \<Rightarrow> unload_answer \<Rightarrow> transport \<Rightarrow> transport" where
  "unload_answered i ans s =
     (if length (tr_unload s) \<le> i then s
      else let q = tr_unload s ! i;
               s1 = s\<lparr>tr_unload := take i (tr_unload s) @ drop (Suc i) (tr_unload s)\<rparr>
           in case ans of
                UnloadRejected \<Rightarrow> keep_newest (q # tr_queue s1) s1
              | UnloadAnswer ok \<Rightarrow>
                  if ok then s1\<lparr>tr_delivered := tr_delivered s1 @ [qe_ref q]\<rparr>
                  else s1\<lparr>tr_refused := tr_refused s1 @ [qe_ref q]\<rparr>)"

section \<open>Turns\<close>

inductive transport_step :: "'u url_api \<Rightarrow> transport \<Rightarrow> transport \<Rightarrow> bool" for api where
  enqueued: "sk_url e = api \<Longrightarrow> transport_step api s (enqueue_event e ev trigger s)"
| ticked: "sk_url e = api \<Longrightarrow> transport_step api s (flush_events e s)"
| answered: "sk_url e = api \<Longrightarrow> transport_step api s (event_answered e ok s)"
| unloading: "sk_url e = api \<Longrightarrow> transport_step api s (flush_on_unload e s)"
| unload_done: "transport_step api s (unload_answered i ans s)"

section \<open>Where every event is\<close>

definition held :: "transport \<Rightarrow> queued list" where
  "held s = tr_queue s @ tr_flight s @ tr_failed s @ tr_unload s"

definition ended :: "transport \<Rightarrow> nat list" where
  "ended s = tr_delivered s @ tr_dropped s @ tr_refused s"

definition whereabouts :: "transport \<Rightarrow> nat multiset" where
  "whereabouts s = mset (map qe_ref (held s)) + mset (ended s)"

definition flush_ok :: "transport \<Rightarrow> bool" where
  "flush_ok s = (tr_flushing s = (tr_flight s \<noteq> []) \<and> (tr_flight s = [] \<longrightarrow> tr_failed s = []))"

definition transport_ok :: "transport \<Rightarrow> bool" where
  "transport_ok s =
     (length (tr_queue s) \<le> max_queue_size \<and> flush_ok s \<and> whereabouts s = mset [0..<tr_refs s])"

lemma bind_queued_ref [simp]: "qe_ref (bind_queued e q) = qe_ref q"
  by (simp add: bind_queued_def)

lemma send_next_refs [simp]: "map qe_ref (send_next e qs) = map qe_ref qs"
  by (simp add: send_next_def split: list.splits)

lemma send_next_Nil [simp]: "send_next e qs = [] \<longleftrightarrow> qs = []"
  by (simp add: send_next_def split: list.splits)

lemma take_fitting_refs:
  "map qe_ref (fst (take_fitting e b n qs)) @ map qe_ref (snd (take_fitting e b n qs)) = map qe_ref qs"
  by (induction qs arbitrary: b n) (simp_all add: Let_def case_prod_beta)

text \<open>Keeping the newest entries loses none: an entry is in the queue or noted as dropped.\<close>

lemma keep_newest_mset:
  "mset (map qe_ref (take_last max_queue_size qs)) + mset (map qe_ref (take (length qs - max_queue_size) qs))
    = mset (map qe_ref qs)"
proof -
  let ?k = "length qs - max_queue_size"
  have "mset (map qe_ref (take ?k qs)) + mset (map qe_ref (drop ?k qs)) = mset (map qe_ref qs)"
    by (metis append_take_drop_id map_append mset_append)
  then show ?thesis by (simp only: take_last_def add.commute)
qed

lemma whereabouts_keep:
  "whereabouts (keep_newest qs s) + mset (map qe_ref (tr_queue s)) = whereabouts s + mset (map qe_ref qs)"
  using keep_newest_mset [of qs] by (simp add: whereabouts_def held_def ended_def keep_newest_def)

lemma keep_newest_fields [simp]:
  "length (tr_queue (keep_newest qs s)) \<le> max_queue_size" "tr_refs (keep_newest qs s) = tr_refs s"
  "flush_ok (keep_newest qs s) = flush_ok s"
  by (simp_all add: keep_newest_def flush_ok_def)

lemma backoff_fields [simp]:
  "whereabouts (open_backoff e s) = whereabouts s" "whereabouts (reset_backoff s) = whereabouts s"
  "tr_queue (open_backoff e s) = tr_queue s" "tr_queue (reset_backoff s) = tr_queue s"
  "tr_refs (open_backoff e s) = tr_refs s" "tr_refs (reset_backoff s) = tr_refs s"
  by (simp_all add: open_backoff_def reset_backoff_def whereabouts_def held_def ended_def Let_def)

lemma finish_flush_ok:
  assumes "tr_flight s = []" "length (tr_queue s) \<le> max_queue_size" "whereabouts s = mset [0..<tr_refs s]"
  shows "transport_ok (finish_flush e s)"
proof -
  let ?k = "keep_newest (tr_failed s @ tr_queue s) (s\<lparr>tr_failed := []\<rparr>)"
  have "whereabouts s = whereabouts (s\<lparr>tr_failed := []\<rparr>) + mset (map qe_ref (tr_failed s))"
    by (simp add: whereabouts_def held_def ended_def)
  then have "whereabouts ?k + mset (map qe_ref (tr_queue s)) = whereabouts s + mset (map qe_ref (tr_queue s))"
    using whereabouts_keep [of "tr_failed s @ tr_queue s" "s\<lparr>tr_failed := []\<rparr>"] by simp
  then have k: "whereabouts ?k = mset [0..<tr_refs s]" using assms(3) by simp
  have f: "whereabouts (u\<lparr>tr_flushing := b\<rparr>) = whereabouts u" for u b
    by (simp add: whereabouts_def held_def ended_def)
  show ?thesis
    using assms k
    by (simp add: finish_flush_def transport_ok_def flush_ok_def f)
      (simp add: open_backoff_def reset_backoff_def keep_newest_def Let_def)
qed

lemma flush_events_ok:
  assumes "transport_ok s"
  shows "transport_ok (flush_events e s)"
proof (cases "tr_flushing s \<or> tr_queue s = [] \<or> sk_now e < tr_next_attempt s")
  case True
  with assms show ?thesis by (auto simp: flush_events_def)
next
  case False
  let ?s = "s\<lparr>tr_flushing := True, tr_queue := []\<rparr>"
  have idle: "tr_flight s = []" "tr_failed s = []"
    using assms False by (simp_all add: transport_ok_def flush_ok_def)
  have w: "mset (map qe_ref (tr_queue s @ tr_unload s)) + mset (ended s) = mset [0..<tr_refs s]"
    using assms idle by (simp add: transport_ok_def whereabouts_def held_def)
  show ?thesis
  proof (cases "sk_config e")
    case None
    have "transport_ok (finish_flush e (?s\<lparr>tr_failed := tr_queue s\<rparr>))"
      by (rule finish_flush_ok) (use idle w in \<open>simp_all add: whereabouts_def held_def ended_def\<close>)
    with None False show ?thesis by (simp add: flush_events_def)
  next
    case (Some c)
    have "transport_ok (?s\<lparr>tr_flight := send_next e (tr_queue s)\<rparr>)"
      using idle w False by (simp add: transport_ok_def flush_ok_def whereabouts_def held_def ended_def)
    with Some False show ?thesis by (simp add: flush_events_def)
  qed
qed

lemma event_answered_ok:
  assumes "transport_ok s"
  shows "transport_ok (event_answered e ok s)"
proof (cases "tr_flight s")
  case Nil
  with assms show ?thesis by (simp add: event_answered_def)
next
  case (Cons q rest)
  let ?s1 = "if ok then s\<lparr>tr_delivered := tr_delivered s @ [qe_ref q]\<rparr> else s\<lparr>tr_failed := tr_failed s @ [q]\<rparr>"
  let ?s2 = "?s1\<lparr>tr_flight := send_next e rest\<rparr>"
  have w: "whereabouts ?s2 = mset [0..<tr_refs s]" "length (tr_queue ?s2) \<le> max_queue_size"
      "tr_flushing ?s2" "tr_refs ?s2 = tr_refs s"
    using assms Cons by (simp_all add: transport_ok_def flush_ok_def whereabouts_def held_def ended_def)
  show ?thesis
  proof (cases "rest = []")
    case True
    have "tr_flight ?s2 = []" using True by simp
    from finish_flush_ok [OF this w(2)] w have "transport_ok (finish_flush e ?s2)" by metis
    with Cons True show ?thesis by (simp add: event_answered_def Let_def)
  next
    case False
    with w have "transport_ok ?s2" unfolding transport_ok_def flush_ok_def by simp
    with False Cons show ?thesis by (simp add: event_answered_def Let_def)
  qed
qed

lemma enqueue_event_ok:
  assumes "transport_ok s"
  shows "transport_ok (enqueue_event e ev trigger s)"
proof -
  have seen: "transport_ok (s\<lparr>tr_seen := xs\<rparr>)" for xs
    using assms by (simp add: transport_ok_def flush_ok_def whereabouts_def held_def ended_def)
  have new: "transport_ok (keep_newest (tr_queue u @ [q]) (u\<lparr>tr_refs := Suc (tr_refs u)\<rparr>))"
    if u: "transport_ok u" and q: "qe_ref q = tr_refs u" for u q
  proof -
    let ?u = "u\<lparr>tr_refs := Suc (tr_refs u)\<rparr>"
    have "whereabouts (keep_newest (tr_queue u @ [q]) ?u) + mset (map qe_ref (tr_queue u))
        = whereabouts u + mset (map qe_ref (tr_queue u @ [q]))"
      using whereabouts_keep [of "tr_queue u @ [q]" ?u] by (simp add: whereabouts_def held_def ended_def)
    then have "whereabouts (keep_newest (tr_queue u @ [q]) ?u) = mset [0..<Suc (tr_refs u)]"
      using u q by (simp add: transport_ok_def)
    then show ?thesis using u by (simp add: transport_ok_def) (simp add: flush_ok_def)
  qed
  show ?thesis
  proof (cases "sk_config e")
    case None
    with assms show ?thesis by (simp add: enqueue_event_def)
  next
    case (Some c)
    obtain drop_it xs where th: "should_throttle (throttle_key (ee_type ev) (ee_message ev) (ee_stack ev))
        (cf_error_throttle_ms c) (sk_now e) (tr_seen s) = (drop_it, xs)" by force
    let ?s = "s\<lparr>tr_seen := xs\<rparr>"
    let ?v = "\<lambda>p. keep_newest (tr_queue ?s @ [\<lparr>qe_ref = tr_refs ?s, qe_payload = p, qe_trigger = trigger\<rparr>])
        (?s\<lparr>tr_refs := Suc (tr_refs ?s)\<rparr>)"
    have v: "transport_ok (?v p)" for p by (rule new [OF seen]) simp
    show ?thesis
      using assms seen v flush_events_ok [OF v, where e = e] Some
      by (simp add: enqueue_event_def th Let_def split: option.splits)
  qed
qed

lemma flush_on_unload_ok:
  assumes "transport_ok s"
  shows "transport_ok (flush_on_unload e s)"
proof -
  obtain taken rest where t: "take_fitting e False 0 (tr_queue s) = (taken, rest)" by force
  have r: "map qe_ref (tr_queue s) = map qe_ref taken @ map qe_ref rest" "length rest \<le> length (tr_queue s)"
    using take_fitting_refs [of e False 0 "tr_queue s"] t
    by (simp_all add: map_eq_imp_length_eq [of qe_ref "taken @ rest" qe_ref "tr_queue s", symmetric])
  have "transport_ok (s\<lparr>tr_queue := rest, tr_unload := tr_unload s @ taken\<rparr>)"
    using assms r by (simp add: transport_ok_def flush_ok_def whereabouts_def held_def ended_def ac_simps)
  with assms t show ?thesis by (simp add: flush_on_unload_def)
qed

lemma mset_map_take_out:
  assumes "i < length xs"
  shows "mset (map f xs) = add_mset (f (xs ! i)) (mset (map f (take i xs @ drop (Suc i) xs)))"
proof -
  have "mset (map f xs) = mset (map f (take i xs @ xs ! i # drop (Suc i) xs))"
    by (simp only: id_take_nth_drop [OF assms, symmetric])
  then show ?thesis by simp
qed

lemma unload_answered_ok:
  assumes "transport_ok s"
  shows "transport_ok (unload_answered i ans s)"
proof (cases "i < length (tr_unload s)")
  case False
  with assms show ?thesis by (simp add: unload_answered_def)
next
  case True
  let ?q = "tr_unload s ! i"
  let ?s = "s\<lparr>tr_unload := take i (tr_unload s) @ drop (Suc i) (tr_unload s)\<rparr>"
  have "mset (map qe_ref (tr_unload s)) = add_mset (qe_ref ?q) (mset (map qe_ref (tr_unload ?s)))"
    using mset_map_take_out [OF True, of qe_ref] by simp
  then have w: "add_mset (qe_ref ?q) (whereabouts ?s) = mset [0..<tr_refs s]"
    using assms by (simp add: transport_ok_def whereabouts_def held_def ended_def)
  have k: "whereabouts (keep_newest (?q # tr_queue s) ?s) = mset [0..<tr_refs s]"
    using whereabouts_keep [of "?q # tr_queue s" ?s] w by simp
  have d: "transport_ok (?s\<lparr>tr_delivered := tr_delivered s @ [qe_ref ?q]\<rparr>)"
    "transport_ok (?s\<lparr>tr_refused := tr_refused s @ [qe_ref ?q]\<rparr>)"
    using assms w by (simp_all add: transport_ok_def flush_ok_def whereabouts_def held_def ended_def)
  have r: "transport_ok (keep_newest (?q # tr_queue s) ?s)"
    using assms k by (simp add: transport_ok_def) (simp add: flush_ok_def)
  from True d r show ?thesis by (simp add: unload_answered_def Let_def split: unload_answer.splits)
qed

lemma transport_ok_reachable: "(transport_step api)\<^sup>*\<^sup>* s t \<Longrightarrow> transport_ok s \<Longrightarrow> transport_ok t"
  by (induction rule: rtranclp_induct)
    (auto elim!: transport_step.cases intro: enqueue_event_ok flush_events_ok event_answered_ok
      flush_on_unload_ok unload_answered_ok)

text \<open>
  C39: Whatever the order of captured errors, flushes, answers, unloads and rejections, the
  queue holds at most 100 events and every event that was accepted is in exactly one place:
  queued, in flight, failed and waiting for the end of the flush, sent at unload, delivered,
  dropped as one of the oldest of a full queue, or refused by the server at unload; a flush is
  marked as running exactly while a request is in flight.
\<close>

theorem events_are_conserved:
  assumes "(transport_step api)\<^sup>*\<^sup>* no_transport s"
  shows "length (tr_queue s) \<le> 100
    \<and> mset (map qe_ref (tr_queue s @ tr_flight s @ tr_failed s @ tr_unload s))
        + mset (tr_delivered s @ tr_dropped s @ tr_refused s) = mset [0..<tr_refs s]
    \<and> tr_flushing s = (tr_flight s \<noteq> [])"
proof -
  have "transport_ok no_transport"
    by (simp add: transport_ok_def no_transport_def flush_ok_def whereabouts_def held_def ended_def)
  with transport_ok_reachable [OF assms] have "transport_ok s" by simp
  then show ?thesis
    by (simp add: transport_ok_def flush_ok_def whereabouts_def held_def ended_def max_queue_size_def)
qed

text \<open>The gate after a flush that left failed events: closed for at least the back-off, at most half as long again.\<close>

lemma backoff_window:
  assumes "tr_flight s = [q]" "\<not> ok \<or> tr_failed s \<noteq> []" "0 \<le> sk_random e" "sk_random e < 1"
    and "t = event_answered e ok s"
  shows "let d = backoff_of (tr_failures s + 1) in
      sk_now e + d \<le> tr_next_attempt t \<and> tr_next_attempt t \<le> sk_now e + d + d / 2 \<and> d \<le> max_backoff_ms"
    and "sk_now f < tr_next_attempt t \<Longrightarrow> flush_events f t = t"
proof -
  have d: "0 \<le> backoff_of n" "backoff_of n \<le> max_backoff_ms" for n
    by (simp_all add: backoff_of_def base_backoff_ms_def max_backoff_ms_def)
  have j: "0 \<le> sk_random e * backoff_of n" "sk_random e * backoff_of n \<le> backoff_of n" for n
    using assms(3,4) d by (simp_all add: mult_left_le_one_le)
  have t: "tr_next_attempt t = sk_now e + backoff_of (tr_failures s + 1)
      + sk_random e * backoff_of (tr_failures s + 1) * (1 / 2)"
    using assms(1,2) unfolding assms(5)
    by (auto simp: event_answered_def finish_flush_def open_backoff_def keep_newest_def Let_def)
  show "let d = backoff_of (tr_failures s + 1) in
      sk_now e + d \<le> tr_next_attempt t \<and> tr_next_attempt t \<le> sk_now e + d + d / 2 \<and> d \<le> max_backoff_ms"
    using d j [of "tr_failures s + 1"] by (simp add: t Let_def)
  show "sk_now f < tr_next_attempt t \<Longrightarrow> flush_events f t = t" by (simp add: flush_events_def)
qed

section \<open>A run\<close>

definition plain_event :: error_event where
  "plain_event = \<lparr>ee_type = ''TypeError'', ee_message = ''m'', ee_stack = [], ee_breadcrumbs = [],
     ee_context = None, ee_debug_meta = None, ee_rest = JObj []\<rparr>"

definition plain_config :: "error_event sdk_config" where
  "plain_config = \<lparr>cf_endpoint = ''https://a'', cf_api_key = ''opslane_pk_1'', cf_release = [],
     cf_environment = [], cf_max_breadcrumbs = 50, cf_breadcrumb_max_age = 30000,
     cf_flush_interval = 5000, cf_max_batch_size = 10, cf_debug = False,
     cf_reporting_enabled = True, cf_replay_enabled = True, cf_sample_rate = 1,
     cf_error_throttle_ms = 0, cf_before_send = Some (\<lambda>_. Inr (Some plain_event))\<rparr>"

definition plain_env :: "unit sdk_env" where
  "plain_env = \<lparr>sk_now = 0, sk_random = 0, sk_config = Some plain_config, sk_user = None,
     sk_registry = None,
     sk_url = \<lparr>ua_parse = (\<lambda>_. None), ua_strip = id, ua_hash = (\<lambda>_. []), ua_without_hash = id, ua_text = (\<lambda>_. [])\<rparr>,
     sk_bytes = (\<lambda>_. 400)\<rparr>"

definition plain_queued :: "nat \<Rightarrow> queued" where
  "plain_queued n = \<lparr>qe_ref = n, qe_payload = plain_event, qe_trigger = None\<rparr>"

text \<open>Two events are sent at unload and both requests are rejected.\<close>

lemma plain_enqueue:
  "tr_queue s = map plain_queued ns \<Longrightarrow> length ns < 5 \<Longrightarrow>
   enqueue_event plain_env plain_event None s =
     s\<lparr>tr_queue := map plain_queued (ns @ [tr_refs s]), tr_refs := Suc (tr_refs s)\<rparr>"
  by (simp add: enqueue_event_def plain_env_def plain_config_def should_throttle_def processed_def
      keep_newest_def take_last_def max_queue_size_def plain_queued_def Let_def)

lemma plain_unload:
  "tr_queue s = map plain_queued [0, 1] \<Longrightarrow>
   flush_on_unload plain_env s = s\<lparr>tr_queue := [], tr_unload := tr_unload s @ map plain_queued [0, 1]\<rparr>"
  by (simp add: flush_on_unload_def plain_env_def bind_queued_def bind_user_def plain_queued_def
      keepalive_budget_bytes_def Let_def)

definition twice_rejected :: transport where
  "twice_rejected = no_transport\<lparr>tr_queue := map plain_queued [1, 0], tr_refs := 2\<rparr>"

lemma twice_rejected_reachable:
  "(transport_step (sk_url plain_env))\<^sup>*\<^sup>* no_transport twice_rejected"
proof -
  let ?st = "transport_step (sk_url plain_env)"
  let ?s1 = "no_transport\<lparr>tr_queue := map plain_queued [0], tr_refs := 1\<rparr>"
  let ?s2 = "no_transport\<lparr>tr_queue := map plain_queued [0, 1], tr_refs := 2\<rparr>"
  let ?s3 = "no_transport\<lparr>tr_unload := map plain_queued [0, 1], tr_refs := 2\<rparr>"
  let ?s4 = "no_transport\<lparr>tr_queue := [plain_queued 0], tr_unload := [plain_queued 1], tr_refs := 2\<rparr>"
  note keep = keep_newest_def take_last_def max_queue_size_def no_transport_def Let_def
  have 1: "?st no_transport ?s1"
    using enqueued [OF refl, of plain_env no_transport plain_event None] plain_enqueue [of no_transport "[]"]
    by (simp add: no_transport_def)
  have 2: "?st ?s1 ?s2"
    using enqueued [OF refl, of plain_env ?s1 plain_event None] plain_enqueue [of ?s1 "[0]"]
    by (simp add: no_transport_def numeral_2_eq_2)
  have 3: "?st ?s2 ?s3"
    using unloading [OF refl, of plain_env ?s2] plain_unload [of ?s2] by (simp add: no_transport_def)
  have 4: "?st ?s3 ?s4"
    using unload_done [of "sk_url plain_env" ?s3 0 UnloadRejected] by (simp add: unload_answered_def keep)
  have 5: "?st ?s4 twice_rejected"
    using unload_done [of "sk_url plain_env" ?s4 0 UnloadRejected]
    by (simp add: unload_answered_def twice_rejected_def keep)
  from 1 2 3 4 5 show ?thesis by (meson converse_rtranclp_into_rtranclp r_into_rtranclp)
qed

lemma events_are_conserved_witness:
  "map qe_ref (tr_queue twice_rejected) = [1, 0]
    \<and> mset (map qe_ref (tr_queue twice_rejected)) = mset [0..<tr_refs twice_rejected]"
  using events_are_conserved [OF twice_rejected_reachable]
  by (simp add: twice_rejected_def no_transport_def plain_queued_def)

end
