(* ===== verification/RepoPaths.thy ===== *)
theory RepoPaths
  imports Prelude
begin

text \<open>
  Which files a fix may write (\<open>repo-paths.ts\<close>): resolution of cited paths inside the clone, the
  authorisation of a write, its lexical counterpart for the remote sandbox, and the paths that a
  unified diff writes. The file system is the operating system's: \<open>fs\<close> gives the real path of a
  name, the kind of entry at a real path, and whether a name is occupied. The operations of the
  standard library's \<open>posix\<close> paths are written out.
\<close>

section \<open>posix paths\<close>

definition slash :: char where "slash = CHR ''/''"

fun norm_parts :: "bool \<Rightarrow> string list \<Rightarrow> string list \<Rightarrow> string list" where
  "norm_parts up st [] = rev st"
| "norm_parts up st (p # ps) =
     (if p = [] \<or> p = ''.'' then norm_parts up st ps
      else if p = ''..''
      then (case st of
              [] \<Rightarrow> norm_parts up (if up then [''..''] else []) ps
            | s # ss \<Rightarrow> if s = ''..'' then norm_parts up (''..'' # st) ps else norm_parts up ss ps)
      else norm_parts up (p # st) ps)"

definition is_absolute :: "string \<Rightarrow> bool" where
  "is_absolute p = starts_with p ''/''"

definition normalize :: "string \<Rightarrow> string" where
  "normalize p =
     (if p = [] then ''.''
      else let abs = is_absolute p;
               trailing = ends_with p ''/'';
               body = join ''/'' (norm_parts (\<not> abs) [] (split_on slash p));
               tail = (if trailing then ''/'' else [])
           in if abs then ''/'' @ (if body = [] then [] else body @ tail)
              else if body = [] then ''.'' @ tail else body @ tail)"

definition path_join :: "string \<Rightarrow> string \<Rightarrow> string" where
  "path_join a b = normalize (if a = [] then b else if b = [] then a else a @ ''/'' @ b)"

definition strip_slashes :: "string \<Rightarrow> string" where
  "strip_slashes s = rev (dropWhile (\<lambda>c. c = slash) (rev s))"

definition basename :: "string \<Rightarrow> string" where
  "basename p = rev (takeWhile (\<lambda>c. c \<noteq> slash) (rev (strip_slashes p)))"

definition dirname :: "string \<Rightarrow> string" where
  "dirname p =
     (if p = [] then ''.''
      else let s = strip_slashes p;
               d = rev (dropWhile (\<lambda>c. c \<noteq> slash) (rev s))
           in if s = [] then ''/''
              else if d = [] then ''.''
              else let e = rev (drop 1 (rev d))
                in if e = [] then ''/'' else if e = ''/'' then ''//'' else e)"

section \<open>Resolution inside the clone\<close>

datatype entry_kind = RegularFile | Directory | OtherEntry

record fs =
  fs_realpath :: "string \<Rightarrow> string option"
  fs_stat :: "string \<Rightarrow> entry_kind option"
  fs_occupied :: "string \<Rightarrow> bool"

definition relative_to :: "string \<Rightarrow> string \<Rightarrow> string" where
  "relative_to base target = (if target = base then [] else drop (length base + 1) target)"

definition resolve_inside_repo_if :: "fs \<Rightarrow> string \<Rightarrow> string \<Rightarrow> (entry_kind \<Rightarrow> bool) \<Rightarrow> string option" where
  "resolve_inside_repo_if f repo cited accept =
     (case fs_realpath f repo of
        None \<Rightarrow> None
      | Some base \<Rightarrow>
          (case fs_realpath f (path_join base cited) of
             None \<Rightarrow> None
           | Some target \<Rightarrow>
               if target \<noteq> base \<and> \<not> starts_with target (base @ ''/'') then None
               else (case fs_stat f target of
                       None \<Rightarrow> None
                     | Some k \<Rightarrow> if accept k then Some (relative_to base target) else None)))"

definition resolve_inside_repo :: "fs \<Rightarrow> string \<Rightarrow> string \<Rightarrow> string option" where
  "resolve_inside_repo f repo cited = resolve_inside_repo_if f repo cited (\<lambda>k. k = RegularFile)"

definition resolve_dir_inside_repo :: "fs \<Rightarrow> string \<Rightarrow> string \<Rightarrow> string option" where
  "resolve_dir_inside_repo f repo cited = resolve_inside_repo_if f repo cited (\<lambda>k. k = Directory)"

datatype write_error = WriteOutsideRepo string

definition assert_writable :: "fs \<Rightarrow> string \<Rightarrow> string \<Rightarrow> write_error + string" where
  "assert_writable f repo cited =
     (case resolve_inside_repo f repo cited of
        Some existing \<Rightarrow> Inr existing
      | None \<Rightarrow>
          if fs_occupied f (path_join repo cited) then Inl (WriteOutsideRepo cited)
          else let parent = dirname cited; name = basename cited
               in if name = [] \<or> name = ''.'' \<or> name = ''..'' then Inl (WriteOutsideRepo cited)
                  else (case resolve_dir_inside_repo f repo parent of
                          None \<Rightarrow> Inl (WriteOutsideRepo cited)
                        | Some base \<Rightarrow> Inr (if base = [] then name else base @ ''/'' @ name)))"

section \<open>Paths in the sandbox\<close>

definition sandbox_root :: "string \<Rightarrow> string" where
  "sandbox_root dir = strip_slashes (normalize dir)"

definition assert_writable_sandbox_path :: "string \<Rightarrow> string \<Rightarrow> write_error + string" where
  "assert_writable_sandbox_path repo_root cited =
     (let trimmed = trim cited; dir = sandbox_root repo_root
      in if trimmed = [] then Inl (WriteOutsideRepo cited)
         else if dir = [] \<or> \<not> is_absolute dir then Inl (WriteOutsideRepo cited)
         else let absolute = (if is_absolute trimmed then trimmed else path_join dir trimmed);
                  normalized = normalize absolute
              in if \<not> starts_with normalized (dir @ ''/'') then Inl (WriteOutsideRepo cited)
                 else if drop (length dir + 1) normalized = [] then Inl (WriteOutsideRepo cited)
                 else Inr normalized)"

section \<open>The targets of a diff\<close>

text \<open>
  The four anchored expressions match in one way only, so each is a scanner:
  a hunk header \<open>@@ -N[,N] +N[,N] @@\<close>, a file header, an extended header, and a mode line.
\<close>

definition digit_run :: "string \<Rightarrow> (string \<times> string) option" where
  "digit_run s = (let d = takeWhile is_digit s in if d = [] then None else Some (d, dropWhile is_digit s))"

text \<open>\<open>\d+(?:,(\d+))?\<close>: the count, one when it is left out, and the rest.\<close>

definition hunk_range :: "string \<Rightarrow> (nat \<times> string) option" where
  "hunk_range s =
     (case digit_run s of
        None \<Rightarrow> None
      | Some (_, r) \<Rightarrow>
          (case r of
             c # r' \<Rightarrow>
               if c = CHR '',''
               then (case digit_run r' of None \<Rightarrow> Some (1, r) | Some (d, r2) \<Rightarrow> Some (nat_of_digits d, r2))
               else Some (1, r)
           | [] \<Rightarrow> Some (1, r)))"

definition hunk_start :: "string \<Rightarrow> (nat \<times> nat) option" where
  "hunk_start l =
     (if \<not> starts_with l ''@@ -'' then None
      else case hunk_range (drop 4 l) of
        None \<Rightarrow> None
      | Some (a, r) \<Rightarrow>
          if \<not> starts_with r '' +'' then None
          else case hunk_range (drop 2 r) of
            None \<Rightarrow> None
          | Some (b, r2) \<Rightarrow> if starts_with r2 '' @@'' then Some (a, b) else None)"

text \<open>\<open>\s+(\S+)\<close> at the start: the first word after at least one space, and the rest.\<close>

definition spaced_word :: "string \<Rightarrow> (string \<times> string) option" where
  "spaced_word s =
     (let r = dropWhile is_space s; w = takeWhile (\<lambda>c. \<not> is_space c) r
      in if takeWhile is_space s = [] \<or> w = [] then None else Some (w, dropWhile (\<lambda>c. \<not> is_space c) r))"

definition file_header :: "string \<Rightarrow> string option" where
  "file_header l =
     (if starts_with l ''+++'' \<or> starts_with l ''---'' then map_option fst (spaced_word (drop 3 l)) else None)"

definition extended_header :: "string \<Rightarrow> string option" where
  "extended_header l =
     (let verb = (if starts_with l ''rename'' then Some (drop 6 l)
                  else if starts_with l ''copy'' then Some (drop 4 l) else None)
      in case Option.bind verb spaced_word of
           None \<Rightarrow> None
         | Some (side, r) \<Rightarrow>
             if side \<noteq> ''from'' \<and> side \<noteq> ''to'' then None
             else (case spaced_word r of
                     Some (w, rest) \<Rightarrow> if rest = [] then Some w else None
                   | None \<Rightarrow> None))"

text \<open>A mode line: \<open>Some True\<close> for a file that is created or deleted.\<close>

definition word_char :: "char \<Rightarrow> bool" where
  "word_char c = (let n = of_char c :: nat in
     (48 \<le> n \<and> n \<le> 57) \<or> (65 \<le> n \<and> n \<le> 90) \<or> n = 95 \<or> (97 \<le> n \<and> n \<le> 122))"

definition then_edge :: "string \<Rightarrow> string \<Rightarrow> bool" where
  "then_edge l w =
     (starts_with l w \<and> (case drop (length w) l of [] \<Rightarrow> True | c # _ \<Rightarrow> \<not> word_char c))"

definition mode_line :: "string \<Rightarrow> bool option" where
  "mode_line l =
     (if then_edge l ''deleted file mode'' \<or> then_edge l ''new file mode'' then Some True
      else if then_edge l ''old mode'' \<or> then_edge l ''new mode'' then Some False else None)"

definition has_side_prefix :: "string \<Rightarrow> bool" where
  "has_side_prefix p = ((starts_with p ''a/'' \<or> starts_with p ''b/'') \<and> 2 < length p)"

text \<open>The scan: lines left, lines of the old and the new side still due, targets so far.\<close>

fun scan_diff :: "string list \<Rightarrow> int \<Rightarrow> int \<Rightarrow> string list \<Rightarrow> string list option" where
  "scan_diff [] o' n out = (if 0 < o' \<or> 0 < n then None else Some out)"
| "scan_diff (l # ls) o' n out =
     (if 0 < o' \<or> 0 < n
      then (if starts_with l [CHR 0x5C] then scan_diff ls o' n out
            else let o2 = (if starts_with l ''+'' then o' else o' - 1);
                     n2 = (if starts_with l ''-'' then n else n - 1)
                 in if o2 < 0 \<or> n2 < 0 then None else scan_diff ls o2 n2 out)
      else case hunk_start l of
        Some (a, b) \<Rightarrow> scan_diff ls (int a) (int b) out
      | None \<Rightarrow>
          (case file_header l of
             Some p \<Rightarrow>
               if p = ''/dev/null'' then scan_diff ls o' n out
               else if \<not> has_side_prefix p then None
               else scan_diff ls o' n (out @ [drop 2 p])
           | None \<Rightarrow>
               (case extended_header l of
                  Some p \<Rightarrow> scan_diff ls o' n (out @ [p])
                | None \<Rightarrow>
                    (case mode_line l of
                       Some False \<Rightarrow> None
                     | _ \<Rightarrow> scan_diff ls o' n out))))"

definition diff_targets :: "string \<Rightarrow> string list" where
  "diff_targets d =
     (case scan_diff (split_on (CHR 0x0A) d) 0 0 [] of None \<Rightarrow> [] | Some out \<Rightarrow> dedup out)"


section \<open>Components of a path\<close>

definition components :: "string \<Rightarrow> string list" where
  "components p = filter (\<lambda>c. c \<noteq> []) (split_on slash p)"

definition plain_part :: "string \<Rightarrow> bool" where
  "plain_part c = (c \<noteq> [] \<and> slash \<notin> set c)"

definition clean_part :: "string \<Rightarrow> bool" where
  "clean_part c = (plain_part c \<and> c \<noteq> ''.'' \<and> c \<noteq> ''..'')"

lemma split_on_append: "split_on c (a @ c # b) = split_on c a @ split_on c b"
proof (induction a)
  case Nil
  then show ?case by simp
next
  case (Cons x a)
  obtain w ws where w: "split_on c a = w # ws" by (cases "split_on c a") auto
  show ?case
  proof (cases "x = c")
    case True
    with Cons show ?thesis by simp
  next
    case False
    with Cons w show ?thesis by simp
  qed
qed

lemma split_on_plain: "c \<notin> set s \<Longrightarrow> split_on c s = [s]"
  by (induction s) auto

lemma components_append: "components (a @ slash # b) = components a @ components b"
  by (simp add: components_def split_on_append)

lemma components_Nil [simp]: "components [] = []"
  by (simp add: components_def)

lemma components_slash [simp]: "components [slash] = []" "components (slash # b) = components b"
  using components_append [of "[]"] by (simp_all add: components_def)

lemma components_plain: "plain_part c \<Longrightarrow> components c = [c]"
  by (simp add: components_def plain_part_def split_on_plain)

lemma components_join: "list_all plain_part cs \<Longrightarrow> components (join ''/'' cs) = cs"
proof (induction "''/'' :: string" cs rule: join.induct)
  case 1
  then show ?case by simp
next
  case (2 w)
  then show ?case by (simp add: components_plain)
next
  case (3 w v vs)
  then show ?case
    using components_append [of w "join ''/'' (v # vs)"] by (simp add: components_plain slash_def)
qed

text \<open>The parts of a normalised absolute path are clean.\<close>

lemma norm_parts_clean:
  "list_all clean_part st \<Longrightarrow> list_all (\<lambda>p. slash \<notin> set p) ps \<Longrightarrow> list_all clean_part (norm_parts False st ps)"
proof (induction ps arbitrary: st)
  case Nil
  then show ?case by (simp add: list_all_iff)
next
  case (Cons p ps)
  then show ?case by (cases st) (auto simp: clean_part_def plain_part_def)
qed

lemma split_on_slashless: "list_all (\<lambda>p. slash \<notin> set p) (split_on slash s)"
  using split_on_no_sep [of _ slash s] by (auto simp: list_all_iff)

definition absolute_of :: "string list \<Rightarrow> string" where
  "absolute_of cs = ''/'' @ join ''/'' cs"

lemma components_absolute: "list_all plain_part cs \<Longrightarrow> components (absolute_of cs) = cs"
  using components_join [of cs] by (simp add: absolute_of_def slash_def [symmetric])

lemma clean_plain: "list_all clean_part cs \<Longrightarrow> list_all plain_part cs"
  by (auto simp: list_all_iff clean_part_def)

lemma join_Nil_iff: "list_all plain_part cs \<Longrightarrow> join ''/'' cs = [] \<longleftrightarrow> cs = []"
  by (induction "''/'' :: string" cs rule: join.induct) (simp_all add: plain_part_def)

text \<open>A normalised absolute path is its clean components, with at most one slash at the end.\<close>

lemma normalize_absolute:
  assumes "is_absolute p"
  shows "\<exists>cs. list_all clean_part cs \<and>
    (normalize p = absolute_of cs \<or> (cs \<noteq> [] \<and> normalize p = absolute_of cs @ ''/''))"
proof -
  let ?cs = "norm_parts False [] (split_on slash p)"
  have c: "list_all clean_part ?cs" by (rule norm_parts_clean) (simp_all add: split_on_slashless)
  have "p \<noteq> []" using assms by (auto simp: is_absolute_def starts_with_def)
  moreover have "join ''/'' ?cs = [] \<longleftrightarrow> ?cs = []" by (rule join_Nil_iff [OF clean_plain [OF c]])
  ultimately show ?thesis
    using assms c by (intro exI [of _ ?cs]) (auto simp: normalize_def absolute_of_def Let_def)
qed

lemma strip_slashes_absolute:
  assumes "list_all clean_part cs" "cs \<noteq> []"
  shows "strip_slashes (absolute_of cs) = absolute_of cs \<and> strip_slashes (absolute_of cs @ ''/'') = absolute_of cs"
proof -
  have "last (absolute_of cs) \<noteq> slash \<and> absolute_of cs \<noteq> []"
    using assms
  proof (induction cs rule: rev_induct)
    case Nil
    then show ?case by simp
  next
    case (snoc c cs)
    have l: "last (join ''/'' (ds @ [c])) = last c \<and> join ''/'' (ds @ [c]) \<noteq> []" for ds
    proof -
      have "c \<noteq> []" using snoc.prems(1) by (simp add: clean_part_def plain_part_def)
      then show ?thesis by (induction "''/'' :: string" ds rule: join.induct) auto
    qed
    have "c \<noteq> []" "slash \<notin> set c" using snoc.prems(1) by (simp_all add: clean_part_def plain_part_def)
    then have "last c \<noteq> slash" by (metis last_in_set)
    with l show ?case by (simp add: absolute_of_def)
  qed
  then obtain xs x where "absolute_of cs = xs @ [x]" "x \<noteq> slash"
    by (cases "absolute_of cs" rule: rev_cases) auto
  then have "dropWhile (\<lambda>c. c = slash) (rev (absolute_of cs)) = rev (absolute_of cs)"
    by simp
  then show ?thesis by (simp add: strip_slashes_def slash_def)
qed

lemma strip_slashes_root: "strip_slashes (absolute_of []) = []"
  by (simp add: strip_slashes_def absolute_of_def slash_def)

text \<open>The root of the clone: clean components, and no slash at the end.\<close>

lemma sandbox_root_absolute:
  assumes "is_absolute (sandbox_root r)"
  shows "\<exists>cs. cs \<noteq> [] \<and> list_all clean_part cs \<and> sandbox_root r = absolute_of cs"
proof -
  have ne: "sandbox_root r \<noteq> []" using assms by (auto simp: is_absolute_def starts_with_def)
  have "is_absolute r"
  proof (rule ccontr)
    assume a: "\<not> is_absolute r"
    let ?cs = "norm_parts True [] (split_on slash r)"
    have plain: "list_all plain_part st \<Longrightarrow> list_all (\<lambda>p. slash \<notin> set p) ps \<Longrightarrow>
        list_all plain_part (norm_parts True st ps)" for st ps
    proof (induction ps arbitrary: st)
      case Nil
      then show ?case by (simp add: list_all_iff)
    next
      case (Cons p ps)
      then show ?case by (cases st) (auto simp: plain_part_def slash_def)
    qed
    have p: "list_all plain_part ?cs" by (rule plain) (simp_all add: split_on_slashless)
    have "hd (normalize r) \<noteq> slash"
    proof (cases "r = [] \<or> join ''/'' ?cs = []")
      case True
      then show ?thesis using a by (auto simp: normalize_def slash_def Let_def)
    next
      case False
      then have "normalize r = join ''/'' ?cs @ (if ends_with r ''/'' then ''/'' else [])"
        using a by (simp add: normalize_def Let_def)
      moreover obtain c rest where "?cs = c # rest" using False by (cases ?cs) auto
      moreover have "hd (join ''/'' (c # rest)) \<noteq> slash" if "list_all plain_part (c # rest)" for c rest
      proof -
        have "c \<noteq> []" "slash \<notin> set c" using that by (simp_all add: plain_part_def)
        then have "hd c \<noteq> slash" by (cases c) auto
        with \<open>c \<noteq> []\<close> show ?thesis by (cases rest) simp_all
      qed
      ultimately show ?thesis using False p by (metis hd_append2)
    qed
    moreover have "hd (strip_slashes s) = hd s \<or> strip_slashes s = []" for s
      unfolding strip_slashes_def
      by (metis append_is_Nil_conv hd_append2 rev_append rev_rev_ident takeWhile_dropWhile_id rev_is_Nil_conv)
    ultimately show False
      using assms ne unfolding sandbox_root_def is_absolute_def starts_with_def slash_def
      by (metis hd_take length_greater_0_conv list.sel(1) One_nat_def length_Cons list.size(3) zero_less_one)
  qed
  then obtain cs where cs: "list_all clean_part cs"
    "normalize r = absolute_of cs \<or> (cs \<noteq> [] \<and> normalize r = absolute_of cs @ ''/'')"
    using normalize_absolute by blast
  have "cs \<noteq> []" using cs ne strip_slashes_root by (auto simp: sandbox_root_def)
  with cs strip_slashes_absolute [OF cs(1)] show ?thesis by (auto simp: sandbox_root_def)
qed

section \<open>No write leaves the clone\<close>

lemma absolute_normalize: "is_absolute p \<Longrightarrow> is_absolute (normalize p)"
  using normalize_absolute [of p] by (auto simp: absolute_of_def is_absolute_def starts_with_iff)

lemma join_append:
  "as \<noteq> [] \<Longrightarrow> bs \<noteq> [] \<Longrightarrow> join s (as @ bs) = join s as @ s @ join s bs"
  by (induction s as rule: join.induct) (cases bs, auto)+

lemma sandbox_path_is_confined:
  assumes "assert_writable_sandbox_path repo cited = Inr p"
  shows "\<exists>rest. rest \<noteq> [] \<and> list_all clean_part rest
    \<and> components p = components (sandbox_root repo) @ rest
    \<and> p \<in> {sandbox_root repo @ ''/'' @ join ''/'' rest, sandbox_root repo @ ''/'' @ join ''/'' rest @ ''/''}"
proof -
  let ?dir = "sandbox_root repo"
  define q where "q = (if is_absolute (trim cited) then trim cited else path_join ?dir (trim cited))"
  have p: "p = normalize q" "is_absolute ?dir" "starts_with p (?dir @ ''/'')"
      "drop (length ?dir + 1) p \<noteq> []" and ne: "trim cited \<noteq> []" "?dir \<noteq> []"
    using assms unfolding assert_writable_sandbox_path_def Let_def q_def
    by (simp_all split: if_splits)
  note q = q_def
  obtain ds where ds: "ds \<noteq> []" "list_all clean_part ds" "?dir = absolute_of ds"
    using sandbox_root_absolute [OF p(2)] by blast
  obtain r where r: "p = ?dir @ ''/'' @ r" "r \<noteq> []"
    using p(3,4) by (auto simp: starts_with_iff)
  have "is_absolute q"
    using q ne absolute_normalize [of "?dir @ ''/'' @ trim cited"] p(2)
    by (auto simp: path_join_def is_absolute_def starts_with_iff split: if_splits)
  then obtain cs where cs: "list_all clean_part cs"
      "p = absolute_of cs \<or> (cs \<noteq> [] \<and> p = absolute_of cs @ ''/'')"
    using normalize_absolute p(1) by blast
  have comp: "components p = cs"
    using cs components_absolute [OF clean_plain [OF cs(1)]] components_append [of "absolute_of cs" "[]"]
    by (auto simp: slash_def)
  have "components p = ds @ components r"
    using components_append [of ?dir r] components_absolute [OF clean_plain [OF ds(2)]]
    by (simp add: r(1) ds(3) slash_def)
  then have split: "cs = ds @ components r" using comp by simp
  have "components r \<noteq> []"
  proof
    assume "components r = []"
    then have "cs = ds" using split by simp
    then show False using cs(2) r ds(3) by auto
  qed
  moreover have "list_all clean_part (components r)" using cs(1) split by simp
  moreover have "absolute_of cs = ?dir @ ''/'' @ join ''/'' (components r)"
    using join_append [OF ds(1) \<open>components r \<noteq> []\<close>] by (simp add: absolute_of_def ds(3) split)
  ultimately show ?thesis
    using cs(2) comp split components_absolute [OF clean_plain [OF ds(2)]]
    by (intro exI [of _ "components r"]) (auto simp: ds(3))
qed

end
