(* ===== verification/PatchTargets.thy ===== *)
theory PatchTargets
  imports RepoPaths
begin

text \<open>
  The reference for \<open>diffTargets\<close>: a patch as data, the text that git prints for it, and the paths
  it writes. The scan of the printed text finds exactly these paths, whatever the lines of the
  hunks hold.
\<close>

section \<open>A patch and its text\<close>

datatype body_line = Context string | Removed string | Added string | NoNewline

record hunk =
  hk_old_start :: nat
  hk_new_start :: nat
  hk_heading :: string
  hk_body :: "body_line list"

datatype file_change =
    Modify string string "hunk list"
  | Create string string "hunk list"
  | Delete string string "hunk list"
  | Rename string string string "hunk list"

fun body_text :: "body_line \<Rightarrow> string" where
  "body_text (Context s) = '' '' @ s"
| "body_text (Removed s) = ''-'' @ s"
| "body_text (Added s) = ''+'' @ s"
| "body_text NoNewline = CHR 0x5C # '' No newline at end of file''"

fun on_old :: "body_line \<Rightarrow> bool" where
  "on_old (Context _) = True"
| "on_old (Removed _) = True"
| "on_old _ = False"

fun on_new :: "body_line \<Rightarrow> bool" where
  "on_new (Context _) = True"
| "on_new (Added _) = True"
| "on_new _ = False"

fun line_content :: "body_line \<Rightarrow> string" where
  "line_content (Context s) = s"
| "line_content (Removed s) = s"
| "line_content (Added s) = s"
| "line_content NoNewline = []"

definition range_text :: "nat \<Rightarrow> nat \<Rightarrow> string" where
  "range_text start n = digits start @ (if n = 1 then [] else '','' @ digits n)"

definition hunk_header :: "hunk \<Rightarrow> string" where
  "hunk_header h =
     ''@@ -'' @ range_text (hk_old_start h) (count_where on_old (hk_body h))
     @ '' +'' @ range_text (hk_new_start h) (count_where on_new (hk_body h))
     @ '' @@'' @ hk_heading h"

definition hunk_lines :: "hunk \<Rightarrow> string list" where
  "hunk_lines h =
     hunk_header h # map body_text (hk_body h)"

definition sides :: "string \<Rightarrow> string \<Rightarrow> hunk list \<Rightarrow> string list" where
  "sides a b hs =
     (if hs = [] then [] else [''--- '' @ a, ''+++ '' @ b] @ concat (map hunk_lines hs))"

fun change_lines :: "file_change \<Rightarrow> string list" where
  "change_lines (Modify p idx hs) =
     [''diff --git a/'' @ p @ '' b/'' @ p, ''index '' @ idx] @ sides (''a/'' @ p) (''b/'' @ p) hs"
| "change_lines (Create p idx hs) =
     [''diff --git a/'' @ p @ '' b/'' @ p, ''new file mode 100644'', ''index '' @ idx]
     @ sides ''/dev/null'' (''b/'' @ p) hs"
| "change_lines (Delete p idx hs) =
     [''diff --git a/'' @ p @ '' b/'' @ p, ''deleted file mode 100644'', ''index '' @ idx]
     @ sides (''a/'' @ p) ''/dev/null'' hs"
| "change_lines (Rename p q idx hs) =
     [''diff --git a/'' @ p @ '' b/'' @ q, ''similarity index '' @ idx, ''rename from '' @ p, ''rename to '' @ q]
     @ sides (''a/'' @ p) (''b/'' @ q) hs"

definition patch_text :: "file_change list \<Rightarrow> string" where
  "patch_text cs = concat (map (\<lambda>l. l @ [CHR 0x0A]) (concat (map change_lines cs)))"

fun written_paths :: "file_change \<Rightarrow> string list" where
  "written_paths (Modify p _ _) = [p]"
| "written_paths (Create p _ _) = [p]"
| "written_paths (Delete p _ _) = [p]"
| "written_paths (Rename p q _ _) = [p, q]"

text \<open>
  The changes the scan is meant for: paths without white space, which the scan reads to their end
  (git prints a path with spaces unquoted too), lines without a line break, and hunks in every
  change but a rename, so that no created or deleted file is empty. Copies, changes of a mode and
  binary files are not among the changes.
\<close>

definition bare_path :: "string \<Rightarrow> bool" where
  "bare_path p = (p \<noteq> [] \<and> list_all (\<lambda>c. \<not> is_space c) p)"

definition one_line :: "string \<Rightarrow> bool" where
  "one_line s = (CHR 0x0A \<notin> set s)"

definition plain_hunk :: "hunk \<Rightarrow> bool" where
  "plain_hunk h = (one_line (hk_heading h) \<and> list_all (\<lambda>l. one_line (line_content l)) (hk_body h))"

fun plain_change :: "file_change \<Rightarrow> bool" where
  "plain_change (Modify p idx hs) = (bare_path p \<and> one_line idx \<and> list_all plain_hunk hs \<and> hs \<noteq> [])"
| "plain_change (Create p idx hs) = (bare_path p \<and> one_line idx \<and> list_all plain_hunk hs \<and> hs \<noteq> [])"
| "plain_change (Delete p idx hs) = (bare_path p \<and> one_line idx \<and> list_all plain_hunk hs \<and> hs \<noteq> [])"
| "plain_change (Rename p q idx hs) =
     (bare_path p \<and> bare_path q \<and> one_line idx \<and> list_all plain_hunk hs)"

section \<open>Numbers\<close>

lemma nat_in_base_snoc:
  "nat_in_base b n (s @ [c]) =
     (case nat_in_base b n s of None \<Rightarrow> None | Some m \<Rightarrow> nat_in_base b m [c])"
  by (induction b n s rule: nat_in_base.induct) (auto split: option.splits)

declare digits.simps [simp del]

lemma digits_small: "n < 10 \<Longrightarrow> digits n = [char_of (48 + n)]"
  by (subst digits.simps) simp

lemma digits_large: "\<not> n < 10 \<Longrightarrow> digits n = digits (n div 10) @ [char_of (48 + n mod 10)]"
  by (subst digits.simps) simp

lemma is_digit_char_of: "(k :: nat) < 10 \<Longrightarrow> is_digit (char_of (48 + k))"
  by (simp add: is_digit_def)

lemma digit_value_char_of: "k < 10 \<Longrightarrow> digit_value (char_of (48 + k)) = Some k"
  by (simp add: digit_value_def)

lemma digits_digit: "list_all is_digit (digits n)"
proof (induction n rule: digits.induct)
  case (1 n)
  then show ?case
    by (cases "n < 10") (simp_all add: digits_small digits_large is_digit_char_of)
qed

lemma digits_nonempty [simp]: "digits n \<noteq> []"
  by (cases "n < 10") (simp_all add: digits_small digits_large)

lemma nat_of_digits_digits [simp]: "nat_of_digits (digits n) = n"
proof -
  have "nat_in_base 10 0 (digits n) = Some n"
  proof (induction n rule: digits.induct)
    case (1 n)
    show ?case
    proof (cases "n < 10")
      case True
      then show ?thesis by (simp add: digits_small digit_value_char_of)
    next
      case False
      with 1 show ?thesis
        by (simp add: digits_large nat_in_base_snoc digit_value_char_of)
    qed
  qed
  then show ?thesis by (simp add: nat_of_digits_def)
qed

section \<open>The scan of a printed patch\<close>

lemmas header_scanners = hunk_start_def file_header_def extended_header_def mode_line_def then_edge_def
  starts_with_def spaced_word_def

lemma digit_run_digits:
  "r = [] \<or> \<not> is_digit (hd r) \<Longrightarrow> digit_run (digits n @ r) = Some (digits n, r)"
proof -
  have all: "takeWhile is_digit (digits n) = digits n" "\<And>c. c \<in> set (digits n) \<Longrightarrow> is_digit c"
    using digits_digit [of n] by (simp_all add: list_all_iff)
  then show "r = [] \<or> \<not> is_digit (hd r) \<Longrightarrow> digit_run (digits n @ r) = Some (digits n, r)"
    by (cases r) (auto simp: digit_run_def Let_def all takeWhile_append2 dropWhile_append2)
qed

lemma hunk_range_text: "hunk_range (range_text a n @ CHR '' '' # r) = Some (n, CHR '' '' # r)"
proof -
  have "\<not> is_digit (CHR '','')" "\<not> is_digit (CHR '' '')" by (simp_all add: is_digit_def)
  then show ?thesis
    by (simp add: hunk_range_def range_text_def digit_run_digits)
qed

lemma hunk_start_header:
  "hunk_start (hunk_header h) = Some (count_where on_old (hk_body h), count_where on_new (hk_body h))"
  by (simp add: hunk_start_def hunk_header_def hunk_range_text starts_with_def)

lemma scan_body:
  "scan_diff (map body_text b @ ls) (int (count_where on_old b)) (int (count_where on_new b)) out
     = scan_diff ls 0 0 out"
proof (induction b)
  case Nil
  then show ?case by simp
next
  case (Cons l b)
  show ?case
  proof (cases l)
    case NoNewline
    have skip: "scan_diff (body_text NoNewline # ks) k n out = scan_diff ks k n out" if "k = 0 \<and> n = 0 \<or> 0 < k \<or> 0 < n"
      for ks k n using that by (auto simp: header_scanners)
    have "scan_diff (body_text NoNewline # map body_text b @ ls) (int (count_where on_old b))
        (int (count_where on_new b)) out = scan_diff ls 0 0 out"
      by (rule trans [OF skip Cons.IH]) linarith
    with NoNewline show ?thesis by (simp del: scan_diff.simps body_text.simps)
  qed (use Cons.IH in \<open>simp_all add: starts_with_def Let_def\<close>)
qed

lemma scan_hunks: "scan_diff (concat (map hunk_lines hs) @ ls) 0 0 out = scan_diff ls 0 0 out"
proof (induction hs)
  case Nil
  then show ?case by simp
next
  case (Cons h hs)
  then show ?case
    by (simp add: hunk_lines_def hunk_start_header scan_body)
qed

lemma spaced_word_bare: "bare_path p \<Longrightarrow> spaced_word (CHR '' '' # p) = Some (p, [])"
proof -
  assume "bare_path p"
  then have all: "takeWhile (\<lambda>c. \<not> is_space c) p = p" "dropWhile (\<lambda>c. \<not> is_space c) p = []"
      "dropWhile is_space p = p" "p \<noteq> []"
    by (auto simp: bare_path_def list_all_iff takeWhile_eq_all_conv dropWhile_eq_Nil_conv dropWhile_eq_self_iff)
  moreover have "is_space (CHR '' '')" by (simp add: is_space_def)
  ultimately show ?thesis by (simp add: spaced_word_def Let_def all)
qed

lemma scan_header:
  assumes "bare_path p"
  shows "scan_diff ((''--- a/'' @ p) # ls) 0 0 out = scan_diff ls 0 0 (out @ [p])"
    and "scan_diff ((''+++ b/'' @ p) # ls) 0 0 out = scan_diff ls 0 0 (out @ [p])"
    and "scan_diff ((''rename from '' @ p) # ls) 0 0 out = scan_diff ls 0 0 (out @ [p])"
    and "scan_diff ((''rename to '' @ p) # ls) 0 0 out = scan_diff ls 0 0 (out @ [p])"
proof -
  have "p \<noteq> []" using assms by (simp add: bare_path_def)
  have side: "bare_path (''a/'' @ p)" "bare_path (''b/'' @ p)"
    using assms by (simp_all add: bare_path_def is_space_def)
  show "scan_diff ((''--- a/'' @ p) # ls) 0 0 out = scan_diff ls 0 0 (out @ [p])"
    using spaced_word_bare [OF side(1)] \<open>p \<noteq> []\<close>
    by (simp add: hunk_start_def file_header_def starts_with_def has_side_prefix_def)
  show "scan_diff ((''+++ b/'' @ p) # ls) 0 0 out = scan_diff ls 0 0 (out @ [p])"
    using spaced_word_bare [OF side(2)] \<open>p \<noteq> []\<close>
    by (simp add: hunk_start_def file_header_def starts_with_def has_side_prefix_def)
  have verb: "spaced_word ('' from '' @ p) = Some (''from'', CHR '' '' # p)"
      "spaced_word ('' to '' @ p) = Some (''to'', CHR '' '' # p)"
    by (simp_all add: spaced_word_def is_space_def Let_def)
  show "scan_diff ((''rename from '' @ p) # ls) 0 0 out = scan_diff ls 0 0 (out @ [p])"
    using verb spaced_word_bare [OF assms]
    by (simp add: hunk_start_def file_header_def extended_header_def starts_with_def Let_def)
  show "scan_diff ((''rename to '' @ p) # ls) 0 0 out = scan_diff ls 0 0 (out @ [p])"
    using verb spaced_word_bare [OF assms]
    by (simp add: hunk_start_def file_header_def extended_header_def starts_with_def Let_def)
qed

lemma scan_skip:
  "scan_diff ((''--- /dev/null'') # ls) 0 0 out = scan_diff ls 0 0 out"
  "scan_diff ((''+++ /dev/null'') # ls) 0 0 out = scan_diff ls 0 0 out"
  "scan_diff (''new file mode 100644'' # ls) 0 0 out = scan_diff ls 0 0 out"
  "scan_diff (''deleted file mode 100644'' # ls) 0 0 out = scan_diff ls 0 0 out"
  "scan_diff ((''diff --git a/'' @ p) # ls) 0 0 out = scan_diff ls 0 0 out"
  "scan_diff ((''index '' @ p) # ls) 0 0 out = scan_diff ls 0 0 out"
  "scan_diff ((''similarity index '' @ p) # ls) 0 0 out = scan_diff ls 0 0 out"
  "scan_diff ([] # ls) 0 0 out = scan_diff ls 0 0 out"
  by (simp_all add: header_scanners is_space_def word_char_def Let_def)

text \<open>The paths that the scan meets, a changed file once on either side.\<close>

fun met_paths :: "file_change \<Rightarrow> string list" where
  "met_paths (Modify p _ _) = [p, p]"
| "met_paths (Create p _ _) = [p]"
| "met_paths (Delete p _ _) = [p]"
| "met_paths (Rename p q _ hs) = [p, q] @ (if hs = [] then [] else [p, q])"

lemma set_met_paths: "set (met_paths c) = set (written_paths c)"
  by (cases c) auto

lemma scan_change:
  assumes "plain_change c"
  shows "scan_diff (change_lines c @ ls) 0 0 out = scan_diff ls 0 0 (out @ met_paths c)"
proof (cases c)
  case (Modify p idx hs)
  with assms show ?thesis
    using scan_header [of p] by (simp add: sides_def scan_skip [simplified] scan_hunks)
next
  case (Create p idx hs)
  with assms show ?thesis
    using scan_header [of p] by (simp add: sides_def scan_skip [simplified] scan_hunks)
next
  case (Delete p idx hs)
  with assms show ?thesis
    using scan_header [of p] by (simp add: sides_def scan_skip [simplified] scan_hunks)
next
  case (Rename p q idx hs)
  with assms show ?thesis
    using scan_header [of p] scan_header [of q] by (simp add: sides_def scan_skip [simplified] scan_hunks)
qed

lemma scan_changes:
  "list_all plain_change cs \<Longrightarrow>
   scan_diff (concat (map change_lines cs) @ ls) 0 0 out = scan_diff ls 0 0 (out @ concat (map met_paths cs))"
  by (induction cs arbitrary: out) (simp_all add: scan_change)

section \<open>The printed lines\<close>

lemma split_on_unlines:
  "list_all one_line ls \<Longrightarrow> split_on (CHR 0x0A) (concat (map (\<lambda>l. l @ [CHR 0x0A]) ls)) = ls @ [[]]"
proof (induction ls)
  case Nil
  then show ?case by simp
next
  case (Cons l ls)
  then show ?case by (simp add: split_on_append split_on_plain one_line_def)
qed

lemma scan_end: "scan_diff [[]] 0 0 out = Some out"
  using scan_skip(8) [of "[]"] by simp

lemma one_line_append [simp]: "one_line (a @ b) \<longleftrightarrow> one_line a \<and> one_line b"
  by (simp add: one_line_def)

lemma one_line_Cons [simp]: "one_line (c # b) \<longleftrightarrow> c \<noteq> CHR 0x0A \<and> one_line b"
  by (auto simp: one_line_def)

lemma one_line_Nil [simp]: "one_line []"
  by (simp add: one_line_def)

lemma one_line_bare: "bare_path p \<Longrightarrow> one_line p"
  by (auto simp: bare_path_def one_line_def list_all_iff is_space_def)

lemma one_line_digits [simp]: "one_line (digits n)"
  using digits_digit [of n] by (auto simp: one_line_def list_all_iff is_digit_def)

lemma one_line_hunk: "plain_hunk h \<Longrightarrow> list_all one_line (hunk_lines h)"
proof -
  assume h: "plain_hunk h"
  have "one_line (body_text l) = one_line (line_content l)" for l
    by (cases l) (simp_all add: one_line_def)
  with h show ?thesis
    by (auto simp: plain_hunk_def hunk_lines_def hunk_header_def range_text_def list_all_iff)
qed

lemma one_line_sides:
  "one_line a \<Longrightarrow> one_line b \<Longrightarrow> list_all plain_hunk hs \<Longrightarrow> list_all one_line (sides a b hs)"
  using one_line_hunk by (auto simp: sides_def list_all_iff)

lemma one_line_change: "plain_change c \<Longrightarrow> list_all one_line (change_lines c)"
  by (cases c) (auto simp: one_line_bare intro!: one_line_sides)

lemma scan_patch:
  assumes "list_all plain_change cs"
  shows "diff_targets (patch_text cs) = dedup (concat (map met_paths cs))"
proof -
  have "list_all one_line (concat (map change_lines cs))"
    using assms one_line_change by (auto simp: list_all_iff)
  then have "split_on (CHR 0x0A) (patch_text cs) = concat (map change_lines cs) @ [[]]"
    by (simp add: patch_text_def split_on_unlines)
  then show ?thesis
    by (simp add: diff_targets_def scan_changes [OF assms] scan_end del: scan_diff.simps)
qed

text \<open>
  C31: For every patch made of changes to non-empty files with at least one hunk each
  (modifications, creations and deletions) and of renames, whose paths contain no white space
  and are printed as they are, diffTargets finds exactly the paths the patch writes, each once,
  whatever the lines of its hunks hold. Outside are paths with spaces, which git prints
  unquoted, quoted paths, created or deleted empty files, copies, changes of a mode and binary
  files.
\<close>

theorem patch_targets_are_exact:
  assumes "list_all plain_change cs"
  shows "set (diff_targets (patch_text cs)) = (\<Union>c \<in> set cs. set (written_paths c))
    \<and> distinct (diff_targets (patch_text cs))"
  by (simp add: scan_patch [OF assms] set_met_paths)

definition sql_hunk :: hunk where
  "sql_hunk = \<lparr>hk_old_start = 1, hk_new_start = 1, hk_heading = [],
     hk_body = [Context ''a'', Removed ''-- a/seed.sql'', NoNewline, Added ''++ b/seed.sql'', NoNewline]\<rparr>"

lemma patch_targets_are_exact_witness:
  "set (diff_targets (patch_text [Modify ''db.sql'' ''1..2'' [sql_hunk], Rename ''old.ts'' ''new.ts'' ''90%'' []]))
     = {''db.sql'', ''old.ts'', ''new.ts''}"
  by (subst conjunct1 [OF patch_targets_are_exact])
    (auto simp: bare_path_def one_line_def plain_hunk_def sql_hunk_def is_space_def)

text \<open>An empty file that a patch creates has no hunk, and the scan does not list it.\<close>

lemma empty_file_is_not_listed:
  assumes "plain_change c" "bare_path q" "one_line idx"
  shows "set (diff_targets (patch_text [c, Create q idx []])) = set (written_paths c)"
proof -
  let ?new = "[''diff --git a/'' @ q @ '' b/'' @ q, ''new file mode 100644'', ''index '' @ idx]"
  have "list_all one_line (change_lines c @ ?new)"
    using assms one_line_change by (simp add: one_line_bare)
  then have "split_on (CHR 0x0A) (patch_text [c, Create q idx []]) = change_lines c @ ?new @ [[]]"
    using split_on_unlines [of "change_lines c @ ?new"] by (simp add: patch_text_def sides_def)
  then show ?thesis
    using set_met_paths [of c]
    by (simp add: diff_targets_def scan_change [OF assms(1)] scan_end
      scan_skip [simplified append_Cons append_Nil] del: scan_diff.simps(2))
qed

text \<open>
  A path with a space is not quoted by git, which ends it with a tab in the lines of a file: the
  scan takes the part before the space, and it skips the lines of a rename.
\<close>

lemma spaced_path_is_cut:
  "diff_targets (concat (map (\<lambda>l. l @ [CHR 0x0A])
     [''diff --git a/docs/a b.ts b/docs/a b.ts'', ''index 1..2 100644'', ''--- a/docs/a b.ts'' @ [CHR 0x09],
      ''+++ b/docs/a b.ts'' @ [CHR 0x09], ''@@ -1 +1 @@'', ''-x'', ''+y'',
      ''diff --git a/old name b/new name'', ''similarity index 100%'', ''rename from old name'',
      ''rename to new name''])) = [''docs/a'']"
  by code_simp

end
