(* ===== verification/ToolBridge.thy ===== *)
theory ToolBridge
  imports PatchTargets Programs "HOL-Library.AList"
begin

text \<open>
  The tools of the fix agent (\<open>harness/tool-bridge.ts\<close>): what each reads, writes and runs in the
  sandbox, what it answers to the model, and which writes it refuses. The sandbox belongs to its
  provider: every operation on it is an effect, and \<open>sandbox_api\<close> gives the answer to an effect
  after the effects before it. Reads that are started together are performed in their order. The
  arguments of a call have the types of its input schema.
\<close>

section \<open>Text of the answers\<close>

definition repo_path :: string where "repo_path = ''/home/user/repo''"

definition max_output_chars :: nat where "max_output_chars = 12000"

definition line_feed :: string where "line_feed = [CHR 0x0A]"

definition cap :: "string \<Rightarrow> nat \<Rightarrow> string" where
  "cap out limit =
     (if length out \<le> limit then out
      else let half = limit div 2 - 50; omitted = length out - limit
           in if half = 0
              then take limit out @ line_feed @ line_feed @ ''... ['' @ digits omitted @ '' chars omitted]''
              else take half out @ line_feed @ line_feed @ ''... ['' @ digits omitted @ '' chars omitted] ...''
                   @ line_feed @ line_feed @ take_last half out)"

definition quote :: char where "quote = CHR 0x27"

fun escape_quotes :: "string \<Rightarrow> string" where
  "escape_quotes [] = []"
| "escape_quotes (c # s) = (if c = quote then [quote, CHR 0x5C, quote, quote] else [c]) @ escape_quotes s"

definition shell_escape :: "string \<Rightarrow> string" where
  "shell_escape s = [quote] @ escape_quotes s @ [quote]"

definition traversal_exclusions :: "string list" where
  "traversal_exclusions =
     [''node_modules'', ''.git'', ''dist'', ''build'', ''coverage'', ''.cache'', ''.venv'', ''venv'',
      ''site-packages'', ''.pytest_cache'', ''*.egg-info'']"

definition is_excluded_directory :: "string \<Rightarrow> bool" where
  "is_excluded_directory name =
     list_ex (\<lambda>e. if e = ''*.egg-info'' then ends_with name ''.egg-info'' else name = e) traversal_exclusions"

definition grep_exclusion_args :: "string list" where
  "grep_exclusion_args = map (\<lambda>e. ''--exclude-dir='' @ e) traversal_exclusions"

text \<open>The number of parts of \<open>split\<close>, and the first occurrence replaced.\<close>

fun count_parts :: "string \<Rightarrow> nat \<Rightarrow> string \<Rightarrow> nat" where
  "count_parts old k [] = 1"
| "count_parts old (Suc k) (c # s) = count_parts old k s"
| "count_parts old 0 (c # s) =
     (if starts_with (c # s) old then Suc (count_parts old (length old - 1) s) else count_parts old 0 s)"

definition split_length :: "string \<Rightarrow> string \<Rightarrow> nat" where
  "split_length s old = (if old = [] then length s else count_parts old 0 s)"

fun replace_first :: "string \<Rightarrow> string \<Rightarrow> string \<Rightarrow> string" where
  "replace_first old new [] = (if old = [] then new else [])"
| "replace_first old new (c # s) =
     (if starts_with (c # s) old then new @ drop (length old) (c # s) else c # replace_first old new s)"

section \<open>The sandbox\<close>

datatype effect = FileRead string | FileWrite string string | Command string real

record command_result =
  cr_exit :: int
  cr_stdout :: string
  cr_stderr :: string

record sandbox_api =
  pv_read :: "effect list \<Rightarrow> string \<Rightarrow> string + string"
  pv_write :: "effect list \<Rightarrow> string \<Rightarrow> string \<Rightarrow> string + unit"
  pv_run :: "effect list \<Rightarrow> string \<Rightarrow> real \<Rightarrow> string + command_result"
  pv_tag :: "effect list \<Rightarrow> string"

record declared_test =
  dt_files :: "string list"
  dt_identifier :: string
  dt_assertion :: string

record 'd bridge =
  br_effects :: "effect list"
  br_gave_up :: bool
  br_diagnosis :: "'d option"
  br_declared :: "declared_test option"
  br_impossible :: "string option"

text \<open>An operation may fault; a refused write is an answer.\<close>

datatype failure = Refused string | SandboxFault string

type_synonym ('d, 'a) act = "('d bridge, failure, 'a) prog"

definition perform :: "effect \<Rightarrow> (effect list \<Rightarrow> string + 'a) \<Rightarrow> ('d, 'a) act" where
  "perform e outcome b =
     ((case outcome (br_effects b) of Inl f \<Rightarrow> Inl (SandboxFault f) | Inr x \<Rightarrow> Inr x),
      b\<lparr>br_effects := br_effects b @ [e]\<rparr>)"

definition file_read :: "sandbox_api \<Rightarrow> string \<Rightarrow> ('d, string) act" where
  "file_read pv p = perform (FileRead p) (\<lambda>es. pv_read pv es p)"

definition file_write :: "sandbox_api \<Rightarrow> string \<Rightarrow> string \<Rightarrow> ('d, unit) act" where
  "file_write pv p c = perform (FileWrite p c) (\<lambda>es. pv_write pv es p c)"

definition run_command :: "sandbox_api \<Rightarrow> string \<Rightarrow> real \<Rightarrow> ('d, command_result) act" where
  "run_command pv cmd t = perform (Command cmd t) (\<lambda>es. pv_run pv es cmd t)"

definition refusal :: "string \<Rightarrow> string" where
  "refusal cited = ''Refusing to write '' @ cited @ '': it does not resolve inside the repository''"

definition gate :: "string \<Rightarrow> ('d, string) act" where
  "gate cited =
     (case assert_writable_sandbox_path repo_path cited of
        Inl (WriteOutsideRepo c) \<Rightarrow> throw (Refused c)
      | Inr p \<Rightarrow> pure p)"

fun gate_all :: "string list \<Rightarrow> ('d, unit) act" where
  "gate_all [] = pure ()"
| "gate_all (t # ts) = andthen (gate t) (\<lambda>_. gate_all ts)"

definition gated :: "('d, string) act \<Rightarrow> ('d, string) act" where
  "gated m b = (case m b of (Inl (Refused c), b') \<Rightarrow> (Inr (refusal c), b') | r \<Rightarrow> r)"

section \<open>The tools\<close>

definition read_tool :: "sandbox_api \<Rightarrow> string \<Rightarrow> ('d, string) act" where
  "read_tool pv p = andthen (file_read pv p) (\<lambda>c. pure (cap c max_output_chars))"

definition write_tool :: "sandbox_api \<Rightarrow> string \<Rightarrow> string \<Rightarrow> ('d, string) act" where
  "write_tool pv p content =
     gated (andthen (gate p) (\<lambda>target.
       andthen (file_write pv target content) (\<lambda>_. pure (''Written to '' @ target))))"

definition edit_content :: "sandbox_api \<Rightarrow> string \<Rightarrow> string \<Rightarrow> string \<Rightarrow> string \<Rightarrow> ('d, string) act" where
  "edit_content pv path old new content =
     (let occurrences = int (split_length content old) - 1
      in if occurrences = 0 then pure (''Error: old_string not found in '' @ path)
         else if 1 < occurrences
         then pure (''Error: old_string found '' @ digits (nat occurrences) @ '' times in '' @ path
                      @ ''. Must be unique.'')
         else andthen (file_write pv path (replace_first old new content))
                (\<lambda>_. pure (''Applied edit to '' @ path)))"

definition edit_tool :: "sandbox_api \<Rightarrow> string \<Rightarrow> string \<Rightarrow> string \<Rightarrow> ('d, string) act" where
  "edit_tool pv p old new =
     gated (andthen (gate p) (\<lambda>path. andthen (file_read pv path) (edit_content pv path old new)))"

definition int_text :: "int \<Rightarrow> string" where
  "int_text i = (if i < 0 then ''-'' else []) @ digits (nat \<bar>i\<bar>)"

definition bash_tool :: "sandbox_api \<Rightarrow> string \<Rightarrow> real option \<Rightarrow> ('d, string) act" where
  "bash_tool pv cmd timeout =
     andthen (run_command pv cmd (case timeout of None \<Rightarrow> 120000 | Some t \<Rightarrow> t)) (\<lambda>r.
       if cr_exit r = 0 then pure (cap (if cr_stdout r = [] then ''(no output)'' else cr_stdout r) max_output_chars)
       else pure (cap (join line_feed (filter (\<lambda>s. s \<noteq> [])
              [''Exit code: '' @ int_text (cr_exit r),
               if cr_stdout r = [] then [] else ''stdout:'' @ line_feed @ cr_stdout r,
               if cr_stderr r = [] then [] else ''stderr:'' @ line_feed @ cr_stderr r])) max_output_chars))"

fun read_each :: "sandbox_api \<Rightarrow> nat \<Rightarrow> string list \<Rightarrow> (string \<times> string) list
    \<Rightarrow> ('d, (string \<times> string) list) act" where
  "read_each pv limit [] acc b = (Inr acc, b)"
| "read_each pv limit (p # ps) acc b =
     (case file_read pv p b of
        (Inr c, b') \<Rightarrow> read_each pv limit ps (AList.update p (cap c limit) acc) b'
      | (Inl _, b') \<Rightarrow> read_each pv limit ps (AList.update p (''Error: could not read '' @ p) acc) b')"

text \<open>\<open>JSON.stringify(results, null, 2)\<close>.\<close>

definition json_object :: "(string \<times> string) list \<Rightarrow> string" where
  "json_object kvs =
     (if kvs = [] then ''{}''
      else ''{'' @ line_feed @ join ('','' @ line_feed) (map (\<lambda>(k, v). ''  '' @ json_quote k @ '': '' @ json_quote v) kvs)
           @ line_feed @ ''}'')"

definition read_many_tool :: "sandbox_api \<Rightarrow> string list \<Rightarrow> ('d, string) act" where
  "read_many_tool pv paths =
     andthen (read_each pv (max_output_chars div max (length paths) 1) paths [])
       (\<lambda>results. pure (cap (json_object results) max_output_chars))"

definition search_command :: "string \<Rightarrow> string option \<Rightarrow> string option \<Rightarrow> string" where
  "search_command pattern path incl =
     (let p = (case path of None \<Rightarrow> ''.'' | Some q \<Rightarrow> if q = [] then ''.'' else q);
          i = (case incl of None \<Rightarrow> [] | Some g \<Rightarrow> if g = [] then [] else ''--include='' @ shell_escape g);
          ex = join '' '' (map shell_escape grep_exclusion_args)
      in ''grep -rn '' @ ex @ '' '' @ i @ '' '' @ shell_escape pattern @ '' '' @ shell_escape p
         @ '' 2>/dev/null | head -100'')"

definition search_tool :: "sandbox_api \<Rightarrow> string \<Rightarrow> string option \<Rightarrow> string option \<Rightarrow> ('d, string) act" where
  "search_tool pv pattern path incl =
     andthen (run_command pv (search_command pattern path incl) 30000)
       (\<lambda>r. pure (cap (if cr_stdout r = [] then ''No matches found.'' else cr_stdout r) max_output_chars))"

definition no_targets :: string where
  "no_targets =
     ''Refusing to apply a patch whose target files could not be read from its headers. ''
     @ ''Use a unified diff with the standard a/ and b/ path prefixes (as `git diff` produces).''"

definition patch_command :: "string \<Rightarrow> string" where
  "patch_command file = ''cd /home/user/repo && patch -p1 < '' @ file"

definition apply_patch :: "sandbox_api \<Rightarrow> string \<Rightarrow> string \<Rightarrow> ('d, string) act" where
  "apply_patch pv file diff =
     andthen (file_write pv file diff) (\<lambda>_.
       andthen (run_command pv (patch_command file) 30000) (\<lambda>r.
         if cr_exit r = 0 then pure (''Patch applied successfully.'' @ line_feed @ cr_stdout r)
         else pure (''Patch failed (exit '' @ int_text (cr_exit r) @ ''):'' @ line_feed @ cr_stderr r
                      @ line_feed @ cr_stdout r)))"

definition patch_file :: "string \<Rightarrow> string" where
  "patch_file tag = ''/tmp/agent-'' @ tag @ ''.patch''"

definition patch_tool :: "sandbox_api \<Rightarrow> string \<Rightarrow> ('d, string) act" where
  "patch_tool pv diff =
     gated (let targets = diff_targets diff
            in if targets = [] then pure no_targets
               else andthen (gate_all targets)
                      (\<lambda>_ b. apply_patch pv (patch_file (pv_tag pv (br_effects b))) diff b))"

definition submit_diagnosis_tool :: "'d \<Rightarrow> ('d, string) act" where
  "submit_diagnosis_tool d b =
     (Inr ''Acknowledged. Ending agent loop.'', b\<lparr>br_gave_up := True, br_diagnosis := Some d\<rparr>)"

definition declare_failing_test_tool :: "string list \<Rightarrow> string \<Rightarrow> string \<Rightarrow> ('d, string) act" where
  "declare_failing_test_tool files ident assertion b =
     (if length files < 1 \<or> 5 < length files
      then (Inr (''Rejected: test_files must list between 1 and 5 repo-relative paths. ''
                 @ ''Re-declare with a bounded list.''), b)
      else (Inr ''Failing-test declaration recorded for harness verification.'',
            b\<lparr>br_declared := Some \<lparr>dt_files = files, dt_identifier = ident, dt_assertion = assertion\<rparr>,
              br_impossible := None\<rparr>))"

definition declare_impossible_tool :: "string \<Rightarrow> ('d, string) act" where
  "declare_impossible_tool reason b =
     (Inr ''Reproduction-impossible declaration recorded for harness verification.'',
      b\<lparr>br_declared := None, br_impossible := Some reason\<rparr>)"

datatype 'd tool_use =
    ReadCall string
  | WriteCall string string
  | EditCall string string string
  | BashCall string "real option"
  | ReadManyCall "string list"
  | SearchCall string "string option" "string option"
  | PatchCall string
  | SubmitCall 'd
  | DeclareTestCall "string list" string string
  | DeclareImpossibleCall string

fun execute :: "sandbox_api \<Rightarrow> 'd tool_use \<Rightarrow> ('d, string) act" where
  "execute pv (ReadCall p) = read_tool pv p"
| "execute pv (WriteCall p c) = write_tool pv p c"
| "execute pv (EditCall p old new) = edit_tool pv p old new"
| "execute pv (BashCall cmd t) = bash_tool pv cmd t"
| "execute pv (ReadManyCall ps) = read_many_tool pv ps"
| "execute pv (SearchCall s p i) = search_tool pv s p i"
| "execute pv (PatchCall d) = patch_tool pv d"
| "execute pv (SubmitCall d) = submit_diagnosis_tool d"
| "execute pv (DeclareTestCall fs i a) = declare_failing_test_tool fs i a"
| "execute pv (DeclareImpossibleCall r) = declare_impossible_tool r"

section \<open>What a tool does to the sandbox\<close>

definition confined :: "string \<Rightarrow> bool" where
  "confined p =
     (take 3 (components p) = [''home'', ''user'', ''repo''] \<and> drop 3 (components p) \<noteq> []
      \<and> list_all clean_part (drop 3 (components p)))"

definition target_confined :: "string \<Rightarrow> bool" where
  "target_confined t =
     (case assert_writable_sandbox_path repo_path t of Inl _ \<Rightarrow> False | Inr p \<Rightarrow> confined p)"

definition patch_confined :: "string \<Rightarrow> bool" where
  "patch_confined d = (diff_targets d \<noteq> [] \<and> list_all target_confined (diff_targets d))"

fun permitted :: "'d tool_use \<Rightarrow> effect \<Rightarrow> bool" where
  "permitted (ReadCall p) e = (e = FileRead p)"
| "permitted (ReadManyCall ps) e = (e \<in> FileRead ` set ps)"
| "permitted (WriteCall p c) e =
     (\<exists>q. assert_writable_sandbox_path repo_path p = Inr q \<and> confined q \<and> e = FileWrite q c)"
| "permitted (EditCall p old new) e =
     (\<exists>q. assert_writable_sandbox_path repo_path p = Inr q \<and> confined q
        \<and> (e = FileRead q \<or> (\<exists>c. e = FileWrite q (replace_first old new c))))"
| "permitted (BashCall cmd t) e = (\<exists>d. e = Command cmd d)"
| "permitted (SearchCall s p i) e = (e = Command (search_command s p i) 30000)"
| "permitted (PatchCall d) e =
     (patch_confined d \<and>
      (\<exists>tag. e \<in> {FileWrite (patch_file tag) d, Command (patch_command (patch_file tag)) 30000}))"
| "permitted _ e = False"

definition emits :: "(effect \<Rightarrow> bool) \<Rightarrow> ('d, 'a) act \<Rightarrow> bool" where
  "emits Q m \<longleftrightarrow> (\<forall>b. \<exists>es. br_effects (snd (m b)) = br_effects b @ es \<and> list_all Q es)"

named_theorems emits_rules \<open>the effects of an action from those of its parts\<close>

lemma emits_pure [emits_rules]: "emits Q (pure x)"
  by (simp add: emits_def pure_def)

lemma emits_throw [emits_rules]: "emits Q (throw e)"
  by (simp add: emits_def throw_def)

lemma emits_perform: "Q e \<Longrightarrow> emits Q (perform e outcome)"
  by (simp add: emits_def perform_def)

lemma emits_operations [emits_rules]:
  "Q (FileRead p) \<Longrightarrow> emits Q (file_read pv p)"
  "Q (FileWrite p c) \<Longrightarrow> emits Q (file_write pv p c)"
  "Q (Command cmd t) \<Longrightarrow> emits Q (run_command pv cmd t)"
  by (simp_all add: file_read_def file_write_def run_command_def emits_perform)

lemma emits_andthen [emits_rules]:
  assumes "emits Q m" "\<And>x. emits Q (f x)"
  shows "emits Q (andthen m f)"
  unfolding emits_def
proof
  fix b
  obtain es where es: "br_effects (snd (m b)) = br_effects b @ es" "list_all Q es"
    using assms(1) unfolding emits_def by blast
  show "\<exists>es. br_effects (snd (andthen m f b)) = br_effects b @ es \<and> list_all Q es"
  proof (cases "m b")
    case (Pair r b')
    show ?thesis
    proof (cases r)
      case (Inl e)
      with Pair es show ?thesis by (auto simp: andthen_def)
    next
      case (Inr x)
      obtain fs where "br_effects (snd (f x b')) = br_effects b' @ fs" "list_all Q fs"
        using assms(2) unfolding emits_def by blast
      with Pair Inr es show ?thesis
        by (intro exI [of _ "es @ fs"]) (simp add: andthen_def)
    qed
  qed
qed

lemma emits_gated [emits_rules]: "emits Q m \<Longrightarrow> emits Q (gated m)"
  unfolding emits_def
proof
  fix b
  assume "\<forall>b. \<exists>es. br_effects (snd (m b)) = br_effects b @ es \<and> list_all Q es"
  moreover have "snd (gated m b) = snd (m b)"
    by (simp add: gated_def split: prod.split sum.split failure.split)
  ultimately show "\<exists>es. br_effects (snd (gated m b)) = br_effects b @ es \<and> list_all Q es"
    by simp
qed

lemma emits_gate:
  assumes "\<And>q. assert_writable_sandbox_path repo_path p = Inr q \<Longrightarrow> emits Q (f q)"
  shows "emits Q (andthen (gate p) f)"
proof (cases "assert_writable_sandbox_path repo_path p")
  case (Inl e)
  then have "andthen (gate p) f = throw (Refused (case e of WriteOutsideRepo c \<Rightarrow> c))"
    by (cases e) (simp add: fun_eq_iff gate_def andthen_def throw_def)
  then show ?thesis by (simp add: emits_throw)
next
  case (Inr q)
  then have "andthen (gate p) f = f q" by (simp add: fun_eq_iff gate_def andthen_def pure_def)
  with assms Inr show ?thesis by simp
qed

lemma repo_path_root: "components (sandbox_root repo_path) = [''home'', ''user'', ''repo'']"
  by code_simp

lemma gate_confined: "assert_writable_sandbox_path repo_path p = Inr q \<Longrightarrow> confined q"
  using sandbox_path_is_confined [of repo_path p q] by (auto simp: confined_def repo_path_root)

lemma emits_gate_all:
  "(list_all target_confined ts \<Longrightarrow> emits Q (f ())) \<Longrightarrow> emits Q (andthen (gate_all ts) f)"
proof (induction ts)
  case Nil
  then show ?case by (simp add: andthen_pure)
next
  case (Cons t ts)
  have "emits Q (andthen (gate_all ts) f)" if "assert_writable_sandbox_path repo_path t = Inr q" for q
    using that Cons gate_confined [OF that] by (simp add: target_confined_def)
  then show ?case by (simp add: andthen_assoc emits_gate)
qed

lemma emits_read_each: "(\<And>p. p \<in> set ps \<Longrightarrow> Q (FileRead p)) \<Longrightarrow>
   emits Q (read_each pv limit ps acc :: ('d, (string \<times> string) list) act)"
proof (induction ps arbitrary: acc)
  case Nil
  then show ?case by (simp add: emits_def)
next
  case (Cons p ps)
  show ?case unfolding emits_def
  proof
    fix b :: "'d bridge"
    obtain r b' where r: "file_read pv p b = (r, b')" by fastforce
    then have b': "br_effects b' = br_effects b @ [FileRead p]"
      by (auto simp: file_read_def perform_def)
    obtain acc' where "read_each pv limit (p # ps) acc b = read_each pv limit ps acc' b'"
      using r by (cases r) auto
    moreover have "emits Q (read_each pv limit ps acc' :: ('d, _) act)" by (rule Cons.IH) (simp add: Cons.prems)
    then obtain es where "br_effects (snd (read_each pv limit ps acc' b')) = br_effects b' @ es" "list_all Q es"
      unfolding emits_def by blast
    ultimately show "\<exists>es. br_effects (snd (read_each pv limit (p # ps) acc b)) = br_effects b @ es \<and> list_all Q es"
      using b' Cons.prems by (intro exI [of _ "FileRead p # es"]) simp
  qed
qed

lemma emits_apply_patch:
  "patch_confined d \<Longrightarrow> emits (permitted (PatchCall d)) (apply_patch pv (patch_file tag) d)"
  unfolding apply_patch_def
  by (intro emits_andthen emits_operations) (auto simp: emits_pure)

lemma patch_effects: "emits (permitted (PatchCall d)) (patch_tool pv d)"
proof (cases "diff_targets d = []")
  case True
  then show ?thesis by (simp add: patch_tool_def emits_pure emits_gated)
next
  case False
  then have "list_all target_confined (diff_targets d) \<Longrightarrow> patch_confined d"
    by (simp add: patch_confined_def)
  then have "list_all target_confined (diff_targets d) \<Longrightarrow>
      emits (permitted (PatchCall d)) (\<lambda>b. apply_patch pv (patch_file (pv_tag pv (br_effects b))) d b)"
    using emits_apply_patch unfolding emits_def by blast
  with False show ?thesis
    unfolding patch_tool_def Let_def by (simp del: permitted.simps) (intro emits_gated emits_gate_all)
qed

lemma write_effects: "emits (permitted (WriteCall p c)) (write_tool pv p c)"
  unfolding write_tool_def
  by (intro emits_gated emits_gate emits_andthen emits_operations emits_pure) (auto intro: gate_confined)

lemma emits_edit_content:
  "Q (FileWrite q (replace_first old new c)) \<Longrightarrow> emits Q (edit_content pv q old new c)"
  by (simp add: edit_content_def Let_def emits_pure emits_andthen emits_operations)

lemma edit_effects: "emits (permitted (EditCall p old new)) (edit_tool pv p old new)"
  unfolding edit_tool_def
  by (intro emits_gated emits_gate emits_andthen emits_operations emits_edit_content)
    (auto intro: gate_confined)

lemma execute_effects: "emits (permitted c) (execute pv c)"
proof (cases c)
  case (ReadCall p)
  then show ?thesis by (simp add: read_tool_def emits_andthen emits_operations emits_pure)
next
  case (BashCall cmd t)
  have "emits (permitted c) (run_command pv cmd d)" for d
    using BashCall by (simp add: emits_operations)
  with BashCall show ?thesis
    unfolding BashCall execute.simps bash_tool_def by (intro emits_andthen) (simp_all add: emits_pure)
next
  case (ReadManyCall ps)
  then show ?thesis
    by (simp add: read_many_tool_def emits_andthen emits_read_each emits_pure)
next
  case (SearchCall s p i)
  then show ?thesis by (simp add: search_tool_def emits_andthen emits_operations emits_pure)
next
  case (SubmitCall d)
  then show ?thesis by (simp add: emits_def submit_diagnosis_tool_def)
next
  case (DeclareTestCall fs i a)
  then show ?thesis by (simp add: emits_def declare_failing_test_tool_def)
next
  case (DeclareImpossibleCall r)
  then show ?thesis by (simp add: emits_def declare_impossible_tool_def)
qed (simp_all add: write_effects edit_effects patch_effects del: permitted.simps)

text \<open>
  C32: Every effect of a tool of the fix agent on the sandbox is one its arguments permit: the
  write and edit tools write only at the path the gate returns, which lies below the clone and
  has no dot components; a patch is stored and applied only when it has targets and each target
  the scan lists is authorised to a path below the clone; the read tools only read the named
  files, and the search tool runs its one command; the bash tool, which is deliberately not
  gated, runs the one command it is given, whatever that writes; the remaining tools have no
  effect on the sandbox.
\<close>

theorem tool_effects_are_gated:
  "\<exists>es. br_effects (snd (execute pv c b)) = br_effects b @ es \<and> list_all (permitted c) es"
  using execute_effects [of c pv] by (simp add: emits_def)

section \<open>What the shell reads\<close>

text \<open>
  The words of a command line as the shell splits it: single quotes keep everything, a backslash
  outside them keeps one character, blanks separate words. A word comes with the mark whether a
  part of it was quoted; only a word without the mark can be an operator or a pattern.
\<close>

fun sh_words :: "bool \<Rightarrow> (string \<times> bool) option \<Rightarrow> string \<Rightarrow> (string \<times> bool) list option" where
  "sh_words True w [] = None"
| "sh_words False w [] = Some (case w of None \<Rightarrow> [] | Some x \<Rightarrow> [x])"
| "sh_words True w (c # s) =
     (if c = quote then sh_words False w s
      else sh_words True (map_option (\<lambda>(x, m). (x @ [c], m)) w) s)"
| "sh_words False w (c # s) =
     (let (x, m) = (case w of None \<Rightarrow> ([], False) | Some y \<Rightarrow> y)
      in if c = quote then sh_words True (Some (x, True)) s
         else if c = CHR '' ''
         then (case w of None \<Rightarrow> sh_words False None s | Some y \<Rightarrow> map_option ((#) y) (sh_words False None s))
         else if c = CHR 0x5C
         then (case s of [] \<Rightarrow> None | d # t \<Rightarrow> sh_words False (Some (x @ [d], True)) t)
         else sh_words False (Some (x @ [c], m)) s)"

definition bare_char :: "char \<Rightarrow> bool" where
  "bare_char c = (c \<noteq> quote \<and> c \<noteq> CHR '' '' \<and> c \<noteq> CHR 0x5C)"

lemma sh_words_bare:
  "list_all bare_char u \<Longrightarrow> sh_words False (Some (x, m)) (u @ r) = sh_words False (Some (x @ u, m)) r"
proof (induction u arbitrary: x)
  case Nil
  then show ?case by simp
next
  case (Cons c u)
  then have "c \<noteq> quote" "c \<noteq> CHR '' ''" "c \<noteq> CHR 0x5C" by (simp_all add: bare_char_def)
  with Cons show ?case by simp
qed

lemma sh_words_word:
  "list_all bare_char u \<Longrightarrow> u \<noteq> [] \<Longrightarrow>
   sh_words False None (u @ CHR '' '' # r) = map_option ((#) (u, False)) (sh_words False None r)"
proof (cases u)
  case (Cons c v)
  moreover assume "list_all bare_char u"
  ultimately show ?thesis
    using sh_words_bare [of v "[c]" False "CHR '' '' # r"] by (simp add: bare_char_def quote_def)
qed simp

lemma sh_words_escaped:
  "sh_words True (Some (x, True)) (escape_quotes s @ [quote] @ r) = sh_words False (Some (x @ s, True)) r"
proof (induction s arbitrary: x)
  case Nil
  then show ?case by simp
next
  case (Cons c s)
  have bs: "CHR 0x5C \<noteq> quote" "CHR 0x5C \<noteq> CHR '' ''" by (simp_all add: quote_def)
  show ?case
  proof (cases "c = quote")
    case True
    with Cons bs show ?thesis by simp
  next
    case False
    with Cons show ?thesis by simp
  qed
qed

lemma sh_words_shell_escape:
  "sh_words False None (shell_escape s @ r) = sh_words False (Some (s, True)) r"
  "sh_words False (Some (x, m)) (shell_escape s @ r) = sh_words False (Some (x @ s, True)) r"
  using sh_words_escaped [of "[]" s r] sh_words_escaped [of x s r] by (simp_all add: shell_escape_def)

lemma sh_words_blank:
  "sh_words False None (CHR '' '' # r) = sh_words False None r"
  "sh_words False (Some y) (CHR '' '' # r) = map_option ((#) y) (sh_words False None r)"
  by (simp_all add: quote_def split: prod.split)

lemma sh_words_escaped_words:
  "ws \<noteq> [] \<Longrightarrow> sh_words False None (join '' '' (map shell_escape ws) @ CHR '' '' # r)
     = map_option (\<lambda>t. map (\<lambda>w. (w, True)) ws @ t) (sh_words False None r)"
proof (induction ws)
  case Nil
  then show ?case by simp
next
  case (Cons w ws)
  have j: "join '' '' (map shell_escape (w # ws)) =
      (if ws = [] then shell_escape w else shell_escape w @ CHR '' '' # join '' '' (map shell_escape ws))"
    by (cases ws) simp_all
  show ?case
  proof (cases "ws = []")
    case True
    then show ?thesis unfolding j by (simp add: sh_words_shell_escape sh_words_blank del: sh_words.simps)
  next
    case False
    with Cons.IH show ?thesis
      unfolding j by (simp add: sh_words_shell_escape sh_words_blank option.map_comp comp_def del: sh_words.simps)
  qed
qed

definition include_words :: "string option \<Rightarrow> (string \<times> bool) list" where
  "include_words incl = (case truthy_str incl of None \<Rightarrow> [] | Some g \<Rightarrow> [(''--include='' @ g, True)])"

text \<open>
  C33: The shell reads the command of the search tool back as the intended words: the
  exclusions, the optional file pattern, the search pattern and the path each arrive as one
  quoted word, unchanged, whatever characters they contain, and nothing else is added.
\<close>

theorem search_command_is_exact:
  "sh_words False None (search_command pattern path incl) = Some
     ([(''grep'', False), (''-rn'', False)] @ map (\<lambda>a. (a, True)) grep_exclusion_args @ include_words incl
      @ [(pattern, True), (case truthy_str path of None \<Rightarrow> ''.'' | Some p \<Rightarrow> p, True),
         (''2>/dev/null'', False), (''|'', False), (''head'', False), (''-100'', False)])"
proof -
  let ?p = "case truthy_str path of None \<Rightarrow> ''.'' | Some p \<Rightarrow> p"
  let ?i = "case truthy_str incl of None \<Rightarrow> [] | Some g \<Rightarrow> ''--include='' @ shell_escape g"
  let ?last = "shell_escape pattern @ CHR '' '' # shell_escape ?p @ CHR '' '' # ''2>/dev/null | head -100''"
  have cmd: "search_command pattern path incl = ''grep'' @ CHR '' '' # ''-rn'' @ CHR '' '' #
      join '' '' (map shell_escape grep_exclusion_args) @ CHR '' '' # ?i @ CHR '' '' # ?last"
    by (simp add: search_command_def Let_def truthy_str_def split: option.split)
  have tail: "sh_words False None ''2>/dev/null | head -100'' =
      Some [(''2>/dev/null'', False), (''|'', False), (''head'', False), (''-100'', False)]"
    by code_simp
  have fin: "sh_words False None ?last =
      Some [(pattern, True), (?p, True), (''2>/dev/null'', False), (''|'', False), (''head'', False), (''-100'', False)]"
    using tail by (simp only: sh_words_shell_escape sh_words_blank) simp
  have inc: "sh_words False None (?i @ CHR '' '' # r) = map_option (\<lambda>t. include_words incl @ t) (sh_words False None r)" for r
  proof (cases "truthy_str incl")
    case None
    then show ?thesis by (simp add: include_words_def sh_words_blank option.map_ident del: sh_words.simps)
  next
    case (Some g)
    have "list_all bare_char ''-include=''" by (simp add: bare_char_def quote_def)
    from sh_words_bare [OF this, of "''-''" False "shell_escape g @ CHR '' '' # r"]
    have "sh_words False None (''--include='' @ shell_escape g @ CHR '' '' # r) =
        map_option ((#) (''--include='' @ g, True)) (sh_words False None r)"
      by (simp add: sh_words_shell_escape sh_words_blank quote_def)
    with Some show ?thesis by (simp add: include_words_def del: sh_words.simps)
  qed
  have words: "list_all bare_char ''grep''" "list_all bare_char ''-rn''" "grep_exclusion_args \<noteq> []"
    by (simp_all add: bare_char_def quote_def grep_exclusion_args_def traversal_exclusions_def)
  show ?thesis
    unfolding cmd sh_words_word [OF words(1) list.distinct(2)] sh_words_word [OF words(2) list.distinct(2)]
      sh_words_escaped_words [OF words(3)] inc fin
    by simp
qed

end
