(* ===== verification/Adjudication.thy ===== *)
theory Adjudication
  imports JsRegex
begin

text \<open>
  What an investigation submits (\<open>shared/src/diagnosis.ts\<close>) and how the submission is read from the
  JSON that the model gives (\<open>diagnose-schema.ts\<close>): the narrowing of every field, the cap on the
  number of candidates, and the locations that old callers send as decorated text. The last part
  shows that what is read is well formed.
\<close>

section \<open>The submission\<close>

datatype hypothesis_kind = LocalCode | ExternalSystem | DataOrInput | Configuration | UnknownKind

datatype strength = Conclusive | Suggestive | Insufficient

record grounded_quote =
  gq_path :: string
  gq_line :: nat
  gq_quote :: string

record candidate_cause =
  cd_statement :: string
  cd_kind :: hypothesis_kind
  cd_id :: "string option"
  cd_citation :: "grounded_quote option"

record rejected_cause =
  rj_id :: string
  rj_evidence :: string
  rj_citation :: grounded_quote

record cause_location =
  cl_path :: string
  cl_line :: "nat option"
  cl_note :: "string option"

record evidence_citation =
  ec_path :: string
  ec_detail :: string
  ec_symptom_link :: string

record adjudication =
  ad_best_supported :: string
  ad_evidence_check :: string
  ad_candidates :: "candidate_cause list"
  ad_rejected :: "string list"
  ad_rejected_candidates :: "rejected_cause list option"
  ad_strength :: strength
  ad_cause_kind :: hypothesis_kind
  ad_cause_locations :: "cause_location list"
  ad_reasoning :: string
  ad_why_chain :: "string list"
  ad_reproduction_steps :: "string list"
  ad_evidence :: "evidence_citation list option"
  ad_agent_task_brief :: "string option"

fun kind_text :: "hypothesis_kind \<Rightarrow> string" where
  "kind_text LocalCode = ''local_code''"
| "kind_text ExternalSystem = ''external_system''"
| "kind_text DataOrInput = ''data_or_input''"
| "kind_text Configuration = ''configuration''"
| "kind_text UnknownKind = ''unknown''"

fun strength_text :: "strength \<Rightarrow> string" where
  "strength_text Conclusive = ''conclusive''"
| "strength_text Suggestive = ''suggestive''"
| "strength_text Insufficient = ''insufficient''"

section \<open>Reading the fields\<close>

type_synonym fields = "(string \<times> json) list"

definition member :: "fields \<Rightarrow> string \<Rightarrow> json option" where
  "member r k = map_of r k"

text \<open>The string of a field; a value of another type counts as absent.\<close>

definition text_of :: "json option \<Rightarrow> string option" where
  "text_of v = (case v of Some (JStr s) \<Rightarrow> Some s | _ \<Rightarrow> None)"

definition trimmed_text :: "json option \<Rightarrow> string" where
  "trimmed_text v = (case text_of v of None \<Rightarrow> [] | Some s \<Rightarrow> trim s)"

definition items_of :: "json option \<Rightarrow> json list option" where
  "items_of v = (case v of Some (JArr xs) \<Rightarrow> Some xs | _ \<Rightarrow> None)"

definition fields_of :: "json \<Rightarrow> fields option" where
  "fields_of v = (case v of JObj r \<Rightarrow> Some r | _ \<Rightarrow> None)"

definition all_kinds :: "hypothesis_kind list" where
  "all_kinds = [LocalCode, ExternalSystem, DataOrInput, Configuration, UnknownKind]"

definition read_kind :: "json option \<Rightarrow> hypothesis_kind" where
  "read_kind v =
     (case text_of v of
        None \<Rightarrow> UnknownKind
      | Some s \<Rightarrow> (case find (\<lambda>k. kind_text k = s) all_kinds of None \<Rightarrow> UnknownKind | Some k \<Rightarrow> k))"

definition read_strength :: "json option \<Rightarrow> strength" where
  "read_strength v =
     (case text_of v of
        None \<Rightarrow> Insufficient
      | Some s \<Rightarrow> (case find (\<lambda>k. strength_text k = s) [Conclusive, Suggestive, Insufficient] of
                    None \<Rightarrow> Insufficient | Some k \<Rightarrow> k))"

definition read_strings :: "json option \<Rightarrow> string list" where
  "read_strings v =
     (case items_of v of
        None \<Rightarrow> []
      | Some xs \<Rightarrow> filter (\<lambda>s. s \<noteq> []) (map (\<lambda>x. trimmed_text (Some x)) xs))"

definition quote_min_chars :: nat where "quote_min_chars = 8"

definition quote_max_chars :: nat where "quote_max_chars = 300"

text \<open>A positive number cut to its integer part; zero stands for no line.\<close>

definition line_of :: "json option \<Rightarrow> nat" where
  "line_of v = (case v of Some (JNum r) \<Rightarrow> if 0 < r then nat \<lfloor>r\<rfloor> else 0 | _ \<Rightarrow> 0)"

definition read_quote :: "json option \<Rightarrow> grounded_quote option" where
  "read_quote v =
     (case Option.bind v fields_of of
        None \<Rightarrow> None
      | Some r \<Rightarrow>
          let path = trimmed_text (member r ''path''); line = line_of (member r ''line'');
              quote = trimmed_text (member r ''quote'')
          in if path = [] \<or> line = 0 \<or> length quote < quote_min_chars \<or> quote_max_chars < length quote then None
             else Some \<lparr>gq_path = path, gq_line = line, gq_quote = quote\<rparr>)"

definition is_candidate_id :: "string \<Rightarrow> bool" where
  "is_candidate_id s =
     (case s of
        c # d # ds \<Rightarrow> c = CHR ''c'' \<and> is_digit d \<and> d \<noteq> CHR ''0'' \<and> list_all is_digit ds
      | _ \<Rightarrow> False)"

definition read_candidate_id :: "json option \<Rightarrow> string option" where
  "read_candidate_id v = (case text_of v of None \<Rightarrow> None | Some s \<Rightarrow> if is_candidate_id s then Some s else None)"

section \<open>Candidates and rejections\<close>

definition max_candidates :: nat where "max_candidates = 16"

definition read_candidate :: "json \<Rightarrow> candidate_cause option" where
  "read_candidate entry =
     (case fields_of entry of
        None \<Rightarrow> None
      | Some r \<Rightarrow>
          let statement = trimmed_text (member r ''statement'')
          in if statement = [] then None
             else Some \<lparr>cd_statement = statement, cd_kind = read_kind (member r ''kind''),
                        cd_id = read_candidate_id (member r ''id''), cd_citation = read_quote (member r ''citation'')\<rparr>)"

fun read_candidates_into :: "json list \<Rightarrow> candidate_cause list \<Rightarrow> candidate_cause list" where
  "read_candidates_into [] out = out"
| "read_candidates_into (e # es) out =
     (if max_candidates \<le> length out then out
      else read_candidates_into es (case read_candidate e of None \<Rightarrow> out | Some c \<Rightarrow> out @ [c]))"

definition read_candidates :: "json option \<Rightarrow> candidate_cause list" where
  "read_candidates v = (case items_of v of None \<Rightarrow> [] | Some es \<Rightarrow> read_candidates_into es [])"

definition no_quote :: grounded_quote where
  "no_quote = \<lparr>gq_path = [], gq_line = 1, gq_quote = []\<rparr>"

definition malformed_rejection :: rejected_cause where
  "malformed_rejection = \<lparr>rj_id = [], rj_evidence = [], rj_citation = no_quote\<rparr>"

definition is_malformed_rejection :: "rejected_cause \<Rightarrow> bool" where
  "is_malformed_rejection r = (rj_id r = [] \<or> gq_path (rj_citation r) = [] \<or> gq_quote (rj_citation r) = [])"

definition read_rejection :: "json \<Rightarrow> rejected_cause" where
  "read_rejection entry =
     (case fields_of entry of
        None \<Rightarrow> malformed_rejection
      | Some r \<Rightarrow>
          \<lparr>rj_id = (case read_candidate_id (member r ''id'') of None \<Rightarrow> [] | Some i \<Rightarrow> i),
           rj_evidence = trimmed_text (member r ''evidence''),
           rj_citation = (case read_quote (member r ''citation'') of None \<Rightarrow> no_quote | Some q \<Rightarrow> q)\<rparr>)"

definition read_rejections :: "fields \<Rightarrow> rejected_cause list option" where
  "read_rejections raw =
     (case member raw ''rejected_candidates'' of
        None \<Rightarrow> None
      | Some v \<Rightarrow> (case items_of (Some v) of
                     None \<Rightarrow> Some [malformed_rejection]
                   | Some es \<Rightarrow> Some (map read_rejection (take max_candidates es))))"

section \<open>Locations\<close>

definition any_but_line :: "char \<Rightarrow> bool" where
  "any_but_line c = (c \<noteq> CHR 0x0A \<and> c \<noteq> CHR 0x0D)"

definition quote_mark :: "char \<Rightarrow> bool" where
  "quote_mark c = (c \<in> {CHR 0x60, CHR 0x27, CHR 0x22})"

text \<open>\<open>/^(.*?)\s*(?:\((.+)\)|[-]\s+(.+))\s*$/\<close>; the two longer dashes are no code units of the model.\<close>

definition noted_re :: regex where
  "noted_re = cats
     [AtStart, Cap 1 (lazy_star (Cls any_but_line)), star (Cls is_space),
      Alt (cats [lit ''('', Cap 2 (plus (Cls any_but_line)), lit '')''])
          (cats [lit ''-'', plus (Cls is_space), Cap 3 (plus (Cls any_but_line))]),
      star (Cls is_space), AtEnd]"

text \<open>\<open>/^(.*?):(\d+)(?:[-:]\d+)?$/\<close>\<close>

definition located_re :: regex where
  "located_re = cats
     [AtStart, Cap 1 (lazy_star (Cls any_but_line)), lit '':'', Cap 2 (plus (Cls is_digit)),
      opt (cats [Cls (one_of ''-:''), plus (Cls is_digit)]), AtEnd]"

definition strip_marks :: "string \<Rightarrow> string" where
  "strip_marks s = rev (dropWhile quote_mark (rev (dropWhile quote_mark s)))"

definition location_from_string :: "string \<Rightarrow> cause_location option" where
  "location_from_string raw =
     (let trimmed = strip_marks (trim raw)
      in if trimmed = [] then None
         else let noted = js_match noted_re trimmed;
                  head = trim (case noted of None \<Rightarrow> trimmed | Some m \<Rightarrow> group_text m 1);
                  note = (case noted of None \<Rightarrow> None
                          | Some m \<Rightarrow> (case group m 2 of None \<Rightarrow> group m 3 | Some w \<Rightarrow> Some w));
                  located = js_match located_re head;
                  path = trim (case located of None \<Rightarrow> head | Some m \<Rightarrow> group_text m 1);
                  line = (case located of None \<Rightarrow> None
                          | Some m \<Rightarrow> truthy_num (Some (nat_of_digits (group_text m 2))))
              in if path = [] then None
                 else Some \<lparr>cl_path = path, cl_line = line, cl_note = map_option trim (truthy_str note)\<rparr>)"

definition read_location :: "json \<Rightarrow> cause_location option" where
  "read_location entry =
     (case entry of
        JStr s \<Rightarrow> location_from_string s
      | JObj r \<Rightarrow>
          (case text_of (member r ''path'') of
             None \<Rightarrow> None
           | Some p \<Rightarrow>
               (case location_from_string p of
                  None \<Rightarrow> None
                | Some l \<Rightarrow>
                    let line = (case member r ''line'' of
                                  Some (JNum n) \<Rightarrow> if 0 < n then Some (nat \<lfloor>n\<rfloor>) else cl_line l
                                | _ \<Rightarrow> cl_line l);
                        note = (if trimmed_text (member r ''note'') \<noteq> [] then Some (trimmed_text (member r ''note''))
                                else truthy_str (cl_note l))
                    in Some \<lparr>cl_path = cl_path l, cl_line = line, cl_note = note\<rparr>))
      | _ \<Rightarrow> None)"

definition location_key :: "cause_location \<Rightarrow> string" where
  "location_key l = cl_path l @ '':'' @ (case cl_line l of None \<Rightarrow> [] | Some n \<Rightarrow> digits n)"

fun first_by :: "('a \<Rightarrow> 'k) \<Rightarrow> 'k list \<Rightarrow> 'a list \<Rightarrow> 'a list" where
  "first_by key seen [] = []"
| "first_by key seen (x # xs) =
     (if key x \<in> set seen then first_by key seen xs else x # first_by key (key x # seen) xs)"

definition read_locations :: "json option \<Rightarrow> cause_location list" where
  "read_locations v =
     (let raw = (case v of
                   Some (JArr xs) \<Rightarrow> xs
                 | None \<Rightarrow> [] | Some JUndefined \<Rightarrow> [] | Some JNull \<Rightarrow> []
                 | Some x \<Rightarrow> [x])
      in first_by location_key [] (List.map_filter read_location raw))"

section \<open>Evidence and the whole submission\<close>

definition read_citation :: "json \<Rightarrow> evidence_citation option" where
  "read_citation entry =
     (case fields_of entry of
        None \<Rightarrow> None
      | Some r \<Rightarrow>
          let path = trimmed_text (member r ''path''); detail = trimmed_text (member r ''detail'');
              link = trimmed_text (member r ''symptomLink'')
          in if path \<noteq> [] \<and> detail \<noteq> [] \<and> link \<noteq> []
             then Some \<lparr>ec_path = path, ec_detail = detail, ec_symptom_link = link\<rparr> else None)"

definition read_evidence :: "json option \<Rightarrow> evidence_citation list option" where
  "read_evidence v = map_option (List.map_filter read_citation) (items_of v)"

definition surviving :: "candidate_cause list \<Rightarrow> rejected_cause list \<Rightarrow> rejected_cause list" where
  "surviving cs rs = filter (\<lambda>r. rj_id r \<noteq> [] \<and> Some (rj_id r) \<in> set (map cd_id cs)) rs"

definition parse_adjudication :: "json \<Rightarrow> adjudication option" where
  "parse_adjudication v =
     (case fields_of v of
        None \<Rightarrow> None
      | Some raw \<Rightarrow>
          let best = trimmed_text (member raw ''best_supported'');
              cs = read_candidates (member raw ''candidates_considered'');
              truncated = (case items_of (member raw ''candidates_considered'') of
                             None \<Rightarrow> False | Some es \<Rightarrow> max_candidates < length es);
              rejections = read_rejections raw
          in if best = [] then None
             else Some
               \<lparr>ad_best_supported = best,
                ad_evidence_check = trimmed_text (member raw ''evidence_check''),
                ad_candidates = cs,
                ad_rejected = read_strings (member raw ''rejected''),
                ad_rejected_candidates = (if truncated then map_option (surviving cs) rejections else rejections),
                ad_strength = read_strength (member raw ''evidence_strength''),
                ad_cause_kind = read_kind (member raw ''cause_kind''),
                ad_cause_locations = read_locations (member raw ''cause_locations''),
                ad_reasoning = trimmed_text (member raw ''reasoning''),
                ad_why_chain = read_strings (member raw ''why_chain''),
                ad_reproduction_steps = read_strings (member raw ''reproduction_steps''),
                ad_evidence = read_evidence (member raw ''evidence''),
                ad_agent_task_brief = text_of (member raw ''agent_task_brief'')\<rparr>)"

section \<open>What is read is well formed\<close>

definition quote_ok :: "grounded_quote \<Rightarrow> bool" where
  "quote_ok q = (gq_path q \<noteq> [] \<and> 1 \<le> gq_line q \<and> length (gq_quote q) \<in> {quote_min_chars..quote_max_chars})"

definition candidate_ok :: "candidate_cause \<Rightarrow> bool" where
  "candidate_ok c =
     (cd_statement c \<noteq> [] \<and> pred_option is_candidate_id (cd_id c) \<and> pred_option quote_ok (cd_citation c))"

definition rejection_ok :: "rejected_cause \<Rightarrow> bool" where
  "rejection_ok r = (is_malformed_rejection r \<or> (is_candidate_id (rj_id r) \<and> quote_ok (rj_citation r)))"

lemma read_quote_ok: "pred_option quote_ok (read_quote v)"
  by (auto simp: read_quote_def quote_ok_def Let_def split: option.split)

lemma read_candidate_id_ok: "pred_option is_candidate_id (read_candidate_id v)"
  by (auto simp: read_candidate_id_def split: option.split)

lemma read_candidate_ok: "pred_option candidate_ok (read_candidate e)"
  using read_quote_ok read_candidate_id_ok
  by (auto simp: read_candidate_def candidate_ok_def Let_def split: option.split)

lemma read_candidates_into_ok:
  "list_all candidate_ok out \<Longrightarrow> length out \<le> max_candidates \<Longrightarrow>
   list_all candidate_ok (read_candidates_into es out) \<and> length (read_candidates_into es out) \<le> max_candidates"
proof (induction es arbitrary: out)
  case Nil
  then show ?case by simp
next
  case (Cons e es)
  then show ?case using read_candidate_ok [of e] by (cases "read_candidate e") auto
qed

lemma read_rejection_ok: "rejection_ok (read_rejection e)"
proof (cases "fields_of e")
  case None
  then show ?thesis by (simp add: read_rejection_def rejection_ok_def is_malformed_rejection_def malformed_rejection_def)
next
  case (Some r)
  show ?thesis
    using read_quote_ok [of "member r ''citation''"] read_candidate_id_ok [of "member r ''id''"]
    by (auto simp: read_rejection_def rejection_ok_def is_malformed_rejection_def no_quote_def Some
        split: option.split)
qed

lemma first_by_distinct: "distinct (map key (first_by key seen xs)) \<and> key ` set (first_by key seen xs) \<inter> set seen = {}"
proof (induction xs arbitrary: seen)
  case Nil
  then show ?case by simp
next
  case (Cons x xs)
  show ?case using Cons.IH [of seen] Cons.IH [of "key x # seen"] by auto
qed

lemma set_first_by: "set (first_by key seen xs) \<subseteq> set xs"
  by (induction xs arbitrary: seen) (auto split: if_splits)

lemma location_from_string_path: "location_from_string s = Some l \<Longrightarrow> cl_path l \<noteq> []"
  by (auto simp: location_from_string_def Let_def split: if_splits)

lemma read_location_path: "read_location e = Some l \<Longrightarrow> cl_path l \<noteq> []"
  using location_from_string_path
  by (auto simp: read_location_def Let_def split: json.splits option.splits)

definition adjudication_ok :: "adjudication \<Rightarrow> bool" where
  "adjudication_ok a =
     (ad_best_supported a \<noteq> []
      \<and> length (ad_candidates a) \<le> max_candidates \<and> list_all candidate_ok (ad_candidates a)
      \<and> pred_option (\<lambda>rs. length rs \<le> max_candidates \<and> list_all rejection_ok rs) (ad_rejected_candidates a)
      \<and> list_all (\<lambda>l. cl_path l \<noteq> []) (ad_cause_locations a)
      \<and> distinct (map location_key (ad_cause_locations a))
      \<and> pred_option (list_all (\<lambda>e. ec_path e \<noteq> [] \<and> ec_detail e \<noteq> [] \<and> ec_symptom_link e \<noteq> [])) (ad_evidence a))"

lemma read_rejections_ok:
  "pred_option (\<lambda>rs. length rs \<le> max_candidates \<and> list_all rejection_ok rs) (read_rejections raw)"
proof -
  have "rejection_ok malformed_rejection"
    by (simp add: rejection_ok_def is_malformed_rejection_def malformed_rejection_def)
  then show ?thesis
    using read_rejection_ok
    by (auto simp: read_rejections_def list_all_iff max_candidates_def split: option.split)
qed

lemma read_evidence_ok:
  "pred_option (list_all (\<lambda>e. ec_path e \<noteq> [] \<and> ec_detail e \<noteq> [] \<and> ec_symptom_link e \<noteq> [])) (read_evidence v)"
proof (cases "items_of v")
  case (Some es)
  then show ?thesis
    by (auto simp: read_evidence_def list_all_iff List.map_filter_def read_citation_def Let_def
        split: option.splits if_splits)
qed (simp add: read_evidence_def)

lemma parsed_adjudication_ok:
  assumes "parse_adjudication v = Some a"
  shows "adjudication_ok a"
proof -
  obtain raw where raw: "fields_of v = Some raw" "trimmed_text (member raw ''best_supported'') \<noteq> []"
    using assms by (auto simp: parse_adjudication_def Let_def split: option.splits if_splits)
  have cs: "list_all candidate_ok (read_candidates w) \<and> length (read_candidates w) \<le> max_candidates" for w
    using read_candidates_into_ok [of "[]"] by (simp add: read_candidates_def split: option.split)
  have rs: "pred_option (\<lambda>rs. length rs \<le> max_candidates \<and> list_all rejection_ok rs)
      (if t then map_option (surviving cs') (read_rejections raw) else read_rejections raw)" for t cs'
    using read_rejections_ok [of raw]
    by (auto simp: surviving_def list_all_iff option.pred_map pred_option_def
        intro: le_trans [OF length_filter_le])
  obtain t where e: "ad_best_supported a = trimmed_text (member raw ''best_supported'')"
      "ad_candidates a = read_candidates (member raw ''candidates_considered'')"
      "ad_cause_locations a = read_locations (member raw ''cause_locations'')"
      "ad_evidence a = read_evidence (member raw ''evidence'')"
      "ad_rejected_candidates a = (if t then map_option (surviving (read_candidates (member raw ''candidates_considered'')))
         (read_rejections raw) else read_rejections raw)"
    using assms raw by (auto simp: parse_adjudication_def Let_def)
  have locs: "list_all (\<lambda>l. cl_path l \<noteq> []) (read_locations w) \<and> distinct (map location_key (read_locations w))" for w
  proof -
    obtain es where "read_locations w = first_by location_key [] (List.map_filter read_location es)"
      by (simp add: read_locations_def Let_def)
    then show ?thesis
      using first_by_distinct [of location_key "[]" "List.map_filter read_location es"]
        set_first_by [of location_key "[]" "List.map_filter read_location es"] read_location_path
      by (auto simp: list_all_iff List.map_filter_def)
  qed
  show ?thesis
    unfolding adjudication_ok_def e
    by (intro conjI raw(2) conjunct1 [OF cs] conjunct2 [OF cs] rs conjunct1 [OF locs] conjunct2 [OF locs] read_evidence_ok)
qed

end
