(* ===== verification/Verdict.thy ===== *)
theory Verdict
  imports Adjudication
begin

text \<open>
  Whether a submission can be acted on: quotes that are checked against the text of a file
  (\<open>quote-at.ts\<close>), the rules of shape and grounding (\<open>verdict-validation.ts\<close>), and the outcome that
  is derived from the submission in code (\<open>classify.ts\<close>). \<open>resolve\<close> gives the canonical path of a
  cited one, \<open>quote_at\<close> says whether a quote is found near a line of a file.
\<close>

section \<open>Quotes\<close>

definition quote_window :: nat where "quote_window = 5"

text \<open>\<open>split(/\r?\n/)\<close>\<close>

fun split_lines :: "string \<Rightarrow> string list" where
  "split_lines [] = [[]]"
| "split_lines (c # s) =
     (if c = CHR 0x0A then [] # split_lines s
      else if c = CHR 0x0D \<and> starts_with s [CHR 0x0A] then split_lines s
      else (case split_lines s of [] \<Rightarrow> [[c]] | w # ws \<Rightarrow> (c # w) # ws))"

definition plain_lines :: "string \<Rightarrow> string list" where
  "plain_lines s = map trim_right (split_lines s)"

definition join_lines :: "string list \<Rightarrow> string" where
  "join_lines ls = join [CHR 0x0A] ls"

definition quote_within_window :: "string \<Rightarrow> nat \<Rightarrow> string \<Rightarrow> bool" where
  "quote_within_window file line quote =
     (let needle = join_lines (plain_lines (trim quote))
      in if needle = [] \<or> line < 1 then False
         else contains (join_lines (drop (line - 1 - quote_window) (take (line + quote_window) (plain_lines file)))) needle)"

section \<open>Rules of shape\<close>

datatype incomplete_code =
    LegacyShape | CandidateMissingId | DuplicateCandidateId | CandidateMissingCitation
  | RejectionMalformed | RejectionUnknownId | DuplicateRejectionId | EmptyRejectionEvidence
  | MissingRejectedCandidates | NoFilesRead | EmptyVerdict | FillerVerdict | NoCitations
  | MissingBrief | FillerBrief | CitationMalformed | CitationMissingLink | CitationUnresolvable | CitationNotRead

fun incomplete_text :: "incomplete_code \<Rightarrow> string" where
  "incomplete_text LegacyShape = ''legacy_shape''"
| "incomplete_text CandidateMissingId = ''candidate_missing_id''"
| "incomplete_text DuplicateCandidateId = ''duplicate_candidate_id''"
| "incomplete_text CandidateMissingCitation = ''candidate_missing_citation''"
| "incomplete_text RejectionMalformed = ''rejection_malformed''"
| "incomplete_text RejectionUnknownId = ''rejection_unknown_id''"
| "incomplete_text DuplicateRejectionId = ''duplicate_rejection_id''"
| "incomplete_text EmptyRejectionEvidence = ''empty_rejection_evidence''"
| "incomplete_text MissingRejectedCandidates = ''missing_rejected_candidates''"
| "incomplete_text NoFilesRead = ''no_files_read''"
| "incomplete_text EmptyVerdict = ''empty_verdict''"
| "incomplete_text FillerVerdict = ''filler_verdict''"
| "incomplete_text NoCitations = ''no_citations''"
| "incomplete_text MissingBrief = ''missing_brief''"
| "incomplete_text FillerBrief = ''filler_brief''"
| "incomplete_text CitationMalformed = ''citation_malformed''"
| "incomplete_text CitationMissingLink = ''citation_missing_link''"
| "incomplete_text CitationUnresolvable = ''citation_unresolvable''"
| "incomplete_text CitationNotRead = ''citation_not_read''"

datatype validation = Valid | Incomplete incomplete_code string

definition incomplete :: "incomplete_code \<Rightarrow> string \<Rightarrow> validation" where
  "incomplete code detail = Incomplete code (incomplete_text code @ '': '' @ detail)"

definition is_local :: "candidate_cause \<Rightarrow> bool" where
  "is_local c = (cd_kind c = LocalCode \<or> cd_kind c = Configuration)"

definition new_shape :: "adjudication \<Rightarrow> bool" where
  "new_shape a =
     (ad_rejected_candidates a \<noteq> None
      \<or> list_ex (\<lambda>c. cd_id c \<noteq> None \<or> cd_citation c \<noteq> None) (ad_candidates a))"

text \<open>The loops over the candidates, with the ids so far, and over the rejections.\<close>

fun check_candidates :: "candidate_cause list \<Rightarrow> string list \<Rightarrow> validation + string list" where
  "check_candidates [] ids = Inr ids"
| "check_candidates (c # cs) ids =
     (case cd_id c of
        None \<Rightarrow> Inl (incomplete CandidateMissingId (take 80 (cd_statement c)))
      | Some i \<Rightarrow>
          if i = [] \<or> \<not> is_candidate_id i then Inl (incomplete CandidateMissingId (take 80 (cd_statement c)))
          else if i \<in> set ids then Inl (incomplete DuplicateCandidateId i)
          else if is_local c \<and> cd_citation c = None then Inl (incomplete CandidateMissingCitation i)
          else check_candidates cs (i # ids))"

fun check_rejections :: "string list \<Rightarrow> rejected_cause list \<Rightarrow> string list \<Rightarrow> validation" where
  "check_rejections ids [] seen = Valid"
| "check_rejections ids (r # rs) seen =
     (if is_malformed_rejection r then incomplete RejectionMalformed ''entry with empty id or citation''
      else if rj_id r \<notin> set ids then incomplete RejectionUnknownId (rj_id r)
      else if rj_id r \<in> set seen then incomplete DuplicateRejectionId (rj_id r)
      else if trim (rj_evidence r) = [] then incomplete EmptyRejectionEvidence (rj_id r)
      else check_rejections ids rs (rj_id r # seen))"

definition validate_shape :: "bool \<Rightarrow> adjudication \<Rightarrow> validation" where
  "validate_shape require_structural a =
     (if \<not> new_shape a
      then (if require_structural
            then incomplete LegacyShape ''submission omitted rejected_candidates and candidate ids'' else Valid)
      else (case check_candidates (ad_candidates a) [] of
              Inl v \<Rightarrow> v
            | Inr ids \<Rightarrow>
                let rs = (case ad_rejected_candidates a of None \<Rightarrow> [] | Some rs \<Rightarrow> rs)
                in case check_rejections ids rs [] of
                     Incomplete c d \<Rightarrow> Incomplete c d
                   | Valid \<Rightarrow>
                       if ad_rejected_candidates a = None
                       then incomplete MissingRejectedCandidates
                              ''structural candidates require a rejected_candidates array''
                       else Valid))"

section \<open>Rules of grounding\<close>

definition filler_re :: regex where
  "filler_re = cats [AtStart, star (Cls is_space),
     alts [lit_i ''placeholder'', lit_i ''tbd'', lit_i ''to be determined''], WordEdge]"

definition is_filler :: "string \<Rightarrow> bool" where
  "is_filler s = js_test filler_re s"

record verdict_input =
  vi_cause_text :: string
  vi_claims_code_cause :: bool
  vi_evidence :: "evidence_citation list"
  vi_agent_task_brief :: "string option"
  vi_files_read :: "string list"

fun check_citations :: "(string \<Rightarrow> string option) \<Rightarrow> string list \<Rightarrow> evidence_citation list \<Rightarrow> validation" where
  "check_citations resolve reads [] = Valid"
| "check_citations resolve reads (e # es) =
     (let path = trim (ec_path e)
      in if path = [] then incomplete CitationMalformed ''citation path is empty''
         else if trim (ec_detail e) = [] \<or> trim (ec_symptom_link e) = []
         then incomplete CitationMissingLink (path @ '' must include detail and symptom link'')
         else (case resolve path of
                 None \<Rightarrow> incomplete CitationUnresolvable (path @ '' does not resolve to a repository file'')
               | Some r \<Rightarrow>
                   if r \<notin> set reads
                   then incomplete CitationNotRead (path @ '' was not read during the investigation'')
                   else check_citations resolve reads es))"

definition validate_verdict :: "verdict_input \<Rightarrow> (string \<Rightarrow> string option) \<Rightarrow> validation" where
  "validate_verdict v resolve =
     (let brief = truthy_str (vi_agent_task_brief v)
      in if length (vi_files_read v) < 1
         then incomplete NoFilesRead ''the investigation read no repository files''
         else if trim (vi_cause_text v) = [] then incomplete EmptyVerdict ''cause text is empty''
         else if is_filler (vi_cause_text v)
         then incomplete FillerVerdict ''cause text matches a placeholder pattern''
         else if vi_evidence v = [] then incomplete NoCitations ''the verdict contains no evidence citations''
         else if vi_claims_code_cause v \<and> (case brief of None \<Rightarrow> True | Some b \<Rightarrow> trim b = [])
         then incomplete MissingBrief ''a code cause requires an agent task brief''
         else if (case brief of None \<Rightarrow> False | Some b \<Rightarrow> is_filler b)
         then incomplete FillerBrief ''the agent task brief matches a placeholder pattern''
         else check_citations resolve (List.map_filter resolve (vi_files_read v)) (vi_evidence v))"

section \<open>The outcome\<close>

datatype outcome = CodeFix | NotActionable | NeedsMoreContext | IncompleteOutcome

datatype basis =
    NoAdjudication | InsufficientEvidence | UnplacedCause | CauseOutsideCodebase
  | UnrejectedLocalCandidates | UncitableLocalClaim | UnresolvableCitation | LocalDefect
  | InvalidVerdict | NoEvidence | FrictionClassify

datatype confidence = High | Medium | Low

datatype disposition = Rejected | Ungrounded | Live

record decision =
  de_outcome :: outcome
  de_reason :: string
  de_basis :: basis
  de_confidence :: confidence
  de_dispositions :: "(string \<times> disposition) list option"

fun confidence_for :: "strength \<Rightarrow> confidence" where
  "confidence_for Conclusive = High"
| "confidence_for Suggestive = Medium"
| "confidence_for Insufficient = Low"

definition decide :: "outcome \<Rightarrow> basis \<Rightarrow> string \<Rightarrow> confidence \<Rightarrow> decision" where
  "decide o' b r c = \<lparr>de_outcome = o', de_reason = r, de_basis = b, de_confidence = c, de_dispositions = None\<rparr>"

definition grounded ::
  "(string \<Rightarrow> string option) \<Rightarrow> (string \<Rightarrow> nat \<Rightarrow> string \<Rightarrow> bool) \<Rightarrow> grounded_quote option \<Rightarrow> bool" where
  "grounded resolve quote_at q =
     (case q of
        None \<Rightarrow> False
      | Some g \<Rightarrow> (case resolve (gq_path g) of
                     None \<Rightarrow> False | Some r \<Rightarrow> quote_at r (gq_line g) (gq_quote g)))"

definition valid_rejections ::
  "(grounded_quote option \<Rightarrow> bool) \<Rightarrow> rejected_cause list \<Rightarrow> string list" where
  "valid_rejections is_grounded rs =
     map rj_id (filter (\<lambda>r. trim (rj_evidence r) \<noteq> [] \<and> is_grounded (Some (rj_citation r))) rs)"

definition dispose :: "(grounded_quote option \<Rightarrow> bool) \<Rightarrow> string list \<Rightarrow> candidate_cause \<Rightarrow> string \<times> disposition" where
  "dispose is_grounded rejected c =
     ((case cd_id c of None \<Rightarrow> take 40 (cd_statement c) | Some i \<Rightarrow> i),
      (if \<not> is_grounded (cd_citation c) then Ungrounded
       else if (case cd_id c of None \<Rightarrow> False | Some i \<Rightarrow> i \<in> set rejected) then Rejected else Live))"

definition unrejected_reason :: "string list \<Rightarrow> string" where
  "unrejected_reason names =
     ''The investigation concluded the cause is external without rejecting '' @ join '', '' (map json_quote names)"

definition outside_reason :: "adjudication \<Rightarrow> string" where
  "outside_reason a =
     ''The cause is outside this codebase: ''
     @ (case ad_cause_locations a of [] \<Rightarrow> ad_best_supported a | l # _ \<Rightarrow> cl_path l)"

definition derive_external ::
  "adjudication \<Rightarrow> (string \<Rightarrow> string option) \<Rightarrow> (string \<Rightarrow> nat \<Rightarrow> string \<Rightarrow> bool) \<Rightarrow> decision" where
  "derive_external a resolve quote_at =
     (let locals = filter is_local (ad_candidates a)
      in case ad_rejected_candidates a of
           Some rs \<Rightarrow>
             let g = grounded resolve quote_at;
                 ds = map (dispose g (valid_rejections g rs)) locals;
                 live = filter (\<lambda>d. snd d = Live) ds
             in if live \<noteq> []
                then (decide NeedsMoreContext UnrejectedLocalCandidates (unrejected_reason (map fst live)) Low)
                       \<lparr>de_dispositions := Some ds\<rparr>
                else (decide NotActionable CauseOutsideCodebase (outside_reason a) (confidence_for (ad_strength a)))
                       \<lparr>de_dispositions := Some ds\<rparr>
         | None \<Rightarrow>
             let rejected_text = to_lower (join_lines (ad_rejected a));
                 unrejected = filter (\<lambda>c. \<not> contains rejected_text (to_lower (cd_statement c))) locals
             in if unrejected \<noteq> []
                then decide NeedsMoreContext UnrejectedLocalCandidates
                       (unrejected_reason (map cd_statement unrejected)) Low
                else decide NotActionable CauseOutsideCodebase (outside_reason a) (confidence_for (ad_strength a)))"

definition derive_outcome ::
  "adjudication option \<Rightarrow> (string \<Rightarrow> string option) \<Rightarrow> (string \<Rightarrow> nat \<Rightarrow> string \<Rightarrow> bool) \<Rightarrow> decision" where
  "derive_outcome adj resolve quote_at =
     (case adj of
        None \<Rightarrow> decide NeedsMoreContext NoAdjudication ''The investigation produced no adjudicated cause'' Low
      | Some a \<Rightarrow>
          if ad_strength a = Insufficient
          then decide NeedsMoreContext InsufficientEvidence
                 (''The evidence did not separate the candidates: '' @ ad_reasoning a) Low
          else if ad_cause_kind a = UnknownKind
          then decide NeedsMoreContext UnplacedCause
                 (''The adjudication did not place the cause: '' @ ad_reasoning a) Low
          else if ad_cause_kind a = ExternalSystem \<or> ad_cause_kind a = DataOrInput
          then derive_external a resolve quote_at
          else (case ad_cause_locations a of
                  [] \<Rightarrow> decide NeedsMoreContext UncitableLocalClaim
                          (''The investigation claims a '' @ kind_text (ad_cause_kind a)
                           @ '' cause but cited no location'') Low
                | l # _ \<Rightarrow>
                    (case resolve (cl_path l) of
                       None \<Rightarrow> decide NeedsMoreContext UnresolvableCitation
                                 (''The investigation cites '' @ cl_path l
                                  @ '', which does not resolve to a file in the checked-out repository'') Low
                     | Some r \<Rightarrow> decide CodeFix LocalDefect (''The cause is at '' @ r)
                                   (confidence_for (ad_strength a)))))"

end
