(* ===== verification/Investigation.thy ===== *)
theory Investigation
  imports Verdict
begin

text \<open>
  The acceptance of an investigation (\<open>investigate.ts\<close>): the cache of the files that the agent has
  read, which cited paths resolve, the probe of the paths that a submission cites, the check that a
  submission passes before it is accepted, and the decision that is authoritative afterwards. A
  correction that goes back to the model is kept as the data its wording is built from.
\<close>

section \<open>The reader\<close>

definition norm_path :: "string \<Rightarrow> string" where
  "norm_path path =
     (let p = map (\<lambda>c. if c = CHR 0x5C then CHR ''/'' else c) path;
          q = (if starts_with p ''./'' then drop 2 p else p)
      in dropWhile (\<lambda>c. c = CHR ''/'') q)"

definition quote_check_max_file_bytes :: nat where
  "quote_check_max_file_bytes = 5 * 1024 * 1024"

definition max_probed_citations :: nat where "max_probed_citations = 100"

record reader_state =
  rs_cache :: "string \<Rightarrow> string option"
  rs_missing :: "string set"

definition fresh_reader :: reader_state where
  "fresh_reader = \<lparr>rs_cache = (\<lambda>_. None), rs_missing = {}\<rparr>"

definition says_absent :: "string \<Rightarrow> bool" where
  "says_absent msg =
     list_ex (contains (to_lower msg)) [''enoent'', ''no such file'', ''not found'']"

definition record_read :: "string \<Rightarrow> string + string \<Rightarrow> reader_state \<Rightarrow> reader_state" where
  "record_read path result st =
     (case result of
        Inl msg \<Rightarrow> (if says_absent msg then st\<lparr>rs_missing := insert (norm_path path) (rs_missing st)\<rparr> else st)
      | Inr content \<Rightarrow>
          st\<lparr>rs_missing := rs_missing st - {norm_path path},
             rs_cache := (if length content \<le> quote_check_max_file_bytes
                          then (rs_cache st)(norm_path path \<mapsto> content) else rs_cache st)\<rparr>)"

definition resolve_cited :: "reader_state \<Rightarrow> string \<Rightarrow> string option" where
  "resolve_cited st cited = (if norm_path cited \<in> rs_missing st then None else Some (norm_path cited))"

definition quote_at :: "reader_state \<Rightarrow> string \<Rightarrow> nat \<Rightarrow> string \<Rightarrow> bool" where
  "quote_at st resolved line quote =
     (case rs_cache st (norm_path resolved) of None \<Rightarrow> False | Some text \<Rightarrow> quote_within_window text line quote)"

section \<open>The probe of the cited paths\<close>

definition add_new :: "'a \<Rightarrow> 'a list \<Rightarrow> 'a list" where
  "add_new x xs = (if x \<in> set xs then xs else xs @ [x])"

fun cited_paths :: "json \<Rightarrow> nat \<Rightarrow> string list \<Rightarrow> string list"
  and cited_in_items :: "json list \<Rightarrow> nat \<Rightarrow> string list \<Rightarrow> string list"
  and cited_in_fields :: "(string \<times> json) list \<Rightarrow> nat \<Rightarrow> string list \<Rightarrow> string list" where
  "cited_paths v depth acc =
     (if 6 < depth \<or> max_probed_citations \<le> length acc then acc
      else (case v of
              JArr xs \<Rightarrow> cited_in_items xs (depth + 1) acc
            | JObj fs \<Rightarrow> cited_in_fields fs (depth + 1) acc
            | _ \<Rightarrow> acc))"
| "cited_in_items [] depth acc = acc"
| "cited_in_items (v # vs) depth acc = cited_in_items vs depth (cited_paths v depth acc)"
| "cited_in_fields [] depth acc = acc"
| "cited_in_fields ((k, v) # fs) depth acc =
     cited_in_fields fs depth
       (case v of
          JStr s \<Rightarrow> if k = ''path'' \<and> s \<noteq> [] then add_new s acc else acc
        | _ \<Rightarrow> cited_paths v depth acc)"

text \<open>The reader's answer to a probe; \<open>None\<close> when the machine is gone, \<open>Some None\<close> for any other fault.\<close>

definition probe ::
  "(string list \<Rightarrow> string list option option) \<Rightarrow> json \<Rightarrow> reader_state \<Rightarrow> reader_state option" where
  "probe exist submitted st =
     (let unknown = filter (\<lambda>p. rs_cache st (norm_path p) = None) (cited_paths submitted 0 [])
      in if unknown = [] then Some st
         else (case exist unknown of
                 None \<Rightarrow> None
               | Some None \<Rightarrow> Some st
               | Some (Some present) \<Rightarrow>
                   Some (st\<lparr>rs_missing := rs_missing st
                        \<union> norm_path ` set (filter (\<lambda>p. norm_path p \<notin> norm_path ` set present) unknown)\<rparr>)))"

section \<open>Acceptance\<close>

definition verdict_of :: "adjudication \<Rightarrow> decision \<Rightarrow> string list \<Rightarrow> verdict_input" where
  "verdict_of a d files =
     \<lparr>vi_cause_text = ad_best_supported a, vi_claims_code_cause = (de_outcome d = CodeFix),
      vi_evidence = (case ad_evidence a of None \<Rightarrow> [] | Some es \<Rightarrow> es),
      vi_agent_task_brief = ad_agent_task_brief a, vi_files_read = files\<rparr>"

datatype feedback =
    EmptyCause
  | Resubmit incomplete_code string
  | BarePathNeeded string
  | LocationNeeded string
  | RejectionsNeeded string "(string \<times> bool) list"

text \<open>The candidates that are not rejected, each with the mark whether a rejection names it.\<close>

definition unrejected_entries :: "adjudication \<Rightarrow> decision \<Rightarrow> (string \<times> bool) list" where
  "unrejected_entries a d =
     (let named = (case ad_rejected_candidates a of None \<Rightarrow> [] | Some rs \<Rightarrow> map rj_id rs)
      in map (\<lambda>e. (fst e, fst e \<in> set named))
           (filter (\<lambda>e. snd e \<noteq> Rejected) (case de_dispositions d of None \<Rightarrow> [] | Some ds \<Rightarrow> ds)))"

definition validate_submission :: "json \<Rightarrow> reader_state \<Rightarrow> string list \<Rightarrow> feedback option" where
  "validate_submission raw st files =
     (case parse_adjudication raw of
        None \<Rightarrow> Some EmptyCause
      | Some a \<Rightarrow>
          (case validate_shape True a of
             Incomplete c r \<Rightarrow> Some (Resubmit c r)
           | Valid \<Rightarrow>
               let d = derive_outcome (Some a) (resolve_cited st) (quote_at st)
               in if de_basis d = UnresolvableCitation then Some (BarePathNeeded (de_reason d))
                  else if de_basis d = UncitableLocalClaim then Some (LocationNeeded (de_reason d))
                  else if de_basis d = UnrejectedLocalCandidates
                  then Some (RejectionsNeeded (de_reason d) (unrejected_entries a d))
                  else (case validate_verdict (verdict_of a d files) (resolve_cited st) of
                          Incomplete c r \<Rightarrow> Some (Resubmit c r) | Valid \<Rightarrow> None)))"

definition invalid_verdict :: "string \<Rightarrow> decision" where
  "invalid_verdict reason = decide IncompleteOutcome InvalidVerdict reason Low"

definition settle :: "adjudication option \<Rightarrow> reader_state \<Rightarrow> string list \<Rightarrow> decision" where
  "settle adj st files =
     (let d = derive_outcome adj (resolve_cited st) (quote_at st)
      in case adj of
           None \<Rightarrow> d
         | Some a \<Rightarrow>
             (case validate_shape True a of
                Incomplete c r \<Rightarrow> invalid_verdict r
              | Valid \<Rightarrow> (case validate_verdict (verdict_of a d files) (resolve_cited st) of
                           Incomplete c r \<Rightarrow> invalid_verdict r | Valid \<Rightarrow> d)))"

text \<open>A run that ended with a submission: the probe, then the authoritative decision.\<close>

definition conclude ::
  "(string list \<Rightarrow> string list option option) \<Rightarrow> json \<Rightarrow> reader_state \<Rightarrow> string list \<Rightarrow> decision option" where
  "conclude exist raw st files =
     map_option (\<lambda>st'. settle (parse_adjudication raw) st' files) (probe exist raw st)"

record diagnosis =
  dg_description :: string
  dg_why_chain :: "string list"
  dg_reproduction_steps :: "string list"
  dg_cause_location :: string
  dg_cause_locations :: "string list"
  dg_evidence :: "evidence_citation list option"
  dg_agent_task_brief :: "string option"

definition build_diagnosis :: "adjudication option \<Rightarrow> diagnosis option" where
  "build_diagnosis adj =
     map_option (\<lambda>a. let paths = map cl_path (ad_cause_locations a)
        in \<lparr>dg_description = ad_best_supported a, dg_why_chain = ad_why_chain a,
            dg_reproduction_steps = ad_reproduction_steps a, dg_cause_location = join '', '' paths,
            dg_cause_locations = paths, dg_evidence = ad_evidence a,
            dg_agent_task_brief = ad_agent_task_brief a\<rparr>) adj"

section \<open>What a decision rests on\<close>

text \<open>
  The contract of the two checks that the decision is given: a quote that is found was shown to the
  agent. The lemmas about decisions are proved from it.
\<close>

locale citation_check =
  fixes resolve :: "string \<Rightarrow> string option"
    and found :: "string \<Rightarrow> nat \<Rightarrow> string \<Rightarrow> bool"
    and shown :: "string \<Rightarrow> nat \<Rightarrow> string \<Rightarrow> bool"
  assumes found_shown: "resolve p = Some r \<Longrightarrow> found r l q \<Longrightarrow> shown p l q"
begin

lemma grounded_shown:
  "grounded resolve found (Some g) \<Longrightarrow> shown (gq_path g) (gq_line g) (gq_quote g)"
  by (auto simp: grounded_def split: option.splits intro: found_shown)

lemma rejected_shown:
  assumes "i \<in> set (valid_rejections (grounded resolve found) rs)"
  shows "\<exists>r \<in> set rs. rj_id r = i \<and> trim (rj_evidence r) \<noteq> []
    \<and> shown (gq_path (rj_citation r)) (gq_line (rj_citation r)) (gq_quote (rj_citation r))"
  using assms by (auto simp: valid_rejections_def dest: grounded_shown)

lemma no_live_local:
  assumes "de_outcome (derive_external a resolve found) = NotActionable"
    and "ad_rejected_candidates a = Some rs" and "c \<in> set (ad_candidates a)" and "is_local c"
    and "grounded resolve found (cd_citation c)"
  shows "\<exists>r \<in> set rs. Some (rj_id r) = cd_id c \<and> trim (rj_evidence r) \<noteq> []
    \<and> shown (gq_path (rj_citation r)) (gq_line (rj_citation r)) (gq_quote (rj_citation r))"
proof -
  let ?g = "grounded resolve found"
  have "snd (dispose ?g (valid_rejections ?g rs) c) \<noteq> Live"
    using assms(1-4) by (auto simp: derive_external_def decide_def Let_def filter_empty_conv split: if_splits)
  then obtain i where "cd_id c = Some i" "i \<in> set (valid_rejections ?g rs)"
    using assms(5) by (auto simp: dispose_def split: option.splits if_splits)
  then show ?thesis using rejected_shown [of i rs] by auto
qed

end

text \<open>What the agent was shown: a quote near a line of a text that one of its reads returned.\<close>

definition shown_by :: "(string \<times> (string + string)) list \<Rightarrow> string \<Rightarrow> nat \<Rightarrow> string \<Rightarrow> bool" where
  "shown_by reads p line quote \<longleftrightarrow>
     (\<exists>path text. (path, Inr text) \<in> set reads \<and> norm_path path = norm_path (norm_path p) \<and> quote_within_window text line quote)"

definition after_reads :: "(string \<times> (string + string)) list \<Rightarrow> reader_state" where
  "after_reads reads = fold (\<lambda>(path, result). record_read path result) reads fresh_reader"

lemma record_read_cache:
  "rs_cache (record_read path result st) k = Some text \<Longrightarrow>
   rs_cache st k = Some text \<or> (norm_path path = k \<and> result = Inr text)"
  by (auto simp: record_read_def split: sum.splits if_splits)

lemma cache_is_read:
  "rs_cache (after_reads reads) k = Some text \<Longrightarrow> \<exists>path. (path, Inr text) \<in> set reads \<and> norm_path path = k"
proof (induction reads rule: rev_induct)
  case Nil
  then show ?case by (simp add: after_reads_def fresh_reader_def)
next
  case (snoc x reads)
  obtain path result where x: "x = (path, result)" by (cases x)
  from snoc.prems have "rs_cache (record_read path result (after_reads reads)) k = Some text"
    by (simp add: after_reads_def x)
  from record_read_cache [OF this] snoc.IH show ?case by (auto simp: x)
qed

interpretation reader: citation_check
  "resolve_cited (st\<lparr>rs_cache := rs_cache (after_reads reads)\<rparr>)"
  "quote_at (st\<lparr>rs_cache := rs_cache (after_reads reads)\<rparr>)" "shown_by reads" for st reads
proof unfold_locales
  fix p r l q
  assume "resolve_cited (st\<lparr>rs_cache := rs_cache (after_reads reads)\<rparr>) p = Some r"
    and "quote_at (st\<lparr>rs_cache := rs_cache (after_reads reads)\<rparr>) r l q"
  then obtain content where "r = norm_path p" "rs_cache (after_reads reads) (norm_path r) = Some content"
      "quote_within_window content l q"
    by (auto simp: resolve_cited_def quote_at_def split: option.splits if_splits)
  then show "shown_by reads p l q" using cache_is_read by (fastforce simp: shown_by_def)
qed

lemma probe_cache: "probe exist raw st = Some st' \<Longrightarrow> rs_cache st' = rs_cache st"
  by (auto simp: probe_def Let_def split: if_splits option.splits)

lemma checked_citations:
  "check_citations resolve reads es = Valid \<Longrightarrow> e \<in> set es \<Longrightarrow> \<exists>r. resolve (trim (ec_path e)) = Some r \<and> r \<in> set reads"
  by (induction es) (auto simp: Let_def incomplete_def split: if_splits option.splits)

lemma valid_verdictD:
  assumes "validate_verdict v resolve = Valid"
  shows "vi_evidence v \<noteq> [] \<and> vi_files_read v \<noteq> []
    \<and> (vi_claims_code_cause v \<longrightarrow> (\<exists>b. vi_agent_task_brief v = Some b \<and> trim b \<noteq> []))
    \<and> check_citations resolve (List.map_filter resolve (vi_files_read v)) (vi_evidence v) = Valid"
  using assms
  by (auto simp: validate_verdict_def Let_def incomplete_def truthy_str_def split: if_splits option.splits)

lemma derived_code_fix:
  assumes "de_outcome (derive_outcome (Some a) resolve found) = CodeFix"
  shows "ad_cause_kind a \<in> {LocalCode, Configuration} \<and> ad_strength a \<noteq> Insufficient
    \<and> (\<exists>l ls. ad_cause_locations a = l # ls \<and> resolve (cl_path l) \<noteq> None)"
  using assms by (cases "ad_cause_kind a")
    (auto simp: derive_outcome_def derive_external_def decide_def Let_def split: if_splits option.splits list.splits)

lemma derived_not_actionable:
  assumes "de_outcome (derive_outcome (Some a) resolve found) = NotActionable"
  shows "ad_cause_kind a \<in> {ExternalSystem, DataOrInput} \<and> ad_strength a \<noteq> Insufficient
    \<and> de_outcome (derive_external a resolve found) = NotActionable"
  using assms by (cases "ad_cause_kind a")
    (auto simp: derive_outcome_def decide_def split: if_splits option.splits list.splits)

lemma derived_high:
  "de_confidence (derive_outcome (Some a) resolve found) = High \<Longrightarrow> ad_strength a = Conclusive"
  by (cases "ad_strength a")
    (auto simp: derive_outcome_def derive_external_def decide_def Let_def split: if_splits option.splits list.splits)

lemma derived_not_incomplete: "de_outcome (derive_outcome adj resolve found) \<noteq> IncompleteOutcome"
  "de_basis (derive_outcome adj resolve found) \<noteq> InvalidVerdict"
  by (auto simp: derive_outcome_def derive_external_def decide_def Let_def split: if_splits option.splits list.splits)

lemma derived_no_adjudication: "de_basis (derive_outcome (Some a) resolve found) \<noteq> NoAdjudication"
  by (auto simp: derive_outcome_def derive_external_def decide_def Let_def split: if_splits option.splits list.splits)

text \<open>
  A local candidate is answered when its own citation does not check out, or a rejection names it
  whose evidence is stated and whose quote was shown to the agent.
\<close>

definition answered ::
  "(string \<times> (string + string)) list \<Rightarrow> reader_state \<Rightarrow> adjudication \<Rightarrow> candidate_cause \<Rightarrow> bool" where
  "answered reads st a c \<longleftrightarrow>
     \<not> grounded (resolve_cited st) (quote_at st) (cd_citation c)
     \<or> (\<exists>rs. ad_rejected_candidates a = Some rs \<and>
          (\<exists>r \<in> set rs. Some (rj_id r) = cd_id c \<and> trim (rj_evidence r) \<noteq> []
             \<and> shown_by reads (gq_path (rj_citation r)) (gq_line (rj_citation r)) (gq_quote (rj_citation r))))"

lemma checked_candidates_cited:
  "check_candidates cs ids = Inr js \<Longrightarrow> c \<in> set cs \<Longrightarrow> is_local c \<Longrightarrow> cd_citation c \<noteq> None"
  by (induction cs ids rule: check_candidates.induct) (auto split: if_splits option.splits)

lemma valid_shapeD:
  assumes "validate_shape True a = Valid"
  shows "ad_rejected_candidates a \<noteq> None \<and> (\<forall>c \<in> set (ad_candidates a). is_local c \<longrightarrow> cd_citation c \<noteq> None)"
proof (cases "check_candidates (ad_candidates a) []")
  case (Inl v)
  with assms have "v = Valid" by (auto simp: validate_shape_def incomplete_def split: if_splits)
  moreover have "check_candidates cs ids \<noteq> Inl Valid" for cs ids
    by (induction cs ids rule: check_candidates.induct) (auto simp: incomplete_def split: option.splits)
  ultimately show ?thesis using Inl by simp
next
  case (Inr ids)
  with assms have "ad_rejected_candidates a \<noteq> None"
    by (auto simp: validate_shape_def incomplete_def split: if_splits validation.splits)
  with checked_candidates_cited [OF Inr] show ?thesis by blast
qed

lemma settled_cases:
  assumes "de_outcome (settle adj st files) = CodeFix \<or> de_outcome (settle adj st files) = NotActionable"
  shows "\<exists>a. adj = Some a \<and> validate_shape True a = Valid
    \<and> settle adj st files = derive_outcome (Some a) (resolve_cited st) (quote_at st)
    \<and> validate_verdict (verdict_of a (settle adj st files) files) (resolve_cited st) = Valid"
  using assms
  by (cases adj) (auto simp: settle_def invalid_verdict_def decide_def Let_def derive_outcome_def [of None]
      split: validation.splits)

lemma read_citations:
  assumes "check_citations (resolve_cited st) (List.map_filter (resolve_cited st) files) es = Valid" "e \<in> set es"
  shows "\<exists>f \<in> set files. norm_path f = norm_path (trim (ec_path e))"
  using checked_citations [OF assms]
  by (auto simp: resolve_cited_def List.map_filter_def split: if_splits)

text \<open>
  C29: When an investigation ends in a code fix or in a cause outside the codebase, the
  submission has evidence, every cited file is one the agent read, a code fix names a location,
  a local kind of cause and a brief, a cause outside leaves every local candidate answered (its
  own citation does not check out, or a rejection names it whose quote stands near the cited
  line of a text that a read returned), and high confidence comes only from conclusive evidence.
\<close>

theorem accepted_cause_is_grounded:
  assumes probed: "probe exist raw (after_reads reads) = Some st"
    and settled: "settle (parse_adjudication raw) st files = d"
    and outcome: "de_outcome d = CodeFix \<or> de_outcome d = NotActionable"
  shows "\<exists>a es. parse_adjudication raw = Some a \<and> ad_evidence a = Some es \<and> es \<noteq> []
    \<and> (\<forall>e \<in> set es. \<exists>f \<in> set files. norm_path f = norm_path (trim (ec_path e)))
    \<and> (de_outcome d = CodeFix \<longrightarrow>
         ad_cause_kind a \<in> {LocalCode, Configuration} \<and> ad_cause_locations a \<noteq> []
         \<and> (\<exists>b. ad_agent_task_brief a = Some b \<and> trim b \<noteq> []))
    \<and> (de_outcome d = NotActionable \<longrightarrow>
         (\<forall>c \<in> set (ad_candidates a). is_local c \<longrightarrow> cd_citation c \<noteq> None \<and> answered reads st a c))
    \<and> (de_confidence d = High \<longrightarrow> ad_strength a = Conclusive)"
proof -
  let ?st = "st\<lparr>rs_cache := rs_cache (after_reads reads)\<rparr>"
  have st: "?st = st" using probe_cache [OF probed] by (cases st) simp
  obtain a where a: "parse_adjudication raw = Some a" "validate_shape True a = Valid"
      "d = derive_outcome (Some a) (resolve_cited st) (quote_at st)"
      "validate_verdict (verdict_of a d files) (resolve_cited st) = Valid"
    using settled_cases outcome settled by blast
  from valid_verdictD [OF a(4)] obtain es where es: "ad_evidence a = Some es" "es \<noteq> []"
      "check_citations (resolve_cited st) (List.map_filter (resolve_cited st) files) es = Valid"
      "de_outcome d = CodeFix \<longrightarrow> (\<exists>b. ad_agent_task_brief a = Some b \<and> trim b \<noteq> [])"
    by (auto simp: verdict_of_def split: option.splits)
  have "answered reads st a c" if "de_outcome d = NotActionable" "c \<in> set (ad_candidates a)" "is_local c" for c
  proof -
    have "de_outcome (derive_external a (resolve_cited st) (quote_at st)) = NotActionable"
      using derived_not_actionable that(1) a(3) by blast
    moreover obtain rs where "ad_rejected_candidates a = Some rs" using valid_shapeD [OF a(2)] by auto
    ultimately show ?thesis
      using reader.no_live_local [where a = a and st = st and reads = reads and rs = rs and c = c] that unfolding answered_def st by blast
  qed
  moreover have "ad_cause_kind a \<in> {LocalCode, Configuration} \<and> ad_cause_locations a \<noteq> []"
    if "de_outcome d = CodeFix" using derived_code_fix that a(3) by force
  ultimately show ?thesis
    using a es derived_high read_citations [OF es(3)] valid_shapeD [OF a(2)] by blast
qed

text \<open>
  C30: The check that a submission passes before it is accepted agrees with the decision that is
  authoritative afterwards: in the same state of the reader it accepts exactly the submissions
  whose decision is neither void nor based on a defect that the model could repair.
\<close>

theorem mirror_predicts_acceptance:
  "validate_submission raw st files = None \<longleftrightarrow>
     de_basis (settle (parse_adjudication raw) st files)
       \<notin> {NoAdjudication, InvalidVerdict, UncitableLocalClaim, UnresolvableCitation, UnrejectedLocalCandidates}"
proof (cases "parse_adjudication raw")
  case None
  then show ?thesis by (simp add: validate_submission_def settle_def derive_outcome_def decide_def)
next
  case (Some a)
  then show ?thesis
    using derived_not_incomplete(2) [of "Some a"] derived_no_adjudication [of a]
    by (auto simp: validate_submission_def settle_def invalid_verdict_def decide_def Let_def
        split: validation.split)
qed

section \<open>Examples\<close>

definition demo_submission :: json where
  "demo_submission = JObj
     [(''best_supported'', JStr ''sum is unset''), (''evidence_strength'', JStr ''conclusive''),
      (''cause_kind'', JStr ''local_code''), (''rejected_candidates'', JArr []),
      (''cause_locations'', JArr [JObj [(''path'', JStr ''src/a.ts'')]]),
      (''evidence'', JArr [JObj [(''path'', JStr ''./src/a.ts''), (''detail'', JStr ''sum''), (''symptomLink'', JStr ''nan'')]]),
      (''agent_task_brief'', JStr ''set sum'')]"

definition demo_reads :: "(string \<times> (string + string)) list" where
  "demo_reads = [(''src/b.ts'', Inl ''ENOENT''), (''src/a.ts'', Inr ''let sum;'')]"

lemma demo_parsed:
  "parse_adjudication demo_submission = Some
     \<lparr>ad_best_supported = ''sum is unset'', ad_evidence_check = [], ad_candidates = [], ad_rejected = [],
      ad_rejected_candidates = Some [], ad_strength = Conclusive, ad_cause_kind = LocalCode,
      ad_cause_locations = [\<lparr>cl_path = ''src/a.ts'', cl_line = None, cl_note = None\<rparr>], ad_reasoning = [],
      ad_why_chain = [], ad_reproduction_steps = [],
      ad_evidence = Some [\<lparr>ec_path = ''./src/a.ts'', ec_detail = ''sum'', ec_symptom_link = ''nan''\<rparr>],
      ad_agent_task_brief = Some ''set sum''\<rparr>"
  by code_simp

lemma demo_cited: "cited_paths demo_submission 0 [] = [''src/a.ts'', ''./src/a.ts'']"
  by code_simp

lemma demo_norms: "norm_path ''./src/a.ts'' = ''src/a.ts''" "norm_path ''src/a.ts'' = ''src/a.ts''" "norm_path ''src/b.ts'' = ''src/b.ts''"
  by code_simp+

lemma demo_state: "after_reads demo_reads =
    \<lparr>rs_cache = [''src/a.ts'' \<mapsto> ''let sum;''], rs_missing = {''src/b.ts''}\<rparr>"
proof -
  have "says_absent ''ENOENT''" by code_simp
  then show ?thesis
    by (simp add: after_reads_def demo_reads_def fresh_reader_def record_read_def demo_norms
        quote_check_max_file_bytes_def)
qed

lemma demo_probed: "probe (\<lambda>_. Some (Some [])) demo_submission (after_reads demo_reads) = Some (after_reads demo_reads)"
  unfolding probe_def demo_cited demo_state by (simp add: demo_norms)

lemma demo_fillers: "\<not> is_filler ''sum is unset''" "\<not> is_filler ''set sum''"
  by code_simp+

lemma demo_trims: "trim ''sum is unset'' = ''sum is unset''" "trim ''set sum'' = ''set sum''"
    "trim ''./src/a.ts'' = ''./src/a.ts''" "trim ''sum'' = ''sum''" "trim ''nan'' = ''nan''"
  by code_simp+

lemma demo_settled:
  "de_outcome (settle (parse_adjudication demo_submission) (after_reads demo_reads) [''src/a.ts'']) = CodeFix"
  by (simp add: demo_parsed settle_def derive_outcome_def validate_shape_def new_shape_def verdict_of_def
      validate_verdict_def Let_def decide_def truthy_str_def demo_fillers demo_trims List.map_filter_def
      resolve_cited_def demo_norms demo_state)

lemma accepted_cause_is_grounded_witness:
  "\<exists>a es. parse_adjudication demo_submission = Some a \<and> ad_evidence a = Some es \<and> es \<noteq> []
     \<and> ad_cause_kind a \<in> {LocalCode, Configuration} \<and> ad_cause_locations a \<noteq> []"
proof -
  define d where "d = settle (parse_adjudication demo_submission) (after_reads demo_reads) [''src/a.ts'']"
  have "de_outcome d = CodeFix" by (simp add: d_def demo_settled)
  with accepted_cause_is_grounded [OF demo_probed d_def [symmetric]] show ?thesis by blast
qed

text \<open>
  A location that was never read passes the check before acceptance, and the probe that follows it
  voids the answer that was accepted.
\<close>

definition unread_submission :: json where
  "unread_submission = JObj
     [(''best_supported'', JStr ''sum is unset''), (''evidence_strength'', JStr ''conclusive''),
      (''cause_kind'', JStr ''local_code''), (''rejected_candidates'', JArr []),
      (''cause_locations'', JArr [JObj [(''path'', JStr ''src/c.ts'')]]),
      (''evidence'', JArr [JObj [(''path'', JStr ''./src/a.ts''), (''detail'', JStr ''sum''), (''symptomLink'', JStr ''nan'')]]),
      (''agent_task_brief'', JStr ''set sum'')]"

lemma unread_parsed:
  "parse_adjudication unread_submission =
     map_option (\<lambda>a. a\<lparr>ad_cause_locations := [\<lparr>cl_path = ''src/c.ts'', cl_line = None, cl_note = None\<rparr>]\<rparr>)
       (parse_adjudication demo_submission)"
  unfolding demo_parsed by code_simp

lemma unread_cited: "cited_paths unread_submission 0 [] = [''src/c.ts'', ''./src/a.ts'']"
  by code_simp

lemma unread_location_is_not_corrected:
  "validate_submission unread_submission (after_reads demo_reads) [''src/a.ts''] = None"
  "map_option de_basis (conclude (\<lambda>_. Some (Some [])) unread_submission (after_reads demo_reads) [''src/a.ts''])
     = Some UnresolvableCitation"
proof -
  have n: "norm_path ''src/c.ts'' = ''src/c.ts''" by code_simp
  note eval = demo_parsed unread_parsed settle_def derive_outcome_def validate_shape_def new_shape_def verdict_of_def
      validate_verdict_def Let_def decide_def truthy_str_def demo_fillers demo_trims List.map_filter_def
      resolve_cited_def demo_norms demo_state n validate_submission_def
  show "validate_submission unread_submission (after_reads demo_reads) [''src/a.ts''] = None"
    by (simp add: eval)
  have "probe (\<lambda>_. Some (Some [])) unread_submission (after_reads demo_reads)
      = Some ((after_reads demo_reads)\<lparr>rs_missing := {''src/c.ts'', ''src/b.ts''}\<rparr>)"
    unfolding probe_def unread_cited demo_state by (auto simp: demo_norms n)
  then show "map_option de_basis (conclude (\<lambda>_. Some (Some [])) unread_submission (after_reads demo_reads) [''src/a.ts''])
     = Some UnresolvableCitation"
    by (simp add: conclude_def eval)
qed

end
