(* ===== verification/JUnit.thy ===== *)
theory JUnit
  imports JsRegex "HOL-Library.AList"
begin

text \<open>
  The reader of the JUnit files of pytest (\<open>harness/junit.ts\<close>). The character of a code point beyond
  the model's code units is a parameter; a code point that does not exist throws, and the reader
  answers an exception with the outcome of an infrastructure error.
\<close>

datatype outcome = Passed | Failed | SkippedNoRunner | InfraError

text \<open>Tests by id, in the order of their first report; \<open>True\<close> for a test that passed.\<close>

type_synonym statuses = "(string \<times> bool) list"

record junit_report =
  ju_outcome :: outcome
  ju_tests :: statuses
  ju_total :: nat

text \<open>All matches of an expression, as \<open>matchAll\<close>; the number counts characters still to be skipped.\<close>

fun matches_from :: "regex \<Rightarrow> nat \<Rightarrow> string \<Rightarrow> string \<Rightarrow> match list" where
  "matches_from r k before [] =
     (if k = 0 then (case match_at r before [] of None \<Rightarrow> [] | Some m \<Rightarrow> [m]) else [])"
| "matches_from r k before (c # cs) =
     (if k > 0 then matches_from r (k - 1) (c # before) cs
      else (case match_at r before (c # cs) of
              None \<Rightarrow> matches_from r 0 (c # before) cs
            | Some m \<Rightarrow> m # matches_from r (length (m_text m) - 1) (c # before) cs))"

definition all_matches :: "regex \<Rightarrow> string \<Rightarrow> match list" where
  "all_matches r s = matches_from r 0 [] s"

section \<open>Entities and attributes\<close>

definition hex_char :: "char \<Rightarrow> bool" where
  "hex_char c = (is_digit c \<or> between CHR ''a'' CHR ''f'' c \<or> between CHR ''A'' CHR ''F'' c)"

definition entity_re :: regex where
  "entity_re = cats
     [lit ''&'', Cap 1 (alts [Cat (lit_i ''#x'') (plus (Cls hex_char)), Cat (lit ''#'') (plus (Cls is_digit)),
        lit_i ''amp'', lit_i ''quot'', lit_i ''apos'', lit_i ''lt'', lit_i ''gt'']), lit '';'']"

definition entity_code :: "string \<Rightarrow> nat option" where
  "entity_code e =
     (if take 1 e \<noteq> ''#'' then None
      else if take 1 (drop 1 e) = ''x'' \<or> take 1 (drop 1 e) = ''X'' then nat_in_base 16 0 (drop 2 e)
      else nat_in_base 10 0 (drop 1 e))"

definition named_entity :: "string \<Rightarrow> string option" where
  "named_entity e = map_of
     [(''amp'', ''&''), (''quot'', [CHR 0x22]), (''apos'', [CHR 0x27]), (''lt'', ''<''), (''gt'', ''>'')] (to_lower e)"

definition infinite_code :: "nat \<Rightarrow> bool" where
  "infinite_code n = (2 ^ 1024 \<le> n)"

definition decode_entity :: "(nat \<Rightarrow> string) \<Rightarrow> match \<Rightarrow> string" where
  "decode_entity char_at m =
     (case entity_code (group_text m 1) of
        Some n \<Rightarrow> if infinite_code n then m_text m else char_at n
      | None \<Rightarrow> (case named_entity (group_text m 1) of None \<Rightarrow> m_text m | Some s \<Rightarrow> s))"

text \<open>\<open>None\<close> for the range error of a code point above the last one.\<close>

definition decode_xml :: "(nat \<Rightarrow> string) \<Rightarrow> string \<Rightarrow> string option" where
  "decode_xml char_at s =
     (if list_ex (\<lambda>m. case entity_code (group_text m 1) of
            None \<Rightarrow> False | Some n \<Rightarrow> 0x10FFFF < n \<and> \<not> infinite_code n) (all_matches entity_re s)
      then None else Some (replace_all entity_re (decode_entity char_at) s))"

definition attr_re :: "string \<Rightarrow> regex" where
  "attr_re name = cats
     [WordEdge, lit name, lit ''='',
      Alt (cats [lit [CHR 0x22], Cap 1 (star (Cls (\<lambda>c. c \<noteq> CHR 0x22))), lit [CHR 0x22]])
          (cats [lit [CHR 0x27], Cap 2 (star (Cls (\<lambda>c. c \<noteq> CHR 0x27))), lit [CHR 0x27]])]"

text \<open>The outer option is an exception, the inner one an attribute that is missing.\<close>

definition attr :: "(nat \<Rightarrow> string) \<Rightarrow> string \<Rightarrow> string \<Rightarrow> string option option" where
  "attr char_at source name =
     (case js_match (attr_re name) source of
        None \<Rightarrow> Some None
      | Some m \<Rightarrow> map_option Some (decode_xml char_at
          (case group m 1 of Some w \<Rightarrow> w | None \<Rightarrow> group_text m 2)))"

section \<open>The report\<close>

definition tag_end :: regex where "tag_end = lit ''>''"

definition suite_open_re :: regex where
  "suite_open_re = cats [lit ''<testsuite'', opt (lit ''s''), WordEdge]"

definition suite_close_re :: regex where
  "suite_close_re = cats [lit ''</testsuite'', opt (lit ''s''), tag_end, star (Cls is_space), AtEnd]"

definition tag_re :: regex where
  "tag_re = cats [lit ''<'', opt (lit ''/''),
     Cap 1 (Cat (Cls alpha) (star (Cls (\<lambda>c. alnum c \<or> c = CHR ''-'')))), WordEdge]"

definition allowed_tags :: "string list" where
  "allowed_tags =
     [''testsuites'', ''testsuite'', ''testcase'', ''failure'', ''error'', ''skipped'', ''properties'', ''property'',
      ''system-out'', ''system-err'', ''rerunFailure'', ''flakyFailure'', ''flakyError'', ''rerun'']"

definition testcase_re :: regex where
  "testcase_re = cats
     [lit ''<testcase'', WordEdge, Cap 1 (lazy_star (Cls (\<lambda>c. c \<noteq> CHR ''>''))),
      Alt (lit ''/>'') (cats [tag_end, Cap 2 (lazy_star (Cls (\<lambda>_. True))), lit ''</testcase>''])]"

definition open_tag :: "string \<Rightarrow> regex" where
  "open_tag name = cats [lit (''<'' @ name), WordEdge]"

definition no_report :: junit_report where
  "no_report = \<lparr>ju_outcome = InfraError, ju_tests = [], ju_total = 0\<rparr>"

text \<open>The loop over the test cases: the tests, their number, and whether one ended in an error.\<close>

fun read_cases :: "(nat \<Rightarrow> string) \<Rightarrow> match list \<Rightarrow> statuses \<Rightarrow> nat \<Rightarrow> bool \<Rightarrow> (statuses \<times> nat \<times> bool) option" where
  "read_cases char_at [] tests n err = Some (tests, n, err)"
| "read_cases char_at (m # ms) tests n err =
     (case (attr char_at (group_text m 1) ''classname'', attr char_at (group_text m 1) ''name'') of
        (Some (Some cls), Some (Some name)) \<Rightarrow>
          let body = group_text m 2
          in if js_test (open_tag ''error'') body then read_cases char_at ms tests n True
             else if js_test (open_tag ''skipped'') body then read_cases char_at ms tests n err
             else let i = cls @ ''::'' @ name; ok = \<not> js_test (open_tag ''failure'') body
                  in read_cases char_at ms
                       (if map_of tests i = Some False then tests else AList.update i ok tests) (n + 1) err
      | _ \<Rightarrow> None)"

definition parse_junit :: "(nat \<Rightarrow> string) \<Rightarrow> string \<Rightarrow> junit_report" where
  "parse_junit char_at raw =
     (let xml = trim raw; cases = all_matches testcase_re xml
      in if xml = [] \<or> \<not> js_test suite_open_re xml \<or> \<not> js_test suite_close_re xml then no_report
         else if list_ex (\<lambda>m. group_text m 1 \<notin> set allowed_tags) (all_matches tag_re xml) then no_report
         else if length cases \<noteq> length (all_matches (open_tag ''testcase'') xml) then no_report
         else (case read_cases char_at cases [] 0 False of
                 None \<Rightarrow> no_report
               | Some (tests, n, err) \<Rightarrow>
                   \<lparr>ju_outcome = (if n = 0 \<or> tests = [] \<or> err then InfraError
                                  else if list_ex (\<lambda>(i, ok). \<not> ok) tests then Failed else Passed),
                    ju_tests = tests, ju_total = n\<rparr>))"

lemma parse_junit_outcome:
  "ju_outcome (parse_junit char_at raw) = Failed \<Longrightarrow> list_ex (\<lambda>(i, ok). \<not> ok) (ju_tests (parse_junit char_at raw))"
  "ju_outcome (parse_junit char_at raw) = Passed \<Longrightarrow>
     ju_tests (parse_junit char_at raw) \<noteq> [] \<and> list_all snd (ju_tests (parse_junit char_at raw))"
  by (auto simp: parse_junit_def Let_def no_report_def list_all_iff list_ex_iff
      split: option.splits if_splits prod.splits)

end
