(* ===== verification/TestRunner.thy ===== *)
theory TestRunner
  imports ToolBridge Redact JUnit
begin

text \<open>
  Running tests in the sandbox (\<open>harness/test-runner.ts\<close>): the choice of a runner, the report of a
  run, the comparison of two runs, a run of the suite with its error paths, and the run of a
  declared test. The sandbox answers as \<open>runner_env\<close> says, depending on the effects before;
  \<open>JSON.parse\<close> with the shapes the source names and the character of a code point are parameters.
\<close>

section \<open>Errors and effects\<close>

datatype error_kind = PlainError | SandboxGone | VerificationInfra

text \<open>What the error of a failed command may carry.\<close>

record fault =
  ft_kind :: error_kind
  ft_message :: string
  ft_exit :: "int option"
  ft_stdout :: "string option"
  ft_stderr :: "string option"

definition plain_error :: "string \<Rightarrow> fault" where
  "plain_error m = \<lparr>ft_kind = PlainError, ft_message = m, ft_exit = None, ft_stdout = None, ft_stderr = None\<rparr>"

datatype plan_kind = Vitest | Pytest | NpmScript | NoRunner

record test_plan =
  tp_kind :: plan_kind
  tp_command :: "string option"

record package =
  pk_test_script :: "string option"
  pk_workspaces :: bool

record json_assertion =
  ja_full_name :: "string option"
  ja_title :: "string option"
  ja_status :: "string option"
  ja_failures :: "string list option"

record json_test_file =
  jf_name :: "string option"
  jf_results :: "json_assertion list option"

record json_report =
  jr_total :: "nat option"
  jr_files :: "json_test_file list option"

record parsed_suite =
  ps_tests :: statuses
  ps_total :: nat
  ps_failures :: "(string \<times> string) list"

record runner_env =
  re_run :: "effect list \<Rightarrow> string \<Rightarrow> real \<Rightarrow> fault + command_result"
  re_read :: "effect list \<Rightarrow> string \<Rightarrow> fault + string"
  re_report :: "string \<Rightarrow> json_report option"
  re_package :: "string \<Rightarrow> package option"
  re_code_point :: "nat \<Rightarrow> string"

text \<open>The part of the state that a program about the sandbox sees.\<close>

record sandbox_state =
  ss_effects :: "effect list"

type_synonym ('z, 'a) run = "('z sandbox_state_scheme, fault, 'a) prog"

definition run_in :: "runner_env \<Rightarrow> string \<Rightarrow> real \<Rightarrow> ('z, command_result) run" where
  "run_in env cmd t s = (re_run env (ss_effects s) cmd t, s\<lparr>ss_effects := ss_effects s @ [Command cmd t]\<rparr>)"

definition read_in :: "runner_env \<Rightarrow> string \<Rightarrow> ('z, string) run" where
  "read_in env p s = (re_read env (ss_effects s) p, s\<lparr>ss_effects := ss_effects s @ [FileRead p]\<rparr>)"

section \<open>The plan\<close>

definition suite_results_path :: string where "suite_results_path = ''/tmp/opslane-suite-results.json''"

definition pytest_results_path :: string where "pytest_results_path = ''/tmp/opslane-junit.xml''"

definition suite_timeout_ms :: real where "suite_timeout_ms = 240000"

definition max_suite_output :: nat where "max_suite_output = 4000"

datatype package_manager = Npm | Pnpm | Yarn

definition no_plan :: test_plan where "no_plan = \<lparr>tp_kind = NoRunner, tp_command = None\<rparr>"

fun manager_text :: "package_manager \<Rightarrow> string" where
  "manager_text Npm = ''npm''"
| "manager_text Pnpm = ''pnpm''"
| "manager_text Yarn = ''yarn''"

definition select_test_command :: "package \<Rightarrow> bool \<Rightarrow> package_manager \<Rightarrow> test_plan" where
  "select_test_command pkg vitest_bin manager =
     (if pk_workspaces pkg then no_plan
      else if vitest_bin
      then \<lparr>tp_kind = Vitest,
            tp_command = Some (''./node_modules/.bin/vitest run --reporter=json --outputFile='' @ suite_results_path)\<rparr>
      else if truthy_str (pk_test_script pkg) \<noteq> None
      then \<lparr>tp_kind = NpmScript, tp_command = Some (manager_text manager @ '' test'')\<rparr>
      else no_plan)"

definition file_exists :: "runner_env \<Rightarrow> string \<Rightarrow> ('z, bool) run" where
  "file_exists env p =
     rescue (andthen (read_in env p) (\<lambda>_. pure True))
       (\<lambda>e. if ft_kind e = SandboxGone then throw e else pure False)"

definition read_package :: "runner_env \<Rightarrow> ('z, package) run" where
  "read_package env =
     rescue (andthen (read_in env (repo_path @ ''/package.json''))
               (\<lambda>raw. case re_package env raw of None \<Rightarrow> throw (plain_error ''SyntaxError'') | Some p \<Rightarrow> pure p))
       (\<lambda>e. if ft_kind e = SandboxGone then throw e else pure \<lparr>pk_test_script = None, pk_workspaces = False\<rparr>)"

definition plan_tests :: "runner_env \<Rightarrow> bool \<Rightarrow> ('z, test_plan) run" where
  "plan_tests env python =
     (if python
      then pure \<lparr>tp_kind = Pytest, tp_command = Some (''python -m pytest --junit-xml='' @ pytest_results_path)\<rparr>
      else andthen (read_package env) (\<lambda>pkg.
        andthen (if pk_workspaces pkg then pure True else file_exists env (repo_path @ ''/pnpm-workspace.yaml''))
        (\<lambda>workspace.
          if workspace then pure no_plan
          else andthen (file_exists env (repo_path @ ''/pnpm-lock.yaml'')) (\<lambda>pnpm.
            andthen (if pnpm then pure Pnpm
                     else andthen (file_exists env (repo_path @ ''/yarn.lock''))
                            (\<lambda>yarn. pure (if yarn then Yarn else Npm))) (\<lambda>manager.
              andthen (file_exists env (repo_path @ ''/node_modules/.bin/vitest'')) (\<lambda>bin.
                pure (select_test_command pkg bin manager)))))))"

section \<open>Reports\<close>

definition with_default :: "'a \<Rightarrow> 'a option \<Rightarrow> 'a" where
  "with_default d v = (case v of None \<Rightarrow> d | Some x \<Rightarrow> x)"

definition add_assertion :: "string \<Rightarrow> json_assertion \<Rightarrow> parsed_suite \<Rightarrow> parsed_suite" where
  "add_assertion file a ps =
     (let ident = file @ ''::'' @ with_default (with_default [] (ja_title a)) (ja_full_name a)
      in if ja_status a = Some ''passed'' then ps\<lparr>ps_tests := AList.update ident True (ps_tests ps)\<rparr>
         else if ja_status a = Some ''failed''
         then ps\<lparr>ps_tests := AList.update ident False (ps_tests ps),
                 ps_failures := AList.update ident (join line_feed (with_default [] (ja_failures a))) (ps_failures ps)\<rparr>
         else ps)"

definition add_file :: "json_test_file \<Rightarrow> parsed_suite \<Rightarrow> parsed_suite" where
  "add_file f ps =
     fold (add_assertion (replace_first (repo_path @ ''/'') [] (with_default [] (jf_name f))))
       (with_default [] (jf_results f)) ps"

definition parse_suite_json :: "json_report \<Rightarrow> parsed_suite" where
  "parse_suite_json report =
     (let ps = fold add_file (with_default [] (jr_files report)) \<lparr>ps_tests = [], ps_total = 0, ps_failures = []\<rparr>
      in ps\<lparr>ps_total := with_default (length (ps_tests ps)) (jr_total report)\<rparr>)"

record suite_run =
  sr_outcome :: outcome
  sr_command :: string
  sr_tests :: "statuses option"
  sr_total :: "nat option"
  sr_exit :: "int option"
  sr_output :: string
  sr_timed_out :: bool
  sr_truncated :: bool
  sr_failures :: "(string \<times> string) list option"

record suite_comparison =
  sc_baseline_failed :: "string list"
  sc_new_failures :: "string list"
  sc_missing_from_post :: "string list"
  sc_comparable :: bool

definition compare_suite_runs :: "suite_run option \<Rightarrow> suite_run \<Rightarrow> suite_comparison" where
  "compare_suite_runs baseline post =
     (case (sr_tests post, Option.bind baseline sr_tests) of
        (Some after, Some before) \<Rightarrow>
          \<lparr>sc_baseline_failed = map fst (filter (\<lambda>(i, ok). \<not> ok) before),
           sc_new_failures = map fst (filter (\<lambda>(i, ok). \<not> ok \<and> map_of before i \<noteq> Some False) after),
           sc_missing_from_post = map fst (filter (\<lambda>(i, ok). map_of after i = None) before),
           sc_comparable = True\<rparr>
      | _ \<Rightarrow>
          let coarse = (case baseline of None \<Rightarrow> False | Some b \<Rightarrow> sr_outcome b = Failed);
              passed = (sr_outcome post = Passed)
          in \<lparr>sc_baseline_failed = (if coarse then [''<suite>''] else []),
              sc_new_failures = (if \<not> passed \<and> \<not> coarse then [''<suite>''] else []),
              sc_missing_from_post = [], sc_comparable = passed\<rparr>)"

section \<open>A run of the suite\<close>

definition bound_output :: "string \<Rightarrow> string" where
  "bound_output raw = take_last max_suite_output (scrub_secrets raw)"

definition exited_re :: regex where
  "exited_re = cats [lit_i ''exited with code '', Cap 1 (plus (Cls is_digit))]"

definition failure_exit_code :: "fault \<Rightarrow> int option" where
  "failure_exit_code f =
     (case ft_exit f of
        Some c \<Rightarrow> Some c
      | None \<Rightarrow> (case js_match exited_re (ft_message f) of
                   None \<Rightarrow> None | Some m \<Rightarrow> Some (int (nat_of_digits (group_text m 1)))))"

definition failure_output :: "fault \<Rightarrow> string" where
  "failure_output f =
     (let detail = join line_feed (filter (\<lambda>p. p \<noteq> [])
                     [trim (with_default [] (ft_stderr f)), trim (with_default [] (ft_stdout f))])
      in if detail = [] then ft_message f else detail)"

definition says_timeout :: "string \<Rightarrow> bool" where
  "says_timeout m = (contains (to_lower m) ''timed out'' \<or> contains (to_lower m) ''timeout'')"

definition infra_run :: "string \<Rightarrow> string \<Rightarrow> suite_run" where
  "infra_run cmd out =
     \<lparr>sr_outcome = InfraError, sr_command = cmd, sr_tests = None, sr_total = None, sr_exit = None,
      sr_output = out, sr_timed_out = False, sr_truncated = False, sr_failures = None\<rparr>"

definition judge_pytest :: "runner_env \<Rightarrow> string \<Rightarrow> int \<Rightarrow> string \<Rightarrow> ('z, suite_run) run" where
  "judge_pytest env cmd code out =
     (if 1 < code then pure ((infra_run cmd out)\<lparr>sr_exit := Some code\<rparr>)
      else andthen (attempt (read_in env pytest_results_path)) (\<lambda>r.
        let parsed = (case r of
                        Inl _ \<Rightarrow> no_report
                      | Inr raw \<Rightarrow> parse_junit (re_code_point env) raw);
            verdict = (if code = 1 \<and> ju_outcome parsed = Passed then InfraError else ju_outcome parsed)
        in pure ((infra_run cmd out)\<lparr>sr_outcome := verdict, sr_tests := Some (ju_tests parsed),
                   sr_total := Some (ju_total parsed), sr_exit := Some code\<rparr>)))"

definition judge_vitest :: "runner_env \<Rightarrow> string \<Rightarrow> int \<Rightarrow> string \<Rightarrow> ('z, suite_run) run" where
  "judge_vitest env cmd code out =
     andthen (attempt (read_in env suite_results_path)) (\<lambda>r.
       let parsed = (case r of Inl _ \<Rightarrow> None | Inr raw \<Rightarrow> map_option parse_suite_json (re_report env raw))
       in pure (case parsed of
            None \<Rightarrow> (infra_run cmd out)\<lparr>sr_exit := Some code\<rparr>
          | Some ps \<Rightarrow>
              let base = (infra_run cmd out)\<lparr>sr_tests := Some (ps_tests ps), sr_total := Some (ps_total ps),
                           sr_exit := Some code\<rparr>;
                  any_failed = list_ex (\<lambda>(i, ok). \<not> ok) (ps_tests ps)
              in if ps_total ps = 0 \<or> ps_tests ps = []
                 then base\<lparr>sr_output := trim (''Zero executed tests. '' @ out)\<rparr>
                 else if code \<noteq> 0 \<and> \<not> any_failed
                 then base\<lparr>sr_output := trim (''Runner exited nonzero without a failed assertion. '' @ out)\<rparr>
                 else base\<lparr>sr_outcome := (if any_failed then Failed else Passed),
                          sr_failures := Some (ps_failures ps)\<rparr>))"

definition judge_run :: "runner_env \<Rightarrow> plan_kind \<Rightarrow> string \<Rightarrow> int \<Rightarrow> string \<Rightarrow> ('z, suite_run) run" where
  "judge_run env kind cmd code raw =
     (let out = bound_output raw
      in case kind of
           Pytest \<Rightarrow> judge_pytest env cmd code out
         | Vitest \<Rightarrow> judge_vitest env cmd code out
         | _ \<Rightarrow> pure ((infra_run cmd out)\<lparr>sr_outcome := (if code \<noteq> 0 then Failed else Passed),
                       sr_exit := Some code\<rparr>))"

definition run_suite :: "runner_env \<Rightarrow> test_plan \<Rightarrow> ('z, suite_run) run" where
  "run_suite env plan =
     (case (if tp_kind plan = NoRunner then None else truthy_str (tp_command plan)) of
        None \<Rightarrow> pure ((infra_run [] ''No test runner detected'')\<lparr>sr_outcome := SkippedNoRunner\<rparr>)
      | Some cmd \<Rightarrow>
          let cleanup = ''rm -f '' @ (if tp_kind plan = Pytest then pytest_results_path else suite_results_path)
          in andthen (attempt (run_in env cleanup 10000)) (\<lambda>cleaned.
            case cleaned of
              Inl e \<Rightarrow> pure (infra_run cleanup (bound_output (scrub_secrets (ft_message e))))
            | Inr _ \<Rightarrow>
                andthen (attempt (run_in env (''cd '' @ repo_path @ '' && '' @ cmd) suite_timeout_ms)) (\<lambda>r.
                  case r of
                    Inr ok \<Rightarrow> judge_run env (tp_kind plan) cmd (cr_exit ok) (cr_stdout ok @ line_feed @ cr_stderr ok)
                  | Inl e \<Rightarrow>
                      if ft_kind e = SandboxGone then pure (infra_run cmd (bound_output (scrub_secrets (ft_message e))))
                      else if says_timeout (ft_message e)
                      then pure ((infra_run cmd (bound_output (failure_output e)))\<lparr>sr_timed_out := True\<rparr>)
                      else judge_run env (tp_kind plan) cmd (with_default 1 (failure_exit_code e)) (failure_output e))))"

section \<open>The declared test\<close>

record declared_run =
  dr_runnable :: bool
  dr_reason :: "string option"
  dr_run :: "suite_run option"
  dr_message :: "string option"

definition not_runnable :: "string \<Rightarrow> suite_run option \<Rightarrow> declared_run" where
  "not_runnable why r = \<lparr>dr_runnable = False, dr_reason = Some why, dr_run = r, dr_message = None\<rparr>"

definition reported_as :: "string \<Rightarrow> string \<Rightarrow> bool" where
  "reported_as identifier i = (i = identifier \<or> ends_with i (''::'' @ identifier) \<or> contains i identifier)"

definition filtered_plan :: "test_plan \<Rightarrow> string \<Rightarrow> string list \<Rightarrow> string \<Rightarrow> test_plan" where
  "filtered_plan plan cmd files identifier =
     (if tp_kind plan = Pytest
      then \<lparr>tp_kind = Pytest, tp_command = Some (''python -m pytest '' @ shell_escape identifier
              @ '' --junit-xml='' @ pytest_results_path)\<rparr>
      else \<lparr>tp_kind = Vitest, tp_command = Some (cmd @ '' '' @ join '' '' (map shell_escape files)
              @ '' -t '' @ shell_escape identifier)\<rparr>)"

definition run_declared_test ::
  "runner_env \<Rightarrow> test_plan \<Rightarrow> string list \<Rightarrow> string \<Rightarrow> ('z, declared_run) run" where
  "run_declared_test env plan files identifier =
     (case (if tp_kind plan = NoRunner then None else truthy_str (tp_command plan)) of
        None \<Rightarrow> pure (not_runnable ''no_test_runner'' None)
      | Some cmd \<Rightarrow>
          if tp_kind plan = NpmScript then pure (not_runnable ''npm_script_not_filterable'' None)
          else if tp_kind plan = Pytest \<and> \<not> contains identifier ''::''
          then pure (not_runnable ''pytest_identifier_not_node_id'' None)
          else andthen (run_suite env (filtered_plan plan cmd files identifier)) (\<lambda>r. pure
            (case sr_tests r of
               None \<Rightarrow> not_runnable ''declared_test_report_unavailable'' (Some r)
             | Some tests \<Rightarrow>
                 (case find (reported_as identifier) (map fst tests) of
                    None \<Rightarrow> not_runnable ''declared_test_not_reported'' (Some r)
                  | Some i \<Rightarrow>
                      \<lparr>dr_runnable = True, dr_reason = None, dr_run = Some r,
                       dr_message = Some (with_default (sr_output r)
                         (Option.bind (sr_failures r) (\<lambda>fs. map_of fs i)))\<rparr>))))"

end
