(* ===== verification/VerificationLedger.thy ===== *)
theory VerificationLedger
  imports TestRunner
begin

text \<open>
  What the harness writes down about a fix attempt and the grade it derives from it: the ledger of
  executed commands and the tier (\<open>verification-ledger.ts\<close>), and the evidence checks with their tier
  (\<open>harness/evidence.ts\<close>).
\<close>

section \<open>The ledger\<close>

record ledger_row =
  le_seq :: nat
  le_command :: string
  le_commit :: string
  le_dirty :: bool
  le_discovered :: "nat option"
  le_passed :: "nat option"
  le_failed :: "nat option"
  le_skipped :: "nat option"
  le_truncated :: bool
  le_timed_out :: bool
  le_not_run :: "string list"

datatype ledger_role = SuiteBaseline | ReproRed | ReproGreen | SuitePostPatch | Build

record role_row =
  rl_seq :: nat
  rl_role :: ledger_role
  rl_matched :: "bool option"

record evidence_check =
  ch_name :: string
  ch_outcome :: outcome
  ch_command :: string
  ch_exit :: "int option"
  ch_tail :: string

text \<open>The state of a verification: the effects on the sandbox, the ledger, its roles, the checks.\<close>

record verification = sandbox_state +
  vr_rows :: "ledger_row list"
  vr_roles :: "role_row list"
  vr_checks :: "evidence_check list"
  vr_suite :: "(string list \<times> string list) option"

definition record_row :: "ledger_row \<Rightarrow> ledger_role \<Rightarrow> bool option \<Rightarrow> verification \<Rightarrow> verification" where
  "record_row row role matched s =
     (let n = length (vr_rows s) + 1
      in s\<lparr>vr_rows := vr_rows s @ [row\<lparr>le_seq := n, le_not_run := []\<rparr>],
           vr_roles := vr_roles s @ [\<lparr>rl_seq = n, rl_role = role, rl_matched = matched\<rparr>]\<rparr>)"

fun set_last :: "('a \<Rightarrow> 'a) \<Rightarrow> 'a list \<Rightarrow> 'a list" where
  "set_last f [] = []"
| "set_last f [x] = [f x]"
| "set_last f (x # xs) = x # set_last f xs"

definition finalize_not_run :: "string list \<Rightarrow> verification \<Rightarrow> verification" where
  "finalize_not_run checks s =
     s\<lparr>vr_rows := set_last (\<lambda>r. r\<lparr>le_not_run := checks\<rparr>) (map (\<lambda>r. r\<lparr>le_not_run := []\<rparr>) (vr_rows s))\<rparr>"

datatype tier = Reproduced | Checked | Attempted

record declared_contract =
  dc_identifier :: string
  dc_assertion :: string

record tier_input =
  ti_declared :: "declared_contract option"
  ti_impossible :: "string option"
  ti_red :: bool
  ti_green :: bool
  ti_new_failures :: "string list option"
  ti_discovered :: "nat option"
  ti_build :: "bool option"
  ti_quality :: "bool option"

definition derive_tier :: "tier_input \<Rightarrow> tier" where
  "derive_tier a =
     (let clean = (ti_new_failures a = Some []);
          reproduced = (ti_declared a \<noteq> None \<and> ti_red a \<and> ti_green a \<and> clean
            \<and> (case ti_discovered a of None \<Rightarrow> False | Some n \<Rightarrow> 0 < n));
          checked = (\<not> reproduced \<and> ti_declared a = None \<and> truthy_str (ti_impossible a) \<noteq> None \<and> clean
            \<and> ti_build a = Some True \<and> ti_quality a = Some True)
      in if reproduced then Reproduced else if checked then Checked else Attempted)"

section \<open>Anomalies\<close>

definition string_mark :: "char \<Rightarrow> bool" where
  "string_mark c = (c \<in> {CHR 0x27, CHR 0x22, CHR 0x60})"

definition in_line :: "char \<Rightarrow> bool" where
  "in_line c = (c \<noteq> CHR 0x0A \<and> c \<noteq> CHR 0x0D)"

definition test_literal_re :: regex where
  "test_literal_re = cats
     [WordEdge, alts [lit ''it'', lit ''test''], star (Cls is_space), lit ''('', star (Cls is_space),
      Cap 1 (Cls string_mark),
      Cap 2 (Rep False 1 None
        (Alt (Cat (Cls (\<lambda>c. c = CHR 0x5C)) (Cls in_line)) (Cat (Ahead False (Backref 1)) (Cls in_line)))),
      Backref 1]"

definition escaped_mark_re :: regex where
  "escaped_mark_re = Cat (Cls (\<lambda>c. c = CHR 0x5C)) (Cap 1 (Cls (\<lambda>c. string_mark c \<or> c = CHR 0x5C)))"

definition pytest_name_re :: regex where
  "pytest_name_re = cats [AtStart, lit ''test_'', plus (Cls (\<lambda>c. alnum c \<or> c = CHR ''_'')),
     opt (cats [lit ''['', star (Cls in_line), lit '']'']), AtEnd]"

definition bracket_tail_re :: regex where
  "bracket_tail_re = cats [lit ''['', star (Cls in_line), lit '']'', AtEnd]"

fun last_part :: "string \<Rightarrow> string \<Rightarrow> string" where
  "last_part cur [] = cur"
| "last_part cur (c # s) = (if starts_with (c # s) ''::'' then last_part [] (drop 1 s) else last_part (cur @ [c]) s)"

definition declared_identifier_grounded :: "string \<Rightarrow> string \<Rightarrow> bool" where
  "declared_identifier_grounded identifier material =
     (contains material identifier
      \<or> list_ex (\<lambda>m. let title = replace_all escaped_mark_re (\<lambda>k. group_text k 1) (group_text m 2)
                     in 8 \<le> length title \<and> ends_with identifier title)
          (matches_from test_literal_re 0 [] material)
      \<or> (let name = last_part [] identifier
         in js_test pytest_name_re name
            \<and> contains material
                (case js_match bracket_tail_re name of
                   None \<Rightarrow> name | Some m \<Rightarrow> take (length name - length (m_text m)) name)))"

definition test_material_res :: "regex list" where
  "test_material_res =
     [cats [lit_i ''.'', alts [lit_i ''test'', lit_i ''spec''], lit_i ''.''],
      cats [Alt AtStart (lit ''/''), lit_i ''__tests__'', lit ''/''],
      cats [Alt AtStart (lit ''/''), lit_i ''test'', opt (lit_i ''s''), lit ''/''],
      alts [lit_i ''conftest'', lit_i ''fixture'']]"

definition detect_anomalies ::
  "ledger_row list \<Rightarrow> declared_contract option \<Rightarrow> string list \<Rightarrow> string \<Rightarrow> string option \<Rightarrow> string list" where
  "detect_anomalies rows declared files diff source =
     (if list_ex le_truncated rows then [''ledger_output_truncated''] else [])
     @ (if list_ex le_timed_out rows then [''ledger_command_timed_out''] else [])
     @ (case declared of
          None \<Rightarrow> []
        | Some d \<Rightarrow>
            if declared_identifier_grounded (dc_identifier d) (diff @ line_feed @ with_default [] source)
            then [] else [''declared_test_identifier_not_found''])
     @ map (\<lambda>p. ''declared_file_not_test_material: '' @ p)
         (filter (\<lambda>p. \<not> list_ex (\<lambda>r. js_test r p) test_material_res) files)"

definition repro_checks_not_run :: "role_row list \<Rightarrow> string list" where
  "repro_checks_not_run roles =
     (if ReproRed \<in> rl_role ` set roles then [] else [''repro_red''])
     @ (if ReproGreen \<in> rl_role ` set roles then [] else [''repro_green''])"

section \<open>Evidence\<close>

definition max_output_tail :: nat where "max_output_tail = 2000"

definition add_check :: "string \<Rightarrow> outcome \<Rightarrow> string \<Rightarrow> int option \<Rightarrow> string \<Rightarrow> verification \<Rightarrow> verification" where
  "add_check name verdict cmd code out s =
     s\<lparr>vr_checks := vr_checks s @ [\<lparr>ch_name = name, ch_outcome = verdict, ch_command = cmd, ch_exit = code,
         ch_tail = take_last max_output_tail (scrub_secrets out)\<rparr>]\<rparr>"

datatype evidence_tier = E0 | E1 | E2

definition last_check :: "evidence_check list \<Rightarrow> string \<Rightarrow> outcome option" where
  "last_check cs name = map_option ch_outcome (find (\<lambda>c. ch_name c = name) (rev cs))"

definition compute_tier :: "evidence_check list \<Rightarrow> evidence_tier option" where
  "compute_tier cs =
     (let e0 = (last_check cs ''build'' = Some Passed);
          build_ok = (e0 \<or> last_check cs ''build'' = Some SkippedNoRunner);
          comparable = (last_check cs ''suite_baseline'' = Some Passed \<or> last_check cs ''suite_baseline'' = Some Failed);
          e1 = (build_ok \<and> comparable \<and> last_check cs ''suite_post_patch'' = Some Passed);
          e2 = (e1 \<and> last_check cs ''repro_red'' = Some Passed \<and> last_check cs ''repro_green'' = Some Passed
            \<and> last_check cs ''repro_reversal'' = Some Passed)
      in if e2 then Some E2 else if e1 then Some E1 else if e0 then Some E0 else None)"

definition bound_list :: "string list \<Rightarrow> string list" where
  "bound_list ids =
     (let scrubbed = map (\<lambda>i. take 300 (scrub_secrets i)) (take 50 ids)
      in if 50 < length ids then scrubbed @ [''... '' @ digits (length ids - 50) @ '' more''] else scrubbed)"

text \<open>The tests that failed before, and those that fail only now.\<close>

definition set_suite_comparison :: "string list \<Rightarrow> string list \<Rightarrow> verification \<Rightarrow> verification" where
  "set_suite_comparison failed_before fresh_failures s =
     s\<lparr>vr_suite := Some (bound_list failed_before, bound_list fresh_failures)\<rparr>"

record evidence_record =
  ev_tier :: "evidence_tier option"
  ev_checks :: "evidence_check list"
  ev_suite :: "(string list \<times> string list) option"

definition evidence_of :: "verification \<Rightarrow> evidence_record" where
  "evidence_of s = \<lparr>ev_tier = compute_tier (vr_checks s), ev_checks = vr_checks s, ev_suite = vr_suite s\<rparr>"

text \<open>The highest grade needs a check that the fix is the cause, under the name \<open>repro_reversal\<close>.\<close>

lemma top_tier_needs_reversal:
  "list_all (\<lambda>c. ch_name c \<noteq> ''repro_reversal'') cs \<Longrightarrow> compute_tier cs \<noteq> Some E2"
proof -
  assume "list_all (\<lambda>c. ch_name c \<noteq> ''repro_reversal'') cs"
  then have "last_check cs ''repro_reversal'' = None"
    by (auto simp: last_check_def list_all_iff find_None_iff)
  then show ?thesis by (simp add: compute_tier_def Let_def)
qed

end
