(* ===== verification/FailFirst.thy ===== *)
theory FailFirst
  imports VerificationLedger
begin

text \<open>
  The fail-first check of a fix (\<open>harness/fail-first.ts\<close>): the declared test is run on the base commit,
  where it must fail, and on the fix, where it must pass, and the candidate fix is put back whatever
  happens in between. The two commands that are started together are performed in their order.
\<close>

section \<open>The declaration\<close>

definition control_char :: "char \<Rightarrow> bool" where
  "control_char c = ((of_char c :: nat) < 32 \<or> (of_char c :: nat) = 127)"

definition escapes_repo :: "string \<Rightarrow> bool" where
  "escapes_repo path =
     (path = [] \<or> starts_with path ''/'' \<or> normalize path = ''..'' \<or> starts_with (normalize path) ''../''
      \<or> CHR 0x5C \<in> set path \<or> list_ex control_char path)"

definition validate_declaration :: "declared_test \<Rightarrow> string option" where
  "validate_declaration d =
     (if length (dt_files d) < 1 \<or> 5 < length (dt_files d)
      then Some ''contract_invalid: expected one to five declared files''
      else if list_ex escapes_repo (dt_files d)
      then Some ''contract_invalid: test file escapes the repository''
      else if dt_identifier d = [] \<or> 300 < length (dt_identifier d)
        \<or> list_ex (\<lambda>c. c = quote \<or> c = CHR 0x5C \<or> control_char c) (dt_identifier d)
      then Some ''contract_invalid: identifier contains unsafe characters''
      else if dt_assertion d = [] \<or> 500 < length (dt_assertion d) \<or> list_ex control_char (dt_assertion d)
      then Some ''contract_invalid: expected assertion contains unsafe characters''
      else None)"

definition non_execution_re :: regex where
  "non_execution_re = alts
     [lit_i ''cannot find module'', lit_i ''failed to resolve import'', lit_i ''failed to load url'',
      lit_i ''syntaxerror'', lit_i ''transform failed'', lit_i ''err_module_not_found'', lit_i ''importerror'',
      lit_i ''modulenotfounderror'', lit_i ''collection error'', lit_i ''no test files found'',
      cats [lit_i ''no test'', opt (lit_i ''s''), lit '' '', alts [lit_i ''found'', lit_i ''ran'']]]"

definition is_behavioral_failure :: "string option \<Rightarrow> bool" where
  "is_behavioral_failure m =
     (case truthy_str m of None \<Rightarrow> False | Some t \<Rightarrow> \<not> js_test non_execution_re t)"

section \<open>Steps\<close>

type_synonym 'a step = "(verification, fault, 'a) prog"

definition in_repo :: "string \<Rightarrow> string" where
  "in_repo cmd = ''cd '' @ repo_path @ '' && '' @ cmd"

definition checked_run :: "runner_env \<Rightarrow> string \<Rightarrow> real \<Rightarrow> string step" where
  "checked_run env cmd t =
     andthen (run_in env (in_repo cmd) t) (\<lambda>r.
       if cr_exit r \<noteq> 0
       then throw (plain_error (cmd @ '' failed: '' @ (if cr_stderr r = [] then cr_stdout r else cr_stderr r)))
       else pure (trim (cr_stdout r)))"

definition counts :: "suite_run \<Rightarrow> ledger_row \<Rightarrow> ledger_row" where
  "counts r row =
     (let ok = length (filter snd (with_default [] (sr_tests r)));
          bad = length (filter (Not \<circ> snd) (with_default [] (sr_tests r)))
      in row\<lparr>le_discovered := sr_total r,
             le_passed := (if sr_tests r = None then None else Some ok),
             le_failed := (if sr_tests r = None then None else Some bad),
             le_skipped := (case (sr_total r, sr_tests r) of (Some n, Some _) \<Rightarrow> Some (n - ok - bad) | _ \<Rightarrow> None),
             le_truncated := sr_truncated r, le_timed_out := sr_timed_out r\<rparr>)"

text \<open>The commit that is checked out, and whether tracked files differ from it.\<close>

definition instrument :: "runner_env \<Rightarrow> (string \<times> bool) step" where
  "instrument env =
     andthen (attempt (checked_run env ''git rev-parse HEAD'' 10000)) (\<lambda>sha.
       andthen (attempt (run_in env (in_repo ''git status --porcelain -uno'') 10000)) (\<lambda>st.
         case (sha, st) of
           (Inl e, _) \<Rightarrow> throw e
         | (_, Inl e) \<Rightarrow> throw e
         | (Inr c, Inr r) \<Rightarrow> pure (c, trim (cr_stdout r) \<noteq> [])))"

definition max_test_source :: nat where "max_test_source = 30000"

definition unreadable :: string where "unreadable = ''(unreadable)''"

fun source_at_fix :: "runner_env \<Rightarrow> string \<Rightarrow> string list \<Rightarrow> string \<Rightarrow> string step" where
  "source_at_fix env fix_sha [] source = pure source"
| "source_at_fix env fix_sha (p # ps) source =
     andthen (rescue (checked_run env (''git show '' @ shell_escape (fix_sha @ '':'' @ p)) 10000) (\<lambda>_. pure unreadable))
       (\<lambda>content.
         let source' = source @ ''--- '' @ p @ (if content = unreadable then '' (unreadable)'' else [])
               @ '' ---'' @ line_feed @ content @ line_feed
         in if max_test_source < length source'
            then pure (take max_test_source source' @ line_feed @ ''... [declared test source truncated]'')
            else source_at_fix env fix_sha ps source')"

record fail_first_input =
  fi_plan :: test_plan
  fi_base :: string
  fi_declared :: "declared_test option"
  fi_impossible :: "string option"

record fail_first_outcome =
  fo_red :: bool
  fo_green :: bool
  fo_violation :: "string option"
  fo_commit :: "string option"
  fo_source :: "string option"

text \<open>The variables that survive an exception.\<close>

record progress =
  pg_branch :: string
  pg_commit :: "string option"
  pg_source :: "string option"
  pg_red :: bool
  pg_green :: bool
  pg_violation :: "string option"

definition git_as_agent :: string where
  "git_as_agent = ''git -c user.email=fix@opslane.dev -c user.name=\"Opslane Fix Agent\" ''"

definition commit_command :: string where
  "commit_command =
     git_as_agent @ ''add -A && '' @ git_as_agent @ ''commit -m \"opslane: candidate fix\" --allow-empty''"

definition restore_command :: "string \<Rightarrow> string \<Rightarrow> string" where
  "restore_command branch sha =
     ''git checkout '' @ shell_escape branch @ '' && git reset --hard '' @ shell_escape sha @ '' && git clean -fd''"

definition absent_file :: string where
  "absent_file = ''contract_invalid: declared file is absent from the fix commit''"

definition require_file :: "runner_env \<Rightarrow> string \<Rightarrow> string \<Rightarrow> unit step" where
  "require_file env sha p =
     rescue (andthen (checked_run env (''git cat-file -e '' @ shell_escape (sha @ '':'' @ p)) 10000) (\<lambda>_. pure ()))
       (\<lambda>_. throw (plain_error absent_file))"

definition new_row :: "string \<Rightarrow> string \<times> bool \<Rightarrow> suite_run \<Rightarrow> ledger_row" where
  "new_row cmd ins r = counts r
     \<lparr>le_seq = 0, le_command = cmd, le_commit = fst ins, le_dirty = snd ins, le_discovered = None,
      le_passed = None, le_failed = None, le_skipped = None, le_truncated = False, le_timed_out = False,
      le_not_run = []\<rparr>"

definition red_violation :: "suite_run \<Rightarrow> bool \<Rightarrow> string option" where
  "red_violation r red =
     (if sr_timed_out r then Some ''infra: declared test timed out''
      else if red then None
      else if sr_outcome r = Failed
      then Some ''contract_violation: the declared test failed to execute on base''
      else Some ''contract_violation: declared test did not fail on base'')"

definition note_red :: "declared_test \<Rightarrow> string \<times> bool \<Rightarrow> declared_run \<Rightarrow> verification \<Rightarrow> verification" where
  "note_red d ins red s =
     (case dr_run red of
        None \<Rightarrow> s
      | Some r \<Rightarrow>
          add_check ''repro_red'' (sr_outcome r) (sr_command r) (sr_exit r) (with_default (sr_output r) (dr_message red))
            (record_row (new_row (sr_command r) ins r) ReproRed
               (Some (case dr_message red of None \<Rightarrow> False | Some m \<Rightarrow> contains m (dt_assertion d))) s))"

definition after_red :: "declared_run \<Rightarrow> progress \<Rightarrow> progress" where
  "after_red red pg =
     (case dr_run red of
        None \<Rightarrow> pg\<lparr>pg_violation := Some (''contract_violation: ''
                    @ with_default ''declared test could not run'' (dr_reason red))\<rparr>
      | Some r \<Rightarrow>
          let seen = (dr_runnable red \<and> sr_outcome r = Failed \<and> is_behavioral_failure (dr_message red))
          in pg\<lparr>pg_red := seen,
                pg_violation := (case red_violation r seen of None \<Rightarrow> pg_violation pg | Some v \<Rightarrow> Some v)\<rparr>)"

definition note_green :: "string \<times> bool \<Rightarrow> declared_run \<Rightarrow> verification \<Rightarrow> verification" where
  "note_green ins green s =
     (case dr_run green of
        None \<Rightarrow> s
      | Some r \<Rightarrow>
          add_check ''repro_green'' (sr_outcome r) (sr_command r) (sr_exit r) (sr_output r)
            (record_row (new_row (sr_command r) ins r) ReproGreen None s))"

definition after_green :: "declared_run \<Rightarrow> progress \<Rightarrow> progress" where
  "after_green green pg =
     (case dr_run green of
        None \<Rightarrow> (if truthy_str (pg_violation pg) = None
                 then pg\<lparr>pg_violation := Some (''contract_violation: ''
                        @ with_default ''declared test could not run with the fix'' (dr_reason green))\<rparr>
                 else pg)
      | Some r \<Rightarrow>
          let seen = (dr_runnable green \<and> sr_outcome r = Passed)
          in pg\<lparr>pg_green := seen,
                pg_violation := (if \<not> seen \<and> truthy_str (pg_violation pg) = None
                   then Some (''contract_violation: ''
                          @ with_default ''declared test did not pass with the fix'' (dr_reason green))
                   else pg_violation pg)\<rparr>)"

section \<open>The check\<close>

text \<open>
  The body of the \<open>try\<close>, in the order of its assignments: a step that throws leaves the variables
  as they were, so each part hands them on, and an exception comes with them.
\<close>

type_synonym 'a guarded = "(verification, fault \<times> progress, 'a) prog"

definition carrying :: "progress \<Rightarrow> 'a step \<Rightarrow> 'a guarded" where
  "carrying pg m s = (case m s of (Inl e, t) \<Rightarrow> (Inl (e, pg), t) | (Inr a, t) \<Rightarrow> (Inr a, t))"

definition red_phase :: "runner_env \<Rightarrow> test_plan \<Rightarrow> string \<Rightarrow> string \<Rightarrow> declared_test \<Rightarrow> progress \<Rightarrow> progress step" where
  "red_phase env plan base sha d pg =
     andthen (checked_run env (''git checkout -B opslane-repro '' @ shell_escape base) 30000) (\<lambda>_.
     andthen (checked_run env (''git checkout '' @ shell_escape sha @ '' -- ''
                @ join '' '' (map shell_escape (dt_files d))) 30000) (\<lambda>_.
     andthen (instrument env) (\<lambda>ins.
     andthen (run_declared_test env plan (dt_files d) (dt_identifier d)) (\<lambda>red.
     andthen (modify (note_red d ins red)) (\<lambda>_.
       pure (after_red red pg))))))"

definition green_phase :: "runner_env \<Rightarrow> test_plan \<Rightarrow> declared_test \<Rightarrow> progress \<Rightarrow> progress step" where
  "green_phase env plan d pg =
     andthen (checked_run env (''git checkout '' @ shell_escape (pg_branch pg)) 30000) (\<lambda>_.
     andthen (instrument env) (\<lambda>ins.
     andthen (run_declared_test env plan (dt_files d) (dt_identifier d)) (\<lambda>green.
     andthen (modify (note_green ins green)) (\<lambda>_.
       pure (after_green green pg)))))"

definition verify_fix :: "runner_env \<Rightarrow> test_plan \<Rightarrow> string \<Rightarrow> declared_test \<Rightarrow> progress \<Rightarrow> progress guarded" where
  "verify_fix env plan base d pg =
     andthen (carrying pg (checked_run env ''git rev-parse --abbrev-ref HEAD'' 30000)) (\<lambda>branch.
     let pg1 = pg\<lparr>pg_branch := branch\<rparr> in
     andthen (carrying pg1 (andthen (checked_run env commit_command 30000)
                (\<lambda>_. checked_run env ''git rev-parse HEAD'' 30000))) (\<lambda>sha.
     let pg2 = pg1\<lparr>pg_commit := Some sha\<rparr> in
     andthen (carrying pg2 (each (require_file env sha) (dt_files d))) (\<lambda>_.
     andthen (carrying pg2 (source_at_fix env sha (dt_files d) [])) (\<lambda>source.
     let pg3 = pg2\<lparr>pg_source := Some source\<rparr> in
     andthen (carrying pg3 (red_phase env plan base sha d pg3)) (\<lambda>pg4.
       carrying pg4 (green_phase env plan d pg4))))))"

text \<open>The \<open>catch\<close>: the fault that goes on, if any, and the variables.\<close>

definition after_body :: "fault \<times> progress + progress \<Rightarrow> fault option \<times> progress" where
  "after_body r =
     (case r of
        Inr pg \<Rightarrow> (None, pg)
      | Inl (e, pg) \<Rightarrow>
          if ft_kind e \<noteq> SandboxGone \<and> starts_with (ft_message e) ''contract_invalid:''
          then (None, pg\<lparr>pg_violation := Some (ft_message e)\<rparr>) else (Some e, pg))"

text \<open>The \<open>finally\<close>: the fault of the restoration replaces the one under way.\<close>

definition restore :: "runner_env \<Rightarrow> progress \<Rightarrow> unit step" where
  "restore env pg =
     (case truthy_str (pg_commit pg) of
        None \<Rightarrow> pure ()
      | Some sha \<Rightarrow>
          if pg_branch pg = [] then pure ()
          else rescue (andthen (checked_run env (restore_command (pg_branch pg) sha) 30000) (\<lambda>_. pure ()))
                 (\<lambda>e. if ft_kind e = SandboxGone then throw e
                      else throw \<lparr>ft_kind = VerificationInfra,
                        ft_message = ''Could not restore the candidate fix after fail-first verification: '' @ ft_message e,
                        ft_exit = None, ft_stdout = None, ft_stderr = None\<rparr>))"

definition fresh_progress :: progress where
  "fresh_progress = \<lparr>pg_branch = [], pg_commit = None, pg_source = None, pg_red = False, pg_green = False,
     pg_violation = None\<rparr>"

definition skipped_outcome :: "string option \<Rightarrow> fail_first_outcome" where
  "skipped_outcome v = \<lparr>fo_red = False, fo_green = False, fo_violation = v, fo_commit = None, fo_source = None\<rparr>"

definition outcome_of :: "progress \<Rightarrow> fail_first_outcome" where
  "outcome_of pg = \<lparr>fo_red = pg_red pg, fo_green = pg_green pg, fo_violation = pg_violation pg,
     fo_commit = pg_commit pg, fo_source = pg_source pg\<rparr>"

definition run_fail_first :: "runner_env \<Rightarrow> fail_first_input \<Rightarrow> fail_first_outcome step" where
  "run_fail_first env inp s =
     (case fi_declared inp of
        None \<Rightarrow>
          (Inr (skipped_outcome (if truthy_str (fi_impossible inp) \<noteq> None then None
                  else Some ''contract_missing: no reproduction declaration'')),
           finalize_not_run [''repro_red'', ''repro_green''] s)
      | Some d \<Rightarrow>
          (case validate_declaration d of
             Some v \<Rightarrow> (Inr (skipped_outcome (Some v)), finalize_not_run [''repro_red'', ''repro_green''] s)
           | None \<Rightarrow>
               (case verify_fix env (fi_plan inp) (fi_base inp) d fresh_progress s of
                  (r, t) \<Rightarrow>
                    (case after_body r of
                       (fault, pg) \<Rightarrow>
                         andthen (restore env pg)
                           (\<lambda>_. case fault of Some e \<Rightarrow> throw e | None \<Rightarrow> pure (outcome_of pg)) t))))"

end
