(* ===== verification/FailFirstSafety.thy ===== *)
theory FailFirstSafety
  imports FailFirst
begin

text \<open>
  The effects of the fail-first check: which steps act on the sandbox alone, and that the candidate
  fix is put back whenever the working tree was touched.
\<close>

section \<open>Effects\<close>

definition touches_tree :: "effect \<Rightarrow> bool" where
  "touches_tree e = (case e of Command c _ \<Rightarrow> starts_with c (in_repo ''git checkout'') | _ \<Rightarrow> False)"

definition calm :: "effect list \<Rightarrow> verification \<Rightarrow> bool" where
  "calm es s \<longleftrightarrow> (\<exists>new. ss_effects s = es @ new \<and> list_all (Not \<circ> touches_tree) new)"

definition started_from :: "effect list \<Rightarrow> verification \<Rightarrow> bool" where
  "started_from es s \<longleftrightarrow> (\<exists>new. ss_effects s = es @ new)"

lemma meets_run_in:
  "(\<And>s a. P s \<Longrightarrow> re_run env (ss_effects s) cmd t = Inr a \<Longrightarrow> Q a (s\<lparr>ss_effects := ss_effects s @ [Command cmd t]\<rparr>)) \<Longrightarrow>
   (\<And>s e. P s \<Longrightarrow> E e (s\<lparr>ss_effects := ss_effects s @ [Command cmd t]\<rparr>)) \<Longrightarrow> meets P (run_in env cmd t) Q E"
  by (simp add: meets_def run_in_def split: sum.split)

lemma meets_read_in:
  "(\<And>s a. P s \<Longrightarrow> Q a (s\<lparr>ss_effects := ss_effects s @ [FileRead p]\<rparr>)) \<Longrightarrow>
   (\<And>s e. P s \<Longrightarrow> E e (s\<lparr>ss_effects := ss_effects s @ [FileRead p]\<rparr>)) \<Longrightarrow> meets P (read_in env p) Q E"
  by (simp add: meets_def read_in_def split: sum.split)

lemma meets_checked_run:
  assumes "\<And>s r. P s \<Longrightarrow> re_run env (ss_effects s) (in_repo cmd) t = Inr r \<Longrightarrow> cr_exit r = 0 \<Longrightarrow>
      Q (trim (cr_stdout r)) (s\<lparr>ss_effects := ss_effects s @ [Command (in_repo cmd) t]\<rparr>)"
    and "\<And>s e. P s \<Longrightarrow> E e (s\<lparr>ss_effects := ss_effects s @ [Command (in_repo cmd) t]\<rparr>)"
  shows "meets P (checked_run env cmd t) Q E"
  using assms
  by (simp add: meets_def checked_run_def andthen_def run_in_def throw_def pure_def split: sum.split)

lemma meets_carrying:
  "meets P m Q (\<lambda>e. E (e, pg)) \<Longrightarrow> meets P (carrying pg m) Q E"
  unfolding meets_def carrying_def by (fastforce split: prod.splits sum.splits)

text \<open>Programs that only act on the sandbox.\<close>

definition sandbox_only :: "(verification, 'e, 'a) prog \<Rightarrow> bool" where
  "sandbox_only m \<longleftrightarrow> (\<forall>es rows roles cs.
     keeps_always (\<lambda>s. started_from es s \<and> vr_rows s = rows \<and> vr_roles s = roles \<and> vr_checks s = cs) m)"

named_theorems sandbox_rules \<open>programs that only act on the sandbox\<close>

lemma sandbox_only_basic [sandbox_rules]:
  "sandbox_only (pure a)" "sandbox_only (throw e)"
  "sandbox_only m \<Longrightarrow> (\<And>a. sandbox_only (g a)) \<Longrightarrow> sandbox_only (andthen m g)"
  "sandbox_only m \<Longrightarrow> sandbox_only (attempt m)"
  "sandbox_only n \<Longrightarrow> (\<And>e. sandbox_only (h e)) \<Longrightarrow> sandbox_only (rescue n h)"
  "(\<And>x. sandbox_only (f x)) \<Longrightarrow> sandbox_only (each f xs)"
  unfolding sandbox_only_def by (blast intro: keeps_always_rules keeps_always_rescue keeps_always_each)+

lemma started_from_snoc: "started_from es s \<Longrightarrow> started_from es (s\<lparr>ss_effects := ss_effects s @ x\<rparr>)"
  by (auto simp: started_from_def)

lemma sandbox_only_effects [sandbox_rules]:
  "sandbox_only (run_in env cmd t)" "sandbox_only (read_in env p)" "sandbox_only (checked_run env c u)"
  unfolding sandbox_only_def keeps_always_def
  by (auto intro!: meets_run_in meets_read_in meets_checked_run started_from_snoc)

lemma sandbox_only_if [sandbox_rules]:
  "sandbox_only m \<Longrightarrow> sandbox_only n \<Longrightarrow> sandbox_only (if b then m else n)"
  "(x = None \<Longrightarrow> sandbox_only k) \<Longrightarrow> (\<And>y. x = Some y \<Longrightarrow> sandbox_only (g y)) \<Longrightarrow>
     sandbox_only (case x of None \<Rightarrow> k | Some y \<Rightarrow> g y)"
  "(\<And>e. sandbox_only (h e)) \<Longrightarrow> (\<And>a. sandbox_only (j a)) \<Longrightarrow> sandbox_only (case r of Inl e \<Rightarrow> h e | Inr a \<Rightarrow> j a)"
  by (auto split: option.split sum.split)

lemma sandbox_only_judge [sandbox_rules]: "sandbox_only (judge_run env kind cmd code raw)"
  unfolding judge_run_def judge_pytest_def judge_vitest_def Let_def
  by (cases kind) (auto intro!: sandbox_rules)

lemma sandbox_only_suite [sandbox_rules]: "sandbox_only (run_suite env plan)"
  unfolding run_suite_def Let_def by (intro sandbox_rules)

lemma sandbox_only_declared [sandbox_rules]: "sandbox_only (run_declared_test env plan files i)"
  unfolding run_declared_test_def by (intro sandbox_rules)

lemma sandbox_only_instrument [sandbox_rules]: "sandbox_only (instrument env)"
  unfolding instrument_def
  by (intro sandbox_rules) (auto split: sum.split prod.split intro: sandbox_rules)

lemma sandbox_only_source [sandbox_rules]: "sandbox_only (source_at_fix env sha ps src)"
  by (induction ps arbitrary: src) (auto simp: Let_def intro!: sandbox_rules)

lemma sandbox_only_require [sandbox_rules]: "sandbox_only (require_file env sha p)"
  unfolding require_file_def by (intro sandbox_rules)

section \<open>The candidate is put back\<close>

text \<open>Git answers its two questions with a name: the output of neither is blank.\<close>

definition git_names :: "runner_env \<Rightarrow> bool" where
  "git_names env \<longleftrightarrow>
     (\<forall>es r. re_run env es (in_repo ''git rev-parse --abbrev-ref HEAD'') 30000 = Inr r \<and> cr_exit r = 0 \<longrightarrow> trim (cr_stdout r) \<noteq> [])
     \<and> (\<forall>es r. re_run env es (in_repo ''git rev-parse HEAD'') 30000 = Inr r \<and> cr_exit r = 0 \<longrightarrow> trim (cr_stdout r) \<noteq> [])"

definition committed :: "progress \<Rightarrow> bool" where
  "committed pg \<longleftrightarrow> pg_branch pg \<noteq> [] \<and> truthy_str (pg_commit pg) \<noteq> None"

lemma calm_snoc: "calm es s \<Longrightarrow> \<not> touches_tree e \<Longrightarrow> calm es (s\<lparr>ss_effects := ss_effects s @ [e]\<rparr>)"
  by (auto simp: calm_def)

lemma calm_checked_run:
  "\<not> touches_tree (Command (in_repo cmd) t) \<Longrightarrow>
   meets (calm es) (checked_run env cmd t) (\<lambda>_. calm es) (\<lambda>_. calm es)"
  by (intro meets_checked_run calm_snoc)

lemma calm_name:
  assumes "git_names env" "cmd \<in> {''git rev-parse --abbrev-ref HEAD'', ''git rev-parse HEAD''}"
  shows "meets (calm es) (checked_run env cmd 30000) (\<lambda>x s. calm es s \<and> x \<noteq> []) (\<lambda>_. calm es)"
proof -
  have "\<not> touches_tree (Command (in_repo cmd) 30000)"
    using assms(2) by (auto simp: touches_tree_def in_repo_def repo_path_def starts_with_def)
  with assms show ?thesis
    by (intro meets_checked_run conjI calm_snoc) (auto simp: git_names_def)
qed

lemma after_red_fields [simp]:
  "pg_branch (after_red red pg) = pg_branch pg" "pg_commit (after_red red pg) = pg_commit pg"
  by (simp_all add: after_red_def Let_def split: option.split)

lemma after_green_fields [simp]:
  "pg_branch (after_green g pg) = pg_branch pg" "pg_commit (after_green g pg) = pg_commit pg"
  "pg_red (after_green g pg) = pg_red pg"
  by (simp_all add: after_green_def Let_def split: option.split)

lemma red_phase_progress:
  "meets P (red_phase env plan base sha d pg) (\<lambda>pg' _. pg_branch pg' = pg_branch pg \<and> pg_commit pg' = pg_commit pg) (\<lambda>_ _. True)"
  unfolding red_phase_def by (intro meets_andthen [OF meets_any] meets_pure) simp

lemma green_phase_progress:
  "meets P (green_phase env plan d pg)
     (\<lambda>pg' _. pg_branch pg' = pg_branch pg \<and> pg_commit pg' = pg_commit pg \<and> pg_red pg' = pg_red pg) (\<lambda>_ _. True)"
  unfolding green_phase_def by (intro meets_andthen [OF meets_any] meets_pure) simp

lemma restore_nothing: "\<not> committed pg \<Longrightarrow> restore env pg t = (Inr (), t)"
  by (auto simp: restore_def committed_def pure_def split: option.split)

lemma after_body_progress:
  "pg_branch (snd (after_body r)) = pg_branch (case r of Inl (e, pg) \<Rightarrow> pg | Inr pg \<Rightarrow> pg)"
  "pg_commit (snd (after_body r)) = pg_commit (case r of Inl (e, pg) \<Rightarrow> pg | Inr pg \<Rightarrow> pg)"
  by (auto simp: after_body_def split: sum.split prod.split)

lemma carrying_keeps: "keeps_always I m \<Longrightarrow> keeps_always I (carrying pg m)"
  unfolding keeps_always_def by (rule meets_carrying)

lemma sandbox_only_started:
  assumes "sandbox_only m"
  shows "keeps_always (started_from es) m"
  unfolding keeps_always_def meets_def
proof (intro allI impI)
  fix s
  assume "started_from es s"
  with assms [unfolded sandbox_only_def keeps_always_def meets_def, rule_format, of es s "vr_rows s" "vr_roles s" "vr_checks s"]
  show "case m s of (Inl e, t) \<Rightarrow> started_from es t | (Inr a, t) \<Rightarrow> started_from es t"
    by (simp split: prod.splits sum.splits)
qed

lemma started_from_notes:
  "started_from es s \<Longrightarrow> started_from es (note_red d ins red s)"
  "started_from es s \<Longrightarrow> started_from es (note_green ins green s)"
  by (simp_all add: started_from_def note_red_def note_green_def add_check_def record_row_def Let_def split: option.split)

text \<open>
  The candidate fix: the branch git names in the starting state, and the commit git names right
  after the working tree has been committed on it.
\<close>

definition candidate_made :: "runner_env \<Rightarrow> verification \<Rightarrow> string \<Rightarrow> string \<Rightarrow> verification \<Rightarrow> bool" where
  "candidate_made env s branch sha s3 \<longleftrightarrow>
     (\<exists>s1 s2 out. checked_run env ''git rev-parse --abbrev-ref HEAD'' 30000 s = (Inr branch, s1)
        \<and> checked_run env commit_command 30000 s1 = (Inr out, s2)
        \<and> checked_run env ''git rev-parse HEAD'' 30000 s2 = (Inr sha, s3)
        \<and> branch \<noteq> [] \<and> sha \<noteq> [])"

text \<open>Everything that happens once the candidate is made extends its effects.\<close>

definition after_candidate :: "runner_env \<Rightarrow> verification \<Rightarrow> string \<Rightarrow> string \<Rightarrow> verification \<Rightarrow> bool" where
  "after_candidate env s branch sha t \<longleftrightarrow>
     (\<exists>s3. candidate_made env s branch sha s3 \<and> started_from (ss_effects s3) t)"

text \<open>The variables of the check name the candidate.\<close>

definition names_candidate :: "runner_env \<Rightarrow> verification \<Rightarrow> progress \<Rightarrow> verification \<Rightarrow> bool" where
  "names_candidate env s pg t \<longleftrightarrow>
     (\<exists>sha. pg_commit pg = Some sha \<and> after_candidate env s (pg_branch pg) sha t)"

lemma names_candidateI:
  "after_candidate env s b sha t \<Longrightarrow> pg_branch pg = b \<Longrightarrow> pg_commit pg = Some sha \<Longrightarrow> names_candidate env s pg t"
  by (auto simp: names_candidate_def)

lemma meets_run: "meets (\<lambda>x. x = s) m (\<lambda>a t. m s = (Inr a, t)) (\<lambda>e t. m s = (Inl e, t))"
  by (simp add: meets_def split: prod.split sum.split)

lemma after_candidate_keeps:
  assumes "\<And>es. keeps_always (started_from es) m"
  shows "keeps_always (after_candidate env s b sha) m"
  unfolding keeps_always_def after_candidate_def
proof (intro meets_ex)
  fix s3
  show "meets (\<lambda>t. candidate_made env s b sha s3 \<and> started_from (ss_effects s3) t) m
      (\<lambda>_ t. \<exists>s3. candidate_made env s b sha s3 \<and> started_from (ss_effects s3) t)
      (\<lambda>_ t. \<exists>s3. candidate_made env s b sha s3 \<and> started_from (ss_effects s3) t)"
  proof (cases "candidate_made env s b sha s3")
    case True
    then show ?thesis
      using assms [of "ss_effects s3"] by (auto simp: keeps_always_def elim!: meets_weaken)
  qed (simp add: meets_def)
qed

lemma red_phase_started: "keeps_always (started_from es) (red_phase env plan base sha d pg)"
  unfolding red_phase_def
  by (intro keeps_always_rules sandbox_only_started sandbox_rules started_from_notes)

lemma green_phase_started: "keeps_always (started_from es) (green_phase env plan d pg)"
  unfolding green_phase_def
  by (intro keeps_always_rules sandbox_only_started sandbox_rules started_from_notes)

text \<open>A guarded step after the commit: the variables name the candidate, whether it throws or not.\<close>

lemma candidate_step:
  assumes "\<And>es. keeps_always (started_from es) m" "pg_branch pg = b" "pg_commit pg = Some sha"
    and "meets (\<lambda>_. True) m (\<lambda>a _. R a) (\<lambda>_ _. True)"
  shows "meets (after_candidate env s b sha) (carrying pg m) (\<lambda>a t. after_candidate env s b sha t \<and> R a)
    (\<lambda>(e, pg) t. (calm es t \<and> \<not> committed pg) \<or> names_candidate env s pg t)"
  by (rule meets_carrying, rule meets_weaken [OF meets_conj [OF
        after_candidate_keeps [OF assms(1), unfolded keeps_always_def] assms(4)]])
    (auto intro: names_candidateI assms(2,3))

lemma candidate_sandbox_step:
  assumes "sandbox_only m" "pg_branch pg = b" "pg_commit pg = Some sha"
  shows "meets (after_candidate env s b sha) (carrying pg m) (\<lambda>_. after_candidate env s b sha)
    (\<lambda>(e, pg) t. (calm es t \<and> \<not> committed pg) \<or> names_candidate env s pg t)"
  using candidate_step [OF sandbox_only_started [OF assms(1)] assms(2,3) meets_any] by simp

text \<open>The first three commands: the branch, the commit of the candidate, its name.\<close>

definition on_branch :: "runner_env \<Rightarrow> verification \<Rightarrow> string \<Rightarrow> verification \<Rightarrow> bool" where
  "on_branch env s b s1 \<longleftrightarrow>
     checked_run env ''git rev-parse --abbrev-ref HEAD'' 30000 s = (Inr b, s1) \<and> b \<noteq> [] \<and> calm (ss_effects s) s1"

definition on_commit :: "runner_env \<Rightarrow> verification \<Rightarrow> string \<Rightarrow> verification \<Rightarrow> bool" where
  "on_commit env s b s2 \<longleftrightarrow>
     calm (ss_effects s) s2
     \<and> (\<exists>s1 out. on_branch env s b s1 \<and> checked_run env commit_command 30000 s1 = (Inr out, s2))"

lemma branch_is_asked:
  assumes "git_names env"
  shows "meets (\<lambda>x. x = s) (checked_run env ''git rev-parse --abbrev-ref HEAD'' 30000)
    (on_branch env s) (\<lambda>_. calm (ss_effects s))"
  using meetsD [OF calm_name [OF assms, of "''git rev-parse --abbrev-ref HEAD''" "ss_effects s"], of s]
  by (auto simp: meets_def on_branch_def calm_def split: prod.split sum.split)

lemma candidate_is_committed:
  "meets (on_branch env s b) (checked_run env commit_command 30000) (\<lambda>_. on_commit env s b) (\<lambda>_. calm (ss_effects s))"
proof -
  have "\<not> touches_tree (Command (in_repo commit_command) 30000)"
    by (simp add: touches_tree_def in_repo_def repo_path_def starts_with_def commit_command_def git_as_agent_def)
  note calm = meetsD [OF calm_checked_run [OF this, of "ss_effects s" env]]
  show ?thesis
    unfolding meets_def
  proof (intro allI impI)
    fix s1
    assume s1: "on_branch env s b s1"
    then have "calm (ss_effects s) s1" by (simp add: on_branch_def)
    with s1 calm [of s1] show "case checked_run env commit_command 30000 s1 of
        (Inl e, t) \<Rightarrow> calm (ss_effects s) t | (Inr a, t) \<Rightarrow> on_commit env s b t"
      by (fastforce simp: on_commit_def split: prod.split sum.split)
  qed
qed

lemma commit_is_asked:
  assumes "git_names env"
  shows "meets (on_commit env s b) (checked_run env ''git rev-parse HEAD'' 30000)
    (candidate_made env s b) (\<lambda>_. calm (ss_effects s))"
  unfolding meets_def
proof (intro allI impI)
  fix s2
  assume s2: "on_commit env s b s2"
  then have "calm (ss_effects s) s2" by (simp add: on_commit_def)
  with s2 meetsD [OF calm_name [OF assms, of "''git rev-parse HEAD''" "ss_effects s"], of s2]
  show "case checked_run env ''git rev-parse HEAD'' 30000 s2 of
      (Inl e, t) \<Rightarrow> calm (ss_effects s) t | (Inr a, t) \<Rightarrow> candidate_made env s b a t"
    by (fastforce simp: on_commit_def on_branch_def candidate_made_def split: prod.split sum.split)
qed

lemma verify_fix_names_candidate:
  assumes "git_names env"
  shows "meets (\<lambda>x. x = s) (verify_fix env plan base d fresh_progress) (names_candidate env s)
    (\<lambda>(e, pg) t. (calm (ss_effects s) t \<and> \<not> committed pg) \<or> names_candidate env s pg t)"
  unfolding verify_fix_def Let_def
proof (intro meets_andthen)
  let ?E = "\<lambda>(e :: fault, pg) t. (calm (ss_effects s) t \<and> \<not> committed pg) \<or> names_candidate env s pg t"
  let ?pg1 = "\<lambda>b. fresh_progress\<lparr>pg_branch := b\<rparr>"
  let ?pg2 = "\<lambda>b sha. fresh_progress\<lparr>pg_branch := b, pg_commit := Some sha\<rparr>"
  let ?pg3 = "\<lambda>b sha src. fresh_progress\<lparr>pg_branch := b, pg_commit := Some sha, pg_source := Some src\<rparr>"
  note quiet = sandbox_only_started sandbox_rules
  show "meets (\<lambda>x. x = s) (carrying fresh_progress (checked_run env ''git rev-parse --abbrev-ref HEAD'' 30000))
      (on_branch env s) ?E"
    by (intro meets_carrying meets_weaken [OF branch_is_asked [OF assms]]) (auto simp: committed_def truthy_str_def fresh_progress_def)
  fix b
  show "meets (on_branch env s b) (carrying (?pg1 b) (andthen (checked_run env commit_command 30000)
      (\<lambda>_. checked_run env ''git rev-parse HEAD'' 30000))) (after_candidate env s b) ?E"
    by (intro meets_carrying meets_weaken
        [OF meets_andthen [OF candidate_is_committed commit_is_asked [OF assms]]])
      (auto simp: after_candidate_def started_from_def committed_def truthy_str_def fresh_progress_def)
  fix sha
  show "meets (after_candidate env s b sha) (carrying (?pg2 b sha) (each (require_file env sha) (dt_files d)))
      (\<lambda>_. after_candidate env s b sha) ?E"
    by (rule candidate_sandbox_step) (intro sandbox_rules, simp_all)
  show "meets (after_candidate env s b sha) (carrying (?pg2 b sha) (source_at_fix env sha (dt_files d) []))
      (\<lambda>_. after_candidate env s b sha) ?E"
    by (rule candidate_sandbox_step) (intro sandbox_rules, simp_all)
  fix src
  show "meets (after_candidate env s b sha)
      (carrying (?pg3 b sha src) (red_phase env plan base sha d (?pg3 b sha src)))
      (\<lambda>pg t. after_candidate env s b sha t \<and> pg_branch pg = b \<and> pg_commit pg = Some sha) ?E"
    by (rule candidate_step [OF red_phase_started], simp, simp, rule meets_weaken [OF red_phase_progress [where P = "\<lambda>_. True"]]) simp_all
  fix pg4
  show "meets (\<lambda>t. after_candidate env s b sha t \<and> pg_branch pg4 = b \<and> pg_commit pg4 = Some sha)
      (carrying pg4 (green_phase env plan d pg4)) (names_candidate env s) ?E"
  proof (cases "pg_branch pg4 = b \<and> pg_commit pg4 = Some sha")
    case True
    have "meets (after_candidate env s b sha) (carrying pg4 (green_phase env plan d pg4))
        (\<lambda>pg t. after_candidate env s b sha t \<and> pg_branch pg = b \<and> pg_commit pg = Some sha) ?E"
      using True by (intro candidate_step [OF green_phase_started]; simp?) (rule meets_weaken [OF green_phase_progress [where P = "\<lambda>_. True"]], simp_all)
    then show ?thesis by (rule meets_weaken) (auto intro: names_candidateI)
  next
    case False
    then show ?thesis unfolding meets_def by blast
  qed
qed

text \<open>The restoration runs its command; when it returns, the command succeeded.\<close>

lemma restore_runs:
  assumes "pg_branch pg \<noteq> []" "pg_commit pg = Some sha" "sha \<noteq> []" "restore env pg t = (r, u)"
  shows "ss_effects u = ss_effects t @ [Command (in_repo (restore_command (pg_branch pg) sha)) 30000]"
    and "r = Inr () \<Longrightarrow> \<exists>c. re_run env (ss_effects t) (in_repo (restore_command (pg_branch pg) sha)) 30000 = Inr c \<and> cr_exit c = 0"
  using assms
  by (auto simp: restore_def truthy_str_def rescue_def attempt_def andthen_def checked_run_def run_in_def
      pure_def throw_def split: sum.splits prod.splits if_splits)

lemma candidate_restored:
  assumes "names_candidate env s pg t"
    and run: "andthen (restore env pg) (\<lambda>_. case fault of Some e \<Rightarrow> throw e | None \<Rightarrow> pure (outcome_of pg)) t = (x, u)"
  shows "\<exists>branch sha s3 between. candidate_made env s branch sha s3
         \<and> ss_effects u = ss_effects s3 @ between @ [Command (in_repo (restore_command branch sha)) 30000]
         \<and> (case x of
              Inl e \<Rightarrow> True
            | Inr o' \<Rightarrow> fo_commit o' = Some sha
                \<and> (\<exists>r. re_run env (ss_effects s3 @ between) (in_repo (restore_command branch sha)) 30000 = Inr r
                      \<and> cr_exit r = 0))"
proof -
  obtain sha s3 where sha: "pg_commit pg = Some sha" "candidate_made env s (pg_branch pg) sha s3"
      "started_from (ss_effects s3) t"
    using assms(1) by (auto simp: names_candidate_def after_candidate_def)
  then obtain between where t: "ss_effects t = ss_effects s3 @ between" by (auto simp: started_from_def)
  obtain q v where q: "restore env pg t = (q, v)" by fastforce
  have "pg_branch pg \<noteq> []" "sha \<noteq> []" using sha(2) by (auto simp: candidate_made_def)
  note restored = restore_runs [OF this(1) sha(1) this(2) q]
  let ?c = "in_repo (restore_command (pg_branch pg) sha)"
  have v: "v = u" "case x of Inl e \<Rightarrow> True | Inr o' \<Rightarrow> q = Inr () \<and> fo_commit o' = Some sha"
    using q sha(1) run by (cases fault; cases q; auto simp: andthen_def throw_def pure_def outcome_of_def)+
  have "case x of Inl e \<Rightarrow> True
      | Inr o' \<Rightarrow> fo_commit o' = Some sha \<and> (\<exists>r. re_run env (ss_effects s3 @ between) ?c 30000 = Inr r \<and> cr_exit r = 0)"
    using v(2) restored(2) unfolding t by (cases x) simp_all
  moreover have "ss_effects u = ss_effects s3 @ between @ [Command ?c 30000]"
    using restored(1) t v(1) by simp
  ultimately show ?thesis using sha(2) by blast
qed

text \<open>
  C34: Given that git answers with names, the fail-first check either never checks anything out,
  or it asked git for the branch, committed the candidate fix and asked git for the commit, as
  its first three commands, and then the last thing it does in the sandbox is to check out
  exactly that branch and reset it to exactly that commit, whatever threw or failed in between;
  when it returns, that last command succeeded and the commit is the one it reports.
\<close>

theorem candidate_is_put_back:
  assumes "git_names env"
  shows "(\<exists>new. ss_effects (snd (run_fail_first env inp s)) = ss_effects s @ new
            \<and> list_all (Not \<circ> touches_tree) new)
    \<or> (\<exists>branch sha s3 between. candidate_made env s branch sha s3
         \<and> ss_effects (snd (run_fail_first env inp s))
             = ss_effects s3 @ between @ [Command (in_repo (restore_command branch sha)) 30000]
         \<and> (case fst (run_fail_first env inp s) of
              Inl e \<Rightarrow> True
            | Inr o' \<Rightarrow> fo_commit o' = Some sha
                \<and> (\<exists>r. re_run env (ss_effects s3 @ between) (in_repo (restore_command branch sha)) 30000 = Inr r
                      \<and> cr_exit r = 0)))"
proof (cases "fi_declared inp")
  case None
  then show ?thesis by (simp add: run_fail_first_def finalize_not_run_def)
next
  case (Some d)
  show ?thesis
  proof (cases "validate_declaration d")
    case (Some v)
    with \<open>fi_declared inp = Some d\<close> show ?thesis by (simp add: run_fail_first_def finalize_not_run_def)
  next
    case None
    obtain r t where body: "verify_fix env (fi_plan inp) (fi_base inp) d fresh_progress s = (r, t)" by fastforce
    obtain fault pg where ab: "after_body r = (fault, pg)" by fastforce
    let ?pg = "case r of Inl (e, pg) \<Rightarrow> pg | Inr pg \<Rightarrow> pg"
    have run: "run_fail_first env inp s =
        andthen (restore env pg) (\<lambda>_. case fault of Some e \<Rightarrow> throw e | None \<Rightarrow> pure (outcome_of pg)) t"
      using None \<open>fi_declared inp = Some d\<close> body ab by (simp add: run_fail_first_def)
    have "(calm (ss_effects s) t \<and> \<not> committed ?pg) \<or> names_candidate env s ?pg t"
      using meetsD [OF verify_fix_names_candidate [OF assms, of s "fi_plan inp" "fi_base inp" d] refl] body
      by (cases r) (fastforce split: prod.splits)+
    then have split: "(calm (ss_effects s) t \<and> \<not> committed pg) \<or> names_candidate env s pg t"
      using after_body_progress [of r] ab by (simp add: names_candidate_def committed_def)
    show ?thesis
    proof (cases "names_candidate env s pg t")
      case True
      obtain x u where x: "run_fail_first env inp s = (x, u)" by fastforce
      from candidate_restored [OF True x [unfolded run]]
      show ?thesis unfolding x fst_conv snd_conv by blast
    next
      case False
      with split have "calm (ss_effects s) t" "\<not> committed pg" by blast+
      moreover from this(2) have "snd (run_fail_first env inp s) = t"
        by (simp add: run andthen_def restore_nothing throw_def pure_def split: option.split)
      ultimately show ?thesis by (auto simp: calm_def)
    qed
  qed
qed

end
