(* ===== verification/FailFirstRecord.thy ===== *)
theory FailFirstRecord
  imports FailFirstSafety
begin

text \<open>
  What a fix that was seen red and green has on record: the verdict on a run rests on the tests of its
  report, and the ledger holds the two runs with the counts that justify the observation.
\<close>

section \<open>What the counts say\<close>

text \<open>A verdict on a run rests on the tests it reports.\<close>

definition grounded_run :: "test_plan \<Rightarrow> suite_run \<Rightarrow> bool" where
  "grounded_run plan r \<longleftrightarrow>
     (sr_outcome r \<in> {Passed, Failed} \<longrightarrow> truthy_str (tp_command plan) = Some (sr_command r))
     \<and> (\<forall>ts. sr_tests r = Some ts \<longrightarrow>
          (sr_outcome r = Failed \<longrightarrow> list_ex (\<lambda>(i, ok). \<not> ok) ts)
          \<and> (sr_outcome r = Passed \<longrightarrow> ts \<noteq> [] \<and> list_all snd ts))"

lemma infra_run_fields [simp]:
  "sr_outcome (infra_run cmd out) = InfraError" "sr_command (infra_run cmd out) = cmd" "sr_tests (infra_run cmd out) = None"
  by (simp_all add: infra_run_def)

lemma judge_pytest_grounded:
  assumes "truthy_str (tp_command plan) = Some cmd"
  shows "meets P (judge_pytest env cmd code out) (\<lambda>r _. grounded_run plan r) (\<lambda>_ _. True)"
proof -
  have *: "(if b then InfraError else ju_outcome p) = Failed \<Longrightarrow> ju_outcome p = Failed"
    "(if b then InfraError else ju_outcome p) = Passed \<Longrightarrow> ju_outcome p = Passed" for b p
    by (simp_all split: if_splits)
  show ?thesis
    unfolding judge_pytest_def Let_def
    using assms
    by (auto simp: grounded_run_def no_report_def intro!: meets_rules meets_andthen [OF meets_any]
        dest!: * dest: parse_junit_outcome split: sum.splits)
qed

lemma judge_vitest_grounded:
  assumes "truthy_str (tp_command plan) = Some cmd"
  shows "meets P (judge_vitest env cmd code out) (\<lambda>r _. grounded_run plan r) (\<lambda>_ _. True)"
  unfolding judge_vitest_def Let_def
  by (intro meets_andthen [OF meets_any] meets_pure)
    (use assms in \<open>auto simp: grounded_run_def list_ex_iff list_all_iff split: option.split\<close>)

lemma infra_run_grounded: "sr_outcome r = InfraError \<or> sr_outcome r = SkippedNoRunner \<Longrightarrow> grounded_run plan r"
  by (auto simp: grounded_run_def)

lemma judge_run_grounded:
  assumes "truthy_str (tp_command plan) = Some cmd"
  shows "meets P (judge_run env kind cmd code raw) (\<lambda>r _. grounded_run plan r) (\<lambda>_ _. True)"
proof -
  have "grounded_run plan ((infra_run cmd out)\<lparr>sr_outcome := v, sr_exit := x\<rparr>)" for out v x
    using assms by (simp add: grounded_run_def)
  then show ?thesis
    unfolding judge_run_def Let_def using assms
    by (cases kind) (simp_all add: judge_pytest_grounded judge_vitest_grounded meets_pure)
qed

lemma run_suite_grounded: "meets P (run_suite env plan) (\<lambda>r _. grounded_run plan r) (\<lambda>_ _. True)"
proof (cases "if tp_kind plan = NoRunner then None else truthy_str (tp_command plan)")
  case None
  then show ?thesis by (simp add: run_suite_def meets_pure infra_run_grounded)
next
  case (Some cmd)
  then have cmd: "truthy_str (tp_command plan) = Some cmd" by (simp split: if_splits)
  show ?thesis
    unfolding run_suite_def Some Let_def option.case
    by (intro meets_andthen [OF meets_any] meets_cases meets_pure judge_run_grounded cmd infra_run_grounded) simp_all
qed

section \<open>What is on record\<close>

definition recorded :: "ledger_row list \<Rightarrow> ledger_role list \<Rightarrow> verification \<Rightarrow> bool" where
  "recorded rows roles s \<longleftrightarrow> vr_rows s = rows \<and> map rl_role (vr_roles s) = roles"

lemma sandbox_only_recorded: "sandbox_only m \<Longrightarrow> meets (recorded rows roles) m (\<lambda>_. recorded rows roles) (\<lambda>_ _. True)"
  unfolding sandbox_only_def keeps_always_def meets_def recorded_def started_from_def
  by (fastforce split: prod.splits sum.splits)

definition declared_plan :: "test_plan \<Rightarrow> declared_test \<Rightarrow> test_plan" where
  "declared_plan plan d = filtered_plan plan (with_default [] (tp_command plan)) (dt_files d) (dt_identifier d)"

definition grounded_declared :: "test_plan \<Rightarrow> declared_test \<Rightarrow> declared_run \<Rightarrow> bool" where
  "grounded_declared plan d x \<longleftrightarrow>
     (\<forall>r. dr_run x = Some r \<longrightarrow> grounded_run (declared_plan plan d) r \<and> (dr_runnable x \<longrightarrow> sr_tests r \<noteq> None))"

lemma run_declared_grounded:
  "meets P (run_declared_test env plan (dt_files d) (dt_identifier d)) (\<lambda>x _. grounded_declared plan d x) (\<lambda>_ _. True)"
proof -
  have suite: "meets P (andthen (run_suite env (filtered_plan plan cmd (dt_files d) (dt_identifier d))) (\<lambda>r. pure (f r)))
      (\<lambda>x _. grounded_declared plan d x) (\<lambda>_ _. True)"
    if "truthy_str (tp_command plan) = Some cmd"
      and f: "\<And>r. dr_run (f r) = Some r" "\<And>r. dr_runnable (f r) \<Longrightarrow> sr_tests r \<noteq> None" for cmd f
  proof -
    have "declared_plan plan d = filtered_plan plan cmd (dt_files d) (dt_identifier d)"
      using that(1) by (auto simp: declared_plan_def with_default_def truthy_str_def split: option.splits if_splits)
    then show ?thesis
      using f by (intro meets_andthen [OF run_suite_grounded] meets_pure) (auto simp: grounded_declared_def)
  qed
  show ?thesis
    unfolding run_declared_test_def
    by (intro meets_cases suite)
      (auto simp: grounded_declared_def not_runnable_def intro!: meets_pure split: option.splits if_splits)
qed

lemma run_declared_recorded:
  "meets (recorded rows roles) (run_declared_test env plan (dt_files d) (dt_identifier d))
     (\<lambda>x s. recorded rows roles s \<and> grounded_declared plan d x) (\<lambda>_ _. True)"
  by (rule meets_weaken [OF meets_conj [OF sandbox_only_recorded [OF sandbox_only_declared] run_declared_grounded]])
    auto

definition red_row :: "test_plan \<Rightarrow> declared_test \<Rightarrow> ledger_row \<Rightarrow> bool" where
  "red_row plan d row \<longleftrightarrow> truthy_str (tp_command (declared_plan plan d)) = Some (le_command row)
     \<and> (\<exists>n>0. le_failed row = Some n)"

definition green_row :: "test_plan \<Rightarrow> declared_test \<Rightarrow> ledger_row \<Rightarrow> bool" where
  "green_row plan d row \<longleftrightarrow> truthy_str (tp_command (declared_plan plan d)) = Some (le_command row)
     \<and> le_failed row = Some 0 \<and> (\<exists>n>0. le_passed row = Some n)"

lemma record_row_recorded:
  "recorded rows roles s \<Longrightarrow> recorded (rows @ [row\<lparr>le_seq := length rows + 1, le_not_run := []\<rparr>]) (roles @ [role]) (record_row row role m s)"
  by (auto simp: recorded_def record_row_def Let_def)

lemma add_check_recorded [simp]: "recorded rows roles (add_check n v c x o' s) = recorded rows roles s"
  by (simp add: recorded_def add_check_def)

lemma new_row_fields:
  "le_command (new_row cmd ins r) = cmd"
  "sr_tests r = Some ts \<Longrightarrow> le_failed (new_row cmd ins r) = Some (length (filter (Not \<circ> snd) ts))"
  "sr_tests r = Some ts \<Longrightarrow> le_passed (new_row cmd ins r) = Some (length (filter snd ts))"
  by (simp_all add: new_row_def counts_def with_default_def Let_def)

lemma note_red_recorded:
  assumes "recorded rows roles s" "grounded_declared plan d x" "pg_red (after_red x pg)" "\<not> pg_red pg"
  shows "\<exists>row. recorded (rows @ [row]) (roles @ [ReproRed]) (note_red d ins x s) \<and> red_row plan d row"
proof -
  obtain r where r: "dr_run x = Some r" "dr_runnable x" "sr_outcome r = Failed"
    using assms(3,4) by (auto simp: after_red_def Let_def split: option.splits)
  then obtain ts where ts: "sr_tests r = Some ts" "list_ex (\<lambda>(i, ok). \<not> ok) ts"
      "truthy_str (tp_command (declared_plan plan d)) = Some (sr_command r)"
    using assms(2) by (auto simp: grounded_declared_def grounded_run_def)
  have "0 < length (filter (Not \<circ> snd) ts)"
    using ts(2) by (fastforce simp: list_ex_iff filter_empty_conv)
  then have "red_row plan d ((new_row (sr_command r) ins r)\<lparr>le_seq := length rows + 1, le_not_run := []\<rparr>)"
    using ts by (simp add: red_row_def new_row_fields)
  then show ?thesis
    unfolding note_red_def r(1) option.case add_check_recorded
    using record_row_recorded [OF assms(1)] by blast
qed

lemma note_green_recorded:
  assumes "recorded rows roles s" "grounded_declared plan d x" "pg_green (after_green x pg)" "\<not> pg_green pg"
  shows "\<exists>row. recorded (rows @ [row]) (roles @ [ReproGreen]) (note_green ins x s) \<and> green_row plan d row"
proof -
  obtain r where r: "dr_run x = Some r" "dr_runnable x" "sr_outcome r = Passed"
    using assms(3,4) by (auto simp: after_green_def Let_def split: option.splits if_splits)
  then obtain ts where ts: "sr_tests r = Some ts" "ts \<noteq> []" "list_all snd ts"
      "truthy_str (tp_command (declared_plan plan d)) = Some (sr_command r)"
    using assms(2) by (auto simp: grounded_declared_def grounded_run_def)
  have "filter snd ts = ts" "filter (Not \<circ> snd) ts = []"
    using ts(3) by (auto simp: list_all_iff filter_empty_conv)
  then have "green_row plan d ((new_row (sr_command r) ins r)\<lparr>le_seq := length rows + 1, le_not_run := []\<rparr>)"
    using ts by (simp add: green_row_def new_row_fields)
  then show ?thesis
    unfolding note_green_def r(1) option.case add_check_recorded
    using record_row_recorded [OF assms(1)] by blast
qed

lemma recorded_step:
  "sandbox_only m \<Longrightarrow> (\<And>a. meets (recorded rows roles) (f a) Q (\<lambda>_ _. True)) \<Longrightarrow>
   meets (recorded rows roles) (andthen m f) Q (\<lambda>_ _. True)"
  by (rule meets_andthen [OF sandbox_only_recorded])

lemma red_phase_recorded:
  assumes "\<not> pg_red pg"
  shows "meets (recorded rows roles) (red_phase env plan base sha d pg)
    (\<lambda>pg' s. pg_green pg' = pg_green pg
       \<and> (pg_red pg' \<longrightarrow> (\<exists>row. recorded (rows @ [row]) (roles @ [ReproRed]) s \<and> red_row plan d row)))
    (\<lambda>_ _. True)"
proof -
  have green: "pg_green (after_red x pg) = pg_green pg" for x
    by (simp add: after_red_def Let_def split: option.split)
  have body: "meets (\<lambda>s. recorded rows roles s \<and> grounded_declared plan d x)
      (andthen (modify (note_red d ins x)) (\<lambda>_. pure (after_red x pg)))
      (\<lambda>pg' s. pg_green pg' = pg_green pg
         \<and> (pg_red pg' \<longrightarrow> (\<exists>row. recorded (rows @ [row]) (roles @ [ReproRed]) s \<and> red_row plan d row)))
      (\<lambda>_ _. True)" for x ins
    using note_red_recorded [of rows roles _ plan d x pg ins] assms green
    by (auto simp: meets_def andthen_def modify_def pure_def)
  show ?thesis
    unfolding red_phase_def
    by (intro recorded_step sandbox_rules meets_andthen [OF run_declared_recorded body])
qed

lemma green_phase_recorded:
  assumes "\<not> pg_green pg"
  shows "meets (recorded rows roles) (green_phase env plan d pg)
    (\<lambda>pg' s. pg_red pg' = pg_red pg
       \<and> (pg_green pg' \<longrightarrow> (\<exists>row. recorded (rows @ [row]) (roles @ [ReproGreen]) s \<and> green_row plan d row)))
    (\<lambda>_ _. True)"
proof -
  have body: "meets (\<lambda>s. recorded rows roles s \<and> grounded_declared plan d x)
      (andthen (modify (note_green ins x)) (\<lambda>_. pure (after_green x pg)))
      (\<lambda>pg' s. pg_red pg' = pg_red pg
         \<and> (pg_green pg' \<longrightarrow> (\<exists>row. recorded (rows @ [row]) (roles @ [ReproGreen]) s \<and> green_row plan d row)))
      (\<lambda>_ _. True)" for x ins
    using note_green_recorded [of rows roles _ plan d x pg ins] assms
    by (auto simp: meets_def andthen_def modify_def pure_def)
  show ?thesis
    unfolding green_phase_def
    by (intro recorded_step sandbox_rules meets_andthen [OF run_declared_recorded body])
qed

definition proof_rows ::
  "test_plan \<Rightarrow> declared_test \<Rightarrow> ledger_row list \<Rightarrow> ledger_role list \<Rightarrow> verification \<Rightarrow> bool" where
  "proof_rows plan d rows roles s \<longleftrightarrow>
     (\<exists>red green. recorded (rows @ [red, green]) (roles @ [ReproRed, ReproGreen]) s
        \<and> red_row plan d red \<and> green_row plan d green)"

lemma carrying_quiet:
  "sandbox_only m \<Longrightarrow> \<not> pg_green pg \<Longrightarrow>
   meets (recorded rows roles) (carrying pg m) (\<lambda>_. recorded rows roles) (\<lambda>(e, pg') _. \<not> pg_green pg')"
  by (intro meets_carrying meets_weaken [OF sandbox_only_recorded]) auto

lemma verify_fix_recorded:
  "meets (recorded rows roles) (verify_fix env plan base d fresh_progress)
     (\<lambda>pg s. pg_red pg \<and> pg_green pg \<longrightarrow> proof_rows plan d rows roles s) (\<lambda>(e, pg) _. \<not> pg_green pg)"
proof -
  have phases: "meets (recorded rows roles)
      (andthen (carrying pg (red_phase env plan base sha d pg)) (\<lambda>pg4. carrying pg4 (green_phase env plan d pg4)))
      (\<lambda>pg s. pg_red pg \<and> pg_green pg \<longrightarrow> proof_rows plan d rows roles s) (\<lambda>(e, pg) _. \<not> pg_green pg)"
    if pg: "\<not> pg_red pg" "\<not> pg_green pg" for pg sha
  proof (rule meets_andthen)
    show "meets (recorded rows roles) (carrying pg (red_phase env plan base sha d pg))
        (\<lambda>pg' s. \<not> pg_green pg'
           \<and> (pg_red pg' \<longrightarrow> (\<exists>row. recorded (rows @ [row]) (roles @ [ReproRed]) s \<and> red_row plan d row)))
        (\<lambda>(e, pg) _. \<not> pg_green pg)"
      using pg by (intro meets_carrying meets_weaken [OF red_phase_recorded [OF pg(1)]]) auto
    fix pg4
    show "meets (\<lambda>s. \<not> pg_green pg4
           \<and> (pg_red pg4 \<longrightarrow> (\<exists>row. recorded (rows @ [row]) (roles @ [ReproRed]) s \<and> red_row plan d row)))
        (carrying pg4 (green_phase env plan d pg4))
        (\<lambda>pg s. pg_red pg \<and> pg_green pg \<longrightarrow> proof_rows plan d rows roles s) (\<lambda>(e, pg) _. \<not> pg_green pg)"
    proof (cases "pg_green pg4")
      case False
      show ?thesis
      proof (cases "pg_red pg4")
        case True
        have "meets (\<lambda>s. recorded (rows @ [row]) (roles @ [ReproRed]) s \<and> red_row plan d row)
            (carrying pg4 (green_phase env plan d pg4))
            (\<lambda>pg s. pg_red pg \<and> pg_green pg \<longrightarrow> proof_rows plan d rows roles s) (\<lambda>(e, pg) _. \<not> pg_green pg)" for row
          by (intro meets_carrying meets_weaken [OF meets_frame [OF green_phase_recorded [OF False]]])
            (use False in \<open>auto simp: proof_rows_def, blast\<close>)
        from meets_ex [OF this] True False show ?thesis by simp
      next
        case not_red: False
        with False show ?thesis
          by (intro meets_carrying meets_weaken [OF green_phase_progress [of "\<lambda>_. True"]]) auto
      qed
    qed (simp add: meets_def)
  qed
  show ?thesis
    unfolding verify_fix_def Let_def
    by (intro meets_andthen [OF carrying_quiet] sandbox_rules phases) (simp_all add: fresh_progress_def)
qed

lemma sandbox_only_restore [sandbox_rules]: "sandbox_only (restore env pg)"
  unfolding restore_def by (intro sandbox_rules)

lemma after_body_outcome:
  "after_body r = (None, pg) \<Longrightarrow> pg_green pg \<Longrightarrow>
   (case r of Inl (e, pg') \<Rightarrow> \<not> pg_green pg' | Inr _ \<Rightarrow> True) \<Longrightarrow> r = Inr pg"
  by (auto simp: after_body_def split: sum.splits prod.splits if_splits)

text \<open>
  C35: When the fail-first check returns with red and green observed, the ledger has exactly two
  new rows, a red and a green one, for the same command: the red one counts at least one failed
  test, the green one no failed and at least one passed test.
\<close>

theorem proof_is_on_record:
  assumes "run_fail_first env inp s = (Inr out, t)" "fo_red out" "fo_green out"
  shows "\<exists>red green m n. vr_rows t = vr_rows s @ [red, green]
    \<and> map rl_role (vr_roles t) = map rl_role (vr_roles s) @ [ReproRed, ReproGreen]
    \<and> le_command red = le_command green
    \<and> le_failed red = Some (Suc m) \<and> le_failed green = Some 0 \<and> le_passed green = Some (Suc n)"
proof -
  obtain d where d: "fi_declared inp = Some d" "validate_declaration d = None"
    using assms by (auto simp: run_fail_first_def skipped_outcome_def split: option.splits)
  obtain r u where body: "verify_fix env (fi_plan inp) (fi_base inp) d fresh_progress s = (r, u)" by fastforce
  obtain fault pg where ab: "after_body r = (fault, pg)" by fastforce
  have run: "run_fail_first env inp s =
      andthen (restore env pg) (\<lambda>_. case fault of Some e \<Rightarrow> throw e | None \<Rightarrow> pure (outcome_of pg)) u"
    using d body ab by (simp add: run_fail_first_def)
  then have ok: "fault = None" "out = outcome_of pg" "restore env pg u = (Inr (), t)"
    using assms(1) by (auto simp: andthen_def throw_def pure_def split: option.splits prod.splits sum.splits)
  have flags: "pg_red pg" "pg_green pg"
    using assms(2,3) ok(2) by (simp_all add: outcome_of_def)
  note triple = verify_fix_recorded [of "vr_rows s" "map rl_role (vr_roles s)" env "fi_plan inp" "fi_base inp" d]
  have start: "recorded (vr_rows s) (map rl_role (vr_roles s)) s" by (simp add: recorded_def)
  have "r = Inr pg"
    using meetsD(2) [OF triple start] body ab ok(1) flags
    by (intro after_body_outcome) (auto split: sum.split)
  with meetsD(1) [OF triple start] body flags
  have "proof_rows (fi_plan inp) d (vr_rows s) (map rl_role (vr_roles s)) u" by simp
  then obtain red green where rows:
      "recorded (vr_rows s @ [red, green]) (map rl_role (vr_roles s) @ [ReproRed, ReproGreen]) u"
      "red_row (fi_plan inp) d red" "green_row (fi_plan inp) d green"
    unfolding proof_rows_def by blast
  have "recorded (vr_rows s @ [red, green]) (map rl_role (vr_roles s) @ [ReproRed, ReproGreen]) t"
    using meetsD(1) [OF sandbox_only_recorded [OF sandbox_only_restore] rows(1) ok(3)] .
  moreover obtain m n where "le_failed red = Some (Suc m)" "le_passed green = Some (Suc n)"
    using rows(2,3) by (auto simp: red_row_def green_row_def gr0_conv_Suc)
  moreover have "le_command red = le_command green" "le_failed green = Some 0"
    using rows(2,3) by (auto simp: red_row_def green_row_def)
  ultimately show ?thesis unfolding recorded_def by blast
qed

end
