(* ===== verification/FailFirstExamples.thy ===== *)
theory FailFirstExamples
  imports FailFirstRecord
begin

text \<open>
  A fail-first check run to its end, and what it shows.
\<close>

section \<open>A worked run\<close>

text \<open>
  A repository with one declared test. The first report that is read is the one of the base, \<open>base\<close>
  says what it holds; the next one is the report of the fix.
\<close>

definition is_read :: "effect \<Rightarrow> bool" where
  "is_read e = (case e of FileRead _ \<Rightarrow> True | _ \<Rightarrow> False)"

definition lab_result :: "string \<Rightarrow> command_result" where
  "lab_result out = \<lparr>cr_exit = 0, cr_stdout = out, cr_stderr = []\<rparr>"

definition lab_report :: "(string \<times> string) list \<Rightarrow> json_report" where
  "lab_report rs = \<lparr>jr_total = None, jr_files = Some [\<lparr>jf_name = Some ''a.test.ts'',
     jf_results = Some (map (\<lambda>(name, status). \<lparr>ja_full_name = Some name, ja_title = None,
       ja_status = Some status, ja_failures = Some [''1 not 2'']\<rparr>) rs)\<rparr>]\<rparr>"

definition lab_answer :: "string \<Rightarrow> string" where
  "lab_answer c = (if c = in_repo ''git rev-parse --abbrev-ref HEAD'' then ''main''
     else if c = in_repo ''git rev-parse HEAD'' then ''f00'' else [])"

definition lab_env :: "(string \<times> string) list \<Rightarrow> runner_env" where
  "lab_env base =
     \<lparr>re_run = (\<lambda>es c _. Inr (lab_result (lab_answer c))),
      re_read = (\<lambda>es _. Inr (if list_ex is_read es then ''fix'' else ''base'')),
      re_report = (\<lambda>raw. Some (lab_report (if raw = ''base'' then base else [(''adds'', ''passed'')]))),
      re_package = (\<lambda>_. None), re_code_point = (\<lambda>_. [])\<rparr>"

definition lab_test :: declared_test where
  "lab_test = \<lparr>dt_files = [''a.test.ts''], dt_identifier = ''adds'', dt_assertion = ''not 2''\<rparr>"

definition lab_plan :: test_plan where
  "lab_plan = \<lparr>tp_kind = Vitest, tp_command = Some ''vitest''\<rparr>"

definition lab_input :: fail_first_input where
  "lab_input = \<lparr>fi_plan = lab_plan, fi_base = ''b00'', fi_declared = Some lab_test, fi_impossible = None\<rparr>"

definition lab_start :: verification where
  "lab_start = \<lparr>ss_effects = [], vr_rows = [], vr_roles = [], vr_checks = [], vr_suite = None\<rparr>"

text \<open>The state in which the base is checked out, and the variables by then.\<close>

definition lab_committed :: verification where
  "lab_committed = lab_start\<lparr>ss_effects :=
     [Command (in_repo ''git rev-parse --abbrev-ref HEAD'') 30000, Command (in_repo commit_command) 30000,
      Command (in_repo ''git rev-parse HEAD'') 30000,
      Command (in_repo (''git cat-file -e '' @ shell_escape ''f00:a.test.ts'')) 10000,
      Command (in_repo (''git show '' @ shell_escape ''f00:a.test.ts'')) 10000]\<rparr>"

definition lab_progress :: progress where
  "lab_progress = \<lparr>pg_branch = ''main'', pg_commit = Some ''f00'',
     pg_source = Some (''--- a.test.ts ---'' @ line_feed @ line_feed), pg_red = False, pg_green = False, pg_violation = None\<rparr>"

definition lab_reread :: verification where
  "lab_reread = lab_start\<lparr>ss_effects := [FileRead []]\<rparr>"

definition lab_declared :: "(string \<times> string) list \<Rightarrow> verification \<Rightarrow> (fault + declared_run) \<times> verification" where
  "lab_declared base = run_declared_test (lab_env base) lab_plan (dt_files lab_test) (dt_identifier lab_test)"

lemma andthen_at: "m s = (Inr a, t) \<Longrightarrow> andthen m f s = f a t"
  by (simp add: andthen_def)

lemma andthen_carrying: "m s = (Inr a, t) \<Longrightarrow> andthen (carrying pg m) f s = f a t"
  by (simp add: andthen_def carrying_def)

lemma lab_sandbox:
  "run_in (lab_env base) c t s = (Inr (lab_result (lab_answer c)), s\<lparr>ss_effects := ss_effects s @ [Command c t]\<rparr>)"
  "read_in (lab_env base) p s
     = (Inr (if list_ex is_read (ss_effects s) then ''fix'' else ''base''), s\<lparr>ss_effects := ss_effects s @ [FileRead p]\<rparr>)"
  "cr_exit (lab_result out) = 0" "cr_stdout (lab_result out) = out" "cr_stderr (lab_result out) = []"
  by (simp_all add: run_in_def read_in_def lab_env_def lab_result_def)

lemma lab_checked:
  "checked_run (lab_env base) cmd t s
     = (Inr (trim (lab_answer (in_repo cmd))), s\<lparr>ss_effects := ss_effects s @ [Command (in_repo cmd) t]\<rparr>)"
  by (simp add: checked_run_def andthen_def lab_sandbox pure_def)

lemma lab_answers:
  "trim (lab_answer (in_repo ''git rev-parse --abbrev-ref HEAD'')) = ''main''"
  "trim (lab_answer (in_repo ''git rev-parse HEAD'')) = ''f00''"
  "lab_answer (in_repo (''git show '' @ shell_escape ''f00:a.test.ts'')) = []"
  "lab_answer (in_repo ''git status --porcelain -uno'') = []" "trim [] = []"
  by code_simp+

lemma lab_verify:
  "verify_fix (lab_env base) lab_plan ''b00'' lab_test fresh_progress lab_start =
     andthen (carrying lab_progress (red_phase (lab_env base) lab_plan ''b00'' ''f00'' lab_test lab_progress))
       (\<lambda>pg4. carrying pg4 (green_phase (lab_env base) lab_plan lab_test pg4)) lab_committed"
proof -
  let ?e = "lab_env base"
  let ?s1 = "lab_start\<lparr>ss_effects := take 1 (ss_effects lab_committed)\<rparr>"
  let ?s2 = "lab_start\<lparr>ss_effects := take 3 (ss_effects lab_committed)\<rparr>"
  let ?s3 = "lab_start\<lparr>ss_effects := take 4 (ss_effects lab_committed)\<rparr>"
  note defs = lab_checked lab_answers lab_start_def lab_committed_def lab_test_def
  have branch: "checked_run ?e ''git rev-parse --abbrev-ref HEAD'' 30000 lab_start = (Inr ''main'', ?s1)"
    by (simp add: defs)
  have sha: "andthen (checked_run ?e commit_command 30000) (\<lambda>_. checked_run ?e ''git rev-parse HEAD'' 30000) ?s1
      = (Inr ''f00'', ?s2)"
    by (simp add: andthen_def defs)
  have files: "each (require_file ?e ''f00'') (dt_files lab_test) ?s2 = (Inr (), ?s3)"
    by (simp add: require_file_def rescue_def attempt_def andthen_def pure_def defs)
  have source: "source_at_fix ?e ''f00'' (dt_files lab_test) [] ?s3
      = (Inr (''--- a.test.ts ---'' @ line_feed @ line_feed), lab_committed)"
    by (simp add: rescue_def attempt_def andthen_def pure_def defs lab_answers(3) [simplified] unreadable_def
        max_test_source_def line_feed_def)
  have progress: "fresh_progress\<lparr>pg_branch := ''main'', pg_commit := Some ''f00'',
      pg_source := Some (''--- a.test.ts ---'' @ line_feed @ line_feed)\<rparr> = lab_progress"
    by (simp add: lab_progress_def fresh_progress_def)
  show ?thesis
    unfolding verify_fix_def Let_def
    by (simp only: andthen_carrying branch sha files source progress)
qed

lemma lab_instrument:
  "instrument (lab_env base) s = (Inr (''f00'', False), s\<lparr>ss_effects := ss_effects s
     @ [Command (in_repo ''git rev-parse HEAD'') 10000, Command (in_repo ''git status --porcelain -uno'') 10000]\<rparr>)"
  by (simp add: instrument_def attempt_def andthen_def pure_def lab_checked lab_answers lab_sandbox)

lemma lab_suite:
  assumes "truthy_str (tp_command plan) = Some cmd" "tp_kind plan = Vitest"
  shows "\<exists>t. run_suite (lab_env base) plan s
      = (fst (run_suite (lab_env base) plan (if list_ex is_read (ss_effects s) then lab_reread else lab_start)), t)
     \<and> list_ex is_read (ss_effects t)"
  using assms
  by (simp add: run_suite_def attempt_def andthen_def pure_def lab_sandbox judge_run_def judge_vitest_def Let_def
      is_read_def lab_reread_def lab_start_def)

lemma lab_declared_anywhere:
  "\<exists>t. lab_declared base s = (fst (lab_declared base (if list_ex is_read (ss_effects s) then lab_reread else lab_start)), t)
     \<and> list_ex is_read (ss_effects t)"
proof -
  let ?plan = "filtered_plan lab_plan ''vitest'' (dt_files lab_test) (dt_identifier lab_test)"
  have plan: "lab_declared base = andthen (run_suite (lab_env base) ?plan) (\<lambda>r. pure (f r))"
    if "f = (\<lambda>r. case sr_tests r of
               None \<Rightarrow> not_runnable ''declared_test_report_unavailable'' (Some r)
             | Some tests \<Rightarrow>
                 (case find (reported_as (dt_identifier lab_test)) (map fst tests) of
                    None \<Rightarrow> not_runnable ''declared_test_not_reported'' (Some r)
                  | Some i \<Rightarrow>
                      \<lparr>dr_runnable = True, dr_reason = None, dr_run = Some r,
                       dr_message = Some (with_default (sr_output r)
                         (Option.bind (sr_failures r) (\<lambda>fs. map_of fs i)))\<rparr>))" for f
    by (simp add: that lab_declared_def run_declared_test_def lab_plan_def truthy_str_def)
  have "\<exists>cmd. truthy_str (tp_command ?plan) = Some cmd" "tp_kind ?plan = Vitest"
    by (simp_all add: filtered_plan_def lab_plan_def truthy_str_def)
  then obtain t where "run_suite (lab_env base) ?plan s
        = (fst (run_suite (lab_env base) ?plan (if list_ex is_read (ss_effects s) then lab_reread else lab_start)), t)"
      "list_ex is_read (ss_effects t)"
    using lab_suite by blast
  then show ?thesis
    unfolding plan [OF refl]
    by (auto simp: andthen_def pure_def split: prod.split sum.split)
qed

lemma lab_red:
  assumes "\<not> list_ex is_read (ss_effects s)" "fst (lab_declared base lab_start) = Inr x"
  shows "\<exists>t. red_phase (lab_env base) lab_plan ''b00'' sha lab_test pg s = (Inr (after_red x pg), t)
     \<and> list_ex is_read (ss_effects t)"
proof -
  let ?s = "s\<lparr>ss_effects := ss_effects s @
     [Command (in_repo (''git checkout -B opslane-repro '' @ shell_escape ''b00'')) 30000,
      Command (in_repo (''git checkout '' @ shell_escape sha @ '' -- '' @ join '' '' (map shell_escape (dt_files lab_test)))) 30000,
      Command (in_repo ''git rev-parse HEAD'') 10000, Command (in_repo ''git status --porcelain -uno'') 10000]\<rparr>"
  obtain t where t: "lab_declared base ?s = (Inr x, t)" "list_ex is_read (ss_effects t)"
    using lab_declared_anywhere [of base ?s] assms by (auto simp: is_read_def)
  have "red_phase (lab_env base) lab_plan ''b00'' sha lab_test pg s
      = (Inr (after_red x pg), note_red lab_test (''f00'', False) x t)"
    using t(1) by (simp add: red_phase_def andthen_def lab_checked lab_instrument modify_def pure_def lab_declared_def)
  moreover have "ss_effects (note_red lab_test (''f00'', False) x t) = ss_effects t"
    by (simp add: note_red_def add_check_def record_row_def Let_def split: option.split)
  ultimately show ?thesis using t(2) by simp
qed

lemma lab_green:
  assumes "list_ex is_read (ss_effects s)" "fst (lab_declared base lab_reread) = Inr y"
  shows "\<exists>t. green_phase (lab_env base) lab_plan lab_test pg s = (Inr (after_green y pg), t)"
proof -
  let ?s = "s\<lparr>ss_effects := ss_effects s @
     [Command (in_repo (''git checkout '' @ shell_escape (pg_branch pg))) 30000,
      Command (in_repo ''git rev-parse HEAD'') 10000, Command (in_repo ''git status --porcelain -uno'') 10000]\<rparr>"
  obtain t where "lab_declared base ?s = (Inr y, t)"
    using lab_declared_anywhere [of base ?s] assms by auto
  then show ?thesis
    by (simp add: green_phase_def andthen_def lab_checked lab_instrument modify_def pure_def lab_declared_def)
qed

lemma lab_outcome:
  assumes "\<not> isl (fst (lab_declared base lab_start))" "\<not> isl (fst (lab_declared base lab_reread))"
    and pg: "after_green (projr (fst (lab_declared base lab_reread)))
        (after_red (projr (fst (lab_declared base lab_start))) lab_progress)
      = lab_progress\<lparr>pg_red := True, pg_green := True\<rparr>"
  shows "\<exists>t. run_fail_first (lab_env base) lab_input lab_start
      = (Inr (outcome_of (lab_progress\<lparr>pg_red := True, pg_green := True\<rparr>)), t)
    \<and> list_ex touches_tree (ss_effects t)"
proof -
  let ?pg = "lab_progress\<lparr>pg_red := True, pg_green := True\<rparr>"
  obtain x y where xy: "fst (lab_declared base lab_start) = Inr x" "fst (lab_declared base lab_reread) = Inr y"
    using assms(1,2) by (auto simp: isl_def) (metis sum.exhaust)
  have "\<not> list_ex is_read (ss_effects lab_committed)" by (simp add: lab_committed_def is_read_def)
  from lab_red [OF this xy(1)] obtain t where t:
      "red_phase (lab_env base) lab_plan ''b00'' ''f00'' lab_test lab_progress lab_committed
        = (Inr (after_red x lab_progress), t)" "list_ex is_read (ss_effects t)" by blast
  from lab_green [OF t(2) xy(2), of "after_red x lab_progress"] obtain u where u:
      "green_phase (lab_env base) lab_plan lab_test (after_red x lab_progress) t = (Inr ?pg, u)"
    using pg xy by fastforce
  have "verify_fix (lab_env base) lab_plan ''b00'' lab_test fresh_progress lab_start = (Inr ?pg, u)"
    unfolding lab_verify by (simp add: andthen_def carrying_def t(1) u)
  moreover have "restore (lab_env base) ?pg s = (Inr (), s\<lparr>ss_effects := ss_effects s
      @ [Command (in_repo (restore_command ''main'' ''f00'')) 30000]\<rparr>)" for s
    by (simp add: restore_def lab_progress_def truthy_str_def rescue_def attempt_def andthen_def pure_def lab_checked)
  moreover have "validate_declaration lab_test = None" by code_simp
  moreover have "touches_tree (Command (in_repo (restore_command b c)) 30000)" for b c
    by (simp add: touches_tree_def in_repo_def repo_path_def starts_with_def restore_command_def)
  ultimately show ?thesis
    by (simp add: run_fail_first_def lab_input_def after_body_def andthen_def pure_def)
qed

lemma lab_run:
  "\<exists>t. run_fail_first (lab_env [(''adds'', ''failed'')]) lab_input lab_start
     = (Inr (outcome_of (lab_progress\<lparr>pg_red := True, pg_green := True\<rparr>)), t)
     \<and> list_ex touches_tree (ss_effects t)"
  by (rule lab_outcome) code_simp+

text \<open>The filter of the runner is a substring: another test that fails makes the run red.\<close>

lemma red_without_declared_failure:
  "\<exists>t. run_fail_first (lab_env [(''adds'', ''passed''), (''adds twice'', ''failed'')]) lab_input lab_start
     = (Inr (outcome_of (lab_progress\<lparr>pg_red := True, pg_green := True\<rparr>)), t)
     \<and> list_ex touches_tree (ss_effects t)"
  by (rule lab_outcome) code_simp+

theorem candidate_is_put_back_witness:
  "\<exists>s3 between. candidate_made (lab_env [(''adds'', ''failed'')]) lab_start ''main'' ''f00'' s3
     \<and> ss_effects (snd (run_fail_first (lab_env [(''adds'', ''failed'')]) lab_input lab_start))
         = ss_effects s3 @ between @ [Command (in_repo (restore_command ''main'' ''f00'')) 30000]"
proof -
  let ?env = "lab_env [(''adds'', ''failed'')]"
  have "git_names ?env"
    using lab_answers(1,2) by (auto simp: git_names_def lab_env_def lab_result_def)
  from candidate_is_put_back [OF this, of lab_input lab_start]
  consider new where "ss_effects (snd (run_fail_first ?env lab_input lab_start)) = ss_effects lab_start @ new"
      "list_all (Not \<circ> touches_tree) new"
    | branch sha s3 between where "candidate_made ?env lab_start branch sha s3"
      "ss_effects (snd (run_fail_first ?env lab_input lab_start))
         = ss_effects s3 @ between @ [Command (in_repo (restore_command branch sha)) 30000]"
    by blast
  then show ?thesis
  proof cases
    case 1
    with lab_run show ?thesis by (auto simp: list_ex_iff list_all_iff lab_start_def)
  next
    case 2
    then have "branch = ''main''" "sha = ''f00''"
      by (auto simp: candidate_made_def lab_checked lab_answers)
    with 2 show ?thesis by blast
  qed
qed

theorem proof_is_on_record_witness:
  "\<exists>t red green m n. vr_rows t = [red, green] \<and> map rl_role (vr_roles t) = [ReproRed, ReproGreen]
     \<and> le_command red = le_command green
     \<and> le_failed red = Some (Suc m) \<and> le_failed green = Some 0 \<and> le_passed green = Some (Suc n)
     \<and> snd (run_fail_first (lab_env [(''adds'', ''failed'')]) lab_input lab_start) = t"
proof -
  obtain t where t: "run_fail_first (lab_env [(''adds'', ''failed'')]) lab_input lab_start
      = (Inr (outcome_of (lab_progress\<lparr>pg_red := True, pg_green := True\<rparr>)), t)"
    using lab_run by blast
  show ?thesis
    using proof_is_on_record [OF t] t by (simp add: outcome_of_def lab_start_def)
qed

end
