(* ===== verification/Statements.thy ===== *)
theory Statements
  imports Schema Programs
begin

text \<open>
  The forms of SQL statements that the tables of friction tickets are read and written with, beside
  the UPDATE and the ORDER BY ... LIMIT 1 of the prelude: ORDER BY on a whole result, DISTINCT,
  INSERT ... ON CONFLICT, and transactions that may throw. A transaction is a program on the
  database; the state after an exception is what the caller rolls back.
\<close>

section \<open>ORDER BY\<close>

fun insert_by :: "('a \<Rightarrow> 'a \<Rightarrow> bool) \<Rightarrow> 'a \<Rightarrow> 'a list \<Rightarrow> 'a list" where
  "insert_by le x [] = [x]"
| "insert_by le x (y # ys) = (if le x y then x # y # ys else y # insert_by le x ys)"

definition sort_by :: "('a \<Rightarrow> 'a \<Rightarrow> bool) \<Rightarrow> 'a list \<Rightarrow> 'a list" where
  "sort_by le xs = foldr (insert_by le) xs []"

lemma sort_by_simps [simp]:
  "sort_by le [] = []" "sort_by le (x # xs) = insert_by le x (sort_by le xs)"
  by (simp_all add: sort_by_def)

lemma set_insert_by [simp]: "set (insert_by le x ys) = insert x (set ys)"
  by (induction ys) auto

lemma set_sort_by [simp]: "set (sort_by le xs) = set xs"
  by (induction xs) simp_all

lemma length_insert_by [simp]: "length (insert_by le x ys) = Suc (length ys)"
  by (induction ys) simp_all

lemma length_sort_by [simp]: "length (sort_by le xs) = length xs"
  by (induction xs) simp_all

lemma distinct_map_insert_by: "distinct (map f (insert_by le x ys)) \<longleftrightarrow> distinct (map f (x # ys))"
  by (induction ys) auto

lemma distinct_map_sort_by [simp]: "distinct (map f (sort_by le xs)) \<longleftrightarrow> distinct (map f xs)"
  by (induction xs) (simp_all add: distinct_map_insert_by)

lemma distinct_sort_by [simp]: "distinct (sort_by le xs) \<longleftrightarrow> distinct xs"
  using distinct_map_sort_by [of id le xs] by simp

context row_order begin

lemma sorted_insert_by: "sorted_wrt le ys \<Longrightarrow> sorted_wrt le (insert_by le x ys)"
  using le_total by (induction ys) (auto intro: le_trans)

lemma sorted_sort_by: "sorted_wrt le (sort_by le xs)"
  by (induction xs) (simp_all add: sorted_insert_by)

text \<open>What a LIMIT leaves out comes after everything it keeps.\<close>

lemma limit_keeps_least:
  "x \<in> set (take n (sort_by le xs)) \<Longrightarrow> y \<in> set xs \<Longrightarrow> y \<notin> set (take n (sort_by le xs)) \<Longrightarrow> le x y"
proof -
  assume x: "x \<in> set (take n (sort_by le xs))" and y: "y \<in> set xs" "y \<notin> set (take n (sort_by le xs))"
  have "set xs = set (take n (sort_by le xs)) \<union> set (drop n (sort_by le xs))"
    by (metis append_take_drop_id set_append set_sort_by)
  with y have "y \<in> set (drop n (sort_by le xs))" by blast
  moreover have "sorted_wrt le (take n (sort_by le xs) @ drop n (sort_by le xs))"
    by (simp add: sorted_sort_by)
  ultimately show "le x y" using x by (simp only: sorted_wrt_append)
qed

end

text \<open>ARRAY(SELECT DISTINCT x ... ORDER BY x) of a column of strings.\<close>

definition distinct_sorted :: "string list \<Rightarrow> string list" where
  "distinct_sorted xs = sort_by str_le (dedup xs)"

lemma set_distinct_sorted [simp]: "set (distinct_sorted xs) = set xs"
  by (simp add: distinct_sorted_def)

lemma distinct_distinct_sorted [simp]: "distinct (distinct_sorted xs)"
  by (simp add: distinct_sorted_def)

text \<open>COUNT(DISTINCT x): the values that are not null.\<close>

definition count_distinct :: "'a option list \<Rightarrow> nat" where
  "count_distinct xs = length (dedup (List.map_filter id xs))"

lemma count_distinct_card: "count_distinct xs = card {x. Some x \<in> set xs}"
proof -
  have "set (List.map_filter id xs) = {x. Some x \<in> set xs}"
    by (force simp: map_filter_def)
  then show ?thesis
    unfolding count_distinct_def by (metis distinct_card distinct_dedup set_dedup)
qed

section \<open>INSERT ... ON CONFLICT\<close>

definition insert_new :: "('r \<Rightarrow> 'r \<Rightarrow> bool) \<Rightarrow> 'r \<Rightarrow> 'r list \<Rightarrow> 'r list" where
  "insert_new same r rs = (if list_ex (same r) rs then rs else rs @ [r])"

definition upsert :: "('r \<Rightarrow> bool) \<Rightarrow> 'r \<Rightarrow> ('r \<Rightarrow> 'r) \<Rightarrow> 'r list \<Rightarrow> 'r list" where
  "upsert hit r f rs = (if list_ex hit rs then update_where hit f rs else rs @ [r])"

lemma set_insert_new: "set rs \<subseteq> set (insert_new same r rs) \<and> set (insert_new same r rs) \<subseteq> insert r (set rs)"
  by (auto simp: insert_new_def)

lemma insert_new_has: "(\<And>r. same r r) \<Longrightarrow> list_ex (same r) (insert_new same r rs)"
  by (simp add: insert_new_def)

text \<open>What an UPDATE leaves alone.\<close>

lemma map_update_where_same: "(\<And>r. f (upd r) = f r) \<Longrightarrow> map f (update_where p upd rs) = map f rs"
  by (induction rs) simp_all

lemma list_ex_update_where: "(\<And>r. p (h r) = p r) \<Longrightarrow> list_ex p (update_where q h rs) = list_ex p rs"
  by (induction rs) simp_all

section \<open>Transactions\<close>

type_synonym 'a tx = "(db, string, 'a) prog"

definition reads :: "(db \<Rightarrow> 'a) \<Rightarrow> 'a tx" where
  "reads f s = (Inr (f s), s)"

lemma meets_reads [meets_rules]: "(\<And>s. P s \<Longrightarrow> Q (f s) s) \<Longrightarrow> meets P (reads f) Q E"
  by (simp add: meets_def reads_def)

definition transact :: "(db \<Rightarrow> 'a \<times> db) \<Rightarrow> 'a tx" where
  "transact f s = (case f s of (a, t) \<Rightarrow> (Inr a, t))"

lemma tx_simps:
  "andthen (reads f) g s = g (f s) s" "andthen (modify h) k s = k () (h s)" "andthen (throw e) g s = (Inl e, s)"
  "andthen (pure a) g s = g a s"
  by (simp_all add: andthen_def reads_def modify_def throw_def pure_def)

text \<open>Milliseconds of an hour and a day.\<close>

definition hour_ms :: time where "hour_ms = 3600000"

definition day_ms :: time where "day_ms = 86400000"

end
