(* ===== verification/TicketMatches.thy ===== *)
theory TicketMatches
  imports Statements JobQueue
begin

text \<open>
  Friction tickets (\<open>friction/tickets-db.ts\<close>): creating and finding a ticket, deciding what an
  observation becomes, counting a recording against a ticket, and selecting the recordings that a
  confirmation batch checks. The distance of two embeddings (pgvector) is the parameter \<open>far\<close>; the
  advisory and row locks order concurrent transactions and change no row. An arrival number is the
  position of a recording among the recordings of its ticket.
\<close>

section \<open>Tickets\<close>

definition ticket_in_scope :: "ident \<Rightarrow> ident \<Rightarrow> ident \<Rightarrow> ticket_row \<Rightarrow> bool" where
  "ticket_in_scope pid env tid t = (tk_id t = tid \<and> tk_project t = pid \<and> tk_environment t = env)"

definition lock_ticket :: "ticket_row \<Rightarrow> ticket_row tx" where
  "lock_ticket t s =
     (case find (ticket_in_scope (tk_project t) (tk_environment t) (tk_id t)) (tickets s) of
        None \<Rightarrow> (Inl ''Ticket outside scope or missing'', s) | Some u \<Rightarrow> (Inr u, s))"

definition terminal :: "ticket_row \<Rightarrow> bool" where
  "terminal t = (tk_status t = Merged \<or> tk_status t = Archived)"

text \<open>
  \<open>resolveMatchTicket\<close> follows the folds of a ticket. Every round marks one more of the tickets as
  seen, so the loop ends.
\<close>

function resolve_match_ticket :: "ident \<Rightarrow> ident \<Rightarrow> db \<Rightarrow> ident list \<Rightarrow> ident \<Rightarrow> string + ticket_row" where
  "resolve_match_ticket pid env s seen tid =
     (if tid \<in> set seen then Inl ''Invalid match target fold chain''
      else (case find (ticket_in_scope pid env tid) (tickets s) of
              None \<Rightarrow> Inl ''Match target missing, archived, or outside scope; retry lookup''
            | Some t \<Rightarrow>
                if tk_status t = Archived
                then Inl ''Match target missing, archived, or outside scope; retry lookup''
                else if tk_status t \<noteq> Merged then Inr t
                else (case truthy_str (tk_merged_into t) of
                        None \<Rightarrow> Inl ''Invalid match target fold chain''
                      | Some u \<Rightarrow> resolve_match_ticket pid env s (tid # seen) u)))"
  by pat_completeness auto
termination
proof (relation "measure (\<lambda>(pid, env, s, seen, tid). card (tk_id ` set (tickets s) - set seen))", goal_cases)
  case 1
  then show ?case by simp
next
  case (2 pid env s seen tid t u)
  then have "tid \<in> tk_id ` set (tickets s)"
    by (force simp: find_Some_iff ticket_in_scope_def)
  with \<open>tid \<notin> set seen\<close> have "tk_id ` set (tickets s) - insert tid (set seen) \<subset> tk_id ` set (tickets s) - set seen"
    by blast
  then show ?case by (simp add: psubset_card_mono)
qed

declare resolve_match_ticket.simps [simp del]

definition embedding_dims :: nat where "embedding_dims = 1536"

definition embedding_model :: string where "embedding_model = ''text-embedding-3-small''"

definition valid_vector :: "real list option \<Rightarrow> bool" where
  "valid_vector e = (case e of None \<Rightarrow> True | Some v \<Rightarrow> length v = embedding_dims)"

record new_ticket =
  nt_project :: ident
  nt_environment :: ident
  nt_name :: string
  nt_control :: string
  nt_what_happened :: string
  nt_kind :: ticket_kind
  nt_steps :: "string option"

definition fresh_ticket :: "ident \<Rightarrow> new_ticket \<Rightarrow> real list option \<Rightarrow> ticket_row" where
  "fresh_ticket tid t e =
     \<lparr>tk_id = tid, tk_project = nt_project t, tk_environment = nt_environment t, tk_status = Tracking,
      tk_kind = nt_kind t, tk_live_generation = 0, tk_evidence_version = 0, tk_fixed_at = None,
      tk_cohort_cutoff = None, tk_reconcile_needed = False, tk_reinvestigate_needed = False,
      tk_name = nt_name t, tk_control = nt_control t, tk_what_happened = nt_what_happened t,
      tk_steps = nt_steps t, tk_screens_confirmed = [], tk_screens_proposed = [], tk_embedding = e,
      tk_embedding_model = map_option (\<lambda>_. embedding_model) e, tk_matched = 0, tk_next_arrival = 0,
      tk_arrival_boundary = 0, tk_fold_retries = 0, tk_merged_into = None\<rparr>"

definition create_ticket :: "(nat \<Rightarrow> ident) \<Rightarrow> new_ticket \<Rightarrow> real list option \<Rightarrow> ticket_row tx" where
  "create_ticket uuid t e s =
     (if \<not> valid_vector e then (Inl ''Invalid ticket embedding'', s)
      else if list_ex (\<lambda>n. en_id n = nt_environment t \<and> en_project n = nt_project t) (environments s)
      then let row = fresh_ticket (uuid (uuids s)) t e
           in (Inr row, s\<lparr>tickets := tickets s @ [row], uuids := Suc (uuids s)\<rparr>)
      else (Inl ''Environment outside project'', s))"

section \<open>Candidates for a match\<close>

definition comparable :: "ticket_row \<Rightarrow> bool" where
  "comparable t = (tk_embedding_model t = Some embedding_model \<and> tk_embedding t \<noteq> None)"

definition nearer :: "(real list \<Rightarrow> real list \<Rightarrow> real) \<Rightarrow> real list \<Rightarrow> ticket_row \<Rightarrow> ticket_row \<Rightarrow> bool" where
  "nearer far v a b =
     (let da = far (the (tk_embedding a)) v; db = far (the (tk_embedding b)) v
      in da < db \<or> (da = db \<and> str_le (tk_id a) (tk_id b)))"

definition nearest_tickets ::
  "(real list \<Rightarrow> real list \<Rightarrow> real) \<Rightarrow> ident \<Rightarrow> ident \<Rightarrow> real list \<Rightarrow> nat \<Rightarrow> ticket_status list
     \<Rightarrow> (ticket_row \<times> real) list tx" where
  "nearest_tickets far pid env v k statuses s =
     (if \<not> valid_vector (Some v) then (Inl ''Invalid ticket embedding'', s)
      else (Inr (map (\<lambda>t. (t, 1 - far (the (tk_embedding t)) v)) (take k (sort_by (nearer far v)
              (filter (\<lambda>t. tk_project t = pid \<and> tk_environment t = env \<and> tk_status t \<in> set statuses
                 \<and> \<not> terminal t \<and> comparable t) (tickets s))))), s))"

definition more_confirmed :: "db \<Rightarrow> ticket_row \<Rightarrow> ticket_row \<Rightarrow> bool" where
  "more_confirmed s a b =
     (let n = (\<lambda>t. count_where (\<lambda>c. ck_ticket c = tk_id t \<and> ck_outcome c = Confirmed) (checks s))
      in n b < n a \<or> (n a = n b \<and> str_le (tk_id a) (tk_id b)))"

definition by_id :: "ticket_row \<Rightarrow> ticket_row \<Rightarrow> bool" where
  "by_id a b = str_le (tk_id a) (tk_id b)"

definition shortlist_tickets ::
  "(real list \<Rightarrow> real list \<Rightarrow> real) \<Rightarrow> ident \<Rightarrow> ident \<Rightarrow> string list \<Rightarrow> real list option \<Rightarrow> nat
     \<Rightarrow> ticket_row list tx" where
  "shortlist_tickets far pid env visited v k s =
     (if \<not> valid_vector v then (Inl ''Invalid ticket embedding'', s)
      else
        let eligible = filter (\<lambda>t. tk_project t = pid \<and> tk_environment t = env \<and> \<not> terminal t) (tickets s);
            on_screen = take 20 (sort_by by_id
              (filter (\<lambda>t. set (tk_screens_confirmed t) \<inter> set visited \<noteq> {}) eligible));
            confirmed = take 10 (sort_by (more_confirmed s) eligible);
            near = (case v of None \<Rightarrow> []
                    | Some w \<Rightarrow> take k (sort_by (nearer far w) (filter comparable eligible)))
        in (Inr (sort_by by_id (filter (\<lambda>t. tk_id t \<in> tk_id ` set (on_screen @ confirmed @ near)) (tickets s))), s))"

section \<open>What an observation becomes\<close>

definition lease_ms :: "string option \<Rightarrow> time" where
  "lease_ms raw =
     (case raw of None \<Rightarrow> 300000
      | Some r \<Rightarrow> (case to_number r of None \<Rightarrow> 300000 | Some n \<Rightarrow> n))"

definition decidable_signal :: "ident \<Rightarrow> ident \<Rightarrow> ident \<Rightarrow> db \<Rightarrow> signal_row \<Rightarrow> bool" where
  "decidable_signal sid pid env s f =
     (sig_id f = sid \<and> sig_project f = pid \<and> sig_environment f = env
      \<and> list_ex (\<lambda>r. ss_id r = sig_session f \<and> ss_project r = sig_project f
                     \<and> ss_environment r = sig_environment f) (sessions s))"

definition reserve_decision ::
  "string option \<Rightarrow> time \<Rightarrow> ident \<Rightarrow> ident \<Rightarrow> ident \<Rightarrow> (bool \<times> choice_row option) tx" where
  "reserve_decision lease now sid pid env s =
     (let existing = find (\<lambda>d. od_signal d = sid \<and> od_project d = pid \<and> od_environment d = env) (choices s);
          stale = (\<lambda>d. od_signal d = sid \<and> od_decision d = Undecided \<and> od_decided_at d < now - lease_ms lease)
      in case find (decidable_signal sid pid env s) (signals s) of
           None \<Rightarrow> (Inr (False, existing), s)
         | Some f \<Rightarrow>
             if \<not> list_ex (\<lambda>d. od_signal d = sid) (choices s)
             then (Inr (True, None), s\<lparr>choices := choices s @
                    [\<lparr>od_signal = sid, od_project = sig_project f, od_environment = sig_environment f,
                      od_session = sig_session f, od_decision = Undecided, od_ticket = None,
                      od_decided_by = Cheap, od_decided_at = now\<rparr>]\<rparr>)
             else if list_ex stale (choices s)
             then (Inr (True, None), s\<lparr>choices := update_where stale (\<lambda>d. d\<lparr>od_decided_at := now\<rparr>) (choices s)\<rparr>)
             else (Inr (False, existing), s))"

definition commit_decision ::
  "time \<Rightarrow> ident \<Rightarrow> observation_decision \<Rightarrow> ident option \<Rightarrow> match_source \<Rightarrow> bool tx" where
  "commit_decision now sid decision tid source s =
     (let hit = (\<lambda>d. od_signal d = sid \<and> od_decision d = Undecided
            \<and> (decision = NotAProblem
               \<or> list_ex (\<lambda>t. Some (tk_id t) = tid \<and> tk_project t = od_project d
                               \<and> tk_environment t = od_environment d) (tickets s)))
      in (Inr (list_ex hit (choices s)), s\<lparr>choices := update_where hit
            (\<lambda>d. d\<lparr>od_decision := decision, od_ticket := tid, od_decided_by := source, od_decided_at := now\<rparr>)
            (choices s)\<rparr>))"

definition publication_paused :: "(string \<Rightarrow> string option) \<Rightarrow> bool" where
  "publication_paused env =
     list_ex (\<lambda>k. case truthy_str (env k) of None \<Rightarrow> False | Some raw \<Rightarrow> to_number raw = Some 0)
       [''FRICTION_CONFIRM_MAX_CONCURRENT'', ''FRICTION_MATCH_MAX_CONCURRENT'']"

section \<open>Counting a recording\<close>

record match_input =
  mi_ticket :: ticket_row
  mi_session :: ident
  mi_source :: match_source
  mi_occurred_at :: time
  mi_screen :: string
  mi_signals :: "ident list"

definition signal_in :: "db \<Rightarrow> session_row \<Rightarrow> ident \<Rightarrow> bool" where
  "signal_in s r k = list_ex (\<lambda>f. sig_id f = k \<and> sig_session f = ss_id r \<and> sig_project f = ss_project r
     \<and> sig_environment f = ss_environment r) (signals s)"

definition valid_recording :: "ticket_row \<Rightarrow> match_input \<Rightarrow> db \<Rightarrow> session_row \<Rightarrow> bool" where
  "valid_recording t i s r =
     (ss_id r = mi_session i \<and> ss_project r = tk_project t \<and> ss_environment r = tk_environment t
      \<and> (case ss_end_user r of None \<Rightarrow> True
         | Some u \<Rightarrow> list_ex (\<lambda>e. eu_id e = u \<and> eu_project e = tk_project t) (end_users s))
      \<and> list_all (signal_in s r) (mi_signals i))"

definition same_recording :: "match_row \<Rightarrow> match_row \<Rightarrow> bool" where
  "same_recording a b = (mt_ticket a = mt_ticket b \<and> mt_session a = mt_session b)"

definition new_match :: "ticket_row \<Rightarrow> match_input \<Rightarrow> session_row \<Rightarrow> match_row" where
  "new_match t i r =
     \<lparr>mt_ticket = tk_id t, mt_session = mi_session i, mt_project = tk_project t,
      mt_environment = tk_environment t, mt_end_user = ss_end_user r, mt_arrival = tk_next_arrival t + 1,
      mt_source = mi_source i, mt_occurred_at = mi_occurred_at i\<rparr>"

definition count_match :: "nat \<Rightarrow> string \<Rightarrow> ticket_row \<Rightarrow> ticket_row" where
  "count_match n screen t =
     t\<lparr>tk_matched := tk_matched t + n, tk_next_arrival := tk_next_arrival t + n,
       tk_screens_proposed := distinct_sorted (tk_screens_proposed t @ (if screen = [] then [] else [screen]))\<rparr>"

definition observe :: "ident \<Rightarrow> ident \<Rightarrow> ident list \<Rightarrow> observation_row list \<Rightarrow> observation_row list" where
  "observe tid sid ks rows =
     fold (\<lambda>k. insert_new (=) \<lparr>mo_ticket = tid, mo_session = sid, mo_signal = k\<rparr>) ks rows"

definition retain_session :: "session_row \<Rightarrow> session_row" where
  "retain_session r =
     r\<lparr>ss_retain_until := Some (case ss_retain_until r of
          None \<Rightarrow> ss_started_at r + 90 * day_ms | Some u \<Rightarrow> max u (ss_started_at r + 90 * day_ms))\<rparr>"

definition store_match :: "ticket_row \<Rightarrow> match_input \<Rightarrow> session_row \<Rightarrow> db \<Rightarrow> db" where
  "store_match t i r s =
     (let m = new_match t i r; n = (if list_ex (same_recording m) (matches s) then 0 else 1 :: nat)
      in s\<lparr>matches := insert_new same_recording m (matches s),
           tickets := update_where (\<lambda>u. tk_id u = tk_id t) (count_match n (mi_screen i)) (tickets s),
           observations := observe (tk_id t) (mi_session i) (mi_signals i) (observations s),
           sessions := update_where (\<lambda>q. ss_id q = mi_session i) retain_session (sessions s)\<rparr>)"

definition arrival_in :: "db \<Rightarrow> ident \<Rightarrow> ident \<Rightarrow> nat" where
  "arrival_in s tid sid =
     (case find (\<lambda>m. mt_ticket m = tid \<and> mt_session m = sid) (matches s) of None \<Rightarrow> 0 | Some m \<Rightarrow> mt_arrival m)"

definition record_match :: "match_input \<Rightarrow> (bool \<times> nat) tx" where
  "record_match i =
     andthen (lock_ticket (mi_ticket i)) (\<lambda>t.
       if terminal t then throw ''Cannot match a terminal ticket''
       else andthen (reads (\<lambda>s. find (valid_recording t i s) (sessions s))) (\<lambda>found.
         case found of
           None \<Rightarrow> throw ''Match evidence outside ticket scope''
         | Some r \<Rightarrow>
             andthen (reads (\<lambda>s. \<not> list_ex (same_recording (new_match t i r)) (matches s))) (\<lambda>fresh.
             andthen (modify (store_match t i r)) (\<lambda>_.
               reads (\<lambda>s. (fresh, arrival_in s (tk_id t) (mi_session i)))))))"

section \<open>Selecting a batch\<close>

text \<open>A recording that has no check and is not waiting for its next attempt.\<close>

definition selectable :: "time \<Rightarrow> ident \<Rightarrow> db \<Rightarrow> match_row \<Rightarrow> bool" where
  "selectable now tid s m =
     (mt_ticket m = tid
      \<and> \<not> list_ex (\<lambda>c. ck_ticket c = tid \<and> ck_session c = mt_session m) (checks s)
      \<and> list_all (\<lambda>r. ur_ticket r = tid \<and> ur_session r = mt_session m \<longrightarrow>
            \<not> ur_permanent r \<and> ur_retry_at r \<le> now) (retries s))"

text \<open>The position of a recording among those of its user.\<close>

definition turn :: "match_row list \<Rightarrow> match_row \<Rightarrow> nat" where
  "turn ms m = count_where (\<lambda>k. mt_end_user k = mt_end_user m \<and> mt_arrival k < mt_arrival m) ms"

definition turn_order :: "match_row list \<Rightarrow> match_row \<Rightarrow> match_row \<Rightarrow> bool" where
  "turn_order ms a b =
     (turn ms a < turn ms b \<or> (turn ms a = turn ms b \<and> mt_arrival a \<le> mt_arrival b))"

definition batch_limit :: "ticket_row \<Rightarrow> nat" where
  "batch_limit t = (if tk_arrival_boundary t = 0 \<and> 50 < tk_matched t then 30 else 10)"

definition selected :: "time \<Rightarrow> ticket_row \<Rightarrow> db \<Rightarrow> match_row list" where
  "selected now t s =
     (let ms = filter (selectable now (tk_id t) s) (matches s)
      in take (batch_limit t) (sort_by (turn_order ms) ms))"

definition member_of :: "ident \<Rightarrow> db \<Rightarrow> match_row \<Rightarrow> batch_member" where
  "member_of tid s m =
     \<lparr>mb_session = mt_session m, mb_end_user = mt_end_user m, mb_arrival = mt_arrival m,
      mb_signals = sort_by str_le (map mo_signal
        (filter (\<lambda>o'. mo_ticket o' = tid \<and> mo_session o' = mt_session m) (observations s)))\<rparr>"

definition new_batch :: "ident \<Rightarrow> time \<Rightarrow> ticket_row \<Rightarrow> ident \<Rightarrow> batch_member list \<Rightarrow> batch_row" where
  "new_batch bid now t jid ms =
     \<lparr>batch_id = bid, batch_ticket = tk_id t, batch_status = Staging, batch_job = jid, batch_manifest = ms,
      batch_boundary = tk_arrival_boundary t, batch_live_generation = tk_live_generation t,
      batch_ticket_status = tk_status t, batch_evidence_version = tk_evidence_version t,
      batch_created_at = now, batch_finalized_at = None\<rparr>"

definition select_batch :: "(nat \<Rightarrow> ident) \<Rightarrow> time \<Rightarrow> ticket_row \<Rightarrow> ident \<Rightarrow> batch_row option tx" where
  "select_batch uuid now ticket jid =
     andthen (lock_ticket ticket) (\<lambda>t.
       if terminal t then pure None
       else andthen (reads (\<lambda>s. map (member_of (tk_id t) s) (selected now t s))) (\<lambda>ms.
         if ms = [] then pure None
         else andthen (reads (\<lambda>s. new_batch (uuid (uuids s)) now t jid ms)) (\<lambda>b.
           andthen (modify (\<lambda>s. s\<lparr>batches := batches s @ [b], uuids := Suc (uuids s),
                tickets := update_where (\<lambda>u. tk_id u = tk_id t)
                  (\<lambda>u. u\<lparr>tk_arrival_boundary := tk_next_arrival t\<rparr>) (tickets s)\<rparr>)) (\<lambda>_.
             pure (Some b)))))"

end
