(* ===== verification/TicketChecks.thy ===== *)
theory TicketChecks
  imports TicketMatches Tickets
begin

text \<open>
  What the checks of a ticket's recordings say (\<open>friction/tickets-db.ts\<close>): staging the result of a
  check, finalizing a batch, the statistics of the cohort and the bar they must pass, and the verified
  evidence, which is the one query that the display, the investigation and the publication read.
  The ratio of the bar is exact here; a double differs from it by rounding only.
\<close>

section \<open>Staging\<close>

record check_result =
  cr_session :: ident
  cr_outcome :: check_outcome
  cr_signals :: "ident list"
  cr_lines :: "string list"
  cr_note :: string
  cr_cost :: "user_cost option"
  cr_frames_ok :: bool
  cr_frames :: "string list"
  cr_model :: string

text \<open>The waiting time before the next attempt, by the attempts that were counted before.\<close>

definition check_retry_delay :: "nat \<Rightarrow> time" where
  "check_retry_delay n = (if n = 0 then hour_ms else if n = 1 then 6 * hour_ms else 24 * hour_ms)"

definition note_unavailable :: "time \<Rightarrow> ident \<Rightarrow> ident \<Rightarrow> retry_row list \<Rightarrow> retry_row list" where
  "note_unavailable now tid sid =
     upsert (\<lambda>r. ur_ticket r = tid \<and> ur_session r = sid)
       \<lparr>ur_ticket = tid, ur_session = sid, ur_attempts = 1, ur_retry_at = now + hour_ms, ur_permanent = False\<rparr>
       (\<lambda>r. r\<lparr>ur_attempts := ur_attempts r + 1, ur_retry_at := now + check_retry_delay (ur_attempts r),
              ur_permanent := 4 \<le> ur_attempts r + 1\<rparr>)"

definition new_attempt_row :: "ident \<Rightarrow> batch_row \<Rightarrow> check_result \<Rightarrow> check_attempt_row" where
  "new_attempt_row aid b r =
     \<lparr>ca_id = aid, ca_batch = batch_id b, ca_ticket = batch_ticket b, ca_session = cr_session r,
      ca_outcome = cr_outcome r, ca_lines = cr_lines r, ca_signals = cr_signals r, ca_note = cr_note r,
      ca_cost = cr_cost r, ca_frames_ok = cr_frames_ok r, ca_frames = cr_frames r, ca_model = cr_model r\<rparr>"

definition stageable :: "batch_row \<Rightarrow> check_result \<Rightarrow> bool" where
  "stageable b r =
     (batch_status b = Staging
      \<and> list_ex (\<lambda>m. mb_session m = cr_session r \<and> set (cr_signals r) \<subseteq> set (mb_signals m)) (batch_manifest b))"

definition stage_check :: "(nat \<Rightarrow> ident) \<Rightarrow> time \<Rightarrow> ident \<Rightarrow> check_result \<Rightarrow> bool tx" where
  "stage_check uuid now bid r s =
     (case find (\<lambda>b. batch_id b = bid) (batches s) of
        None \<Rightarrow> (Inr False, s)
      | Some b \<Rightarrow>
          if \<not> stageable b r \<or> list_ex (\<lambda>a. ca_batch a = bid \<and> ca_session a = cr_session r) (check_attempts s)
          then (Inr False, s)
          else (Inr True, s\<lparr>check_attempts := check_attempts s @ [new_attempt_row (uuid (uuids s)) b r],
                  uuids := Suc (uuids s),
                  retries := (if cr_outcome r = Unavailable
                              then note_unavailable now (batch_ticket b) (cr_session r) (retries s)
                              else retries s)\<rparr>))"

section \<open>The cohort\<close>

record cohort_stats =
  cs_counted :: nat
  cs_confirmed :: nat
  cs_refuted :: nat
  cs_inconclusive :: nat
  cs_users :: nat
  cs_identity_known :: bool

definition finalized_batch :: "db \<Rightarrow> ident \<Rightarrow> bool" where
  "finalized_batch s bid = list_ex (\<lambda>b. batch_id b = bid \<and> batch_status b = Finalized) (batches s)"

definition after_cutoff :: "ticket_row \<Rightarrow> match_row \<Rightarrow> bool" where
  "after_cutoff t m = (case tk_cohort_cutoff t of None \<Rightarrow> True | Some c \<Rightarrow> c < mt_occurred_at m)"

text \<open>The join of the checks of a ticket with the recordings they are about.\<close>

definition cohort :: "ticket_row \<Rightarrow> db \<Rightarrow> (check_row \<times> match_row) list" where
  "cohort t s =
     [(c, m). c \<leftarrow> checks s, m \<leftarrow> matches s, u \<leftarrow> tickets s, a \<leftarrow> check_attempts s,
        ck_ticket c = tk_id t \<and> mt_ticket m = ck_ticket c \<and> mt_session m = ck_session c
        \<and> ticket_in_scope (tk_project t) (tk_environment t) (tk_id t) u
        \<and> ca_id a = ck_attempt c \<and> finalized_batch s (ca_batch a) \<and> after_cutoff u m]"

definition stats_of :: "(check_outcome \<times> ident option) list \<Rightarrow> cohort_stats" where
  "stats_of rows =
     (let confirmed = map snd (filter (\<lambda>(v, _). v = Confirmed) rows)
      in \<lparr>cs_counted = length rows, cs_confirmed = length confirmed,
          cs_refuted = count_where (\<lambda>(v, _). v = Refuted) rows,
          cs_inconclusive = count_where (\<lambda>(v, _). v = Inconclusive) rows,
          cs_users = count_distinct confirmed,
          cs_identity_known = list_ex (\<lambda>u. u \<noteq> None) confirmed\<rparr>)"

definition cohort_stats_of :: "ticket_row \<Rightarrow> db \<Rightarrow> cohort_stats" where
  "cohort_stats_of t s = stats_of (map (\<lambda>(c, m). (ck_outcome c, mt_end_user m)) (cohort t s))"

datatype bar_verdict = Passes | Fails | Undecided_bar

definition diverse :: "cohort_stats \<Rightarrow> bool" where
  "diverse st = (\<not> cs_identity_known st \<or> 2 \<le> cs_users st)"

definition ratio :: "cohort_stats \<Rightarrow> real" where
  "ratio st = (if cs_counted st = 0 then 0 else real (cs_confirmed st) / real (cs_counted st))"

definition evaluate_bar :: "cohort_stats \<Rightarrow> ticket_status \<Rightarrow> fix_substate option \<Rightarrow> bar_verdict" where
  "evaluate_bar st status substate =
     (if 3 \<le> cs_confirmed st \<and> diverse st \<and> 4 / 10 \<le> ratio st then Passes
      else if status = Published \<and> substate \<noteq> Some SubResolved
        \<and> (cs_confirmed st < 3 \<or> \<not> diverse st \<or> (10 \<le> cs_counted st \<and> ratio st < 25 / 100))
      then Fails else Undecided_bar)"

section \<open>Finalizing\<close>

record finalized_result =
  fr_finalized :: bool
  fr_evidence_version :: nat
  fr_stats :: cohort_stats

definition same_check :: "check_row \<Rightarrow> check_row \<Rightarrow> bool" where
  "same_check a b = (ck_ticket a = ck_ticket b \<and> ck_session a = ck_session b)"

definition settled :: "ident \<Rightarrow> check_attempt_row \<Rightarrow> bool" where
  "settled bid a = (ca_batch a = bid \<and> ca_outcome a \<noteq> Unavailable)"

definition check_of :: "check_attempt_row \<Rightarrow> check_row" where
  "check_of a = \<lparr>ck_ticket = ca_ticket a, ck_session = ca_session a, ck_attempt = ca_id a, ck_outcome = ca_outcome a\<rparr>"

definition close_batch :: "time \<Rightarrow> ticket_row \<Rightarrow> ident \<Rightarrow> db \<Rightarrow> db" where
  "close_batch now t bid s =
     (let done = filter (settled bid) (check_attempts s)
      in s\<lparr>checks := fold (\<lambda>a. insert_new same_check (check_of a)) done (checks s),
           retries := filter (\<lambda>r. \<not> list_ex (\<lambda>a. ca_ticket a = ur_ticket r \<and> ca_session a = ur_session r) done) (retries s),
           batches := update_where (\<lambda>b. batch_id b = bid)
             (\<lambda>b. b\<lparr>batch_status := Finalized, batch_finalized_at := Some now\<rparr>) (batches s),
           tickets := update_where (\<lambda>u. tk_id u = tk_id t)
             (\<lambda>u. u\<lparr>tk_evidence_version := tk_evidence_version u + 1\<rparr>) (tickets s)\<rparr>)"

definition finalize_batch :: "time \<Rightarrow> ticket_row \<Rightarrow> ident \<Rightarrow> finalized_result tx" where
  "finalize_batch now ticket bid =
     andthen (lock_ticket ticket) (\<lambda>t.
     andthen (reads (\<lambda>s. find (\<lambda>b. batch_id b = bid \<and> batch_ticket b = tk_id t) (batches s))) (\<lambda>found.
       case found of
         None \<Rightarrow> throw ''Batch outside ticket''
       | Some b \<Rightarrow>
           if batch_status b \<noteq> Staging
           then reads (\<lambda>s. \<lparr>fr_finalized = False, fr_evidence_version = tk_evidence_version t,
                  fr_stats = cohort_stats_of t s\<rparr>)
           else andthen (reads (\<lambda>s. count_where (\<lambda>a. ca_batch a = bid) (check_attempts s))) (\<lambda>n.
             if n \<noteq> length (batch_manifest b) then throw ''Cannot finalize an incomplete batch''
             else andthen (modify (close_batch now t bid)) (\<lambda>_.
               reads (\<lambda>s. \<lparr>fr_finalized = True, fr_evidence_version = tk_evidence_version t + 1,
                 fr_stats = cohort_stats_of t s\<rparr>)))))"

section \<open>Verified evidence\<close>

record evidence_row =
  er_session :: ident
  er_end_user :: "ident option"
  er_account :: "string option"
  er_signals :: "ident list"
  er_screens :: "string list"
  er_note :: string
  er_cost :: "user_cost option"
  er_arrival :: nat

definition cost_rank :: "user_cost option \<Rightarrow> nat" where
  "cost_rank c = (case c of Some Annoyance \<Rightarrow> 1 | Some LostTime \<Rightarrow> 2 | Some AbandonedTask \<Rightarrow> 3 | _ \<Rightarrow> 0)"

text \<open>The observed signals of a recording that the check names.\<close>

definition verified_signals :: "ident \<Rightarrow> check_attempt_row \<Rightarrow> db \<Rightarrow> signal_row list" where
  "verified_signals tid a s =
     [f. k \<leftarrow> observations s, f \<leftarrow> signals s,
        mo_ticket k = tid \<and> mo_session k = ca_session a \<and> sig_id f = mo_signal k
        \<and> mo_signal k \<in> set (ca_signals a)]"

definition in_window :: "time \<Rightarrow> nat option \<Rightarrow> match_row \<Rightarrow> bool" where
  "in_window now days m =
     (case days of None \<Rightarrow> True
      | Some d \<Rightarrow> now - real d * day_ms \<le> mt_occurred_at m \<and> mt_occurred_at m \<le> now)"

definition evidence_row_of :: "db \<Rightarrow> ticket_row \<Rightarrow> match_row \<Rightarrow> check_attempt_row \<Rightarrow> evidence_row" where
  "evidence_row_of s t m a =
     \<lparr>er_session = mt_session m, er_end_user = mt_end_user m,
      er_account = Option.bind (mt_end_user m) (\<lambda>u. Option.bind
        (find (\<lambda>e. eu_id e = u \<and> eu_project e = tk_project t) (end_users s)) eu_account),
      er_signals = distinct_sorted (map sig_id (verified_signals (tk_id t) a s)),
      er_screens = distinct_sorted (map sig_page (verified_signals (tk_id t) a s)),
      er_note = ca_note a, er_cost = ca_cost a, er_arrival = mt_arrival m\<rparr>"

definition evidence_order :: "evidence_row \<Rightarrow> evidence_row \<Rightarrow> bool" where
  "evidence_order x y =
     (cost_rank (er_cost x) < cost_rank (er_cost y)
      \<or> (cost_rank (er_cost x) = cost_rank (er_cost y)
         \<and> (er_arrival x < er_arrival y
            \<or> (er_arrival x = er_arrival y \<and> str_le (er_session x) (er_session y)))))"

definition evidence_rows :: "time \<Rightarrow> ticket_row \<Rightarrow> nat option \<Rightarrow> db \<Rightarrow> evidence_row list" where
  "evidence_rows now ticket days s =
     sort_by evidence_order
       [evidence_row_of s t m a. t \<leftarrow> tickets s, m \<leftarrow> matches s, c \<leftarrow> checks s, a \<leftarrow> check_attempts s,
          ticket_in_scope (tk_project ticket) (tk_environment ticket) (tk_id ticket) t
          \<and> mt_ticket m = tk_id t \<and> ck_ticket c = tk_id t \<and> ck_session c = mt_session m
          \<and> ca_id a = ck_attempt c \<and> ca_ticket a = tk_id t \<and> ca_session a = mt_session m
          \<and> finalized_batch s (ca_batch a) \<and> ck_outcome c = Confirmed
          \<and> after_cutoff t m \<and> in_window now days m]"

record representative =
  rp_session :: ident
  rp_signals :: "ident list"
  rp_note :: string
  rp_cost :: "user_cost option"

record verified_evidence =
  ve_users :: nat
  ve_sessions :: nat
  ve_accounts :: "string list"
  ve_session_ids :: "ident list"
  ve_signal_ids :: "ident list"
  ve_representative :: "representative option"

definition truthy_accounts :: "evidence_row list \<Rightarrow> string list" where
  "truthy_accounts rows =
     [n. r \<leftarrow> rows, n \<leftarrow> (case er_account r of None \<Rightarrow> [] | Some n \<Rightarrow> [n]), trim n \<noteq> []]"

definition known_users :: "evidence_row list \<Rightarrow> ident list" where
  "known_users rows = [u. r \<leftarrow> rows, u \<leftarrow> (case truthy_str (er_end_user r) of None \<Rightarrow> [] | Some u \<Rightarrow> [u])]"

definition median_row :: "evidence_row list \<Rightarrow> evidence_row option" where
  "median_row rows = (if rows = [] then None else Some (rows ! ((length rows - 1) div 2)))"

definition summarize_evidence :: "evidence_row list \<Rightarrow> verified_evidence" where
  "summarize_evidence rows =
     \<lparr>ve_users = length (dedup (known_users rows)), ve_sessions = length rows,
      ve_accounts = distinct_sorted (truthy_accounts rows), ve_session_ids = map er_session rows,
      ve_signal_ids = distinct_sorted (concat (map er_signals rows)),
      ve_representative = map_option (\<lambda>r. \<lparr>rp_session = er_session r, rp_signals = er_signals r,
         rp_note = er_note r, rp_cost = er_cost r\<rparr>) (median_row rows)\<rparr>"

definition verified_evidence_of :: "time \<Rightarrow> ticket_row \<Rightarrow> nat option \<Rightarrow> db \<Rightarrow> verified_evidence" where
  "verified_evidence_of now t days s = summarize_evidence (evidence_rows now t days s)"

section \<open>Planning\<close>

text \<open>The cohort with the results that the batch has staged, and the notes of what is confirmed.\<close>

definition staged_rows :: "ident \<Rightarrow> ident option \<Rightarrow> db \<Rightarrow> (ident \<times> check_outcome \<times> string) list" where
  "staged_rows tid bid s =
     [(ck_session c, ck_outcome c, ca_note a). c \<leftarrow> checks s, a \<leftarrow> check_attempts s,
        ck_ticket c = tid \<and> ca_id a = ck_attempt c \<and> finalized_batch s (ca_batch a)]
     @ [(ca_session a, ca_outcome a, ca_note a). a \<leftarrow> check_attempts s, b \<leftarrow> batches s,
        batch_id b = ca_batch a \<and> Some (ca_batch a) = bid \<and> ca_ticket a = tid \<and> batch_status b = Staging
        \<and> ca_outcome a \<noteq> Unavailable
        \<and> \<not> list_ex (\<lambda>c. ck_ticket c = ca_ticket a \<and> ck_session c = ca_session a) (checks s)]"

definition arrival_order :: "match_row \<times> 'a \<Rightarrow> match_row \<times> 'a \<Rightarrow> bool" where
  "arrival_order x y = (mt_arrival (fst x) \<le> mt_arrival (fst y))"

definition preview_cohort :: "ident \<Rightarrow> ident option \<Rightarrow> db \<Rightarrow> cohort_stats \<times> string list" where
  "preview_cohort tid bid s =
     (let rows = map snd (sort_by arrival_order
            [(m, (v, mt_end_user m, note)). (sid, v, note) \<leftarrow> staged_rows tid bid s, m \<leftarrow> matches s, t \<leftarrow> tickets s,
               mt_ticket m = tid \<and> mt_session m = sid \<and> tk_id t = mt_ticket m \<and> after_cutoff t m]);
          confirmed = filter (\<lambda>(v, _). v = Confirmed) rows;
          users = dedup [u. (_, e, _) \<leftarrow> confirmed, u \<leftarrow> (case truthy_str e of None \<Rightarrow> [] | Some u \<Rightarrow> [u])]
      in (\<lparr>cs_counted = length rows, cs_confirmed = length confirmed,
           cs_refuted = count_where (\<lambda>(v, _). v = Refuted) rows,
           cs_inconclusive = count_where (\<lambda>(v, _). v = Inconclusive) rows,
           cs_users = length users, cs_identity_known = (users \<noteq> [])\<rparr>,
          dedup (filter (\<lambda>n. n \<noteq> []) (map (\<lambda>(_, _, n). n) confirmed))))"

text \<open>When the next recording can be checked; \<open>None\<close> when there is nothing left to do.\<close>

definition next_confirmation_at :: "time \<Rightarrow> ident \<Rightarrow> db \<Rightarrow> time option" where
  "next_confirmation_at now tid s =
     pick_min (\<le>) [(case r of None \<Rightarrow> now | Some q \<Rightarrow> max now (ur_retry_at q)).
        m \<leftarrow> matches s,
        r \<leftarrow> [find (\<lambda>q. ur_ticket q = tid \<and> ur_session q = mt_session m) (retries s)],
        mt_ticket m = tid
        \<and> \<not> list_ex (\<lambda>c. ck_ticket c = tid \<and> ck_session c = mt_session m) (checks s)
        \<and> (case r of None \<Rightarrow> True | Some q \<Rightarrow> \<not> ur_permanent q)]"

definition batch_intact :: "batch_row \<Rightarrow> db \<Rightarrow> bool" where
  "batch_intact batch s =
     list_all (\<lambda>b. batch_id b = batch_id batch \<longrightarrow>
       list_all (\<lambda>mb. list_ex (\<lambda>m. mt_ticket m = batch_ticket b \<and> mt_session m = mb_session mb
            \<and> list_ex (\<lambda>r. ss_id r = mt_session m) (sessions s)
            \<and> list_all (\<lambda>k. list_ex (\<lambda>q. mo_ticket q = mt_ticket m \<and> mo_session q = mt_session m \<and> mo_signal q = k)
                 (observations s)) (mb_signals mb)) (matches s)) (batch_manifest b)) (batches s)"

definition get_batch :: "ident \<Rightarrow> ident \<Rightarrow> db \<Rightarrow> batch_row option" where
  "get_batch tid bid s = find (\<lambda>b. batch_id b = bid \<and> batch_ticket b = tid) (batches s)"

text \<open>One counter per project and day; \<open>day\<close> is the day of the clock in UTC.\<close>

definition reserve_budget :: "ident \<Rightarrow> int \<Rightarrow> nat \<Rightarrow> budget_row list \<Rightarrow> bool \<times> budget_row list" where
  "reserve_budget pid day cap rows =
     (let hit = (\<lambda>b. bg_project b = pid \<and> bg_day b = day)
      in if cap = 0 then (False, rows)
         else if \<not> list_ex hit rows then (True, rows @ [\<lparr>bg_project = pid, bg_day = day, bg_used = 1\<rparr>])
         else (list_ex (\<lambda>b. hit b \<and> bg_used b < cap) rows,
               update_where (\<lambda>b. hit b \<and> bg_used b < cap) (\<lambda>b. b\<lparr>bg_used := bg_used b + 1\<rparr>) rows))"

definition reserve_confirmation_budget :: "ident \<Rightarrow> int \<Rightarrow> nat \<Rightarrow> (bool \<times> int) tx" where
  "reserve_confirmation_budget pid day cap s =
     (case reserve_budget pid day cap (confirmation_budget s) of
        (ok, rows) \<Rightarrow> (Inr (ok, day + 1), s\<lparr>confirmation_budget := rows\<rparr>))"

end
