(* ===== verification/TicketLifecycle.thy ===== *)
theory TicketLifecycle
  imports TicketChecks FixAttempts
begin

text \<open>
  The publication of a ticket (\<open>friction/tickets-db.ts\<close>): retiring and activating a generation,
  withdrawing a publication, folding one ticket into another, and the investigations that a
  publication starts. SHA-256 and the distance of embeddings are parameters, and so are the two
  settings that the process reads from its environment.
\<close>

section \<open>Settings\<close>

definition fold_min_similarity :: "string option \<Rightarrow> real" where
  "fold_min_similarity raw =
     (case to_number (case raw of None \<Rightarrow> ''0.75'' | Some r \<Rightarrow> r) of
        None \<Rightarrow> 75 / 100 | Some n \<Rightarrow> if 0 < n \<and> n \<le> 1 then n else 75 / 100)"

definition insight_investigate_users :: "string option \<Rightarrow> nat" where
  "insight_investigate_users raw =
     (case integer_value (to_number (case raw of None \<Rightarrow> ''5'' | Some r \<Rightarrow> r)) of
        None \<Rightarrow> 5 | Some n \<Rightarrow> if 0 < n then nat n else 5)"

definition investigation_allowed :: "string option \<Rightarrow> ticket_kind \<Rightarrow> nat \<Rightarrow> bool" where
  "investigation_allowed raw kind users = (kind \<noteq> UxInsight \<or> insight_investigate_users raw \<le> users)"

definition max_investigations_per_generation :: nat where "max_investigations_per_generation = 3"

section \<open>Investigations\<close>

definition investigation_of :: "ident \<Rightarrow> nat \<Rightarrow> job_row \<Rightarrow> bool" where
  "investigation_of gid n j = (job_group j = Some gid \<and> job_type j = Investigate \<and> job_publication j = Some n)"

definition enqueue_ticket_investigation ::
  "(nat \<Rightarrow> ident) \<Rightarrow> time \<Rightarrow> ident \<Rightarrow> ident \<Rightarrow> nat \<Rightarrow> ident \<Rightarrow> ident option \<Rightarrow> db \<Rightarrow> bool \<times> db" where
  "enqueue_ticket_investigation uuid now tid pid n gid finishing s =
     (let prior = filter (investigation_of gid n) (jobs s);
          busy = list_ex (\<lambda>j. (job_status j = Pending \<or> job_status j = Claimed) \<and> Some (job_id j) \<noteq> finishing) prior
      in if busy \<or> max_investigations_per_generation \<le> length prior then (False, s)
         else
           let s1 = snd (enqueue_job_tx uuid now Investigate pid
                  (no_options\<lparr>eo_group := Some gid, eo_source := Some gid, eo_ticket := Some tid,
                     eo_publication := Some n\<rparr>) s)
           in (True, s1\<lparr>issues := update_where (\<lambda>g. gr_id g = gid \<and> gr_investigation_status g = None)
                  (\<lambda>g. g\<lparr>gr_investigation_status := Some ''pending''\<rparr>) (issues s1)\<rparr>))"

section \<open>Retiring a generation\<close>

definition live_issue :: "ident \<Rightarrow> group_row \<Rightarrow> bool" where
  "live_issue tid g = (gr_ticket g = Some tid \<and> gr_status g \<noteq> GArchived)"

definition archive_issue :: "time \<Rightarrow> group_row \<Rightarrow> group_row" where
  "archive_issue now g =
     g\<lparr>gr_before_archive := Some (gr_status g), gr_status := GArchived, gr_archived_at := Some now\<rparr>"

definition close_job :: "string \<Rightarrow> time \<Rightarrow> job_row \<Rightarrow> job_row" where
  "close_job why now j =
     j\<lparr>job_status := Failed, job_last_error := Some why, job_updated_at := now\<rparr>"

definition retire_live_generation :: "time \<Rightarrow> ident \<Rightarrow> db \<Rightarrow> db" where
  "retire_live_generation now tid s =
     (let ids = map gr_id (filter (live_issue tid) (issues s))
      in s\<lparr>issues := update_where (live_issue tid) (archive_issue now) (issues s),
           jobs := update_where (\<lambda>j. (\<exists>g \<in> set ids. job_group j = Some g)
               \<and> (job_status j = Pending \<or> job_status j = Claimed) \<and> (job_type j = Investigate \<or> job_type j = Fix))
             (\<lambda>j. (close_job ''unpublished'' now j)\<lparr>job_lease_expires := None\<rparr>) (jobs s),
           attempts := update_where (\<lambda>a. at_group a \<in> set ids \<and> (at_status a = Active \<or> at_status a = PrOpen))
             (\<lambda>a. a\<lparr>at_status := Superseded\<rparr>) (attempts s),
           card_copies := update_where (\<lambda>c. cc_group c \<in> set ids \<and> cc_invalidated_at c = None)
             (\<lambda>c. c\<lparr>cc_invalidated_at := Some now\<rparr>) (card_copies s)\<rparr>)"

section \<open>Activating a generation\<close>

definition incident_row ::
  "ident \<Rightarrow> time \<Rightarrow> string \<Rightarrow> ticket_row \<Rightarrow> nat \<Rightarrow> verified_evidence \<Rightarrow> string list \<Rightarrow> bool \<Rightarrow> group_row" where
  "incident_row gid now fp t n ev screens allowed =
     \<lparr>gr_id = gid, gr_project = tk_project t, gr_environment = Some (tk_environment t), gr_fingerprint = fp,
      gr_title = tk_name t, gr_status = GQueued, gr_is_error = False, gr_unchecked = False,
      gr_signal_type = None, gr_page = (case screens of [] \<Rightarrow> None | x # _ \<Rightarrow> Some x), gr_selector = None,
      gr_occurrences = ve_sessions ev, gr_affected_users = ve_users ev, gr_ticket = Some (tk_id t),
      gr_publication = Some n, gr_fix_substate = Some SubNone,
      gr_investigation_status = (if allowed then Some ''pending'' else None), gr_investigation_execution = 0,
      gr_evidence_version_used = Some (tk_evidence_version t), gr_explained_signals = [], gr_root_cause = None,
      gr_confidence = None, gr_pr_url = None, gr_pr_number = None, gr_pr_fix_job = None,
      gr_terminal_fix_job = None, gr_reason_code = None, gr_reason_message = None, gr_remediation = None,
      gr_candidate_diff = None, gr_evidence = None, gr_pr_created_at = None, gr_needs_human_at = None,
      gr_merged_at = None, gr_first_seen = now, gr_last_seen = now, gr_representative_signal = None,
      gr_representative_session = None, gr_before_archive = None, gr_archived_at = None,
      gr_actionable_since = Some now\<rparr>"

definition same_evidence :: "incident_evidence_row \<Rightarrow> incident_evidence_row \<Rightarrow> bool" where
  "same_evidence a b = (ie_group a = ie_group b \<and> ie_signal a = ie_signal b)"

definition publish_row :: "nat \<Rightarrow> string \<Rightarrow> string list \<Rightarrow> ticket_row \<Rightarrow> ticket_row" where
  "publish_row n steps screens t =
     t\<lparr>tk_status := Published, tk_live_generation := n, tk_steps := Some steps, tk_screens_confirmed := screens,
       tk_fixed_at := None, tk_fold_retries := 0\<rparr>"

definition ticket_fingerprint :: "(string \<Rightarrow> string) \<Rightarrow> ident \<Rightarrow> nat \<Rightarrow> string" where
  "ticket_fingerprint sha tid n = sha (''ticket|'' @ tid @ ''|'' @ digits n)"

definition publish_generation ::
  "(nat \<Rightarrow> ident) \<Rightarrow> (string \<Rightarrow> string) \<Rightarrow> string option \<Rightarrow> time \<Rightarrow> ticket_row \<Rightarrow> string \<Rightarrow> evidence_row list
     \<Rightarrow> db \<Rightarrow> (ident \<times> nat) \<times> db" where
  "publish_generation uuid sha insight now t steps rows s =
     (let ev = summarize_evidence rows; s1 = retire_live_generation now (tk_id t) s;
          n = tk_live_generation t + 1; screens = distinct_sorted (concat (map er_screens rows));
          allowed = investigation_allowed insight (tk_kind t) (ve_users ev); gid = uuid (uuids s1);
          s2 = s1\<lparr>issues := issues s1 @ [incident_row gid now (ticket_fingerprint sha (tk_id t) n) t n ev screens allowed],
                 uuids := Suc (uuids s1),
                 incident_evidence := fold (\<lambda>k. insert_new same_evidence
                     \<lparr>ie_group = gid, ie_ticket = tk_id t, ie_generation = n, ie_signal = k\<rparr>)
                   (ve_signal_ids ev) (incident_evidence s1),
                 signals := update_where (\<lambda>x. sig_id x \<in> set (ve_signal_ids ev) \<and> sig_project x = tk_project t
                     \<and> sig_environment x = tk_environment t) (\<lambda>x. x\<lparr>sig_incident := Some gid\<rparr>) (signals s1),
                 tickets := update_where (\<lambda>u. tk_id u = tk_id t) (publish_row n steps screens) (tickets s1)\<rparr>;
          s3 = (if allowed
                then snd (enqueue_ticket_investigation uuid now (tk_id t) (tk_project t) n gid None s2) else s2)
      in ((gid, n), s3))"

definition activate_generation ::
  "(nat \<Rightarrow> ident) \<Rightarrow> (string \<Rightarrow> string) \<Rightarrow> string option \<Rightarrow> time \<Rightarrow> ticket_row \<Rightarrow> string \<Rightarrow> (ident \<times> nat) tx" where
  "activate_generation uuid sha insight now ticket steps =
     andthen (lock_ticket ticket) (\<lambda>t.
       if terminal t then throw ''Cannot publish a terminal ticket''
       else andthen (reads (cohort_stats_of t)) (\<lambda>st.
         if evaluate_bar st (tk_status t) None \<noteq> Passes then throw ''Ticket does not meet publication bar''
         else andthen (reads (evidence_rows now t None)) (\<lambda>rows.
           transact (publish_generation uuid sha insight now t steps rows))))"

definition unpublish :: "time \<Rightarrow> ticket_row \<Rightarrow> unit tx" where
  "unpublish now ticket =
     andthen (lock_ticket ticket) (\<lambda>t.
       if tk_status t \<noteq> Published then pure ()
       else andthen (reads (\<lambda>s. list_ex (\<lambda>g. live_issue (tk_id t) g \<and> gr_fix_substate g = Some SubResolved) (issues s)))
         (\<lambda>resolved. if resolved then pure ()
           else modify (\<lambda>s. let s1 = retire_live_generation now (tk_id t) s
             in s1\<lparr>tickets := update_where (\<lambda>u. tk_id u = tk_id t) (\<lambda>u. u\<lparr>tk_status := Unpublished\<rparr>) (tickets s1)\<rparr>)))"

section \<open>Folding\<close>

definition by_arrival :: "match_row \<Rightarrow> match_row \<Rightarrow> bool" where
  "by_arrival a b = (mt_arrival a \<le> mt_arrival b)"

definition fold_input :: "db \<Rightarrow> ticket_row \<Rightarrow> ident \<Rightarrow> match_row \<Rightarrow> match_input" where
  "fold_input s t source m =
     \<lparr>mi_ticket = t, mi_session = mt_session m, mi_source = Fold, mi_occurred_at = mt_occurred_at m,
      mi_screen = [], mi_signals = sort_by str_le (map mo_signal
        (filter (\<lambda>q. mo_ticket q = source \<and> mo_session q = mt_session m) (observations s)))\<rparr>"

definition merge_rows :: "time \<Rightarrow> ticket_row \<Rightarrow> ticket_row \<Rightarrow> db \<Rightarrow> db" where
  "merge_rows now source t s =
     s\<lparr>tickets := update_where (\<lambda>u. tk_id u = tk_id source)
           (\<lambda>u. u\<lparr>tk_status := Merged, tk_merged_into := Some (tk_id t)\<rparr>)
         (update_where (\<lambda>u. tk_id u = tk_id t)
           (\<lambda>u. u\<lparr>tk_screens_proposed := distinct_sorted (tk_screens_proposed u @ tk_screens_proposed source),
                  tk_evidence_version := tk_evidence_version u + 1, tk_reconcile_needed := True\<rparr>) (tickets s)),
       card_copies := update_where (\<lambda>c. list_ex (\<lambda>g. gr_id g = cc_group c \<and> gr_ticket g = Some (tk_id t)) (issues s)
           \<and> cc_invalidated_at c = None) (\<lambda>c. c\<lparr>cc_invalidated_at := Some now\<rparr>) (card_copies s),
       choices := update_where (\<lambda>d. od_ticket d = Some (tk_id source))
         (\<lambda>d. d\<lparr>od_ticket := Some (tk_id t), od_decided_by := Fold, od_decided_at := now\<rparr>) (choices s),
       jobs := update_where (\<lambda>j. job_ticket j = Some (tk_id source) \<and> job_type j = FrictionConfirm \<and> job_status j = Pending)
         (close_job ''ticket merged'' now) (jobs s)\<rparr>"

definition confirm_needed :: "ticket_row \<Rightarrow> bool" where
  "confirm_needed t =
     (if tk_arrival_boundary t = 0 then 3 \<le> tk_matched t
      else 10 \<le> int (tk_next_arrival t) - int (tk_arrival_boundary t))"

definition foldable :: "ticket_row \<Rightarrow> ticket_row \<Rightarrow> bool" where
  "foldable source t = ((tk_status source = Tracking \<or> tk_status source = Unpublished) \<and> tk_status t = Published)"

definition fold_into :: "(nat \<Rightarrow> ident) \<Rightarrow> time \<Rightarrow> ticket_row \<Rightarrow> ticket_row \<Rightarrow> bool tx" where
  "fold_into uuid now source target =
     (if tk_id source = tk_id target \<or> tk_project source \<noteq> tk_project target
         \<or> tk_environment source \<noteq> tk_environment target
      then throw ''Invalid fold scope''
      else andthen (lock_ticket (if str_le (tk_id target) (tk_id source) then target else source)) (\<lambda>_.
        andthen (lock_ticket source) (\<lambda>u.
        andthen (lock_ticket target) (\<lambda>t.
          if \<not> foldable u t then throw ''Invalid fold lifecycle''
          else andthen (reads (\<lambda>s. list_ex (\<lambda>g. live_issue (tk_id t) g \<and> gr_fix_substate g \<noteq> Some SubResolved) (issues s)))
            (\<lambda>alive. if \<not> alive then throw ''Cannot fold into a resolved ticket''
              else andthen (reads (\<lambda>s. map (fold_input s t (tk_id u))
                     (sort_by by_arrival (filter (\<lambda>m. mt_ticket m = tk_id u) (matches s))))) (\<lambda>inputs.
                andthen (each (\<lambda>i. andthen (record_match i) (\<lambda>_. pure ())) inputs) (\<lambda>_.
                andthen (modify (merge_rows now u t)) (\<lambda>_.
                andthen (lock_ticket t) (\<lambda>latest.
                  if \<not> confirm_needed latest then pure False
                  else andthen (modify (\<lambda>s. snd (enqueue_job_tx uuid now FrictionConfirm (tk_project t)
                         (no_options\<lparr>eo_ticket := Some (tk_id t)\<rparr>) s))) (\<lambda>_. pure True)))))))))) "

section \<open>Neighbours and incidents\<close>

definition neighbour :: "(real list \<Rightarrow> real list \<Rightarrow> real) \<Rightarrow> real list \<Rightarrow> ticket_row \<Rightarrow> real" where
  "neighbour far v t = 1 - far (the (tk_embedding t)) v"

definition closer :: "(real list \<Rightarrow> real list \<Rightarrow> real) \<Rightarrow> real list \<Rightarrow> ticket_row \<Rightarrow> ticket_row \<Rightarrow> bool" where
  "closer far v a b =
     (neighbour far v b < neighbour far v a
      \<or> (neighbour far v a = neighbour far v b \<and> str_le (tk_id a) (tk_id b)))"

definition published_neighbors ::
  "(real list \<Rightarrow> real list \<Rightarrow> real) \<Rightarrow> string option \<Rightarrow> ticket_row \<Rightarrow> db \<Rightarrow> (ticket_row \<times> real) list" where
  "published_neighbors far floor_setting t s =
     (case (tk_embedding t, tk_embedding_model t = Some embedding_model) of
        (Some v, True) \<Rightarrow>
          map (\<lambda>u. (u, neighbour far v u)) (take 10 (sort_by (closer far v)
            [u. u \<leftarrow> tickets s, g \<leftarrow> issues s,
               gr_ticket g = Some (tk_id u) \<and> gr_publication g = Some (tk_live_generation u)
               \<and> tk_project u = tk_project t \<and> tk_environment u = tk_environment t \<and> tk_id u \<noteq> tk_id t
               \<and> tk_status u = Published \<and> gr_status g \<noteq> GArchived \<and> gr_fix_substate g \<noteq> Some SubResolved
               \<and> comparable u \<and> fold_min_similarity floor_setting \<le> neighbour far v u]))
      | _ \<Rightarrow> [])"

record live_incident =
  li_id :: ident
  li_fix_substate :: "fix_substate option"
  li_evidence_version_used :: "nat option"
  li_investigation_status :: "string option"
  li_explained :: "ident list"
  li_pr_url :: "string option"

definition live_incident_of :: "ticket_row \<Rightarrow> db \<Rightarrow> live_incident option" where
  "live_incident_of t s =
     map_option (\<lambda>g. \<lparr>li_id = gr_id g, li_fix_substate = gr_fix_substate g,
          li_evidence_version_used = gr_evidence_version_used g,
          li_investigation_status = gr_investigation_status g, li_explained = gr_explained_signals g,
          li_pr_url = Option.bind (find (\<lambda>a. Some (at_ticket a) = gr_ticket g \<and> Some (at_generation a) = gr_publication g
             \<and> at_pr_url a \<noteq> None) (rev (attempts s))) at_pr_url\<rparr>)
       (find (\<lambda>g. gr_ticket g = Some (tk_id t) \<and> gr_publication g = Some (tk_live_generation t)
                 \<and> gr_status g \<noteq> GArchived) (issues s))"

section \<open>The publish gate\<close>

definition record_gate_decision :: "gate_decision_row \<Rightarrow> db \<Rightarrow> db" where
  "record_gate_decision d s = s\<lparr>gate_decisions := gate_decisions s @ [d]\<rparr>"

definition latest_gate_decision :: "ident \<Rightarrow> ident \<Rightarrow> db \<Rightarrow> bool option" where
  "latest_gate_decision tid cid s =
     map_option gd_one_fix (pick_min (\<lambda>a b. gd_decided_at b \<le> gd_decided_at a)
       (filter (\<lambda>d. gd_ticket d = tid \<and> gd_candidate d = cid) (rev (gate_decisions s))))"

end
