(* ===== verification/TicketSafety.thy ===== *)
theory TicketSafety
  imports TicketLifecycle
begin

text \<open>
  What holds along every run of the committed operations on tickets: the recordings of a ticket are
  numbered without gaps and counted once, and a ticket has one live incident, of its live generation,
  exactly while it is published.
\<close>

section \<open>What a committed operation did\<close>

lemma lock_ticket_Inr:
  "lock_ticket t s = (Inr u, s') \<longleftrightarrow>
     find (ticket_in_scope (tk_project t) (tk_environment t) (tk_id t)) (tickets s) = Some u \<and> s' = s"
  by (auto simp: lock_ticket_def split: option.splits)

lemma lock_ticket_row:
  "lock_ticket t s = (Inr u, s') \<Longrightarrow> s' = s \<and> u \<in> set (tickets s) \<and> tk_id u = tk_id t
     \<and> tk_project u = tk_project t \<and> tk_environment u = tk_environment t"
  by (auto simp: lock_ticket_Inr find_Some_iff ticket_in_scope_def)

lemma andthen_Inr:
  "andthen m f s = (Inr r, s') \<longleftrightarrow> (\<exists>a t. m s = (Inr a, t) \<and> f a t = (Inr r, s'))"
  by (auto simp: andthen_def split: prod.splits sum.splits)

lemma basic_Inr:
  "throw e s = (Inr r, s') \<longleftrightarrow> False" "pure a s = (Inr r, s') \<longleftrightarrow> r = a \<and> s' = s"
  "reads f s = (Inr r', s') \<longleftrightarrow> r' = f s \<and> s' = s" "modify h s = (Inr u, s') \<longleftrightarrow> s' = h s"
  "transact g s = (Inr a', s') \<longleftrightarrow> g s = (a', s')"
  by (auto simp: throw_def pure_def reads_def modify_def transact_def split: prod.splits)

lemmas tx_Inr = andthen_Inr basic_Inr

lemma record_match_Inr:
  assumes "record_match i s = (Inr r, s')"
  obtains t q where "t \<in> set (tickets s)" "tk_id t = tk_id (mi_ticket i)" "\<not> terminal t"
    "find (valid_recording t i s) (sessions s) = Some q" "s' = store_match t i q s"
    "r = (\<not> list_ex (same_recording (new_match t i q)) (matches s), arrival_in s' (tk_id t) (mi_session i))"
  using assms
  by (auto simp: record_match_def tx_Inr dest!: lock_ticket_row split: if_splits option.splits)

lemma select_batch_Inr:
  assumes "select_batch uuid now ticket jid s = (Inr r, s')"
  obtains "r = None" "s' = s"
    | t b where "t \<in> set (tickets s)" "tk_id t = tk_id ticket" "\<not> terminal t"
      "b = new_batch (uuid (uuids s)) now t jid (map (member_of (tk_id t) s) (selected now t s))"
      "selected now t s \<noteq> []" "r = Some b"
      "s' = s\<lparr>batches := batches s @ [b], uuids := Suc (uuids s),
         tickets := update_where (\<lambda>u. tk_id u = tk_id t)
           (\<lambda>u. u\<lparr>tk_arrival_boundary := tk_next_arrival t\<rparr>) (tickets s)\<rparr>"
  using assms
  by (auto simp: select_batch_def tx_Inr dest!: lock_ticket_row split: if_splits)

lemma finalize_batch_Inr:
  assumes "finalize_batch now ticket bid s = (Inr r, s')"
  obtains "s' = s" "\<not> fr_finalized r"
    | t b where "t \<in> set (tickets s)" "tk_id t = tk_id ticket"
      "find (\<lambda>b. batch_id b = bid \<and> batch_ticket b = tk_id t) (batches s) = Some b" "batch_status b = Staging"
      "count_where (\<lambda>a. ca_batch a = bid) (check_attempts s) = length (batch_manifest b)"
      "s' = close_batch now t bid s" "fr_finalized r" "fr_stats r = cohort_stats_of t s'"
  using assms
  by (auto simp: finalize_batch_def tx_Inr dest!: lock_ticket_row split: if_splits option.splits)

lemma activate_Inr:
  assumes "activate_generation uuid sha insight now ticket steps s = (Inr r, s')"
  obtains t where "t \<in> set (tickets s)" "tk_id t = tk_id ticket" "\<not> terminal t"
    "evaluate_bar (cohort_stats_of t s) (tk_status t) None = Passes"
    "publish_generation uuid sha insight now t steps (evidence_rows now t None s) s = (r, s')"
  using assms
  by (auto simp: activate_generation_def tx_Inr dest!: lock_ticket_row split: if_splits prod.splits)

lemma unpublish_Inr:
  assumes "unpublish now ticket s = (Inr r, s')"
  obtains "s' = s"
    | t where "t \<in> set (tickets s)" "tk_id t = tk_id ticket" "tk_status t = Published"
      "s' = (let s1 = retire_live_generation now (tk_id t) s
        in s1\<lparr>tickets := update_where (\<lambda>u. tk_id u = tk_id t) (\<lambda>u. u\<lparr>tk_status := Unpublished\<rparr>) (tickets s1)\<rparr>)"
  using assms
  by (auto simp: unpublish_def tx_Inr dest!: lock_ticket_row split: if_splits)

section \<open>Runs\<close>

inductive ticket_step :: "(nat \<Rightarrow> ident) \<Rightarrow> (string \<Rightarrow> string) \<Rightarrow> db \<Rightarrow> db \<Rightarrow> bool"
  for uuid :: "nat \<Rightarrow> ident" and sha :: "string \<Rightarrow> string" where
  create: "uuid (uuids s) \<notin> tk_id ` set (tickets s) \<Longrightarrow> create_ticket uuid nt e s = (Inr t, s') \<Longrightarrow>
     ticket_step uuid sha s s'"
| reserve: "reserve_decision lease now sid pid env s = (Inr r, s') \<Longrightarrow> ticket_step uuid sha s s'"
| commit: "commit_decision now sid d tid src s = (Inr b, s') \<Longrightarrow> ticket_step uuid sha s s'"
| recorded: "record_match i s = (Inr m, s') \<Longrightarrow> ticket_step uuid sha s s'"
| select: "select_batch uuid now t jid s = (Inr sb, s') \<Longrightarrow> ticket_step uuid sha s s'"
| stage: "stage_check uuid now bid cr s = (Inr b, s') \<Longrightarrow> ticket_step uuid sha s s'"
| finalize: "finalize_batch now t bid s = (Inr fr, s') \<Longrightarrow> ticket_step uuid sha s s'"
| discard: "ticket_step uuid sha s (discard_batch bid s)"
| activate: "activate_generation uuid sha insight now t steps s = (Inr gn, s') \<Longrightarrow> ticket_step uuid sha s s'"
| withdraw: "unpublish now t s = (Inr u, s') \<Longrightarrow> ticket_step uuid sha s s'"
| fold: "fold_into uuid now src tgt s = (Inr b, s') \<Longrightarrow> ticket_step uuid sha s s'"
| investigate: "ticket_step uuid sha s (snd (enqueue_ticket_investigation uuid now tid pid n gid fin s))"
| budget: "reserve_confirmation_budget pid day cap s = (Inr bd, s') \<Longrightarrow> ticket_step uuid sha s s'"
| gate: "ticket_step uuid sha s (record_gate_decision gd s)"

section \<open>Recordings\<close>

text \<open>
  Of every ticket the counters, and the recordings in the order of the table: they are numbered from
  one without gaps, each session is counted once, and the counters agree with the number.
\<close>

definition counters :: "ticket_row \<Rightarrow> ident \<times> nat \<times> nat" where
  "counters t = (tk_id t, tk_next_arrival t, tk_matched t)"

definition recordings_of :: "ident \<Rightarrow> match_row list \<Rightarrow> match_row list" where
  "recordings_of tid ms = filter (\<lambda>m. mt_ticket m = tid) ms"

definition numbered :: "match_row list \<Rightarrow> ident \<times> nat \<times> nat \<Rightarrow> bool" where
  "numbered ms c =
     (case c of (tid, n, k) \<Rightarrow>
        map mt_arrival (recordings_of tid ms) = [1..<Suc n] \<and> k = n
        \<and> distinct (map mt_session (recordings_of tid ms)))"

definition all_numbered :: "(ident \<times> nat \<times> nat) list \<Rightarrow> match_row list \<Rightarrow> bool" where
  "all_numbered cs ms =
     (distinct (map fst cs) \<and> list_all (numbered ms) cs \<and> mt_ticket ` set ms \<subseteq> fst ` set cs)"

definition recordings_ok :: "db \<Rightarrow> bool" where
  "recordings_ok s = all_numbered (map counters (tickets s)) (matches s)"

lemma recordings_ok_frame:
  "recordings_ok s \<Longrightarrow> map counters (tickets s') = map counters (tickets s) \<Longrightarrow> matches s' = matches s \<Longrightarrow>
   recordings_ok s'"
  by (simp add: recordings_ok_def)

lemma counters_update:
  "map counters (update_where (\<lambda>u. tk_id u = k) (count_match n x) ts)
     = map (\<lambda>(i, a, m). if i = k then (i, a + n, m + n) else (i, a, m)) (map counters ts)"
  by (induction ts) (simp_all add: counters_def count_match_def)

lemma recordings_of_new:
  "recordings_of k (insert_new same_recording m ms)
     = (if k = mt_ticket m \<and> \<not> list_ex (same_recording m) ms then recordings_of k ms @ [m] else recordings_of k ms)"
  by (simp add: recordings_of_def insert_new_def)

lemma list_all_mapI: "(\<And>x. x \<in> set xs \<Longrightarrow> P (f x)) \<Longrightarrow> list_all P (map f xs)"
  by (simp add: list_all_iff)

lemma store_match_recordings:
  assumes ok: "recordings_ok s" and t: "t \<in> set (tickets s)"
  shows "recordings_ok (store_match t i q s)"
proof (cases "list_ex (same_recording (new_match t i q)) (matches s)")
  case True
  then have "map counters (tickets (store_match t i q s)) = map counters (tickets s)"
    by (simp add: store_match_def counters_def count_match_def map_update_where_same)
  with ok True show ?thesis
    by (auto intro: recordings_ok_frame simp: store_match_def insert_new_def)
next
  case False
  let ?m = "new_match t i q" and ?cs = "map counters (tickets s)"
  let ?f = "\<lambda>(j, a, b). if j = tk_id t then (j, Suc a, Suc b) else (j, a, b)"
  have s': "map counters (tickets (store_match t i q s)) = map ?f ?cs"
      "matches (store_match t i q s) = matches s @ [?m]"
    using False by (simp_all add: store_match_def Let_def counters_update insert_new_def split: prod.split)
  have fst_f: "fst (?f c) = fst c" for c by (cases c) simp
  have own: "c = counters t" if "c \<in> set ?cs" "fst c = tk_id t" for c
    using that t ok by (auto simp: recordings_ok_def all_numbered_def distinct_map inj_on_def counters_def)
  have fresh: "mt_session ?m \<notin> mt_session ` set (recordings_of (tk_id t) (matches s))"
    using False by (auto simp: recordings_of_def list_ex_iff same_recording_def new_match_def)
  have step: "numbered (matches s @ [?m]) (?f c)" if c: "c \<in> set ?cs" for c
  proof -
    have n: "numbered (matches s) c" using ok c by (auto simp: recordings_ok_def all_numbered_def list_all_iff)
    obtain j a b where jab: "c = (j, a, b)" by (cases c)
    show ?thesis
    proof (cases "j = tk_id t")
      case True
      with own [OF c] jab have "a = tk_next_arrival t" by (simp add: counters_def)
      with n True jab fresh show ?thesis
        by (auto simp: numbered_def recordings_of_def new_match_def)
    next
      case False
      with n jab show ?thesis by (simp add: numbered_def recordings_of_def new_match_def)
    qed
  qed
  have keys: "map fst (map ?f ?cs) = map fst ?cs" using fst_f by (simp only: map_map comp_def)
  then have key_set: "fst ` set (map ?f ?cs) = fst ` set ?cs" by (metis list.set_map)
  have "tk_id t \<in> fst ` set ?cs" using t by (force simp: counters_def)
  then have new: "mt_ticket ?m \<in> fst ` set ?cs" by (simp add: new_match_def)
  have old: "distinct (map fst ?cs)" "mt_ticket ` set (matches s) \<subseteq> fst ` set ?cs"
    using ok by (simp_all only: recordings_ok_def all_numbered_def)
  show ?thesis
    unfolding recordings_ok_def s' all_numbered_def keys key_set
  proof (intro conjI)
    show "list_all (numbered (matches s @ [?m])) (map ?f ?cs)"
      by (rule list_all_mapI) (rule step)
    show "mt_ticket ` set (matches s @ [?m]) \<subseteq> fst ` set ?cs"
      using new old(2) by (simp only: set_append list.set image_Un image_insert image_empty) blast
  qed (rule old(1))
qed

subsection \<open>The other operations\<close>

lemma enqueue_investigation_frame [simp]:
  "tickets (snd (enqueue_ticket_investigation u now tid pid n g fin s)) = tickets s"
  "matches (snd (enqueue_ticket_investigation u now tid pid n g fin s)) = matches s"
  by (simp_all add: enqueue_ticket_investigation_def enqueue_job_tx_def Let_def)

lemma retire_frame [simp]:
  "tickets (retire_live_generation now tid s) = tickets s" "matches (retire_live_generation now tid s) = matches s"
  "uuids (retire_live_generation now tid s) = uuids s"
  by (simp_all add: retire_live_generation_def Let_def)

lemma publish_recordings:
  assumes "publish_generation uuid sha insight now t steps rows s = (r, s')" "recordings_ok s"
  shows "recordings_ok s'"
  using assms(2)
  by (rule recordings_ok_frame)
    (use assms(1) in \<open>auto simp: publish_generation_def Let_def counters_def publish_row_def map_update_where_same split: if_splits\<close>)

lemma merge_rows_recordings: "recordings_ok s \<Longrightarrow> recordings_ok (merge_rows now u t s)"
  by (erule recordings_ok_frame) (simp_all add: merge_rows_def counters_def map_update_where_same)

lemma record_match_keeps: "keeps_always recordings_ok (record_match i)"
  unfolding keeps_always_def meets_def
  by (auto simp: record_match_def lock_ticket_def find_Some_iff andthen_def throw_def reads_def modify_def
      intro!: store_match_recordings split: option.split)

lemma fold_recordings:
  assumes "fold_into uuid now src tgt s = (Inr b, s')" "recordings_ok s"
  shows "recordings_ok s'"
proof -
  have lock: "keeps_always recordings_ok (lock_ticket t)" for t
    by (auto simp: keeps_always_def meets_def lock_ticket_def split: option.split)
  have read: "keeps_always recordings_ok (reads f)" for f :: "db \<Rightarrow> 'x"
    by (simp add: keeps_always_def meets_reads)
  have "keeps_always recordings_ok (fold_into uuid now src tgt)"
    unfolding fold_into_def
    by (intro keeps_always_rules keeps_always_each lock read record_match_keeps keeps_always_cases
        merge_rows_recordings)
      (erule recordings_ok_frame; simp add: enqueue_job_tx_def Let_def)+
  then show ?thesis using assms(2) assms(1) by (rule keeps_always_run)
qed

lemma step_recordings: "ticket_step uuid sha s s' \<Longrightarrow> recordings_ok s \<Longrightarrow> recordings_ok s'"
proof (induction rule: ticket_step.induct)
  case (create s nt e t s')
  then have "matches s' = matches s"
    and rows: "map counters (tickets s') = map counters (tickets s) @ [(uuid (uuids s), 0, 0)]"
    by (auto simp: create_ticket_def Let_def fresh_ticket_def counters_def split: if_splits)
  moreover have "recordings_of (uuid (uuids s)) (matches s) = []"
    using create(1,3) by (force simp: recordings_of_def filter_empty_conv recordings_ok_def all_numbered_def counters_def)
  ultimately show ?case
    using create(1,3) by (auto simp: recordings_ok_def all_numbered_def numbered_def image_image counters_def)
next
  case (recorded i s m s')
  then show ?case by (auto elim!: record_match_Inr intro: store_match_recordings)
next
  case (select now t jid s sb s')
  from select(1) select(2) show ?case
    by (elim select_batch_Inr) (auto elim!: recordings_ok_frame simp: counters_def map_update_where_same)
next
  case (finalize now t bid s fr s')
  from finalize(1) finalize(2) show ?case
    by (elim finalize_batch_Inr) (auto elim!: recordings_ok_frame simp: close_batch_def Let_def counters_def map_update_where_same)
next
  case (activate insight now t steps s gn s')
  then show ?case by (auto elim!: activate_Inr intro: publish_recordings)
next
  case (withdraw now t s u s')
  from withdraw(1) withdraw(2) show ?case
    by (elim unpublish_Inr) (auto elim!: recordings_ok_frame simp: Let_def counters_def map_update_where_same)
next
  case (fold now src tgt s b s')
  then show ?case by (rule fold_recordings)
qed (auto elim!: recordings_ok_frame simp: reserve_decision_def commit_decision_def stage_check_def discard_batch_def
    reserve_confirmation_budget_def record_gate_decision_def Let_def counters_def map_update_where_same
    split: option.splits if_splits prod.splits)

text \<open>Runs of committed operations.\<close>

abbreviation ticket_run :: "(nat \<Rightarrow> ident) \<Rightarrow> (string \<Rightarrow> string) \<Rightarrow> db \<Rightarrow> db \<Rightarrow> bool" where
  "ticket_run uuid sha \<equiv> (ticket_step uuid sha)\<^sup>*\<^sup>*"

lemma run_invariant:
  assumes "\<And>s s'. ticket_step uuid sha s s' \<Longrightarrow> I s \<Longrightarrow> I s'"
  shows "ticket_run uuid sha s t \<Longrightarrow> I s \<Longrightarrow> I t"
  by (induction rule: rtranclp_induct) (auto intro: assms)

end
