(* ===== verification/TicketPublication.thy ===== *)
theory TicketPublication
  imports TicketSafety
begin

text \<open>
  What a publication of a ticket guarantees along every run of the committed operations: one live
  incident per published ticket, at most three investigations per publication, and folds that can
  always be followed to a ticket that still counts recordings.
\<close>

section \<open>One live incident\<close>

definition publication_of :: "ticket_row \<Rightarrow> ident \<times> nat option list" where
  "publication_of t = (tk_id t, if tk_status t = Published then [Some (tk_live_generation t)] else [])"

definition live_publications :: "ident \<Rightarrow> group_row list \<Rightarrow> nat option list" where
  "live_publications tid gs = map gr_publication (filter (live_issue tid) gs)"

definition publications_ok :: "db \<Rightarrow> bool" where
  "publications_ok s =
     (distinct (map tk_id (tickets s))
      \<and> list_all (\<lambda>(tid, ps). live_publications tid (issues s) = ps) (map publication_of (tickets s))
      \<and> list_all (\<lambda>g. case gr_ticket g of None \<Rightarrow> True
                  | Some tid \<Rightarrow> tid \<in> tk_id ` set (tickets s)) (issues s))"

text \<open>What the invariant reads of an issue.\<close>

definition issue_key :: "group_row \<Rightarrow> ident option \<times> nat option \<times> bool" where
  "issue_key g = (gr_ticket g, gr_publication g, gr_status g = GArchived)"

lemma live_publications_key:
  "live_publications tid gs = map (fst \<circ> snd) (filter (\<lambda>(t, _, z). t = Some tid \<and> \<not> z) (map issue_key gs))"
  by (induction gs) (simp_all add: live_publications_def live_issue_def issue_key_def)

lemma publications_ok_frame:
  assumes "publications_ok s" "map publication_of (tickets s') = map publication_of (tickets s)"
    "map issue_key (issues s') = map issue_key (issues s)"
  shows "publications_ok s'"
proof -
  have ids: "map tk_id (tickets s') = map tk_id (tickets s)"
    using arg_cong [OF assms(2), of "map fst"] by (simp add: publication_of_def comp_def)
  have live: "live_publications tid (issues s') = live_publications tid (issues s)" for tid
    by (simp only: live_publications_key assms(3))
  have owners: "list_all (\<lambda>g. P (gr_ticket g)) gs = list_all P (map fst (map issue_key gs))" for P gs
    by (simp add: list_all_iff issue_key_def)
  have id_set: "tk_id ` set (tickets s') = tk_id ` set (tickets s)"
    by (metis ids list.set_map)
  show ?thesis
    using assms(1) unfolding publications_ok_def ids live assms(2) owners assms(3) id_set .
qed

lemma store_match_frame [simp]:
  "map publication_of (tickets (store_match t i q s)) = map publication_of (tickets s)"
  "issues (store_match t i q s) = issues s"
  by (simp_all add: store_match_def Let_def publication_of_def count_match_def map_update_where_same)

lemma investigation_keys [simp]:
  "map issue_key (issues (snd (enqueue_ticket_investigation u now tid pid n g fin s))) = map issue_key (issues s)"
  by (simp add: enqueue_ticket_investigation_def enqueue_job_tx_def Let_def issue_key_def map_update_where_same)

text \<open>Retiring a generation archives the live issues of its ticket and no other.\<close>

lemma live_after_retire:
  "live_publications k (issues (retire_live_generation now tid s))
     = (if k = tid then [] else live_publications k (issues s))"
proof -
  have "map issue_key (issues (retire_live_generation now tid s))
      = map (\<lambda>(t, p, z). (t, p, z \<or> t = Some tid)) (map issue_key (issues s))"
    unfolding retire_live_generation_def
    by (induction "issues s") (auto simp: Let_def issue_key_def archive_issue_def live_issue_def update_where_def)
  then show ?thesis
    unfolding live_publications_key by (auto simp: filter_map comp_def case_prod_beta filter_empty_conv intro!: filter_cong arg_cong [of _ _ "map _"])
qed

lemma retire_owners [simp]:
  "map gr_ticket (issues (retire_live_generation now tid s)) = map gr_ticket (issues s)"
  by (simp add: retire_live_generation_def Let_def archive_issue_def map_update_where_same)

text \<open>The state after a publication, as far as the invariant reads it.\<close>

definition published_issue ::
  "(nat \<Rightarrow> ident) \<Rightarrow> (string \<Rightarrow> string) \<Rightarrow> string option \<Rightarrow> time \<Rightarrow> ticket_row \<Rightarrow> evidence_row list \<Rightarrow> db \<Rightarrow> group_row" where
  "published_issue uuid sha insight now t rows s =
     (let ev = summarize_evidence rows; n = tk_live_generation t + 1
      in incident_row (uuid (uuids s)) now (ticket_fingerprint sha (tk_id t) n) t n ev
           (distinct_sorted (concat (map er_screens rows)))
           (investigation_allowed insight (tk_kind t) (ve_users ev)))"

lemma publish_effect:
  assumes "publish_generation uuid sha insight now t steps rows s = (r, s')"
  shows "r = (uuid (uuids s), tk_live_generation t + 1)"
    and "map issue_key (issues s') = map issue_key (issues (retire_live_generation now (tk_id t) s))
           @ [(Some (tk_id t), Some (tk_live_generation t + 1), False)]"
    and "map publication_of (tickets s')
           = map (\<lambda>(k, ps). (k, if k = tk_id t then [Some (tk_live_generation t + 1)] else ps)) (map publication_of (tickets s))"
  using assms
  by (auto simp: publish_generation_def Let_def issue_key_def incident_row_def publication_of_def publish_row_def update_where_def
      split: if_splits)

lemma publish_publications:
  assumes pub: "publish_generation uuid sha insight now t steps rows s = (r, s')"
    and ok: "publications_ok s" and t: "t \<in> set (tickets s)"
  shows "publications_ok s'"
proof -
  let ?n = "tk_live_generation t + 1"
  have ids: "map tk_id (tickets s') = map tk_id (tickets s)"
    using arg_cong [OF publish_effect(3) [OF pub], of "map fst"]
    by (simp add: publication_of_def comp_def case_prod_beta)
  then have id_set: "tk_id ` set (tickets s') = tk_id ` set (tickets s)"
    by (metis list.set_map)
  have live: "live_publications k (issues s') = (if k = tk_id t then [Some ?n] else live_publications k (issues s))" for k
    using live_after_retire [of k now "tk_id t" s]
    by (auto simp: live_publications_key publish_effect(2) [OF pub] split: if_splits)
  have "map gr_ticket (issues s') = map gr_ticket (issues s) @ [Some (tk_id t)]"
    using arg_cong [OF publish_effect(2) [OF pub], of "map fst"] retire_owners [of now "tk_id t" s]
    by (simp add: issue_key_def comp_def)
  moreover have owners: "list_all (\<lambda>g. P (gr_ticket g)) gs = list_all P (map gr_ticket gs)" for P gs
    by (simp add: list_all_iff)
  ultimately show ?thesis
    using ok t unfolding publications_ok_def ids id_set publish_effect(3) [OF pub] live owners
    by (auto simp: list_all_iff)
qed

text \<open>
  A fold counts recordings on the target, which touches four tables and no lifecycle, and then merges
  the source into it.
\<close>

definition lifecycle :: "ticket_row \<Rightarrow> ident \<times> ident \<times> ident \<times> ticket_status \<times> nat \<times> ident option" where
  "lifecycle t = (tk_id t, tk_project t, tk_environment t, tk_status t, tk_live_generation t, tk_merged_into t)"

definition uncounted :: "db \<Rightarrow> db" where
  "uncounted s = s\<lparr>matches := [], tickets := [], observations := [], sessions := []\<rparr>"

definition counted_from :: "db \<Rightarrow> db \<Rightarrow> bool" where
  "counted_from s x = (uncounted x = uncounted s \<and> map lifecycle (tickets x) = map lifecycle (tickets s))"

lemma counted_refl: "counted_from s s"
  by (simp add: counted_from_def)

lemma uncounted_fields:
  assumes "uncounted x = uncounted s"
  shows "issues x = issues s" "jobs x = jobs s" "batches x = batches s" "check_attempts x = check_attempts s"
    "checks x = checks s" "uuids x = uuids s"
  using arg_cong [OF assms, of issues] arg_cong [OF assms, of jobs] arg_cong [OF assms, of batches]
    arg_cong [OF assms, of check_attempts] arg_cong [OF assms, of checks] arg_cong [OF assms, of uuids]
  by (simp_all add: uncounted_def)

lemma store_match_counts: "counted_from s x \<Longrightarrow> counted_from s (store_match t i q x)"
  by (simp add: counted_from_def uncounted_def store_match_def Let_def lifecycle_def count_match_def map_update_where_same)

lemma record_match_counts: "keeps_always (counted_from s) (record_match i)"
  unfolding keeps_always_def meets_def
  by (auto simp: record_match_def lock_ticket_def find_Some_iff andthen_def throw_def reads_def modify_def
      intro!: store_match_counts split: option.split)

lemma fold_Inr:
  assumes "fold_into uuid now src tgt s = (Inr b, s')"
  obtains u t s1 where "u \<in> set (tickets s)" "tk_id u = tk_id src" "t \<in> set (tickets s)" "tk_id t = tk_id tgt"
    "tk_id u \<noteq> tk_id t" "tk_project u = tk_project t" "tk_environment u = tk_environment t" "foldable u t"
    "list_ex (\<lambda>g. live_issue (tk_id t) g \<and> gr_fix_substate g \<noteq> Some SubResolved) (issues s)"
    "counted_from s s1"
    "s' = merge_rows now u t s1 \<or> s' = snd (enqueue_job_tx uuid now FrictionConfirm (tk_project t)
       (no_options\<lparr>eo_ticket := Some (tk_id t)\<rparr>) (merge_rows now u t s1))"
proof -
  obtain u t where ut: "lock_ticket src s = (Inr u, s)" "lock_ticket tgt s = (Inr t, s)" "foldable u t"
      "list_ex (\<lambda>g. live_issue (tk_id t) g \<and> gr_fix_substate g \<noteq> Some SubResolved) (issues s)"
    and scope: "tk_id src \<noteq> tk_id tgt" "tk_project src = tk_project tgt" "tk_environment src = tk_environment tgt"
    and rest: "\<exists>is s1. each (\<lambda>i. andthen (record_match i) (\<lambda>_. pure ())) is s = (Inr (), s1)
       \<and> (s' = merge_rows now u t s1 \<or> s' = snd (enqueue_job_tx uuid now FrictionConfirm (tk_project t)
       (no_options\<lparr>eo_ticket := Some (tk_id t)\<rparr>) (merge_rows now u t s1)))"
    using assms
    by (auto simp: fold_into_def tx_Inr lock_ticket_Inr split: if_splits)
  from rest obtain "is" s1 where s1: "each (\<lambda>i. andthen (record_match i) (\<lambda>_. pure ())) is s = (Inr (), s1)"
      and s': "s' = merge_rows now u t s1 \<or> s' = snd (enqueue_job_tx uuid now FrictionConfirm (tk_project t)
       (no_options\<lparr>eo_ticket := Some (tk_id t)\<rparr>) (merge_rows now u t s1))" by blast
  have "keeps_always (counted_from s) (each (\<lambda>i. andthen (record_match i) (\<lambda>_. pure ())) is)"
    by (intro keeps_always_each keeps_always_rules record_match_counts)
  then have "counted_from s s1" using counted_refl s1 by (rule keeps_always_run)
  note row = lock_ticket_row [OF ut(1)] lock_ticket_row [OF ut(2)]
  show ?thesis
    by (rule that [of u t s1]) (use row ut scope s' \<open>counted_from s s1\<close> in simp_all)
qed

lemma merged_publications:
  assumes "publications_ok s" "counted_from s s1" "u \<in> set (tickets s)" "foldable u t" "tk_id u \<noteq> tk_id t"
  shows "publications_ok (merge_rows now u t s1)"
proof -
  have lc: "map lifecycle (tickets s1) = map lifecycle (tickets s)" and iss: "issues s1 = issues s"
    using assms(2) by (auto simp: counted_from_def dest: uncounted_fields)
  have pub: "publication_of = (\<lambda>(k, p, e, st, n, m). (k, if st = Published then [Some n] else [])) \<circ> lifecycle"
    by (simp add: fun_eq_iff publication_of_def lifecycle_def)
  have same: "map publication_of (tickets s1) = map publication_of (tickets s)"
    unfolding pub by (simp only: map_map [symmetric] lc)
  have u: "publication_of u = (tk_id u, [])"
    using assms(4) by (auto simp: publication_of_def foldable_def)
  have "map publication_of (tickets (merge_rows now u t s1))
      = map (\<lambda>(k, ps). (k, if k = tk_id u then [] else ps)) (map publication_of (tickets s1))"
    using assms(5) by (auto simp: merge_rows_def update_where_def publication_of_def)
  also have "\<dots> = map publication_of (tickets s)"
    unfolding same using assms(1,3) u
    by (auto simp: publications_ok_def distinct_map inj_on_def publication_of_def split: if_splits)
  finally show ?thesis
    by (rule publications_ok_frame [OF assms(1)]) (simp add: merge_rows_def iss)
qed

lemma step_publications:
  "ticket_step uuid sha s s' \<Longrightarrow> publications_ok s \<Longrightarrow> publications_ok s'"
proof (induction rule: ticket_step.induct)
  case (create s nt e t s')
  then have [simp]: "issues s' = issues s"
    and rows: "tickets s' = tickets s @ [fresh_ticket (uuid (uuids s)) nt e]"
    by (auto simp: create_ticket_def Let_def split: if_splits)
  have new: "live_publications (uuid (uuids s)) (issues s) = []"
    using create(1,3)
    by (force simp: publications_ok_def live_publications_def live_issue_def filter_empty_conv list_all_iff)
  show ?case
    using create(1,3) new unfolding publications_ok_def rows
    by (auto simp: fresh_ticket_def publication_of_def list_all_iff split: option.splits)
next
  case (recorded i s m s')
  then show ?case by (auto elim!: record_match_Inr publications_ok_frame)
next
  case (select now t jid s sb s')
  from select(1) select(2) show ?case
    by (elim select_batch_Inr) (auto elim!: publications_ok_frame simp: publication_of_def map_update_where_same)
next
  case (finalize now t bid s fr s')
  from finalize(1) finalize(2) show ?case
    by (elim finalize_batch_Inr)
      (auto elim!: publications_ok_frame simp: close_batch_def Let_def publication_of_def map_update_where_same)
next
  case (activate insight now t steps s gn s')
  then show ?case by (auto elim!: activate_Inr intro: publish_publications)
next
  case (withdraw now t s u s')
  from withdraw(1) show ?case
  proof (elim unpublish_Inr)
    fix k assume k: "k \<in> set (tickets s)" "tk_id k = tk_id t"
      and s': "s' = (let s1 = retire_live_generation now (tk_id k) s
        in s1\<lparr>tickets := update_where (\<lambda>u. tk_id u = tk_id k) (\<lambda>u. u\<lparr>tk_status := Unpublished\<rparr>) (tickets s1)\<rparr>)"
    have rows: "map publication_of (tickets s')
        = map (\<lambda>(j, ps). (j, if j = tk_id k then [] else ps)) (map publication_of (tickets s))"
      unfolding s' by (auto simp: Let_def publication_of_def update_where_def)
    have ids: "map tk_id (tickets s') = map tk_id (tickets s)"
      unfolding s' by (simp add: Let_def map_update_where_same)
    then have id_set: "tk_id ` set (tickets s') = tk_id ` set (tickets s)" by (metis list.set_map)
    have iss: "issues s' = issues (retire_live_generation now (tk_id k) s)" by (simp add: s' Let_def)
    have owners: "list_all (\<lambda>g. P (gr_ticket g)) gs = list_all P (map gr_ticket gs)" for P gs
      by (simp add: list_all_iff)
    show "publications_ok s'"
      using withdraw(2) unfolding publications_ok_def ids id_set rows iss live_after_retire owners retire_owners
      by (auto simp: list_all_iff)
  qed (use withdraw(2) in simp)
next
  case (fold now src tgt s b s')
  from fold(1) show ?case
  proof (elim fold_Inr)
    fix u t s1
    assume a: "u \<in> set (tickets s)" "foldable u t" "tk_id u \<noteq> tk_id t" "counted_from s s1"
      and s': "s' = merge_rows now u t s1 \<or> s' = snd (enqueue_job_tx uuid now FrictionConfirm (tk_project t)
       (no_options\<lparr>eo_ticket := Some (tk_id t)\<rparr>) (merge_rows now u t s1))"
    have ok: "publications_ok (merge_rows now u t s1)"
      using fold(2) a(4,1,2,3) by (rule merged_publications)
    with s' show "publications_ok s'"
      by (auto elim!: publications_ok_frame simp: enqueue_job_tx_def Let_def)
  qed
qed (auto elim!: publications_ok_frame simp: reserve_decision_def commit_decision_def stage_check_def discard_batch_def
    reserve_confirmation_budget_def record_gate_decision_def Let_def publication_of_def map_update_where_same
    split: option.splits if_splits prod.splits)

section \<open>Investigations of a publication\<close>

text \<open>Jobs are kept when they are retired, so the bound counts every investigation that was ever queued.\<close>

definition job_key :: "job_row \<Rightarrow> ident option \<times> job_type \<times> nat option" where
  "job_key j = (job_group j, job_type j, job_publication j)"

definition investigations_of :: "ident \<Rightarrow> nat \<Rightarrow> db \<Rightarrow> nat" where
  "investigations_of gid n s = count_where (investigation_of gid n) (jobs s)"

lemma investigations_key:
  "investigations_of gid n s = length (filter ((=) (Some gid, Investigate, Some n)) (map job_key (jobs s)))"
proof -
  have "investigation_of gid n = (\<lambda>j. (Some gid, Investigate, Some n) = job_key j)"
    by (auto simp: fun_eq_iff investigation_of_def job_key_def)
  then show ?thesis
    by (simp add: investigations_of_def count_where_def filter_map comp_def)
qed

definition investigations_ok :: "db \<Rightarrow> bool" where
  "investigations_ok s = (\<forall>gid n. investigations_of gid n s \<le> max_investigations_per_generation)"

lemma investigations_frame:
  "investigations_ok s \<Longrightarrow> map job_key (jobs s') = map job_key (jobs s) \<Longrightarrow> investigations_ok s'"
  by (simp add: investigations_ok_def investigations_key)

lemma other_job:
  "investigations_ok s \<Longrightarrow> map job_key (jobs s') = map job_key (jobs s) @ [(g, k, p)] \<Longrightarrow> k \<noteq> Investigate \<Longrightarrow> investigations_ok s'"
  by (auto simp: investigations_ok_def investigations_key)

text \<open>A new job is added unless a partial unique index refuses it.\<close>

lemma enqueue_jobs:
  "jobs (snd (enqueue_job_tx u now k pid opts s)) = jobs s
   \<or> map job_key (jobs (snd (enqueue_job_tx u now k pid opts s)))
       = map job_key (jobs s) @ [(eo_group opts, k, eo_publication opts)]"
  by (simp add: enqueue_job_tx_def Let_def new_job_def job_key_def)

lemma enqueue_keeps_cap:
  assumes "investigations_ok s"
  shows "investigations_ok (snd (enqueue_ticket_investigation u now tid pid n gid fin s))"
proof -
  let ?opts = "no_options\<lparr>eo_group := Some gid, eo_source := Some gid, eo_ticket := Some tid, eo_publication := Some n\<rparr>"
  let ?e = "snd (enqueue_job_tx u now Investigate pid ?opts s)"
  show ?thesis
  proof (cases "investigations_of gid n s < max_investigations_per_generation")
    case False
    with assms show ?thesis
      by (simp add: enqueue_ticket_investigation_def Let_def investigations_of_def count_where_def)
  next
    case True
    have "investigations_ok ?e"
      using enqueue_jobs [of u now Investigate pid ?opts s] assms True
      by (auto simp: investigations_ok_def investigations_key no_options_def simp del: length_filter_map)
    then show ?thesis
      using assms by (simp add: enqueue_ticket_investigation_def Let_def investigations_ok_def investigations_of_def)
  qed
qed

lemma retire_job_keys [simp]: "map job_key (jobs (retire_live_generation now tid s)) = map job_key (jobs s)"
  by (simp add: retire_live_generation_def Let_def close_job_def job_key_def map_update_where_same)

lemma publish_keeps_cap:
  assumes "publish_generation uuid sha insight now t steps rows s = (r, s')" "investigations_ok s"
  shows "investigations_ok s'"
proof -
  let ?retired = "retire_live_generation now (tk_id t) s"
  have "investigations_ok ?retired" using assms(2) by (rule investigations_frame) simp
  then have "investigations_ok (?retired\<lparr>issues := a, uuids := b, incident_evidence := c, signals := d, tickets := e\<rparr>)" for a b c d e
    by (rule investigations_frame) simp
  with assms(1) show ?thesis
    by (auto simp: publish_generation_def Let_def simp del: retire_frame split: if_splits intro: enqueue_keeps_cap)
qed

lemma step_investigations:
  "ticket_step uuid sha s s' \<Longrightarrow> investigations_ok s \<Longrightarrow> investigations_ok s'"
proof (induction rule: ticket_step.induct)
  case (create s nt e t s')
  then show ?case
    by (auto elim!: investigations_frame simp: create_ticket_def Let_def split: if_splits)
next
  case (recorded i s m s')
  then show ?case by (auto elim!: record_match_Inr investigations_frame simp: store_match_def Let_def)
next
  case (select now t jid s sb s')
  from select(1) select(2) show ?case
    by (elim select_batch_Inr) (auto elim!: investigations_frame)
next
  case (finalize now t bid s fr s')
  from finalize(1) finalize(2) show ?case
    by (elim finalize_batch_Inr) (auto elim!: investigations_frame simp: close_batch_def Let_def)
next
  case (activate insight now t steps s gn s')
  then show ?case by (auto elim!: activate_Inr intro: publish_keeps_cap)
next
  case (withdraw now t s u s')
  from withdraw(1) withdraw(2) show ?case
    by (elim unpublish_Inr) (auto elim!: investigations_frame simp: Let_def)
next
  case (fold now src tgt s b s')
  from fold(1) show ?case
  proof (elim fold_Inr)
    fix u t s1
    assume "counted_from s s1"
      and s': "s' = merge_rows now u t s1 \<or> s' = snd (enqueue_job_tx uuid now FrictionConfirm (tk_project t)
       (no_options\<lparr>eo_ticket := Some (tk_id t)\<rparr>) (merge_rows now u t s1))"
    then have "jobs s1 = jobs s" by (auto simp: counted_from_def dest: uncounted_fields)
    then have keys: "map job_key (jobs (merge_rows now u t s1)) = map job_key (jobs s)"
      by (simp add: merge_rows_def close_job_def job_key_def map_update_where_same)
    let ?m = "merge_rows now u t s1"
    have ok: "investigations_ok ?m" using fold(2) keys by (rule investigations_frame)
    have "investigations_ok (snd (enqueue_job_tx uuid now FrictionConfirm (tk_project t) opts ?m))" for opts
      using enqueue_jobs [of uuid now FrictionConfirm "tk_project t" opts ?m] other_job [OF ok]
        investigations_frame [OF ok] by auto
    with ok s' show "investigations_ok s'" by metis
  qed
next
  case (investigate s now tid pid n gid fin)
  then show ?case by (rule enqueue_keeps_cap)
qed (auto elim!: investigations_frame simp: reserve_decision_def commit_decision_def stage_check_def discard_batch_def
    reserve_confirmation_budget_def record_gate_decision_def Let_def split: option.splits if_splits prod.splits)

section \<open>Folds can be followed\<close>

text \<open>
  What a fold reads of a ticket: whether it was folded, and into which, or whether it is archived.
  \<open>chases s n tid pe\<close>: after \<open>n\<close> folds inside one project and environment \<open>tid\<close> became a ticket that
  still counts recordings.
\<close>

definition fold_key :: "ticket_row \<Rightarrow> ident \<times> ident \<times> ident \<times> (ident option + bool)" where
  "fold_key t = (tk_id t, tk_project t, tk_environment t,
     if tk_status t = Merged then Inl (tk_merged_into t) else Inr (tk_status t = Archived))"

definition life :: "db \<Rightarrow> ident \<Rightarrow> (ident \<times> ident \<times> (ident option + bool)) option" where
  "life s = map_of (map fold_key (tickets s))"

inductive chases :: "db \<Rightarrow> nat \<Rightarrow> ident \<Rightarrow> ident \<times> ident \<Rightarrow> bool" for s :: db where
  here: "life s tid = Some (pid, env, Inr False) \<Longrightarrow> chases s 0 tid (pid, env)"
| folded: "life s tid = Some (pid, env, Inl (Some u)) \<Longrightarrow> u \<noteq> [] \<Longrightarrow> chases s k u (pid, env) \<Longrightarrow>
     chases s (Suc k) tid (pid, env)"

lemma map_of_fold_key:
  "distinct (map tk_id ts) \<Longrightarrow> map_of (map fold_key ts) tid = Some (pid, env, st) \<Longrightarrow>
   \<exists>t. find (ticket_in_scope pid env tid) ts = Some t
     \<and> st = (if tk_status t = Merged then Inl (tk_merged_into t) else Inr (tk_status t = Archived))"
  by (induction ts) (auto simp: fold_key_def ticket_in_scope_def split: if_splits)

lemma life_find:
  "distinct (map tk_id (tickets s)) \<Longrightarrow> life s tid = Some (pid, env, st) \<Longrightarrow>
   \<exists>t. find (ticket_in_scope pid env tid) (tickets s) = Some t
     \<and> st = (if tk_status t = Merged then Inl (tk_merged_into t) else Inr (tk_status t = Archived))"
  unfolding life_def by (rule map_of_fold_key)

lemma chases_depth: "chases s k tid pe \<Longrightarrow> chases s k' tid pe' \<Longrightarrow> k' = k"
proof (induction arbitrary: k' pe' rule: chases.induct)
  case (here tid pid env)
  from here.prems show ?case
    by (rule chases.cases) (use here.hyps in simp_all)
next
  case (folded tid pid env u k)
  from folded.prems show ?case
  proof (cases rule: chases.cases)
    case here
    with folded.hyps(1) show ?thesis by simp
  next
    case (folded pid' env' u' k'')
    with \<open>life s tid = Some (pid, env, Inl (Some u))\<close> have "chases s k'' u (pid', env')" by simp
    then have "k'' = k" by (rule folded.IH)
    with folded show ?thesis by simp
  qed
qed

lemma chases_resolve:
  "chases s k tid pe \<Longrightarrow> distinct (map tk_id (tickets s)) \<Longrightarrow>
   (\<And>x j pe'. x \<in> set seen \<Longrightarrow> chases s j x pe' \<Longrightarrow> k < j) \<Longrightarrow>
   \<exists>t. resolve_match_ticket (fst pe) (snd pe) s seen tid = Inr t"
proof (induction arbitrary: seen rule: chases.induct)
  case (here tid pid env)
  have "tid \<notin> set seen" using here.prems(2) [OF _ chases.here [OF here.hyps]] by blast
  with life_find [OF here.prems(1) here.hyps(1)] here.hyps show ?case
    by (auto simp: resolve_match_ticket.simps split: if_splits)
next
  case (folded tid pid env u k)
  note deep = chases.folded [OF folded.hyps]
  have "tid \<notin> set seen" using folded.prems(2) [OF _ deep] by blast
  moreover have "\<exists>w. resolve_match_ticket (fst (pid, env)) (snd (pid, env)) s (tid # seen) u = Inr w"
  proof (rule folded.IH [OF folded.prems(1)])
    fix x j pe' assume "x \<in> set (tid # seen)" "chases s j x pe'"
    then show "k < j"
      by (cases "x = tid") (use folded.prems(2) [of x j pe'] chases_depth [OF deep, of j pe'] in simp_all)
  qed
  moreover from life_find [OF folded.prems(1) folded.hyps(1)] obtain t
    where "find (ticket_in_scope pid env tid) (tickets s) = Some t" "tk_status t = Merged" "tk_merged_into t = Some u"
    by (auto split: if_splits)
  ultimately show ?case
    using folded.hyps(2) by (subst resolve_match_ticket.simps) (simp add: truthy_str_def)
qed

lemma resolved_ticket:
  "resolve_match_ticket pid env s seen tid = Inr u \<Longrightarrow> \<not> terminal u \<and> tk_project u = pid \<and> tk_environment u = env"
proof (induction pid env s seen tid rule: resolve_match_ticket.induct)
  case (1 pid env s seen tid)
  from 1(2) obtain t where seen: "tid \<notin> set seen" and t: "find (ticket_in_scope pid env tid) (tickets s) = Some t"
      "tk_status t \<noteq> Archived"
    and res: "(if tk_status t \<noteq> Merged then Inr t else (case truthy_str (tk_merged_into t) of
        None \<Rightarrow> Inl ''Invalid match target fold chain''
      | Some w \<Rightarrow> resolve_match_ticket pid env s (tid # seen) w)) = Inr u"
    by (subst (asm) resolve_match_ticket.simps) (auto split: if_splits option.splits)
  show ?case
  proof (cases "tk_status t = Merged")
    case True
    with res obtain w where "truthy_str (tk_merged_into t) = Some w" "resolve_match_ticket pid env s (tid # seen) w = Inr u"
      by (auto split: option.splits)
    with 1(1) [OF seen t] True show ?thesis by blast
  next
    case False
    with res t show ?thesis by (auto simp: find_Some_iff ticket_in_scope_def terminal_def)
  qed
qed

text \<open>No ticket loses its way: the invariant, and that folding keeps it.\<close>

definition followed :: "db \<Rightarrow> ident \<times> ident \<times> ident \<times> (ident option + bool) \<Rightarrow> bool" where
  "followed s = (\<lambda>(tid, pid, env, st). tid \<noteq> [] \<and> (\<exists>k. chases s k tid (pid, env)))"

definition folds_ok :: "db \<Rightarrow> bool" where
  "folds_ok s \<longleftrightarrow> distinct (map tk_id (tickets s)) \<and> list_all (followed s) (map fold_key (tickets s))"

lemma chases_transfer:
  "chases s k tid pe \<Longrightarrow> (\<And>x v. life s x = Some v \<Longrightarrow> life s' x = Some v) \<Longrightarrow> chases s' k tid pe"
  by (induction rule: chases.induct) (auto intro: chases.intros)

lemma followed_mono:
  assumes "\<And>k x pe. chases s k x pe \<Longrightarrow> \<exists>k'. chases s' k' x pe"
  shows "list_all (followed s) ks \<Longrightarrow> list_all (followed s') ks"
  by (erule list.pred_mono_strong) (use assms in \<open>auto simp: followed_def\<close>)

lemma followed_map:
  "list_all (followed s) (map (\<lambda>(k, v). (k, case v of (p, e, st) \<Rightarrow> (p, e, f k st))) ks) = list_all (followed s) ks"
  by (induction ks) (auto simp: followed_def)

lemma fold_key_ids: "map tk_id ts = map fst (map fold_key ts)"
  by (simp add: fold_key_def)

lemma folds_ok_frame:
  assumes "folds_ok s" "map fold_key (tickets s') = map fold_key (tickets s)"
  shows "folds_ok s'"
proof -
  have "life s' = life s" by (simp only: life_def assms(2))
  then have "\<exists>k'. chases s' k' x pe" if "chases s k x pe" for k x pe
    using chases_transfer [OF that, of s'] by auto
  then have "list_all (followed s) ks \<Longrightarrow> list_all (followed s') ks" for ks by (rule followed_mono)
  with assms(1) show ?thesis by (simp only: folds_ok_def fold_key_ids assms(2))
qed

text \<open>A change of one open ticket that leaves it open.\<close>

lemma open_row_frame:
  assumes "folds_ok s" "t \<in> set (tickets s)" "tickets s' = update_where (\<lambda>u. tk_id u = tk_id t) f (tickets s)"
    "\<And>u. u \<in> set (tickets s) \<Longrightarrow> tk_id u = tk_id t \<Longrightarrow> fold_key (f u) = fold_key u"
  shows "folds_ok s'"
  using assms(1)
proof (rule folds_ok_frame)
  show "map fold_key (tickets s') = map fold_key (tickets s)"
    using assms(4) by (auto simp: assms(3) update_where_def)
qed

lemma same_ticket: "folds_ok s \<Longrightarrow> t \<in> set (tickets s) \<Longrightarrow> u \<in> set (tickets s) \<Longrightarrow> tk_id u = tk_id t \<Longrightarrow> u = t"
  by (auto simp: folds_ok_def distinct_map inj_on_def)

lemma life_row: "folds_ok s \<Longrightarrow> t \<in> set (tickets s) \<Longrightarrow> life s (tk_id t) = Some (snd (fold_key t))"
  unfolding life_def folds_ok_def fold_key_ids
  by (intro map_of_is_SomeI) (auto simp: fold_key_def image_iff)

lemma map_of_map_keyed: "map_of (map (\<lambda>(k, v). (k, f k v)) xs) x = map_option (f x) (map_of xs x)"
  by (induction xs) auto

lemma merged_folds:
  assumes ok: "folds_ok s" and same: "counted_from s s1" and rows: "u \<in> set (tickets s)" "t \<in> set (tickets s)"
    and scope: "tk_id u \<noteq> tk_id t" "tk_project u = tk_project t" "tk_environment u = tk_environment t" and can: "foldable u t"
  shows "folds_ok (merge_rows now u t s1)"
proof -
  let ?s = "merge_rows now u t s1" and ?pe = "(tk_project t, tk_environment t)"
  let ?f = "\<lambda>k (p, e, st). (p, e, if k = tk_id u then Inl (Some (tk_id t)) else st)"
  have key: "fold_key = (\<lambda>(k, p, e, st, n, m). (k, p, e, if st = Merged then Inl m else Inr (st = Archived))) \<circ> lifecycle"
    by (simp add: fun_eq_iff fold_key_def lifecycle_def)
  have "map lifecycle (tickets s1) = map lifecycle (tickets s)" using same by (simp add: counted_from_def)
  then have "map fold_key (tickets s1) = map fold_key (tickets s)"
    unfolding key by (simp only: map_map [symmetric])
  moreover have "map fold_key (tickets ?s) = map (\<lambda>(k, v). (k, ?f k v)) (map fold_key (tickets s1))"
    using scope(1) by (auto simp: merge_rows_def update_where_def fold_key_def)
  ultimately have keys: "map fold_key (tickets ?s) = map (\<lambda>(k, v). (k, ?f k v)) (map fold_key (tickets s))" by simp
  then have life': "life ?s x = map_option (?f x) (life s x)" for x
    by (simp only: life_def map_of_map_keyed)
  have at_t: "life s (tk_id t) = Some (tk_project t, tk_environment t, Inr False)"
    and at_u: "life s (tk_id u) = Some (tk_project t, tk_environment t, Inr False)"
    using life_row [OF ok rows(1)] life_row [OF ok rows(2)] can scope by (auto simp: fold_key_def foldable_def)
  have "chases ?s 0 (tk_id t) ?pe" using at_t scope(1) by (intro chases.here) (simp add: life')
  moreover have "tk_id t \<noteq> []" using ok rows(2) by (auto simp: folds_ok_def fold_key_def followed_def list_all_iff)
  ultimately have from_u: "chases ?s (Suc 0) (tk_id u) ?pe"
    using at_u by (intro chases.folded) (simp_all add: life')
  have reach: "\<exists>k'. chases ?s k' x pe" if "chases s k x pe" for k x pe
    using that
  proof (induction rule: chases.induct)
    case (here tid pid env)
    show ?case
    proof (cases "tid = tk_id u")
      case True
      with here at_u from_u show ?thesis by auto
    next
      case False
      with here show ?thesis by (intro exI [of _ 0] chases.here) (simp add: life')
    qed
  next
    case (folded tid pid env w k)
    then have "tid \<noteq> tk_id u" using at_u by auto
    with folded.hyps(1) have "life ?s tid = Some (pid, env, Inl (Some w))" by (simp add: life')
    with folded.hyps(2) folded.IH show ?case by (blast intro: chases.folded)
  qed
  have ids: "map tk_id (tickets ?s) = map tk_id (tickets s)"
    unfolding fold_key_ids keys by (simp add: case_prod_beta comp_def)
  have "list_all (followed s) (map fold_key (tickets s))" using ok by (simp only: folds_ok_def)
  with reach have "list_all (followed ?s) (map fold_key (tickets s))" by (rule followed_mono)
  with ids ok show ?thesis unfolding folds_ok_def keys followed_map by simp
qed

lemma created_folds:
  assumes ok: "folds_ok s" and new: "tid \<notin> tk_id ` set (tickets s)" "tid \<noteq> []"
    and s': "tickets s' = tickets s @ [fresh_ticket tid nt e]"
  shows "folds_ok s'"
proof -
  have keys: "map fold_key (tickets s') = map fold_key (tickets s) @ [(tid, nt_project nt, nt_environment nt, Inr False)]"
    by (simp add: s' fold_key_def fresh_ticket_def)
  have dom: "tid \<notin> fst ` set (map fold_key (tickets s))" using new(1) by (auto simp: fold_key_def)
  then have "life s tid = None" by (simp add: life_def map_of_eq_None_iff)
  then have fresh: "life s' tid = Some (nt_project nt, nt_environment nt, Inr False)"
    unfolding life_def keys by (simp add: map_add_def)
  have keep: "life s x = Some v \<Longrightarrow> life s' x = Some v" for x v
    using dom unfolding life_def keys map_of_append by (auto simp: map_add_def dest: map_of_SomeD split: option.split)
  have "chases s' 0 tid (nt_project nt, nt_environment nt)" using fresh by (rule chases.here)
  moreover have "\<exists>k'. chases s' k' x pe" if "chases s k x pe" for k x pe
    using chases_transfer [OF that keep] by auto
  then have "list_all (followed s) ks \<Longrightarrow> list_all (followed s') ks" for ks by (rule followed_mono)
  moreover have "distinct (map tk_id (tickets s'))"
    using ok new(1) by (simp add: s' folds_ok_def fresh_ticket_def)
  ultimately show ?thesis
    using ok new(2) unfolding folds_ok_def keys by (auto simp: followed_def)
qed

lemma step_folds:
  assumes "\<And>n. uuid n \<noteq> []"
  shows "ticket_step uuid sha s s' \<Longrightarrow> folds_ok s \<Longrightarrow> folds_ok s'"
proof (induction rule: ticket_step.induct)
  case (create s nt e t s')
  then have rows: "tickets s' = tickets s @ [fresh_ticket (uuid (uuids s)) nt e]"
    by (auto simp: create_ticket_def Let_def split: if_splits)
  from create(3,1) assms rows show ?case by (rule created_folds)
next
  case (recorded i s m s')
  from recorded(1) recorded(2) show ?case
    by (elim record_match_Inr)
      (auto elim!: folds_ok_frame simp: store_match_def Let_def fold_key_def count_match_def map_update_where_same)
next
  case (select now t jid s sb s')
  from select(1) select(2) show ?case
    by (elim select_batch_Inr) (auto elim!: folds_ok_frame simp: fold_key_def map_update_where_same)
next
  case (finalize now t bid s fr s')
  from finalize(1) finalize(2) show ?case
    by (elim finalize_batch_Inr)
      (auto elim!: folds_ok_frame simp: close_batch_def Let_def fold_key_def map_update_where_same)
next
  case (activate insight now ticket steps s gn s')
  from activate(1) show ?case
  proof (elim activate_Inr)
    fix t
    assume t: "t \<in> set (tickets s)" "\<not> terminal t"
      and pub: "publish_generation uuid sha insight now t steps (evidence_rows now t None s) s = (gn, s')"
    have rows: "\<exists>n sc. tickets s' = update_where (\<lambda>u. tk_id u = tk_id t) (publish_row n steps sc) (tickets s)"
      using pub by (auto simp: publish_generation_def Let_def split: if_splits) blast+
    have "fold_key (publish_row n steps sc u) = fold_key u"
      if "u \<in> set (tickets s)" "tk_id u = tk_id t" for u n sc
      using same_ticket [OF activate(2) t(1) that] t(2) by (simp add: fold_key_def publish_row_def terminal_def)
    with rows show "folds_ok s'" using open_row_frame [OF activate(2) t(1)] by blast
  qed
next
  case (withdraw now t s u s')
  from withdraw(1) show ?case
  proof (elim unpublish_Inr)
    fix k assume k: "k \<in> set (tickets s)" "tk_status k = Published"
      and s': "s' = (let s1 = retire_live_generation now (tk_id k) s
        in s1\<lparr>tickets := update_where (\<lambda>u. tk_id u = tk_id k) (\<lambda>u. u\<lparr>tk_status := Unpublished\<rparr>) (tickets s1)\<rparr>)"
    show "folds_ok s'"
    proof (rule open_row_frame [OF withdraw(2) k(1)])
      show "tickets s' = update_where (\<lambda>u. tk_id u = tk_id k) (\<lambda>u. u\<lparr>tk_status := Unpublished\<rparr>) (tickets s)"
        by (simp add: s' Let_def)
      show "fold_key (u\<lparr>tk_status := Unpublished\<rparr>) = fold_key u" if "u \<in> set (tickets s)" "tk_id u = tk_id k" for u
        using same_ticket [OF withdraw(2) k(1) that] k(2) by (simp add: fold_key_def)
    qed
  qed (use withdraw(2) in simp)
next
  case (fold now src tgt s b s')
  from fold(1) show ?case
  proof (elim fold_Inr)
    fix u t s1
    assume a: "u \<in> set (tickets s)" "t \<in> set (tickets s)" "tk_id u \<noteq> tk_id t" "tk_project u = tk_project t"
        "tk_environment u = tk_environment t" "foldable u t" "counted_from s s1"
      and s': "s' = merge_rows now u t s1 \<or> s' = snd (enqueue_job_tx uuid now FrictionConfirm (tk_project t)
       (no_options\<lparr>eo_ticket := Some (tk_id t)\<rparr>) (merge_rows now u t s1))"
    have ok: "folds_ok (merge_rows now u t s1)"
      using fold(2) a(7,1-6) by (rule merged_folds)
    with s' show "folds_ok s'"
      by (auto elim!: folds_ok_frame simp: enqueue_job_tx_def Let_def)
  qed
qed (auto elim!: folds_ok_frame simp: reserve_decision_def commit_decision_def stage_check_def discard_batch_def
    reserve_confirmation_budget_def record_gate_decision_def enqueue_ticket_investigation_def enqueue_job_tx_def
    Let_def fold_key_def map_update_where_same split: option.splits if_splits prod.splits)

section \<open>Properties\<close>

text \<open>A database in which no ticket has been opened.\<close>

definition no_tickets :: "db \<Rightarrow> bool" where
  "no_tickets s = (tickets s = [] \<and> matches s = []
     \<and> list_all (\<lambda>g. gr_ticket g = None) (issues s) \<and> list_all (\<lambda>j. job_publication j = None) (jobs s))"

lemma no_tickets_ok:
  assumes "no_tickets s"
  shows "recordings_ok s" "publications_ok s" "investigations_ok s" "folds_ok s"
  using assms
  by (auto simp: no_tickets_def recordings_ok_def all_numbered_def publications_ok_def folds_ok_def
      investigations_ok_def investigations_of_def investigation_of_def count_where_def list_all_iff
      filter_empty_conv intro: list.pred_mono_strong)

text \<open>
  C10: Along every run of the committed operations on tickets (matching, batches, checks,
  publication, withdrawal, folds) the recordings of a ticket are numbered 1, 2, ..., n in the
  order they were counted, without a gap and each session once, and the two counters of the
  ticket both say n.
\<close>

theorem recordings_are_counted:
  assumes "ticket_run uuid sha s s'" "no_tickets s" "t \<in> set (tickets s')"
  shows "map mt_arrival (recordings_of (tk_id t) (matches s')) = [1..<Suc (tk_next_arrival t)]
    \<and> tk_matched t = tk_next_arrival t
    \<and> distinct (map mt_session (recordings_of (tk_id t) (matches s')))"
proof -
  have "recordings_ok s'"
    using run_invariant [where I = recordings_ok, OF step_recordings assms(1) no_tickets_ok(1) [OF assms(2)]] .
  with assms(3) show ?thesis
    by (auto simp: recordings_ok_def all_numbered_def numbered_def counters_def list_all_iff)
qed

text \<open>
  C11: Along every run a ticket has exactly one live incident, that of its live generation,
  while it is published, and none otherwise: publishing again archives the older one,
  withdrawing archives it, and folding a ticket away never leaves one behind.
\<close>

theorem published_iff_live_incident:
  assumes "ticket_run uuid sha s s'" "no_tickets s" "t \<in> set (tickets s')"
  shows "map gr_publication (filter (live_issue (tk_id t)) (issues s'))
    = (if tk_status t = Published then [Some (tk_live_generation t)] else [])"
proof -
  have "publications_ok s'"
    using run_invariant [where I = publications_ok, OF step_publications assms(1) no_tickets_ok(2) [OF assms(2)]] .
  with assms(3) show ?thesis
    by (auto simp: publications_ok_def live_publications_def publication_of_def list_all_iff)
qed

text \<open>
  C16: Along every run at most three investigations are ever queued for one publication of an
  incident, whoever asks and however often.
\<close>

theorem investigations_are_capped:
  assumes "ticket_run uuid sha s s'" "no_tickets s"
  shows "count_where (investigation_of gid n) (jobs s') \<le> max_investigations_per_generation"
proof -
  have "investigations_ok s'"
    using run_invariant [where I = investigations_ok, OF step_investigations assms(1) no_tickets_ok(3) [OF assms(2)]] .
  then show ?thesis by (simp add: investigations_ok_def investigations_of_def)
qed

text \<open>
  C15: Along every run of the operations of tickets-db.ts, none of which archives a ticket,
  following the folds of any ticket ends at a ticket of the same project and environment that is
  neither merged nor archived: resolveMatchTicket returns it, without reporting a missing,
  broken or cyclic chain. Archiving a ticket is done elsewhere (archiveTicketGroup of the
  ingestion service, reset-friction-tickets.ts) and is outside these runs; after it
  resolveMatchTicket may throw.
\<close>

theorem folds_lead_to_open_ticket:
  assumes "ticket_run uuid sha s s'" "no_tickets s" "\<And>n. uuid n \<noteq> []" "t \<in> set (tickets s')"
  shows "\<exists>u. resolve_match_ticket (tk_project t) (tk_environment t) s' [] (tk_id t) = Inr u \<and> \<not> terminal u
    \<and> tk_project u = tk_project t \<and> tk_environment u = tk_environment t"
proof -
  have step: "ticket_step uuid sha a b \<Longrightarrow> folds_ok a \<Longrightarrow> folds_ok b" for a b
    by (rule step_folds [OF assms(3)])
  have ok: "folds_ok s'"
    using run_invariant [where I = folds_ok, OF step assms(1) no_tickets_ok(4) [OF assms(2)]] .
  with assms(4) obtain k where "chases s' k (tk_id t) (tk_project t, tk_environment t)"
    by (auto simp: folds_ok_def followed_def fold_key_def list_all_iff)
  from chases_resolve [OF this, of "[]"] ok obtain u
    where u: "resolve_match_ticket (tk_project t) (tk_environment t) s' [] (tk_id t) = Inr u"
    by (auto simp: folds_ok_def)
  then show ?thesis using resolved_ticket [OF u] by blast
qed

end
