(* ===== verification/TicketEvidence.thy ===== *)
theory TicketEvidence
  imports TicketPublication
begin

text \<open>
  What the evidence of a ticket rests on: every check keeps the result that a batch staged, every
  staged result names only signals of the manifest of its batch, and what the bar of a publication
  counts is what the published evidence shows.
\<close>

section \<open>References between the rows of checks\<close>

text \<open>
  What the invariant reads of a batch: its manifest is fixed when the batch is made, and its status
  says whether results can still be staged.
\<close>

definition on_manifest :: "batch_row list \<Rightarrow> check_attempt_row \<Rightarrow> bool" where
  "on_manifest bs a =
     list_ex (\<lambda>b. batch_id b = ca_batch a \<and> batch_ticket b = ca_ticket a
        \<and> list_ex (\<lambda>m. mb_session m = ca_session a \<and> set (ca_signals a) \<subseteq> set (mb_signals m)) (batch_manifest b)) bs"

definition records :: "check_attempt_row list \<Rightarrow> check_row \<Rightarrow> bool" where
  "records as c =
     list_ex (\<lambda>a. ca_id a = ck_attempt c \<and> ca_ticket a = ck_ticket c \<and> ca_session a = ck_session c
        \<and> ca_outcome a = ck_outcome c \<and> ca_outcome a \<noteq> Unavailable) as"

definition check_key :: "check_row \<Rightarrow> ident \<times> ident" where
  "check_key c = (ck_ticket c, ck_session c)"

definition checks_ok :: "(nat \<Rightarrow> ident) \<Rightarrow> db \<Rightarrow> bool" where
  "checks_ok uuid s =
     (distinct (map ca_id (check_attempts s)) \<and> distinct (map check_key (checks s))
      \<and> list_all (on_manifest (batches s)) (check_attempts s)
      \<and> list_all (records (check_attempts s)) (checks s)
      \<and> ca_id ` set (check_attempts s) \<subseteq> uuid ` {..<uuids s})"

definition batch_key :: "batch_row \<Rightarrow> ident \<times> ident \<times> batch_member list" where
  "batch_key b = (batch_id b, batch_ticket b, batch_manifest b)"

lemma on_manifest_key:
  "on_manifest bs a = list_ex (\<lambda>(i, t, ms). i = ca_batch a \<and> t = ca_ticket a
     \<and> list_ex (\<lambda>m. mb_session m = ca_session a \<and> set (ca_signals a) \<subseteq> set (mb_signals m)) ms) (map batch_key bs)"
  by (simp add: on_manifest_def list_ex_iff batch_key_def)

lemma checks_ok_frame:
  assumes "checks_ok uuid s" "check_attempts s' = check_attempts s" "checks s' = checks s"
    "uuids s \<le> uuids s'" "map batch_key (batches s') = map batch_key (batches s)"
  shows "checks_ok uuid s'"
proof -
  have g: "on_manifest (batches s') = on_manifest (batches s)"
    by (rule ext) (simp only: on_manifest_key assms(5))
  have "uuid ` {..<uuids s} \<subseteq> uuid ` {..<uuids s'}" using assms(4) by auto
  then show ?thesis
    using assms(1) unfolding checks_ok_def assms(2,3) g by blast
qed

lemma on_manifest_more: "on_manifest bs a \<Longrightarrow> on_manifest (bs @ bs') a"
  by (simp add: on_manifest_def)

lemma records_more: "records as c \<Longrightarrow> records (as @ as') c"
  by (simp add: records_def)

lemma staged_checks:
  assumes "stage_check uuid now bid cr s = (r, s')" "checks_ok uuid s" "inj uuid"
  shows "checks_ok uuid s'"
proof (cases "find (\<lambda>b. batch_id b = bid) (batches s)")
  case None
  with assms show ?thesis by (simp add: stage_check_def)
next
  case (Some b)
  show ?thesis
  proof (cases "\<not> stageable b cr \<or> list_ex (\<lambda>a. ca_batch a = bid \<and> ca_session a = cr_session cr) (check_attempts s)")
    case True
    with Some assms show ?thesis by (simp add: stage_check_def)
  next
    case False
    let ?a = "new_attempt_row (uuid (uuids s)) b cr"
    have s': "check_attempts s' = check_attempts s @ [?a]" "checks s' = checks s" "batches s' = batches s"
        "uuids s' = Suc (uuids s)"
      using False Some assms(1) by (auto simp: stage_check_def)
    have "b \<in> set (batches s)" "batch_id b = bid" using Some by (auto simp: find_Some_iff)
    then have "on_manifest (batches s) ?a"
      using False by (auto simp: on_manifest_def new_attempt_row_def stageable_def list_ex_iff)
    moreover have "uuid (uuids s) \<notin> uuid ` {..<uuids s}" using assms(3) by (simp add: inj_image_mem_iff)
    then have "uuid (uuids s) \<notin> ca_id ` set (check_attempts s)"
      using assms(2) unfolding checks_ok_def by blast
    moreover have "ca_id ?a = uuid (uuids s)" by (simp add: new_attempt_row_def)
    ultimately show ?thesis
      using assms(2) unfolding checks_ok_def s'
      by (auto simp: list_all_iff records_more lessThan_Suc image_iff intro: records_more)
  qed
qed

text \<open>Closing a batch adds a check for every settled attempt of a recording that has none.\<close>

lemma same_check_key: "list_ex (same_check c) cs \<longleftrightarrow> check_key c \<in> check_key ` set cs"
  by (auto simp: list_ex_iff same_check_def check_key_def)

lemma added_checks:
  assumes "distinct (map check_key cs)" "list_all (records as) cs"
    "\<And>a. a \<in> set news \<Longrightarrow> a \<in> set as \<and> ca_outcome a \<noteq> Unavailable"
  shows "distinct (map check_key (fold (\<lambda>a. insert_new same_check (check_of a)) news cs))
    \<and> list_all (records as) (fold (\<lambda>a. insert_new same_check (check_of a)) news cs)"
  using assms
proof (induction news arbitrary: cs)
  case (Cons a news)
  have "distinct (map check_key (insert_new same_check (check_of a) cs))"
    using Cons.prems(1) by (simp add: insert_new_def same_check_key)
  moreover have "list_all (records as) (insert_new same_check (check_of a) cs)"
  proof -
    have "records as (check_of a)"
      using Cons.prems(3) [of a] by (auto simp: records_def check_of_def list_ex_iff)
    with Cons.prems(2) show ?thesis by (simp add: insert_new_def)
  qed
  ultimately show ?case using Cons.IH Cons.prems(3) by simp
qed simp

lemma closed_checks:
  assumes "checks_ok uuid s"
  shows "checks_ok uuid (close_batch now t bid s)"
proof -
  let ?s = "close_batch now t bid s"
  have "map batch_key (batches ?s) = map batch_key (batches s)"
    by (simp add: close_batch_def Let_def batch_key_def map_update_where_same)
  then have g: "on_manifest (batches ?s) = on_manifest (batches s)"
    by (intro ext) (simp only: on_manifest_key)
  have s': "check_attempts ?s = check_attempts s" "uuids ?s = uuids s"
      "checks ?s = fold (\<lambda>a. insert_new same_check (check_of a)) (filter (settled bid) (check_attempts s)) (checks s)"
    by (simp_all add: close_batch_def Let_def)
  have "a \<in> set (check_attempts s) \<and> ca_outcome a \<noteq> Unavailable" if "a \<in> set (filter (settled bid) (check_attempts s))" for a
    using that by (simp add: settled_def)
  with assms show ?thesis
    unfolding checks_ok_def s' g using added_checks by blast
qed

lemma retire_checks_frame:
  "check_attempts (retire_live_generation now tid s) = check_attempts s"
  "checks (retire_live_generation now tid s) = checks s" "batches (retire_live_generation now tid s) = batches s"
  "uuids (retire_live_generation now tid s) = uuids s"
  by (simp_all add: retire_live_generation_def Let_def)

lemma enqueue_checks_frame:
  "check_attempts (snd (enqueue_ticket_investigation uuid now tid pid n gid fin s)) = check_attempts s"
  "checks (snd (enqueue_ticket_investigation uuid now tid pid n gid fin s)) = checks s"
  "batches (snd (enqueue_ticket_investigation uuid now tid pid n gid fin s)) = batches s"
  "uuids s \<le> uuids (snd (enqueue_ticket_investigation uuid now tid pid n gid fin s))"
  by (simp_all add: enqueue_ticket_investigation_def enqueue_job_tx_def Let_def)

lemma publish_checks_frame:
  assumes "publish_generation uuid sha insight now t steps rows s = (r, s')"
  shows "check_attempts s' = check_attempts s" "checks s' = checks s" "batches s' = batches s" "uuids s \<le> uuids s'"
proof -
  have s': "s' = snd (publish_generation uuid sha insight now t steps rows s)" by (simp add: assms)
  show "check_attempts s' = check_attempts s" "checks s' = checks s" "batches s' = batches s"
    by (simp_all add: s' publish_generation_def Let_def enqueue_checks_frame retire_checks_frame)
  show "uuids s \<le> uuids s'"
    unfolding s' publish_generation_def Let_def
    by (auto intro: order_trans [OF _ enqueue_checks_frame(4)] simp: retire_checks_frame)
qed

lemma step_checks:
  assumes "inj uuid"
  shows "ticket_step uuid sha s s' \<Longrightarrow> checks_ok uuid s \<Longrightarrow> checks_ok uuid s'"
proof (induction rule: ticket_step.induct)
  case (create s nt e t s')
  then show ?case by (auto elim!: checks_ok_frame simp: create_ticket_def Let_def split: if_splits)
next
  case (recorded i s m s')
  from recorded(1) recorded(2) show ?case
    by (elim record_match_Inr) (auto elim!: checks_ok_frame simp: store_match_def Let_def)
next
  case (select now t jid s sb s')
  from select(1) show ?case
  proof (elim select_batch_Inr)
    fix k b
    assume "s' = s\<lparr>batches := batches s @ [b], uuids := Suc (uuids s),
         tickets := update_where (\<lambda>u. tk_id u = tk_id k)
           (\<lambda>u. u\<lparr>tk_arrival_boundary := tk_next_arrival k\<rparr>) (tickets s)\<rparr>"
    then show "checks_ok uuid s'"
      using select(2) by (auto simp: checks_ok_def list_all_iff on_manifest_more lessThan_Suc)
  qed (use select(2) in simp)
next
  case (stage now bid cr s b s')
  from stage(1,2) assms show ?case by (rule staged_checks)
next
  case (finalize now t bid s fr s')
  from finalize(1) finalize(2) show ?case by (elim finalize_batch_Inr) (auto intro: closed_checks)
next
  case (activate insight now ticket steps s gn s')
  from activate(1) show ?case
  proof (elim activate_Inr)
    fix t
    assume "publish_generation uuid sha insight now t steps (evidence_rows now t None s) s = (gn, s')"
    note frame = publish_checks_frame [OF this]
    show "checks_ok uuid s'"
      by (rule checks_ok_frame [OF activate(2) frame(1,2,4)]) (simp add: frame(3))
  qed
next
  case (withdraw now t s u s')
  from withdraw(1) withdraw(2) show ?case
    by (elim unpublish_Inr) (auto elim!: checks_ok_frame simp: Let_def retire_live_generation_def)
next
  case (fold now src tgt s b s')
  from fold(1) show ?case
  proof (elim fold_Inr)
    fix u t s1
    assume "counted_from s s1"
      and s': "s' = merge_rows now u t s1 \<or> s' = snd (enqueue_job_tx uuid now FrictionConfirm (tk_project t)
       (no_options\<lparr>eo_ticket := Some (tk_id t)\<rparr>) (merge_rows now u t s1))"
    then have same: "uncounted s1 = uncounted s" by (simp add: counted_from_def)
    from s' show "checks_ok uuid s'"
      by (auto intro!: checks_ok_frame [OF fold(2)] simp: merge_rows_def enqueue_job_tx_def Let_def uncounted_fields [OF same])
  qed
qed (auto elim!: checks_ok_frame simp: reserve_decision_def commit_decision_def discard_batch_def
    reserve_confirmation_budget_def record_gate_decision_def enqueue_ticket_investigation_def enqueue_job_tx_def
    Let_def batch_key_def map_update_where_same split: option.splits if_splits prod.splits)

section \<open>The bar and the evidence\<close>

text \<open>The rows of a check's recording, in either order of the joins.\<close>

definition counted :: "ticket_row \<Rightarrow> db \<Rightarrow> check_row \<Rightarrow> match_row \<Rightarrow> ticket_row \<Rightarrow> check_attempt_row \<Rightarrow> bool" where
  "counted t s c m u a =
     (ck_ticket c = tk_id t \<and> mt_ticket m = ck_ticket c \<and> mt_session m = ck_session c
      \<and> ticket_in_scope (tk_project t) (tk_environment t) (tk_id t) u
      \<and> ca_id a = ck_attempt c \<and> finalized_batch s (ca_batch a) \<and> after_cutoff u m)"

lemma shown_iff_counted:
  assumes "checks_ok uuid s" "c \<in> set (checks s)" "a \<in> set (check_attempts s)"
  shows "(ticket_in_scope (tk_project t) (tk_environment t) (tk_id t) u
          \<and> mt_ticket m = tk_id u \<and> ck_ticket c = tk_id u \<and> ck_session c = mt_session m
          \<and> ca_id a = ck_attempt c \<and> ca_ticket a = tk_id u \<and> ca_session a = mt_session m
          \<and> finalized_batch s (ca_batch a) \<and> ck_outcome c = Confirmed
          \<and> after_cutoff u m \<and> in_window now None m) \<longleftrightarrow> counted t s c m u a \<and> ck_outcome c = Confirmed"
proof -
  have "records (check_attempts s) c" "distinct (map ca_id (check_attempts s))"
    using assms(1,2) by (auto simp: checks_ok_def list_all_iff)
  then obtain b where "b \<in> set (check_attempts s)" "ca_id b = ck_attempt c" "ca_ticket b = ck_ticket c"
      "ca_session b = ck_session c" "inj_on ca_id (set (check_attempts s))"
    by (auto simp: records_def list_ex_iff distinct_map)
  then have "ca_ticket a = ck_ticket c" "ca_session a = ck_session c" if "ca_id a = ck_attempt c"
    using that assms(3) by (metis inj_onD)+
  then show ?thesis by (auto simp: counted_def in_window_def ticket_in_scope_def)
qed

lemma evidence_counted:
  assumes "checks_ok uuid s"
  shows "evidence_rows now t None s
    = sort_by evidence_order [evidence_row_of s u m a. u \<leftarrow> tickets s, m \<leftarrow> matches s, c \<leftarrow> checks s, a \<leftarrow> check_attempts s,
        counted t s c m u a \<and> ck_outcome c = Confirmed]"
  unfolding evidence_rows_def
  by (intro arg_cong [of _ _ "sort_by evidence_order"] arg_cong [of _ _ concat] map_cong refl)
    (simp only: shown_iff_counted [OF assms])

lemma sum_list_swap:
  "(\<Sum>x\<leftarrow>xs. \<Sum>y\<leftarrow>ys. g x y) = (\<Sum>y\<leftarrow>ys. \<Sum>x\<leftarrow>xs. g x y :: nat)"
  by (induction xs) (simp_all add: sum_list_addf)

lemma sum_list_same: "(\<And>x. x \<in> set xs \<Longrightarrow> f x = g x) \<Longrightarrow> (\<Sum>x\<leftarrow>xs. f x) = (\<Sum>x\<leftarrow>xs. g x)"
  by (metis (mono_tags, lifting) map_cong)

lemma evidence_count:
  assumes "checks_ok uuid s"
  shows "length (evidence_rows now t None s)
    = (\<Sum>u\<leftarrow>tickets s. \<Sum>m\<leftarrow>matches s. \<Sum>c\<leftarrow>checks s. \<Sum>a\<leftarrow>check_attempts s.
         (if counted t s c m u a \<and> ck_outcome c = Confirmed then 1 else 0))"
  unfolding evidence_counted [OF assms] length_sort_by length_concat map_map comp_def
  by (intro sum_list_same) simp

lemma cohort_count:
  "length (filter (\<lambda>(c, m). ck_outcome c = Confirmed) (cohort t s))
    = (\<Sum>c\<leftarrow>checks s. \<Sum>m\<leftarrow>matches s. \<Sum>u\<leftarrow>tickets s. \<Sum>a\<leftarrow>check_attempts s.
         (if counted t s c m u a \<and> ck_outcome c = Confirmed then 1 else 0))"
  unfolding cohort_def counted_def [symmetric] filter_concat length_concat map_map comp_def
  by (intro sum_list_same) simp

lemma joins_agree:
  fixes g :: "'a \<Rightarrow> 'b \<Rightarrow> 'c \<Rightarrow> nat"
  shows "(\<Sum>c\<leftarrow>cs. \<Sum>m\<leftarrow>ms. \<Sum>u\<leftarrow>us. g c m u) = (\<Sum>u\<leftarrow>us. \<Sum>m\<leftarrow>ms. \<Sum>c\<leftarrow>cs. g c m u)"
proof -
  have "(\<Sum>c\<leftarrow>cs. \<Sum>m\<leftarrow>ms. \<Sum>u\<leftarrow>us. g c m u) = (\<Sum>c\<leftarrow>cs. \<Sum>u\<leftarrow>us. \<Sum>m\<leftarrow>ms. g c m u)"
    by (intro sum_list_same sum_list_swap)
  also have "\<dots> = (\<Sum>u\<leftarrow>us. \<Sum>c\<leftarrow>cs. \<Sum>m\<leftarrow>ms. g c m u)" by (rule sum_list_swap)
  also have "\<dots> = (\<Sum>u\<leftarrow>us. \<Sum>m\<leftarrow>ms. \<Sum>c\<leftarrow>cs. g c m u)" by (intro sum_list_same sum_list_swap)
  finally show ?thesis .
qed

lemma confirmed_shown:
  assumes "checks_ok uuid s"
  shows "cs_confirmed (cohort_stats_of t s) = ve_sessions (verified_evidence_of now t None s)"
proof -
  have "cs_confirmed (cohort_stats_of t s) = length (filter (\<lambda>(c, m). ck_outcome c = Confirmed) (cohort t s))"
    by (simp add: cohort_stats_of_def stats_of_def Let_def filter_map comp_def case_prod_unfold)
  also have "\<dots> = length (evidence_rows now t None s)"
    unfolding cohort_count evidence_count [OF assms] by (rule joins_agree)
  finally show ?thesis by (simp add: verified_evidence_of_def summarize_evidence_def)
qed

lemma users_shown:
  assumes ok: "checks_ok uuid s" and named: "Some [] \<notin> mt_end_user ` set (matches s)"
  shows "cs_users (cohort_stats_of t s) = ve_users (verified_evidence_of now t None s)"
proof -
  let ?rows = "evidence_rows now t None s"
  have seen: "er_end_user ` set ?rows = {mt_end_user m | c m u a. c \<in> set (checks s) \<and> m \<in> set (matches s)
      \<and> u \<in> set (tickets s) \<and> a \<in> set (check_attempts s) \<and> counted t s c m u a \<and> ck_outcome c = Confirmed}"
    (is "_ = ?U")
  proof -
    have "set ?rows = {evidence_row_of s u m a | c m u a. c \<in> set (checks s) \<and> m \<in> set (matches s)
      \<and> u \<in> set (tickets s) \<and> a \<in> set (check_attempts s) \<and> counted t s c m u a \<and> ck_outcome c = Confirmed}"
      unfolding evidence_counted [OF ok] set_sort_by by (auto split: if_splits)
    then have "er_end_user ` set ?rows = {er_end_user (evidence_row_of s u m a) | c m u a. c \<in> set (checks s)
      \<and> m \<in> set (matches s) \<and> u \<in> set (tickets s) \<and> a \<in> set (check_attempts s) \<and> counted t s c m u a
      \<and> ck_outcome c = Confirmed}" by (simp only:) blast
    moreover have "er_end_user (evidence_row_of s u m a) = mt_end_user m" for u m a by (simp add: evidence_row_of_def)
    ultimately show ?thesis by (simp only:)
  qed
  have counted_users: "{x. Some x \<in> set (map snd (filter (\<lambda>(v, _). v = Confirmed)
      (map (\<lambda>(c, m). (ck_outcome c, mt_end_user m)) (cohort t s))))} = {x. Some x \<in> ?U}"
  proof -
    have "set (map snd (filter (\<lambda>(v, _). v = Confirmed) (map (\<lambda>(c, m). (ck_outcome c, mt_end_user m)) (cohort t s))))
        = {mt_end_user m | c m. (c, m) \<in> set (cohort t s) \<and> ck_outcome c = Confirmed}"
      by force
    moreover have "(c, m) \<in> set (cohort t s) \<longleftrightarrow> c \<in> set (checks s) \<and> m \<in> set (matches s)
        \<and> (\<exists>u \<in> set (tickets s). \<exists>a \<in> set (check_attempts s). counted t s c m u a)" for c m
      unfolding cohort_def counted_def [symmetric] by auto
    ultimately show ?thesis by blast
  qed
  have "set (known_users ?rows) = {x. Some x \<in> er_end_user ` set ?rows \<and> x \<noteq> []}"
    by (force simp: known_users_def truthy_str_def split: option.splits if_splits)
  also have "\<dots> = {x. Some x \<in> ?U}"
    unfolding seen using named by auto
  finally have "set (dedup (known_users ?rows)) = {x. Some x \<in> ?U}" by simp
  then have "length (dedup (known_users ?rows)) = card {x. Some x \<in> ?U}"
    by (metis distinct_card distinct_dedup)
  moreover have "cs_users (cohort_stats_of t s) = card {x. Some x \<in> ?U}"
    unfolding counted_users [symmetric] count_distinct_card [symmetric]
    by (simp only: cohort_stats_of_def stats_of_def Let_def cohort_stats.simps)
  ultimately show ?thesis
    by (simp only: verified_evidence_of_def summarize_evidence_def verified_evidence.simps)
qed

section \<open>Selection\<close>

interpretation turns: row_order "turn_order ms" for ms
  by unfold_locales (auto simp: turn_order_def)

lemma selected_fair:
  assumes "x \<in> set (selected now t s)" "y \<in> set (matches s)" "selectable now (tk_id t) s y" "y \<notin> set (selected now t s)"
  shows "turn_order (filter (selectable now (tk_id t) s) (matches s)) x y"
  using assms turns.limit_keeps_least by (simp add: selected_def Let_def)

lemma selected_recording:
  "x \<in> set (selected now t s) \<Longrightarrow> x \<in> set (matches s) \<and> selectable now (tk_id t) s x"
  by (auto simp: selected_def Let_def dest: in_set_takeD)

lemma selected_length: "length (selected now t s) \<le> batch_limit t"
  by (simp add: selected_def Let_def)

section \<open>Publication\<close>

lemma passing_bar:
  assumes "evaluate_bar st status sub = Passes"
  shows "3 \<le> cs_confirmed st \<and> diverse st \<and> 4 * cs_counted st \<le> 10 * cs_confirmed st"
proof -
  have bar: "3 \<le> cs_confirmed st" "diverse st" "4 / 10 \<le> ratio st"
    using assms by (auto simp: evaluate_bar_def split: if_splits)
  have "4 * real (cs_counted st) \<le> 10 * real (cs_confirmed st)"
  proof (cases "cs_counted st = 0")
    case False
    with bar(3) show ?thesis by (simp add: ratio_def field_simps)
  qed simp
  then have "real (4 * cs_counted st) \<le> real (10 * cs_confirmed st)" by simp
  with bar(1,2) show ?thesis by (simp only: of_nat_le_iff)
qed

lemma retired_not_live: "filter (live_issue tid) (issues (retire_live_generation now tid s)) = []"
  using live_after_retire [of tid now tid s] by (simp add: live_publications_def)

definition started :: "ident \<Rightarrow> bool \<Rightarrow> group_row \<Rightarrow> group_row" where
  "started gid go g =
     (if go \<and> gr_id g = gid \<and> gr_investigation_status g = None
      then g\<lparr>gr_investigation_status := Some ''pending''\<rparr> else g)"

lemma started_fields [simp]:
  "live_issue tid (started gid go g) = live_issue tid g" "gr_id (started gid go g) = gr_id g"
  "gr_publication (started gid go g) = gr_publication g" "gr_status (started gid go g) = gr_status g"
  "gr_occurrences (started gid go g) = gr_occurrences g" "gr_affected_users (started gid go g) = gr_affected_users g"
  by (simp_all add: started_def live_issue_def)

lemma investigation_issues:
  "\<exists>go. issues (snd (enqueue_ticket_investigation u now tid pid n gid fin s)) = map (started gid go) (issues s)"
proof (cases "fst (enqueue_ticket_investigation u now tid pid n gid fin s)")
  case True
  then show ?thesis
    by (intro exI [of _ True])
      (auto simp: enqueue_ticket_investigation_def enqueue_job_tx_def Let_def update_where_def started_def [abs_def] split: if_splits)
next
  case False
  then show ?thesis
    by (intro exI [of _ False])
      (auto simp: enqueue_ticket_investigation_def started_def [abs_def] Let_def split: if_splits)
qed

lemma published_issues:
  assumes "publish_generation uuid sha insight now t steps rows s = (r, s')"
  shows "\<exists>go. issues s' = map (started (uuid (uuids s)) go)
    (issues (retire_live_generation now (tk_id t) s) @ [published_issue uuid sha insight now t rows s])"
proof -
  let ?issues = "issues (retire_live_generation now (tk_id t) s) @ [published_issue uuid sha insight now t rows s]"
  have "issues s' = ?issues \<or> (\<exists>x n. issues x = ?issues
      \<and> s' = snd (enqueue_ticket_investigation uuid now (tk_id t) (tk_project t) n (uuid (uuids s)) None x))"
  proof (cases "investigation_allowed insight (tk_kind t) (ve_users (summarize_evidence rows))")
    case True
    have "s' = snd (publish_generation uuid sha insight now t steps rows s)" by (simp add: assms)
    with True show ?thesis
      by (intro disjI2 exI conjI; (simp only: publish_generation_def Let_def snd_conv if_True retire_frame)?; (rule refl)?)
        (simp_all add: published_issue_def Let_def)
  next
    case False
    with assms show ?thesis by (auto simp: publish_generation_def published_issue_def Let_def)
  qed
  then show ?thesis
  proof
    assume "issues s' = ?issues"
    moreover have "started g False = id" for g by (simp add: fun_eq_iff started_def)
    ultimately show ?thesis by (intro exI [of _ False]) simp
  next
    assume "\<exists>x n. issues x = ?issues
      \<and> s' = snd (enqueue_ticket_investigation uuid now (tk_id t) (tk_project t) n (uuid (uuids s)) None x)"
    then obtain x n where x: "issues x = ?issues"
        "s' = snd (enqueue_ticket_investigation uuid now (tk_id t) (tk_project t) n (uuid (uuids s)) None x)" by blast
    show ?thesis
      using investigation_issues [of uuid now "tk_id t" "tk_project t" n "uuid (uuids s)" None x] unfolding x .
  qed
qed

lemma published_live:
  assumes "publish_generation uuid sha insight now t steps rows s = ((gid, n), s')"
  shows "\<exists>g. filter (live_issue (tk_id t)) (issues s') = [g] \<and> gr_id g = gid \<and> gr_publication g = Some n
    \<and> gr_occurrences g = ve_sessions (summarize_evidence rows)
    \<and> gr_affected_users g = ve_users (summarize_evidence rows) \<and> gr_status g = GQueued"
proof -
  let ?new = "published_issue uuid sha insight now t rows s"
  obtain go where "issues s' = map (started (uuid (uuids s)) go) (issues (retire_live_generation now (tk_id t) s) @ [?new])"
    using published_issues [OF assms] by blast
  moreover have "live_issue (tk_id t) ?new"
    by (simp add: published_issue_def incident_row_def live_issue_def Let_def)
  ultimately have "filter (live_issue (tk_id t)) (issues s') = [started (uuid (uuids s)) go ?new]"
    by (simp add: filter_map comp_def retired_not_live)
  then show ?thesis
    using publish_effect(1) [OF assms] by (auto simp: published_issue_def incident_row_def Let_def)
qed

section \<open>The daily budget\<close>

text \<open>The answers to a sequence of reservations, each for a project and a day.\<close>

fun answers :: "nat \<Rightarrow> (ident \<times> int) list \<Rightarrow> budget_row list \<Rightarrow> bool list" where
  "answers cap [] rows = []"
| "answers cap ((p, d) # rs) rows =
     (case reserve_budget p d cap rows of (ok, rows') \<Rightarrow> ok # answers cap rs rows')"

definition granted :: "ident \<times> int \<Rightarrow> nat \<Rightarrow> (ident \<times> int) list \<Rightarrow> budget_row list \<Rightarrow> nat" where
  "granted k cap rs rows = count_where (\<lambda>(r, ok). r = k \<and> ok) (zip rs (answers cap rs rows))"

definition budget_key :: "budget_row \<Rightarrow> ident \<times> int" where
  "budget_key b = (bg_project b, bg_day b)"

definition used :: "budget_row list \<Rightarrow> ident \<times> int \<Rightarrow> nat" where
  "used rows k = (\<Sum>b\<leftarrow>rows. if budget_key b = k then bg_used b else 0)"

lemma used_simps [simp]:
  "used [] k = 0" "used (b # rows) k = (if budget_key b = k then bg_used b else 0) + used rows k"
  "used (rows @ rows') k = used rows k + used rows' k"
  by (simp_all add: used_def)

lemma used_none: "k \<notin> budget_key ` set rows \<Longrightarrow> used rows k = 0"
  by (induction rows) auto

definition one_more :: "ident \<times> int \<Rightarrow> nat \<Rightarrow> budget_row list \<Rightarrow> budget_row list" where
  "one_more k cap = update_where (\<lambda>b. budget_key b = k \<and> bg_used b < cap) (\<lambda>b. b\<lparr>bg_used := bg_used b + 1\<rparr>)"

lemma one_more_keys [simp]: "map budget_key (one_more k cap rows) = map budget_key rows"
  by (simp add: one_more_def budget_key_def map_update_where_same)

lemma one_more_absent: "k \<notin> budget_key ` set rows \<Longrightarrow> one_more k cap rows = rows"
  unfolding one_more_def by (rule update_where_no_match) (auto simp: list_ex_iff)

lemma one_more_used:
  "distinct (map budget_key rows) \<Longrightarrow> k \<in> budget_key ` set rows \<Longrightarrow>
   used (one_more k cap rows) j = used rows j + (if j = k \<and> used rows k < cap then 1 else 0)
   \<and> (list_ex (\<lambda>b. budget_key b = k \<and> bg_used b < cap) rows \<longleftrightarrow> used rows k < cap)"
proof (induction rows)
  case (Cons b rows)
  have key: "budget_key (b\<lparr>bg_used := n\<rparr>) = budget_key b" for n by (simp add: budget_key_def)
  show ?case
  proof (cases "budget_key b = k")
    case True
    with Cons.prems(1) have absent: "k \<notin> budget_key ` set rows" by auto
    then have "\<not> list_ex (\<lambda>b. budget_key b = k \<and> bg_used b < cap) rows" by (auto simp: list_ex_iff)
    with True absent show ?thesis
      using one_more_absent [OF absent, of cap] by (simp add: one_more_def key used_none)
  next
    case False
    with Cons show ?thesis by (auto simp: one_more_def)
  qed
qed simp

lemma reserve_budget_eq:
  "reserve_budget p d cap rows =
     (if cap = 0 then (False, rows)
      else if (p, d) \<notin> budget_key ` set rows then (True, rows @ [\<lparr>bg_project = p, bg_day = d, bg_used = 1\<rparr>])
      else (list_ex (\<lambda>b. budget_key b = (p, d) \<and> bg_used b < cap) rows, one_more (p, d) cap rows))"
proof -
  have hit: "(\<lambda>b. bg_project b = p \<and> bg_day b = d) = (\<lambda>b. budget_key b = (p, d))"
      "(\<lambda>b. (bg_project b = p \<and> bg_day b = d) \<and> bg_used b < cap) = (\<lambda>b. budget_key b = (p, d) \<and> bg_used b < cap)"
    by (simp_all add: fun_eq_iff budget_key_def)
  have "list_ex (\<lambda>b. budget_key b = (p, d)) rows \<longleftrightarrow> (p, d) \<in> budget_key ` set rows"
    unfolding list_ex_iff image_iff by metis
  then show ?thesis unfolding reserve_budget_def Let_def hit one_more_def by simp
qed

lemma reserve_budget_effect:
  assumes "distinct (map budget_key rows)" "reserve_budget p d cap rows = (ok, rows')"
  shows "distinct (map budget_key rows') \<and> (ok \<longleftrightarrow> used rows (p, d) < cap)
    \<and> used rows' k = used rows k + (if k = (p, d) \<and> ok then 1 else 0)"
proof (cases "cap = 0")
  case True
  with assms show ?thesis by (simp add: reserve_budget_eq)
next
  case False
  show ?thesis
  proof (cases "(p, d) \<in> budget_key ` set rows")
    case True
    with False assms show ?thesis
      using one_more_used [OF assms(1) True, of cap k] by (auto simp: reserve_budget_eq simp del: set_map)
  next
    case absent: False
    with False assms show ?thesis
      by (auto simp: reserve_budget_eq used_none budget_key_def image_iff)
  qed
qed

lemma granted_from:
  assumes "distinct (map budget_key rows)" "used rows k \<le> cap"
  shows "granted k cap rs rows = min (count_where ((=) k) rs) (cap - used rows k)"
  using assms
proof (induction rs arbitrary: rows)
  case Nil
  then show ?case by (simp add: granted_def)
next
  case (Cons r rs)
  obtain p d where r: "r = (p, d)" by (cases r)
  obtain ok rows' where step: "reserve_budget p d cap rows = (ok, rows')" by fastforce
  note effect = reserve_budget_effect [OF Cons.prems(1) step, of k]
  have "used rows' k \<le> cap" using effect Cons.prems(2) by auto
  with Cons.IH effect have "granted k cap rs rows' = min (count_where ((=) k) rs) (cap - used rows' k)" by blast
  moreover have "granted k cap (r # rs) rows = (if r = k \<and> ok then 1 else 0) + granted k cap rs rows'"
    by (simp add: r granted_def step)
  ultimately show ?case using effect r by (cases "k = (p, d)") auto
qed

section \<open>Properties\<close>

definition no_checks :: "db \<Rightarrow> bool" where
  "no_checks s = (checks s = [] \<and> check_attempts s = [])"

lemma run_checks:
  assumes "ticket_run uuid sha s s'" "no_checks s" "inj uuid"
  shows "checks_ok uuid s'"
proof -
  have "checks_ok uuid s" using assms(2) by (simp add: no_checks_def checks_ok_def)
  moreover have "ticket_step uuid sha a b \<Longrightarrow> checks_ok uuid a \<Longrightarrow> checks_ok uuid b" for a b
    by (rule step_checks [OF assms(3)])
  ultimately show ?thesis using assms(1) by (rule run_invariant [where I = "checks_ok uuid", rotated 2])
qed

text \<open>
  C14: Along every run the rows of checks fit together: a recording of a ticket has at most one
  check, the check repeats the outcome of an attempt that is not unavailable, and the attempt
  belongs to a batch of the same ticket, is about a member of its manifest, and names only
  signals of that member.
\<close>

theorem checks_rest_on_manifests:
  assumes "ticket_run uuid sha s s'" "no_checks s" "inj uuid"
  shows "distinct (map (\<lambda>c. (ck_ticket c, ck_session c)) (checks s'))
    \<and> list_all (\<lambda>c. list_ex (\<lambda>a. ca_id a = ck_attempt c \<and> ca_ticket a = ck_ticket c \<and> ca_session a = ck_session c
         \<and> ca_outcome a = ck_outcome c \<and> ca_outcome a \<noteq> Unavailable
         \<and> list_ex (\<lambda>b. batch_id b = ca_batch a \<and> batch_ticket b = ck_ticket c
             \<and> list_ex (\<lambda>m. mb_session m = ck_session c \<and> set (ca_signals a) \<subseteq> set (mb_signals m)) (batch_manifest b))
           (batches s')) (check_attempts s')) (checks s')"
proof (intro conjI)
  note ok = run_checks [OF assms]
  show "distinct (map (\<lambda>c. (ck_ticket c, ck_session c)) (checks s'))"
    using ok by (simp add: checks_ok_def check_key_def [abs_def])
  have "records (check_attempts s') c" "\<And>a. a \<in> set (check_attempts s') \<Longrightarrow> on_manifest (batches s') a" if "c \<in> set (checks s')" for c
    using ok that by (auto simp: checks_ok_def list_all_iff)
  then show "list_all (\<lambda>c. list_ex (\<lambda>a. ca_id a = ck_attempt c \<and> ca_ticket a = ck_ticket c \<and> ca_session a = ck_session c
         \<and> ca_outcome a = ck_outcome c \<and> ca_outcome a \<noteq> Unavailable
         \<and> list_ex (\<lambda>b. batch_id b = ca_batch a \<and> batch_ticket b = ck_ticket c
             \<and> list_ex (\<lambda>m. mb_session m = ck_session c \<and> set (ca_signals a) \<subseteq> set (mb_signals m)) (batch_manifest b))
           (batches s')) (check_attempts s')) (checks s')"
    unfolding list_all_iff records_def on_manifest_def list_ex_iff by metis
qed

text \<open>
  C13: Along every run the two queries over checks agree: the number of confirmed recordings
  that the bar counts is the number of recordings of the published evidence, and the number of
  users is the number of its users, provided no user has an empty id.
\<close>

theorem gate_counts_what_is_shown:
  assumes "ticket_run uuid sha s s'" "no_checks s" "inj uuid" "Some [] \<notin> mt_end_user ` set (matches s')"
  shows "cs_confirmed (cohort_stats_of t s') = ve_sessions (verified_evidence_of now t None s')
    \<and> cs_users (cohort_stats_of t s') = ve_users (verified_evidence_of now t None s')"
  using confirmed_shown users_shown run_checks [OF assms(1-3)] assms(4) by blast

text \<open>
  C12: When activateGeneration returns, the locked evidence met the bar (at least three
  confirmed recordings, two known users unless nobody is known, at least 40 percent of the
  checks confirmed), the generation is the next one, and the only live incident of the ticket is
  the new one, whose numbers are those of the verified evidence.
\<close>

theorem publication_meets_bar:
  assumes "activate_generation uuid sha insight now ticket steps s = (Inr (gid, n), s')"
  shows "\<exists>t st ev. t \<in> set (tickets s) \<and> tk_id t = tk_id ticket \<and> \<not> terminal t
    \<and> st = cohort_stats_of t s \<and> ev = verified_evidence_of now t None s
    \<and> 3 \<le> cs_confirmed st \<and> diverse st \<and> 4 * cs_counted st \<le> 10 * cs_confirmed st
    \<and> n = Suc (tk_live_generation t)
    \<and> (\<exists>g. filter (live_issue (tk_id t)) (issues s') = [g] \<and> gr_id g = gid \<and> gr_publication g = Some n
          \<and> gr_occurrences g = ve_sessions ev \<and> gr_affected_users g = ve_users ev \<and> gr_status g = GQueued)"
proof -
  from assms show ?thesis
  proof (elim activate_Inr)
    fix t
    let ?st = "cohort_stats_of t s" and ?ev = "verified_evidence_of now t None s"
    assume t: "t \<in> set (tickets s)" "tk_id t = tk_id ticket" "\<not> terminal t"
      and bar: "evaluate_bar ?st (tk_status t) None = Passes"
      and pub: "publish_generation uuid sha insight now t steps (evidence_rows now t None s) s = ((gid, n), s')"
    note live = published_live [OF pub]
    have "3 \<le> cs_confirmed ?st" "diverse ?st" "4 * cs_counted ?st \<le> 10 * cs_confirmed ?st"
      using passing_bar [OF bar] by simp_all
    with t live publish_effect(1) [OF pub] show ?thesis
      by (auto simp: verified_evidence_of_def)
  qed
qed

text \<open>
  C17: When selectBatch returns a batch, it holds between one and ten recordings (thirty for the
  first batch of a ticket with more than fifty), each without a check and not waiting for a
  retry, and the choice is fair within the batch: among the recordings that could be selected at
  that moment, one that is left out never comes before one that is picked in the order of turns,
  the position of a recording among those of its user and then its arrival.
\<close>

theorem batch_is_bounded_and_fair:
  assumes "select_batch uuid now ticket jid s = (Inr (Some b), s')"
  shows "\<exists>t xs. t \<in> set (tickets s) \<and> tk_id t = batch_ticket b \<and> batch_manifest b = map (member_of (tk_id t) s) xs
    \<and> 1 \<le> length xs \<and> length xs \<le> (if tk_arrival_boundary t = 0 \<and> 50 < tk_matched t then 30 else 10)
    \<and> list_all (selectable now (tk_id t) s) xs
    \<and> list_all (\<lambda>y. y \<in> set xs \<or> \<not> selectable now (tk_id t) s y
         \<or> list_all (\<lambda>x. turn_order (filter (selectable now (tk_id t) s) (matches s)) x y) xs) (matches s)"
  using assms
proof (elim select_batch_Inr)
  fix t b'
  assume t: "t \<in> set (tickets s)" "selected now t s \<noteq> []" "Some b = Some b'"
    "b' = new_batch (uuid (uuids s)) now t jid (map (member_of (tk_id t) s) (selected now t s))"
  let ?xs = "selected now t s"
  show ?thesis
  proof (intro exI conjI)
    show "1 \<le> length ?xs" using t(2) by (cases ?xs) auto
    show "length ?xs \<le> (if tk_arrival_boundary t = 0 \<and> 50 < tk_matched t then 30 else 10)"
      using selected_length [of now t s] by (simp add: batch_limit_def)
    show "list_all (selectable now (tk_id t) s) ?xs" using selected_recording by (auto simp: list_all_iff)
    show "list_all (\<lambda>y. y \<in> set ?xs \<or> \<not> selectable now (tk_id t) s y
         \<or> list_all (\<lambda>x. turn_order (filter (selectable now (tk_id t) s) (matches s)) x y) ?xs) (matches s)"
      using selected_fair by (auto simp: list_all_iff)
  qed (use t in \<open>simp_all add: new_batch_def\<close>)
qed simp

lemma daily_budget_is_exact:
  shows "granted k cap rs [] = min (count_where ((=) k) rs) cap"
  using granted_from [of "[]" k cap rs] by simp

end
