(* ===== verification/TicketExamples.thy ===== *)
theory TicketExamples
  imports TicketEvidence
begin

text \<open>
  One ticket from its first recording to its publication: three users meet the same defect, a batch
  checks their recordings, and the confirmed cohort is published. The witnesses of the properties of
  tickets are read off this run.
\<close>

section \<open>The run\<close>

definition demo_uuid :: "nat \<Rightarrow> ident" where "demo_uuid n = replicate (Suc n) CHR ''u''"

definition demo_sha :: "string \<Rightarrow> string" where "demo_sha x = x"

definition demo_click :: "ident \<Rightarrow> ident \<Rightarrow> signal_row" where
  "demo_click k sid =
     \<lparr>sig_id = k, sig_project = ''p1'', sig_environment = ''e1'', sig_fingerprint = ''f'', sig_type = ''dead_click'',
      sig_page = ''/cart'', sig_selector = None, sig_adjudication = AdjAccepted, sig_adjudication_job = None,
      sig_adjudicated_at = None, sig_generation = None, sig_session = sid, sig_end_user = None,
      sig_occurred_at = 1, sig_occurrences = 1, sig_rule_version = 1, sig_observation = None,
      sig_retracted_at = None, sig_superseded_by = None, sig_incident = None, sig_adjudication_attempts = 0,
      sig_scope = None, sig_model = None, sig_prompt_version = None, sig_reason = None\<rparr>"

definition demo_session :: "ident \<Rightarrow> ident \<Rightarrow> session_row" where
  "demo_session sid u =
     \<lparr>ss_id = sid, ss_project = ''p1'', ss_analysis_failed = False, ss_environment = ''e1'',
      ss_end_user = Some u, ss_started_at = 0, ss_retain_until = None\<rparr>"

definition demo_site :: db where
  "demo_site = empty_db\<lparr>
     environments := [\<lparr>en_id = ''e1'', en_project = ''p1''\<rparr>],
     end_users := [\<lparr>eu_id = ''a'', eu_project = ''p1'', eu_account = Some ''Acme''\<rparr>,
       \<lparr>eu_id = ''b'', eu_project = ''p1'', eu_account = None\<rparr>],
     sessions := [demo_session ''s1'' ''a'', demo_session ''s2'' ''b'', demo_session ''s3'' ''a''],
     signals := [demo_click ''k1'' ''s1'', demo_click ''k2'' ''s2'', demo_click ''k3'' ''s3'']\<rparr>"

definition demo_problem :: new_ticket where
  "demo_problem =
     \<lparr>nt_project = ''p1'', nt_environment = ''e1'', nt_name = ''Cart'', nt_control = ''Pay'',
      nt_what_happened = ''Nothing'', nt_kind = Defect, nt_steps = None\<rparr>"

definition demo_opened :: ticket_row where
  "demo_opened = fresh_ticket (demo_uuid 0) demo_problem None"

definition demo_seen :: "ident \<Rightarrow> ident \<Rightarrow> match_input" where
  "demo_seen sid k =
     \<lparr>mi_ticket = demo_opened, mi_session = sid, mi_source = Cheap, mi_occurred_at = 1, mi_screen = ''/cart'', mi_signals = [k]\<rparr>"

definition demo_result :: "ident \<Rightarrow> ident \<Rightarrow> check_result" where
  "demo_result sid k =
     \<lparr>cr_session = sid, cr_outcome = Confirmed, cr_signals = [k], cr_lines = [], cr_note = ''stuck'',
      cr_cost = Some LostTime, cr_frames_ok = True, cr_frames = [], cr_model = ''m''\<rparr>"

definition demo_batch :: ident where "demo_batch = demo_uuid 1"

definition demo_count :: "unit tx" where
  "demo_count =
     andthen (create_ticket demo_uuid demo_problem None) (\<lambda>_.
     andthen (record_match (demo_seen ''s1'' ''k1'')) (\<lambda>_.
     andthen (record_match (demo_seen ''s2'' ''k2'')) (\<lambda>_.
     andthen (record_match (demo_seen ''s3'' ''k3'')) (\<lambda>_. pure ()))))"

definition demo_check :: "finalized_result tx" where
  "demo_check =
     andthen (select_batch demo_uuid 2 demo_opened ''j1'') (\<lambda>_.
     andthen (stage_check demo_uuid 3 demo_batch (demo_result ''s1'' ''k1'')) (\<lambda>_.
     andthen (stage_check demo_uuid 3 demo_batch (demo_result ''s2'' ''k2'')) (\<lambda>_.
     andthen (stage_check demo_uuid 3 demo_batch (demo_result ''s3'' ''k3'')) (\<lambda>_.
       finalize_batch 4 demo_opened demo_batch))))"

definition demo_publish :: "(ident \<times> nat) tx" where
  "demo_publish = activate_generation demo_uuid demo_sha None 5 demo_opened ''Open the cart''"

definition demo_merge :: "bool tx" where
  "demo_merge =
     andthen (create_ticket demo_uuid demo_problem None) (\<lambda>t. fold_into demo_uuid 6 t demo_opened)"

definition demo_counted :: db where "demo_counted = snd (demo_count demo_site)"

definition demo_checked :: db where "demo_checked = snd (demo_check demo_counted)"

definition demo_published :: db where "demo_published = snd (demo_publish demo_checked)"

definition demo_merged :: db where "demo_merged = snd (demo_merge demo_published)"

text \<open>Whether the run returns at every stage, and what it leaves.\<close>

definition returns :: "'a tx \<Rightarrow> db \<Rightarrow> bool" where
  "returns m s = (case fst (m s) of Inl _ \<Rightarrow> False | Inr _ \<Rightarrow> True)"

lemma returnsD: "returns m s \<Longrightarrow> \<exists>r. m s = (Inr r, snd (m s))"
  by (cases "m s") (auto simp: returns_def split: sum.splits)

definition demo_row :: ticket_row where "demo_row = hd (tickets demo_merged)"

definition outline :: "db \<Rightarrow> (ident \<times> ticket_status \<times> nat \<times> nat) list \<times> nat list \<times> nat \<times> ident option list" where
  "outline s = (map (\<lambda>t. (tk_id t, tk_status t, tk_next_arrival t, tk_live_generation t)) (tickets s),
     map mt_arrival (matches s), count_where (investigation_of (demo_uuid 5) 1) (jobs s), map mt_end_user (matches s))"

text \<open>The stages in turn, so that the run is evaluated once.\<close>

fun told :: "'e + 'a \<Rightarrow> bool" where
  "told (Inl e) = False"
| "told (Inr a) = True"

fun tell_merge where
  "tell_merge (r, s) = (told r, outline s)"

fun tell_publish where
  "tell_publish (r, s) = (r, uuids s, map tk_id (tickets s), tell_merge (demo_merge s))"

fun tell_check where
  "tell_check (r, s) = (told r, tell_publish (demo_publish s))"

fun tell_count where
  "tell_count (r, s) = (told r, tell_check (demo_check s))"

lemma tell_pairs:
  "tell_merge p = (told (fst p), outline (snd p))"
  "tell_publish q = (fst q, uuids (snd q), map tk_id (tickets (snd q)), tell_merge (demo_merge (snd q)))"
  "tell_check u = (told (fst u), tell_publish (demo_publish (snd u)))"
  "tell_count v = (told (fst v), tell_check (demo_check (snd v)))"
  by (cases p, simp) (cases q, simp, cases u, simp, cases v, simp)

lemma ticket_story:
  "tell_count (demo_count demo_site) =
     (True, True, Inr (demo_uuid 5, 1), 7, [demo_uuid 0], True,
      [(demo_uuid 0, Published, 3, 1), (demo_uuid 7, Merged, 0, 0)], [1, 2, 3], 1, [Some ''a'', Some ''b'', Some ''a''])"
  by code_simp

lemma told_returns: "told (fst (m s)) \<Longrightarrow> returns m s"
  by (cases "fst (m s)") (simp_all add: returns_def)

lemmas ticket_stages =
  ticket_story [unfolded tell_pairs prod.inject eq_True, folded demo_counted_def, folded demo_checked_def,
    folded demo_published_def, folded demo_merged_def]

lemma ticket_demo_returns:
  "returns demo_count demo_site" "returns demo_check demo_counted"
  "fst (demo_publish demo_checked) = Inr (demo_uuid 5, 1)"
  using ticket_stages by (blast intro: told_returns)+

lemma demo_merged_outline:
  "returns demo_merge demo_published \<and> outline demo_merged =
     ([(demo_uuid 0, Published, 3, 1), (demo_uuid 7, Merged, 0, 0)], [1, 2, 3], 1, [Some ''a'', Some ''b'', Some ''a''])"
  using ticket_stages by (blast intro: told_returns)

lemma demo_fresh_id:
  "uuids demo_published = 7 \<and> map tk_id (tickets demo_published) = [demo_uuid 0]"
  using ticket_stages by blast

lemma demo_uuid_inj: "inj demo_uuid" and demo_uuid_named: "demo_uuid n \<noteq> []"
  by (auto simp: inj_def demo_uuid_def dest: arg_cong [of _ _ length])

text \<open>A program of operations that returns is a run.\<close>

lemma run_andthen:
  assumes "andthen m f s = (Inr r, s')" "\<And>a t. m s = (Inr a, t) \<Longrightarrow> ticket_step uuid sha s t"
    "\<And>a t. f a t = (Inr r, s') \<Longrightarrow> ticket_run uuid sha t s'"
  shows "ticket_run uuid sha s s'"
  using assms by (auto simp: andthen_Inr intro: converse_rtranclp_into_rtranclp)

lemma run_last:
  "pure a s = (Inr r, s') \<Longrightarrow> ticket_run uuid sha s s'"
  "finalize_batch now t bid s = (Inr fr, s') \<Longrightarrow> ticket_run uuid sha s s'"
  "fold_into uuid now src tgt s = (Inr b, s') \<Longrightarrow> ticket_run uuid sha s s'"
  "activate_generation uuid sha insight now t steps s = (Inr gn, s') \<Longrightarrow> ticket_run uuid sha s s'"
  by (auto simp: pure_def intro: ticket_step.intros)

lemma demo_run_counted: "ticket_run demo_uuid demo_sha demo_site demo_counted"
proof -
  obtain a where "demo_count demo_site = (Inr a, demo_counted)"
    using returnsD [OF ticket_demo_returns(1)] unfolding demo_counted_def by blast
  then show ?thesis
    unfolding demo_count_def
  proof (rule run_andthen)
    fix x t assume "create_ticket demo_uuid demo_problem None demo_site = (Inr x, t)"
    moreover have "demo_uuid (uuids demo_site) \<notin> tk_id ` set (tickets demo_site)"
      by (simp add: demo_site_def empty_db_def)
    ultimately show "ticket_step demo_uuid demo_sha demo_site t" by (intro ticket_step.create)
  qed ((erule run_andthen, erule ticket_step.recorded)+, erule run_last)
qed

lemma demo_run_checked: "ticket_run demo_uuid demo_sha demo_counted demo_checked"
proof -
  obtain a where "demo_check demo_counted = (Inr a, demo_checked)"
    using returnsD [OF ticket_demo_returns(2)] unfolding demo_checked_def by blast
  then show ?thesis
    unfolding demo_check_def
  proof (rule run_andthen)
    fix x t assume "select_batch demo_uuid 2 demo_opened ''j1'' demo_counted = (Inr x, t)"
    then show "ticket_step demo_uuid demo_sha demo_counted t" by (rule ticket_step.select)
  qed ((erule run_andthen, erule ticket_step.stage)+, erule run_last)
qed

lemma demo_activated: "demo_publish demo_checked = (Inr (demo_uuid 5, 1), demo_published)"
  using ticket_demo_returns(3) unfolding demo_published_def by (metis prod.collapse)

lemma ticket_demo_run: "ticket_run demo_uuid demo_sha demo_site demo_merged"
proof -
  note demo_run_counted
  also note demo_run_checked
  also have "ticket_run demo_uuid demo_sha demo_checked demo_published"
    using demo_activated unfolding demo_publish_def by (rule run_last)
  also obtain b where "demo_merge demo_published = (Inr b, demo_merged)"
    using returnsD [of demo_merge demo_published] demo_merged_outline unfolding demo_merged_def by blast
  then have "ticket_run demo_uuid demo_sha demo_published demo_merged"
    unfolding demo_merge_def
  proof (rule run_andthen)
    fix x t assume "create_ticket demo_uuid demo_problem None demo_published = (Inr x, t)"
    moreover have "tk_id ` set (tickets demo_published) = {demo_uuid 0}"
      using demo_fresh_id by (metis list.set(1,2) list.set_map)
    then have "demo_uuid (uuids demo_published) \<notin> tk_id ` set (tickets demo_published)"
      using demo_fresh_id demo_uuid_inj by (simp add: inj_eq)
    ultimately show "ticket_step demo_uuid demo_sha demo_published t" by (intro ticket_step.create)
  qed (rule run_last)
  finally show ?thesis .
qed

lemma demo_start: "no_tickets demo_site" "no_checks demo_site"
  by (simp_all add: no_tickets_def no_checks_def demo_site_def empty_db_def)

lemma demo_row_in: "demo_row \<in> set (tickets demo_merged)"
  using demo_merged_outline by (auto simp: demo_row_def outline_def)

section \<open>The witnesses\<close>

theorem recordings_are_counted_witness:
  "map mt_arrival (recordings_of (tk_id demo_row) (matches demo_merged)) = [1..<Suc (tk_next_arrival demo_row)]
   \<and> tk_matched demo_row = tk_next_arrival demo_row \<and> tk_next_arrival demo_row = 3"
  using recordings_are_counted [OF ticket_demo_run demo_start(1) demo_row_in] demo_merged_outline
  by (auto simp: demo_row_def outline_def)

theorem published_iff_live_incident_witness:
  "map gr_publication (filter (live_issue (tk_id demo_row)) (issues demo_merged)) = [Some 1]"
  using published_iff_live_incident [OF ticket_demo_run demo_start(1) demo_row_in] demo_merged_outline
  by (auto simp: demo_row_def outline_def)

theorem investigations_are_capped_witness:
  "count_where (investigation_of (demo_uuid 5) 1) (jobs demo_merged) = 1
   \<and> count_where (investigation_of (demo_uuid 5) 1) (jobs demo_merged) \<le> max_investigations_per_generation"
  using investigations_are_capped [OF ticket_demo_run demo_start(1), of "demo_uuid 5" 1] demo_merged_outline
  by (simp add: outline_def)

theorem folds_lead_to_open_ticket_witness:
  "\<exists>t u. t \<in> set (tickets demo_merged) \<and> tk_status t = Merged
     \<and> resolve_match_ticket (tk_project t) (tk_environment t) demo_merged [] (tk_id t) = Inr u \<and> \<not> terminal u"
proof -
  let ?t = "last (tickets demo_merged)"
  have t: "?t \<in> set (tickets demo_merged)" "tk_status ?t = Merged"
    using demo_merged_outline by (auto simp: outline_def)
  from folds_lead_to_open_ticket [OF ticket_demo_run demo_start(1) demo_uuid_named t(1)] t show ?thesis by blast
qed

theorem checks_rest_on_manifests_witness:
  "distinct (map (\<lambda>c. (ck_ticket c, ck_session c)) (checks demo_merged))"
  using checks_rest_on_manifests [OF ticket_demo_run demo_start(2) demo_uuid_inj] by blast

theorem gate_counts_what_is_shown_witness:
  "cs_confirmed (cohort_stats_of demo_row demo_merged) = ve_sessions (verified_evidence_of 9 demo_row None demo_merged)
   \<and> cs_users (cohort_stats_of demo_row demo_merged) = ve_users (verified_evidence_of 9 demo_row None demo_merged)"
proof -
  have "map mt_end_user (matches demo_merged) = [Some ''a'', Some ''b'', Some ''a'']"
    using demo_merged_outline by (simp add: outline_def)
  then have "mt_end_user ` set (matches demo_merged) = {Some ''a'', Some ''b''}"
    by (metis insert_absorb2 insert_commute list.set(1,2) list.set_map)
  then have "Some [] \<notin> mt_end_user ` set (matches demo_merged)" by simp
  from gate_counts_what_is_shown [OF ticket_demo_run demo_start(2) demo_uuid_inj this] show ?thesis .
qed

theorem publication_meets_bar_witness:
  "\<exists>t. t \<in> set (tickets demo_checked) \<and> 3 \<le> cs_confirmed (cohort_stats_of t demo_checked)
     \<and> (\<exists>g. filter (live_issue (tk_id t)) (issues demo_published) = [g] \<and> gr_id g = demo_uuid 5)"
  using publication_meets_bar [OF demo_activated [unfolded demo_publish_def]] by blast

definition selected_sessions :: "string + batch_row option \<Rightarrow> ident list" where
  "selected_sessions r = (case r of Inr (Some b) \<Rightarrow> map mb_session (batch_manifest b) | _ \<Rightarrow> [])"

lemma demo_selection:
  "selected_sessions (fst (select_batch demo_uuid 2 demo_opened ''j1'' demo_counted)) = [''s1'', ''s2'', ''s3'']"
  by code_simp

theorem batch_is_bounded_and_fair_witness:
  "\<exists>(b :: batch_row) t xs. map mb_session (batch_manifest b) = [''s1'', ''s2'', ''s3''] \<and> t \<in> set (tickets demo_counted)
     \<and> batch_manifest b = map (member_of (tk_id t) demo_counted) xs
     \<and> length xs \<le> 30"
proof -
  obtain b s' where b: "select_batch demo_uuid 2 demo_opened ''j1'' demo_counted = (Inr (Some b), s')"
      "map mb_session (batch_manifest b) = [''s1'', ''s2'', ''s3'']"
    using demo_selection
    by (cases "select_batch demo_uuid 2 demo_opened ''j1'' demo_counted")
      (auto simp: selected_sessions_def split: sum.splits option.splits)
  from batch_is_bounded_and_fair [OF b(1)] obtain t xs where x: "t \<in> set (tickets demo_counted)"
      "batch_manifest b = map (member_of (tk_id t) demo_counted) xs"
      "length xs \<le> (if tk_arrival_boundary t = 0 \<and> 50 < tk_matched t then 30 else 10)" by blast
  have len: "length xs \<le> 30" using x(3) by (simp split: if_splits)
  show ?thesis
    by (rule exI [of _ b], rule exI [of _ t], rule exI [of _ xs]) (intro conjI b(2) x(1,2) len)
qed

end
