(* ===== verification/Impact.thy ===== *)
theory Impact
  imports Statements DeadLetters
begin

text \<open>
  The impact of an incident (\<open>friction/promotion-db.ts\<close>): the occurrences, the first and last time, the
  roll-up per environment and the affected users that an incident stores, how one signal is added to
  them, and how they are rebuilt from the events and signals of the incident. Statements that group
  rows give them in the order in which their keys first appear.
\<close>

section \<open>Signals and incidents\<close>

definition live_signal :: "signal_row \<Rightarrow> bool" where
  "live_signal x = (sig_retracted_at x = None \<and> sig_superseded_by x = None)"

definition of_incident :: "ident \<Rightarrow> ident \<Rightarrow> signal_row \<Rightarrow> bool" where
  "of_incident gid pid x = (sig_incident x = Some gid \<and> sig_project x = pid \<and> live_signal x)"

record fold_signal =
  fs_id :: ident
  fs_project :: ident
  fs_environment :: ident
  fs_end_user :: "ident option"
  fs_session :: ident
  fs_fingerprint :: string
  fs_occurred_at :: time

definition pin_session :: "session_row \<Rightarrow> session_row" where
  "pin_session r =
     r\<lparr>ss_retain_until := Some (max (case ss_retain_until r of None \<Rightarrow> 0 | Some u \<Rightarrow> u)
         (ss_started_at r + 90 * day_ms))\<rparr>"

section \<open>Adding one signal\<close>

definition at_key :: "ident \<Rightarrow> ident \<Rightarrow> impact_row \<Rightarrow> bool" where
  "at_key gid k r = (im_group r = gid \<and> im_key r = k)"

definition new_impact :: "ident \<Rightarrow> ident \<Rightarrow> time \<Rightarrow> nat \<Rightarrow> impact_row" where
  "new_impact gid k tm n = \<lparr>im_group = gid, im_key = k, im_first = tm, im_last = tm, im_occurrences = n\<rparr>"

definition widen :: "time \<Rightarrow> nat \<Rightarrow> impact_row \<Rightarrow> impact_row" where
  "widen tm n r =
     r\<lparr>im_first := min (im_first r) tm, im_last := max (im_last r) tm, im_occurrences := im_occurrences r + n\<rparr>"

definition add_impact :: "ident \<Rightarrow> ident \<Rightarrow> time \<Rightarrow> nat \<Rightarrow> impact_row list \<Rightarrow> impact_row list" where
  "add_impact gid k tm n = upsert (at_key gid k) (new_impact gid k tm n) (widen tm n)"

definition occurrences_of :: "ident \<Rightarrow> db \<Rightarrow> nat" where
  "occurrences_of k s = (case find (\<lambda>x. sig_id x = k) (signals s) of None \<Rightarrow> 0 | Some x \<Rightarrow> sig_occurrences x)"

definition grow_incident :: "time \<Rightarrow> nat \<Rightarrow> group_row \<Rightarrow> group_row" where
  "grow_incident tm n g =
     g\<lparr>gr_occurrences := gr_occurrences g + n, gr_first_seen := min (gr_first_seen g) tm,
       gr_last_seen := max (gr_last_seen g) tm\<rparr>"

definition count_users :: "ident \<Rightarrow> impact_row list \<Rightarrow> group_row \<Rightarrow> group_row" where
  "count_users gid rows g = g\<lparr>gr_affected_users := count_where (\<lambda>r. im_group r = gid) rows\<rparr>"

definition attach_to :: "fold_signal \<Rightarrow> ident \<Rightarrow> db \<Rightarrow> db" where
  "attach_to f gid s = s\<lparr>signals := update_where (\<lambda>x. sig_id x = fs_id f) (\<lambda>x. x\<lparr>sig_incident := Some gid\<rparr>) (signals s)\<rparr>"

definition grow_groups :: "fold_signal \<Rightarrow> ident \<Rightarrow> db \<Rightarrow> db" where
  "grow_groups f gid s =
     s\<lparr>issues := update_where (\<lambda>g. gr_id g = gid) (grow_incident (fs_occurred_at f) (occurrences_of (fs_id f) s)) (issues s)\<rparr>"

definition grow_environments :: "fold_signal \<Rightarrow> ident \<Rightarrow> db \<Rightarrow> db" where
  "grow_environments f gid s =
     (if list_ex (\<lambda>g. gr_id g = gid \<and> gr_project g = fs_project f \<and> gr_is_error g) (issues s)
         \<and> list_ex (\<lambda>x. sig_id x = fs_id f) (signals s)
      then s\<lparr>group_environments := add_impact gid (fs_environment f) (fs_occurred_at f) (occurrences_of (fs_id f) s)
               (group_environments s)\<rparr>
      else s)"

definition grow_users :: "fold_signal \<Rightarrow> ident \<Rightarrow> db \<Rightarrow> db" where
  "grow_users f gid s =
     (case truthy_str (fs_end_user f) of
        None \<Rightarrow> s
      | Some u \<Rightarrow>
          let users = add_impact gid u (fs_occurred_at f) (occurrences_of (fs_id f) s) (affected_users s)
          in s\<lparr>affected_users := users, issues := update_where (\<lambda>g. gr_id g = gid) (count_users gid users) (issues s)\<rparr>)"

definition pin_evidence :: "fold_signal \<Rightarrow> db \<Rightarrow> db" where
  "pin_evidence f s =
     s\<lparr>sessions := update_where (\<lambda>r. ss_id r = fs_session f \<and> ss_project r = fs_project f) pin_session (sessions s)\<rparr>"

definition attach_signal_incrementally :: "fold_signal \<Rightarrow> ident \<Rightarrow> db \<Rightarrow> db" where
  "attach_signal_incrementally f gid s =
     pin_evidence f (grow_users f gid (grow_environments f gid (grow_groups f gid (attach_to f gid s))))"

section \<open>Rebuilding\<close>

text \<open>One source row of an incident: an error event, which counts once, or an attached signal.\<close>

record source_row =
  so_environment :: ident
  so_user :: "ident option"
  so_at :: time
  so_count :: nat

definition event_source :: "error_event_row \<Rightarrow> source_row" where
  "event_source e = \<lparr>so_environment = ev_environment e, so_user = ev_end_user e, so_at = ev_at e, so_count = 1\<rparr>"

definition signal_source :: "signal_row \<Rightarrow> source_row" where
  "signal_source x =
     \<lparr>so_environment = sig_environment x, so_user = sig_end_user x, so_at = sig_occurred_at x, so_count = sig_occurrences x\<rparr>"

definition sources :: "ident \<Rightarrow> ident \<Rightarrow> db \<Rightarrow> source_row list" where
  "sources gid pid s =
     map event_source (filter (\<lambda>e. ev_group e = gid \<and> ev_project e = pid) (error_events s))
     @ map signal_source (filter (of_incident gid pid) (signals s))"

definition total_of :: "source_row list \<Rightarrow> nat" where
  "total_of xs = (\<Sum>x\<leftarrow>xs. so_count x)"

definition first_of :: "source_row list \<Rightarrow> time" where
  "first_of xs = Min (set (map so_at xs))"

definition last_of :: "source_row list \<Rightarrow> time" where
  "last_of xs = Max (set (map so_at xs))"

text \<open>GROUP BY a key; the sources without a key are left out.\<close>

definition aggregate :: "ident \<Rightarrow> (source_row \<Rightarrow> ident option) \<Rightarrow> source_row list \<Rightarrow> impact_row list" where
  "aggregate gid key xs =
     map (\<lambda>k. let ys = filter (\<lambda>x. key x = Some k) xs
              in \<lparr>im_group = gid, im_key = k, im_first = first_of ys, im_last = last_of ys, im_occurrences = total_of ys\<rparr>)
       (dedup (List.map_filter key xs))"

definition other_groups :: "ident \<Rightarrow> impact_row list \<Rightarrow> impact_row list" where
  "other_groups gid = filter (\<lambda>r. im_group r \<noteq> gid)"

definition rebuild_environments :: "ident \<Rightarrow> ident \<Rightarrow> db \<Rightarrow> db" where
  "rebuild_environments gid pid s =
     s\<lparr>group_environments := other_groups gid (group_environments s)
        @ (if list_ex (\<lambda>g. gr_id g = gid \<and> gr_project g = pid \<and> gr_is_error g) (issues s)
           then aggregate gid (Some \<circ> so_environment) (sources gid pid s) else [])\<rparr>"

definition rebuild_incident :: "source_row list \<Rightarrow> group_row \<Rightarrow> group_row" where
  "rebuild_incident xs g =
     g\<lparr>gr_occurrences := total_of xs, gr_first_seen := (if xs = [] then gr_first_seen g else first_of xs),
       gr_last_seen := (if xs = [] then gr_last_seen g else last_of xs)\<rparr>"

definition rebuild_group :: "ident \<Rightarrow> ident \<Rightarrow> db \<Rightarrow> db" where
  "rebuild_group gid pid s =
     s\<lparr>issues := update_where (\<lambda>g. gr_id g = gid \<and> gr_project g = pid) (rebuild_incident (sources gid pid s)) (issues s)\<rparr>"

definition rebuild_users :: "ident \<Rightarrow> ident \<Rightarrow> db \<Rightarrow> db" where
  "rebuild_users gid pid s =
     (let users = other_groups gid (affected_users s) @ aggregate gid so_user (sources gid pid s)
      in s\<lparr>affected_users := users,
           issues := update_where (\<lambda>g. gr_id g = gid \<and> gr_project g = pid) (count_users gid users) (issues s)\<rparr>)"

definition recompute_incident_impact :: "ident \<Rightarrow> ident \<Rightarrow> unit tx" where
  "recompute_incident_impact gid pid =
     andthen (reads (\<lambda>s. list_ex (\<lambda>g. gr_id g = gid \<and> gr_project g = pid) (issues s))) (\<lambda>found.
       if \<not> found then throw (''incident '' @ gid @ '' does not belong to project '' @ pid)
       else modify (\<lambda>s. rebuild_users gid pid (rebuild_group gid pid (rebuild_environments gid pid s))))"

end
