(* ===== verification/Promotion.thy ===== *)
theory Promotion
  imports Impact TicketChecks
begin

text \<open>
  Promotion of friction signals to incidents (\<open>friction/promotion-db.ts\<close>, \<open>friction/promotion.ts\<close>):
  folding a signal onto an error of its session, claiming and judging a bucket of signals, and the
  promotion of observations once enough sessions or users support them. Advisory locks order
  transactions; a function that begins and commits its own transaction is one here, and the state
  after an exception is what the caller rolls back. The day of the clock is a parameter.
\<close>

section \<open>The budget and the claims\<close>

definition try_reserve_adjudication_call :: "ident \<Rightarrow> int \<Rightarrow> nat \<Rightarrow> db \<Rightarrow> bool \<times> db" where
  "try_reserve_adjudication_call pid day cap s =
     (case reserve_budget pid day cap (adjudication_budget s) of
        (ok, rows) \<Rightarrow> (ok, s\<lparr>adjudication_budget := rows\<rparr>))"

definition claim_signals_for_adjudication :: "ident list \<Rightarrow> ident \<Rightarrow> db \<Rightarrow> nat \<times> db" where
  "claim_signals_for_adjudication ids jid s =
     (let hit = (\<lambda>x. sig_id x \<in> set ids \<and> sig_adjudication x = AdjPending)
      in (count_where hit (signals s), s\<lparr>signals := update_where hit
           (\<lambda>x. x\<lparr>sig_adjudication_job := Some jid, sig_adjudication_attempts := sig_adjudication_attempts x + 1\<rparr>)
           (signals s)\<rparr>))"

section \<open>Folding onto an error\<close>

record fold_target =
  ft_group :: ident
  ft_status :: group_status
  ft_title :: string
  ft_away :: time

definition nearer_target :: "fold_target \<Rightarrow> fold_target \<Rightarrow> bool" where
  "nearer_target a b = (ft_away a < ft_away b \<or> (ft_away a = ft_away b \<and> str_le (ft_group a) (ft_group b)))"

definition find_fold_target :: "ident \<Rightarrow> ident \<Rightarrow> time \<Rightarrow> db \<Rightarrow> fold_target option" where
  "find_fold_target pid sid tm s =
     pick_min nearer_target
       [\<lparr>ft_group = gr_id g, ft_status = gr_status g, ft_title = gr_title g, ft_away = \<bar>ev_at e - tm\<bar>\<rparr>.
          e \<leftarrow> error_events s, g \<leftarrow> issues s,
          gr_id g = ev_group e \<and> ev_session e = Some sid \<and> ev_project e = pid \<and> gr_is_error g
          \<and> gr_status g \<noteq> GArchived \<and> tm - 30000 \<le> ev_at e \<and> ev_at e \<le> tm + 30000]"

record ruling =
  ru_accepted :: bool
  ru_reason :: string

record fold_meta =
  fm_model :: string
  fm_prompt :: nat
  fm_job :: ident

datatype fold_outcome = Attached | FoldRejected | NoTarget | FoldNoop

definition judged :: "ruling \<Rightarrow> adjudication" where
  "judged v = (if ru_accepted v then AdjAccepted else AdjRejected)"

definition rule_signal :: "time \<Rightarrow> string \<Rightarrow> ruling \<Rightarrow> fold_meta \<Rightarrow> signal_row \<Rightarrow> signal_row" where
  "rule_signal now scope v m x =
     x\<lparr>sig_adjudication := judged v, sig_scope := Some scope, sig_adjudicated_at := Some now,
       sig_model := Some (fm_model m), sig_prompt_version := Some (fm_prompt m), sig_reason := Some (ru_reason v)\<rparr>"

definition apply_fold_outcome :: "time \<Rightarrow> fold_signal \<Rightarrow> ruling \<Rightarrow> fold_meta \<Rightarrow> db \<Rightarrow> fold_outcome \<times> db" where
  "apply_fold_outcome now f v m s =
     (case find (\<lambda>x. sig_id x = fs_id f \<and> sig_project x = fs_project f \<and> live_signal x) (signals s) of
        None \<Rightarrow> (FoldNoop, s)
      | Some x \<Rightarrow>
          if sig_incident x \<noteq> None \<or> sig_adjudication x = AdjRejected \<or> sig_adjudication x = AdjUnchecked then (FoldNoop, s)
          else
            let s1 = s\<lparr>signals := update_where (\<lambda>y. sig_id y = fs_id f) (rule_signal now ''fold'' v m) (signals s)\<rparr>
            in if \<not> ru_accepted v then (FoldRejected, s1)
               else (case find_fold_target (fs_project f) (fs_session f) (fs_occurred_at f) s1 of
                       None \<Rightarrow> (NoTarget, s1)
                     | Some t \<Rightarrow> (Attached, attach_signal_incrementally f (ft_group t) s1)))"

section \<open>Buckets\<close>

record bucket_tuple =
  bt_project :: ident
  bt_environment :: ident
  bt_fingerprint :: string
  bt_rule :: nat
  bt_prompt :: nat

definition week_ms :: time where "week_ms = 7 * day_ms"

definition in_bucket :: "bucket_tuple \<Rightarrow> signal_row \<Rightarrow> bool" where
  "in_bucket t x =
     (sig_project x = bt_project t \<and> sig_environment x = bt_environment t \<and> sig_fingerprint x = bt_fingerprint t)"

definition eligible_signal :: "time \<Rightarrow> bucket_tuple \<Rightarrow> signal_row \<Rightarrow> bool" where
  "eligible_signal now t x =
     (in_bucket t x \<and> sig_rule_version x = bt_rule t \<and> sig_end_user x \<noteq> None
      \<and> sig_adjudication x \<noteq> AdjUnchecked \<and> live_signal x \<and> now - week_ms < sig_occurred_at x)"

definition list_eligible_signals :: "time \<Rightarrow> bucket_tuple \<Rightarrow> db \<Rightarrow> ident list \<times> nat" where
  "list_eligible_signals now t s =
     (let rows = filter (eligible_signal now t) (signals s) in (map sig_id rows, sum_list (map sig_occurrences rows)))"

definition count_eligible_users :: "time \<Rightarrow> bucket_tuple \<Rightarrow> db \<Rightarrow> nat" where
  "count_eligible_users now t s = count_distinct (map sig_end_user (filter (eligible_signal now t) (signals s)))"

record support =
  su_sessions :: nat
  su_users :: nat

definition supporting :: "time \<Rightarrow> bucket_tuple \<Rightarrow> signal_row \<Rightarrow> bool" where
  "supporting now t x =
     (in_bucket t x \<and> sig_rule_version x = bt_rule t \<and> sig_type x \<noteq> ''other'' \<and> sig_adjudication x = AdjAccepted
      \<and> live_signal x \<and> now - week_ms < sig_occurred_at x)"

definition count_eligible_support :: "time \<Rightarrow> bucket_tuple \<Rightarrow> db \<Rightarrow> support" where
  "count_eligible_support now t s =
     (let rows = filter (supporting now t) (signals s)
      in \<lparr>su_sessions = length (dedup (map sig_session rows)), su_users = count_distinct (map sig_end_user rows)\<rparr>)"

definition same_bucket :: "bucket_tuple \<Rightarrow> bucket_row \<Rightarrow> bool" where
  "same_bucket t b =
     (bs_project b = bt_project t \<and> bs_environment b = bt_environment t \<and> bs_fingerprint b = bt_fingerprint t
      \<and> bs_rule_version b = bt_rule t \<and> bs_prompt_version b = bt_prompt t)"

definition read_bucket_state :: "time \<Rightarrow> bucket_tuple \<Rightarrow> db \<Rightarrow> nat option" where
  "read_bucket_state now t s =
     map_option bs_evaluated_users (find (\<lambda>b. same_bucket t b
       \<and> (case bs_evaluated_at b of None \<Rightarrow> False | Some e \<Rightarrow> now - week_ms < e)) (bucket_states s))"

definition write_bucket_state :: "time \<Rightarrow> bucket_tuple \<Rightarrow> nat \<Rightarrow> ident option \<Rightarrow> db \<Rightarrow> db" where
  "write_bucket_state now t n gen s =
     s\<lparr>bucket_states := upsert (same_bucket t)
         \<lparr>bs_project = bt_project t, bs_environment = bt_environment t, bs_fingerprint = bt_fingerprint t,
          bs_rule_version = bt_rule t, bs_prompt_version = bt_prompt t, bs_evaluated_users = n,
          bs_evaluated_at = Some now, bs_last_generation = gen\<rparr>
         (\<lambda>b. b\<lparr>bs_evaluated_users := n, bs_evaluated_at := Some now, bs_last_generation := gen\<rparr>) (bucket_states s)\<rparr>"

definition record_bucket_evaluation :: "time \<Rightarrow> bucket_tuple \<Rightarrow> nat \<Rightarrow> ident option \<Rightarrow> db \<Rightarrow> db" where
  "record_bucket_evaluation = write_bucket_state"

definition same_membership :: "generation_evidence_row \<Rightarrow> generation_evidence_row \<Rightarrow> bool" where
  "same_membership a b = (ge_generation a = ge_generation b \<and> ge_signal a = ge_signal b)"

definition record_generation_evidence :: "ident \<Rightarrow> ident \<Rightarrow> ident list \<Rightarrow> db \<Rightarrow> db" where
  "record_generation_evidence gen pid ids s =
     (if ids = [] then s
      else s\<lparr>generation_evidence := fold (\<lambda>x. insert_new same_membership
               \<lparr>ge_generation = gen, ge_signal = sig_id x, ge_project = pid\<rparr>)
             (filter (\<lambda>x. sig_id x \<in> set ids \<and> sig_project x = pid) (signals s)) (generation_evidence s)\<rparr>)"

section \<open>Generations\<close>

definition for_bucket :: "bucket_tuple \<Rightarrow> generation_row \<Rightarrow> bool" where
  "for_bucket t g =
     (gen_project g = bt_project t \<and> gen_environment g = bt_environment t \<and> gen_fingerprint g = bt_fingerprint t
      \<and> gen_rule_version g = bt_rule t \<and> gen_prompt_version g = bt_prompt t)"

definition claimed_generation :: "ident \<Rightarrow> time \<Rightarrow> bucket_tuple \<Rightarrow> ident \<Rightarrow> generation_row" where
  "claimed_generation gid now t jid =
     \<lparr>gen_id = gid, gen_project = bt_project t, gen_environment = bt_environment t, gen_fingerprint = bt_fingerprint t,
      gen_status = Adjudicating, gen_claim_job = Some jid, gen_adjudicated_at = None, gen_finished_at = None,
      gen_diagnostic = None, gen_rule_version = bt_rule t, gen_prompt_version = bt_prompt t,
      gen_window_start = now - week_ms, gen_window_end = now, gen_attempts = 1, gen_model = None,
      gen_reason = None, gen_valid_until = None, gen_promoted = None\<rparr>"

definition claim_generation :: "(nat \<Rightarrow> ident) \<Rightarrow> time \<Rightarrow> bucket_tuple \<Rightarrow> ident \<Rightarrow> db \<Rightarrow> generation_row option \<times> db" where
  "claim_generation uuid now t jid s =
     (if list_ex (\<lambda>g. for_bucket t g \<and> gen_status g = Adjudicating) (generations s) then (None, s)
      else let g = claimed_generation (uuid (uuids s)) now t jid
           in (Some g, s\<lparr>generations := generations s @ [g], uuids := Suc (uuids s)\<rparr>))"

text \<open>The rows that refer to the generation go with it: its evidence is deleted, a bucket forgets it.\<close>

definition release_generation :: "ident \<Rightarrow> ident \<Rightarrow> ident \<Rightarrow> db \<Rightarrow> db" where
  "release_generation gen pid jid s =
     (let hit = (\<lambda>g. gen_id g = gen \<and> gen_project g = pid \<and> gen_claim_job g = Some jid
            \<and> gen_status g = Adjudicating \<and> gen_adjudicated_at g = None)
      in if \<not> list_ex hit (generations s) then s
         else s\<lparr>generations := filter (\<lambda>g. \<not> hit g) (generations s),
                generation_evidence := filter (\<lambda>e. ge_generation e \<noteq> gen) (generation_evidence s),
                bucket_states := update_where (\<lambda>b. bs_last_generation b = Some gen)
                  (\<lambda>b. b\<lparr>bs_last_generation := None\<rparr>) (bucket_states s)\<rparr>)"

definition judged_later :: "generation_row \<Rightarrow> generation_row \<Rightarrow> bool" where
  "judged_later a b =
     (case (gen_adjudicated_at a, gen_adjudicated_at b) of
        (None, _) \<Rightarrow> True | (Some x, None) \<Rightarrow> False | (Some x, Some y) \<Rightarrow> y \<le> x)"

definition find_valid_accepted_generation :: "time \<Rightarrow> bucket_tuple \<Rightarrow> db \<Rightarrow> generation_row option" where
  "find_valid_accepted_generation now t s =
     pick_min judged_later (filter (\<lambda>g. for_bucket t g \<and> gen_status g = GenAccepted
       \<and> (case gen_valid_until g of None \<Rightarrow> False | Some u \<Rightarrow> now < u)) (generations s))"

section \<open>Candidates\<close>

definition incident_fingerprint :: "ident \<Rightarrow> string \<Rightarrow> string" where
  "incident_fingerprint env fp = ''friction:'' @ env @ '':'' @ fp"

definition signal_title :: "string \<Rightarrow> string" where
  "signal_title t =
     (if t = ''rage_click'' then ''Rage clicks'' else if t = ''dead_click'' then ''Dead clicks''
      else if t = ''form_abandon'' then ''Form abandonment''
      else if t = ''unclickable_affordance'' then ''Unclickable affordance''
      else if t = ''no_feedback_after_action'' then ''No feedback after action''
      else if t = ''dead_end_state'' then ''Dead end''
      else if t = ''validation_confusion'' then ''Validation confusion''
      else if t = ''slow_response'' then ''Slow response''
      else if t = ''repetitive_workflow'' then ''Repetitive workflow''
      else if t = ''discoverability_gap'' then ''Discoverability gap''
      else if t = ''hard_blocker'' then ''Hard blocker''
      else if t = ''other'' then ''Other friction'' else ''Friction'')"

definition candidate_row :: "ident \<Rightarrow> time \<Rightarrow> ident \<Rightarrow> ident \<Rightarrow> string \<Rightarrow> signal_row \<Rightarrow> group_row" where
  "candidate_row gid now pid env fp x =
     (diagnostic_row now gid pid (incident_fingerprint env fp) env (signal_descriptor x))
       \<lparr>gr_title := signal_title (sig_type x) @ '' on '' @ sig_page x, gr_unchecked := False\<rparr>"

definition ensure_candidate :: "(nat \<Rightarrow> ident) \<Rightarrow> time \<Rightarrow> bucket_tuple \<Rightarrow> signal_row \<Rightarrow> db \<Rightarrow> ident \<times> db" where
  "ensure_candidate uuid now t x s =
     (case find (same_fingerprint (bt_project t) (incident_fingerprint (bt_environment t) (bt_fingerprint t))) (issues s) of
        Some g \<Rightarrow> (gr_id g, s)
      | None \<Rightarrow>
          (uuid (uuids s), s\<lparr>issues := issues s @
             [candidate_row (uuid (uuids s)) now (bt_project t) (bt_environment t) (bt_fingerprint t) x],
             uuids := Suc (uuids s)\<rparr>))"

end
