(* ===== verification/PromotionRun.thy ===== *)
theory PromotionRun
  imports Promotion
begin

text \<open>
  The transactions that give a verdict its visible outcome (\<open>friction/promotion-db.ts\<close>) and the
  promotion of narrative observations (\<open>friction/promotion.ts\<close>).
\<close>

section \<open>Attaching and representing\<close>

definition attach_evidence_rows :: "ident \<Rightarrow> ident \<Rightarrow> nat \<Rightarrow> ident \<Rightarrow> db \<Rightarrow> nat \<times> db" where
  "attach_evidence_rows gen pid rule gid s =
     (let hit = (\<lambda>x. list_ex (\<lambda>e. ge_generation e = gen \<and> ge_signal e = sig_id x \<and> ge_project e = pid) (generation_evidence s)
            \<and> sig_project x = pid \<and> sig_rule_version x = rule \<and> sig_incident x = None
            \<and> sig_adjudication x \<noteq> AdjUnchecked \<and> live_signal x)
      in (count_where hit (signals s),
          s\<lparr>signals := update_where hit (\<lambda>x. x\<lparr>sig_incident := Some gid\<rparr>) (signals s)\<rparr>))"

definition attach_generation_evidence_to_incident :: "ident \<Rightarrow> ident \<Rightarrow> ident \<Rightarrow> nat \<Rightarrow> nat tx" where
  "attach_generation_evidence_to_incident gen pid gid rule =
     andthen (transact (attach_evidence_rows gen pid rule gid)) (\<lambda>n.
     andthen (recompute_incident_impact gid pid) (\<lambda>_. pure n))"

definition pin_incident_sessions :: "ident \<Rightarrow> ident \<Rightarrow> db \<Rightarrow> db" where
  "pin_incident_sessions pid gid s =
     s\<lparr>sessions := update_where (\<lambda>r. ss_project r = pid
         \<and> list_ex (\<lambda>x. sig_session x = ss_id r \<and> sig_incident x = Some gid \<and> live_signal x) (signals s))
       pin_session (sessions s)\<rparr>"

text \<open>ORDER BY occurrence_count DESC, occurred_at ASC, id ASC.\<close>

definition more_typical :: "signal_row \<Rightarrow> signal_row \<Rightarrow> bool" where
  "more_typical a b =
     (sig_occurrences b < sig_occurrences a
      \<or> (sig_occurrences a = sig_occurrences b
         \<and> (sig_occurred_at a < sig_occurred_at b
            \<or> (sig_occurred_at a = sig_occurred_at b \<and> str_le (sig_id a) (sig_id b)))))"

definition typical_signal :: "(signal_row \<Rightarrow> bool) \<Rightarrow> ident \<Rightarrow> db \<Rightarrow> signal_row option" where
  "typical_signal p gid s =
     pick_min more_typical (filter (\<lambda>x. sig_incident x = Some gid \<and> sig_adjudication x = AdjAccepted \<and> p x \<and> live_signal x)
       (signals s))"

definition queue_row :: "ident \<Rightarrow> signal_row option \<Rightarrow> group_row \<Rightarrow> group_row" where
  "queue_row env rep g =
     g\<lparr>gr_status := GQueued, gr_environment := Some env, gr_representative_signal := map_option sig_id rep,
       gr_representative_session := map_option sig_session rep\<rparr>"

definition investigation_job :: "ident \<Rightarrow> time \<Rightarrow> ident \<Rightarrow> ident \<Rightarrow> job_row" where
  "investigation_job jid now pid gid =
     new_job jid now Investigate pid (no_options\<lparr>eo_group := Some gid, eo_triggered_by := Some Auto\<rparr>)"

definition insert_investigation :: "(nat \<Rightarrow> ident) \<Rightarrow> time \<Rightarrow> ident \<Rightarrow> ident \<Rightarrow> db \<Rightarrow> db" where
  "insert_investigation uuid now pid gid s =
     s\<lparr>jobs := jobs s @ [investigation_job (uuid (uuids s)) now pid gid], uuids := Suc (uuids s)\<rparr>"

section \<open>The outcome of a bucket\<close>

datatype bucket_outcome = Promoted | Updated | BucketRejected | BucketNoop

definition owned :: "bucket_tuple \<Rightarrow> ident \<Rightarrow> ident \<Rightarrow> signal_row \<Rightarrow> bool" where
  "owned t jid gen x =
     (in_bucket t x \<and> sig_end_user x \<noteq> None \<and> live_signal x
      \<and> (sig_adjudication x = AdjPending \<and> sig_adjudication_job x = Some jid
         \<or> sig_adjudication x = AdjAccepted \<and> sig_generation x = Some gen \<and> sig_incident x = None))"

definition owned_signals :: "bucket_tuple \<Rightarrow> ident \<Rightarrow> ident \<Rightarrow> db \<Rightarrow> signal_row list" where
  "owned_signals t jid gen s =
     sort_by (\<lambda>a b. sig_occurred_at a \<le> sig_occurred_at b) (filter (owned t jid gen) (signals s))"

definition vanished_row :: "time \<Rightarrow> fold_meta \<Rightarrow> generation_row \<Rightarrow> generation_row" where
  "vanished_row now m g =
     g\<lparr>gen_status := GenRejected, gen_reason := Some ''evidence disappeared before the outcome applied'',
       gen_model := Some (fm_model m), gen_adjudicated_at := Some now, gen_finished_at := Some now\<rparr>"

definition ruled_row :: "time \<Rightarrow> ruling \<Rightarrow> fold_meta \<Rightarrow> generation_row \<Rightarrow> generation_row" where
  "ruled_row now v m g =
     g\<lparr>gen_status := (if ru_accepted v then GenAccepted else GenRejected), gen_reason := Some (ru_reason v),
       gen_model := Some (fm_model m), gen_adjudicated_at := Some now,
       gen_valid_until := (if ru_accepted v then Some (now + week_ms) else None), gen_finished_at := Some now\<rparr>"

definition on_generation :: "ident \<Rightarrow> (generation_row \<Rightarrow> generation_row) \<Rightarrow> db \<Rightarrow> db" where
  "on_generation gen f s = s\<lparr>generations := update_where (\<lambda>g. gen_id g = gen) f (generations s)\<rparr>"

definition on_signals :: "ident list \<Rightarrow> (signal_row \<Rightarrow> signal_row) \<Rightarrow> db \<Rightarrow> db" where
  "on_signals ids f s = s\<lparr>signals := update_where (\<lambda>x. sig_id x \<in> set ids) f (signals s)\<rparr>"

definition on_issue :: "ident \<Rightarrow> (group_row \<Rightarrow> group_row) \<Rightarrow> db \<Rightarrow> db" where
  "on_issue gid f s = s\<lparr>issues := update_where (\<lambda>g. gr_id g = gid) f (issues s)\<rparr>"

definition is_candidate :: "ident \<Rightarrow> db \<Rightarrow> bool" where
  "is_candidate gid s = (case find (\<lambda>g. gr_id g = gid) (issues s) of None \<Rightarrow> False | Some g \<Rightarrow> gr_status g = GCandidate)"

definition persist_ruling ::
  "time \<Rightarrow> ident \<Rightarrow> ruling \<Rightarrow> fold_meta \<Rightarrow> bool \<Rightarrow> ident list \<Rightarrow> db \<Rightarrow> db" where
  "persist_ruling now gen v m resume ids s =
     on_signals ids (\<lambda>x. (rule_signal now ''bucket'' v m x)\<lparr>sig_generation := Some gen\<rparr>)
       (if resume then s else on_generation gen (ruled_row now v m) s)"

definition accept_bucket ::
  "(nat \<Rightarrow> ident) \<Rightarrow> time \<Rightarrow> bucket_tuple \<Rightarrow> ident \<Rightarrow> nat \<Rightarrow> signal_row list \<Rightarrow> bucket_outcome tx" where
  "accept_bucket uuid now t gen n own =
     andthen (transact (ensure_candidate uuid now t (hd own))) (\<lambda>gid.
     andthen (reads (is_candidate gid)) (\<lambda>fresh.
     andthen (modify (on_signals (map sig_id own) (\<lambda>x. x\<lparr>sig_incident := Some gid\<rparr>))) (\<lambda>_.
     andthen (transact (attach_evidence_rows gen (bt_project t) (bt_rule t) gid)) (\<lambda>_.
     andthen (recompute_incident_impact gid (bt_project t)) (\<lambda>_.
     andthen (modify (pin_incident_sessions (bt_project t) gid)) (\<lambda>_.
     andthen (if \<not> fresh then pure ()
        else andthen (reads (typical_signal (\<lambda>_. True) gid)) (\<lambda>rep.
             andthen (modify (on_issue gid (queue_row (bt_environment t) rep))) (\<lambda>_.
               modify (insert_investigation uuid now (bt_project t) gid)))) (\<lambda>_.
     andthen (modify (on_generation gen (\<lambda>g. g\<lparr>gen_promoted := Some gid\<rparr>))) (\<lambda>_.
     andthen (modify (write_bucket_state now t n (Some gen))) (\<lambda>_.
       pure (if fresh then Promoted else Updated))))))))))"

definition apply_bucket_outcome ::
  "(nat \<Rightarrow> ident) \<Rightarrow> time \<Rightarrow> bucket_tuple \<Rightarrow> ident \<Rightarrow> ruling \<Rightarrow> nat \<Rightarrow> fold_meta \<Rightarrow> bucket_outcome tx" where
  "apply_bucket_outcome uuid now t gen v n m =
     andthen (reads (\<lambda>s. find (\<lambda>g. gen_id g = gen \<and> gen_project g = bt_project t) (generations s))) (\<lambda>found.
       case found of
         None \<Rightarrow> pure BucketNoop
       | Some g \<Rightarrow>
           if gen_status g = GenRejected \<or> gen_status g = GenUnchecked then pure BucketNoop
           else andthen (reads (owned_signals t (case gen_claim_job g of None \<Rightarrow> fm_job m | Some j \<Rightarrow> j) gen)) (\<lambda>own.
             if own = []
             then andthen (modify (if gen_status g = GenAccepted then id else on_generation gen (vanished_row now m)))
                    (\<lambda>_. pure BucketNoop)
             else andthen (modify (persist_ruling now gen v m (gen_status g = GenAccepted) (map sig_id own))) (\<lambda>_.
               if \<not> ru_accepted v
               then andthen (modify (write_bucket_state now t n (Some gen))) (\<lambda>_. pure BucketRejected)
               else accept_bucket uuid now t gen n own)))"

text \<open>A later signal under an accepted generation.\<close>

definition inherit_row :: "time \<Rightarrow> generation_row \<Rightarrow> signal_row \<Rightarrow> signal_row" where
  "inherit_row now g x =
     x\<lparr>sig_adjudication := AdjAccepted, sig_scope := Some ''bucket'', sig_generation := Some (gen_id g),
       sig_adjudicated_at := Some now, sig_model := gen_model g, sig_prompt_version := Some (gen_prompt_version g),
       sig_reason := Some ''inherited from accepted generation''\<rparr>"

definition attach_inherited_signal :: "time \<Rightarrow> fold_signal \<Rightarrow> generation_row \<Rightarrow> db \<Rightarrow> fold_outcome \<times> db" where
  "attach_inherited_signal now f g s =
     (case truthy_str (gen_promoted g) of
        None \<Rightarrow> (FoldNoop, s)
      | Some gid \<Rightarrow>
          (case find (\<lambda>x. sig_id x = fs_id f \<and> live_signal x) (signals s) of
             None \<Rightarrow> (FoldNoop, s)
           | Some x \<Rightarrow>
               if sig_incident x \<noteq> None \<or> sig_adjudication x \<noteq> AdjPending then (FoldNoop, s)
               else (Attached, attach_signal_incrementally f gid
                 (s\<lparr>signals := update_where (\<lambda>y. sig_id y = fs_id f) (inherit_row now g) (signals s)\<rparr>))))"

section \<open>Promotion of observations\<close>

definition promotion_threshold_sessions :: nat where "promotion_threshold_sessions = 3"

definition promotion_threshold_identified_users :: nat where "promotion_threshold_identified_users = 2"

definition narrative_rule_version :: nat where "narrative_rule_version = 7"

definition has_promotion_support :: "support \<Rightarrow> bool" where
  "has_promotion_support u =
     (promotion_threshold_sessions \<le> su_sessions u \<or> promotion_threshold_identified_users \<le> su_users u)"

definition newest :: "signal_row \<Rightarrow> signal_row \<Rightarrow> bool" where
  "newest a b =
     (sig_occurred_at b < sig_occurred_at a \<or> (sig_occurred_at a = sig_occurred_at b \<and> str_le (sig_id b) (sig_id a)))"

definition narrated :: "signal_row \<Rightarrow> bool" where
  "narrated x = (sig_observation x \<noteq> None)"

definition narrative_bucket :: "ident \<Rightarrow> ident \<Rightarrow> string \<Rightarrow> bucket_tuple" where
  "narrative_bucket pid env fp =
     \<lparr>bt_project = pid, bt_environment = env, bt_fingerprint = fp, bt_rule = narrative_rule_version, bt_prompt = 1\<rparr>"

definition accepted_in :: "bucket_tuple \<Rightarrow> signal_row \<Rightarrow> bool" where
  "accepted_in t x =
     (in_bucket t x \<and> sig_rule_version x = bt_rule t \<and> sig_adjudication x = AdjAccepted \<and> live_signal x)"

definition describing_signal :: "bucket_tuple \<Rightarrow> db \<Rightarrow> signal_row option" where
  "describing_signal t s = pick_min newest (filter (\<lambda>x. accepted_in t x \<and> narrated x) (signals s))"

definition attach_bucket :: "bucket_tuple \<Rightarrow> ident \<Rightarrow> db \<Rightarrow> db" where
  "attach_bucket t gid s =
     s\<lparr>signals := update_where (\<lambda>x. accepted_in t x \<and> sig_type x \<noteq> ''other'' \<and> sig_incident x = None)
         (\<lambda>x. x\<lparr>sig_incident := Some gid\<rparr>) (signals s)\<rparr>"

definition queue_candidate :: "ident \<Rightarrow> ident \<Rightarrow> signal_row option \<Rightarrow> db \<Rightarrow> db" where
  "queue_candidate gid env rep s =
     s\<lparr>issues := update_where (\<lambda>g. gr_id g = gid \<and> gr_status g = GCandidate) (queue_row env rep) (issues s)\<rparr>"

definition investigate_once :: "(nat \<Rightarrow> ident) \<Rightarrow> time \<Rightarrow> ident \<Rightarrow> ident \<Rightarrow> db \<Rightarrow> db" where
  "investigate_once uuid now pid gid s =
     (if list_ex (\<lambda>j. job_group j = Some gid \<and> job_project j = pid \<and> job_type j = Investigate
           \<and> (job_status j = Pending \<or> job_status j = Claimed)) (jobs s)
      then s else insert_investigation uuid now pid gid s)"

definition promote_bucket :: "(nat \<Rightarrow> ident) \<Rightarrow> time \<Rightarrow> bucket_tuple \<Rightarrow> unit tx" where
  "promote_bucket uuid now t =
     andthen (reads (describing_signal t)) (\<lambda>found.
       case found of
         None \<Rightarrow> pure ()
       | Some d \<Rightarrow>
           if sig_type d = ''other'' then pure ()
           else andthen (transact (ensure_candidate uuid now t d)) (\<lambda>gid.
             andthen (reads (count_eligible_support now t)) (\<lambda>u.
               if \<not> has_promotion_support u then pure ()
               else andthen (reads (\<lambda>s. case find (\<lambda>g. gr_id g = gid \<and> gr_project g = bt_project t) (issues s) of
                      None \<Rightarrow> False | Some g \<Rightarrow> gr_status g = GCandidate)) (\<lambda>fresh.
                    andthen (modify (attach_bucket t gid)) (\<lambda>_.
                    andthen (recompute_incident_impact gid (bt_project t)) (\<lambda>_.
                    andthen (modify (pin_incident_sessions (bt_project t) gid)) (\<lambda>_.
                      if \<not> fresh then pure ()
                      else andthen (reads (typical_signal narrated gid)) (\<lambda>rep.
                        andthen (modify (queue_candidate gid (bt_environment t) rep)) (\<lambda>_.
                          modify (investigate_once uuid now (bt_project t) gid))))))))))"

definition run_promotion_check :: "(nat \<Rightarrow> ident) \<Rightarrow> time \<Rightarrow> ident \<Rightarrow> ident \<Rightarrow> string list \<Rightarrow> unit tx" where
  "run_promotion_check uuid now pid env fps =
     each (\<lambda>fp. promote_bucket uuid now (narrative_bucket pid env fp)) (distinct_sorted fps)"

end
