(* ===== verification/ImpactSafety.thy ===== *)
theory ImpactSafety
  imports Impact "HOL-Library.Multiset"
begin

text \<open>
  Adding a signal to the impact of an incident is the same as rebuilding the impact with it: the two
  ways of maintaining the numbers agree, up to the order of the rows of a table.
\<close>

section \<open>Rows up to their order\<close>

definition rows_for :: "ident \<Rightarrow> impact_row list \<Rightarrow> impact_row multiset" where
  "rows_for gid rows = mset (filter (\<lambda>r. im_group r = gid) rows)"

definition summary :: "ident \<Rightarrow> (source_row \<Rightarrow> ident option) \<Rightarrow> source_row multiset \<Rightarrow> ident \<Rightarrow> impact_row" where
  "summary gid key M k =
     (let N = filter_mset (\<lambda>x. key x = Some k) M
      in \<lparr>im_group = gid, im_key = k, im_first = Min (so_at ` set_mset N), im_last = Max (so_at ` set_mset N),
          im_occurrences = \<Sum>\<^sub># (image_mset so_count N)\<rparr>)"

definition keys_in :: "(source_row \<Rightarrow> ident option) \<Rightarrow> source_row multiset \<Rightarrow> ident set" where
  "keys_in key M = {k. \<exists>x \<in># M. key x = Some k}"

definition summaries :: "ident \<Rightarrow> (source_row \<Rightarrow> ident option) \<Rightarrow> source_row multiset \<Rightarrow> impact_row multiset" where
  "summaries gid key M = image_mset (summary gid key M) (mset_set (keys_in key M))"

lemma finite_keys [simp]: "finite (keys_in key M)"
proof -
  have "keys_in key M \<subseteq> (the \<circ> key) ` set_mset M" by (force simp: keys_in_def)
  then show ?thesis by (rule finite_subset) simp
qed

lemma total_mset: "total_of xs = \<Sum>\<^sub># (image_mset so_count (mset xs))"
  by (simp add: total_of_def sum_mset_sum_list flip: mset_map)

lemma aggregate_summaries: "mset (aggregate gid key xs) = summaries gid key (mset xs)"
proof -
  have keys: "set (List.map_filter key xs) = keys_in key (mset xs)"
    by (force simp: map_filter_def keys_in_def)
  have row: "(let ys = filter (\<lambda>x. key x = Some k) xs in \<lparr>im_group = gid, im_key = k, im_first = first_of ys,
      im_last = last_of ys, im_occurrences = total_of ys\<rparr>) = summary gid key (mset xs) k" for k
    by (simp add: summary_def Let_def first_of_def last_of_def total_mset flip: mset_filter)
  have "mset (dedup (List.map_filter key xs)) = mset_set (keys_in key (mset xs))"
    by (metis distinct_dedup keys mset_set_set set_dedup)
  then show ?thesis
    unfolding aggregate_def summaries_def row mset_map by simp
qed

lemma aggregate_group: "filter (\<lambda>r. im_group r = gid) (aggregate gid key xs) = aggregate gid key xs"
  by (simp add: aggregate_def filter_id_conv Let_def)

lemma rows_for_rebuilt: "rows_for gid (other_groups gid rows @ aggregate gid key xs) = summaries gid key (mset xs)"
  by (simp add: rows_for_def other_groups_def aggregate_group aggregate_summaries)

text \<open>One more source without a key changes no summary, and one with a key widens its summary.\<close>

lemma summary_other: "key x \<noteq> Some k \<Longrightarrow> summary gid key (add_mset x M) k = summary gid key M k"
  by (simp add: summary_def)

lemma summaries_without: "key x = None \<Longrightarrow> summaries gid key (add_mset x M) = summaries gid key M"
proof -
  assume x: "key x = None"
  then have keys: "keys_in key (add_mset x M) = keys_in key M" by (auto simp: keys_in_def)
  show ?thesis unfolding summaries_def keys by (rule image_mset_cong) (simp add: x summary_other)
qed

lemma summary_grown:
  assumes "key x = Some k" "k \<in> keys_in key M"
  shows "summary gid key (add_mset x M) k = widen (so_at x) (so_count x) (summary gid key M k)"
proof -
  let ?N = "filter_mset (\<lambda>y. key y = Some k) M"
  have "so_at ` set_mset ?N \<noteq> {}" using assms(2) by (auto simp: keys_in_def)
  with assms(1) show ?thesis
    by (simp add: summary_def widen_def min.commute max.commute add.commute)
qed

lemma summary_fresh:
  assumes "key x = Some k" "k \<notin> keys_in key M"
  shows "summary gid key (add_mset x M) k = new_impact gid k (so_at x) (so_count x)"
proof -
  have "set_mset (filter_mset (\<lambda>y. key y = Some k) M) = {}" using assms(2) by (auto simp: keys_in_def)
  then have "filter_mset (\<lambda>y. key y = Some k) M = {#}" by (simp only: set_mset_eq_empty_iff)
  then have one: "filter_mset (\<lambda>y. key y = Some k) (add_mset x M) = {#x#}" using assms(1) by simp
  show ?thesis unfolding summary_def Let_def one by (simp add: new_impact_def)
qed

lemma rows_for_added:
  assumes rows: "rows_for gid rows = summaries gid key M" and x: "key x = Some k"
  shows "rows_for gid (add_impact gid k (so_at x) (so_count x) rows) = summaries gid key (add_mset x M)"
proof -
  let ?K = "keys_in key M"
  have keys: "keys_in key (add_mset x M) = insert k ?K" using x by (auto simp: keys_in_def)
  have has: "list_ex (at_key gid k) rows \<longleftrightarrow> k \<in> ?K"
  proof -
    have "list_ex (at_key gid k) rows \<longleftrightarrow> (\<exists>r \<in># rows_for gid rows. im_key r = k)"
      by (auto simp: rows_for_def list_ex_iff at_key_def)
    also have "\<dots> \<longleftrightarrow> k \<in> ?K" unfolding rows summaries_def by (auto simp: summary_def Let_def)
    finally show ?thesis .
  qed
  have key_of: "im_key (summary gid key M j) = j" for j by (simp add: summary_def Let_def)
  show ?thesis
  proof (cases "k \<in> ?K")
    case True
    let ?w = "\<lambda>r. if im_key r = k then widen (so_at x) (so_count x) r else r"
    have "filter (\<lambda>r. im_group r = gid) (update_where (at_key gid k) (widen (so_at x) (so_count x)) rows)
        = map ?w (filter (\<lambda>r. im_group r = gid) rows)"
      by (induction rows) (auto simp: at_key_def widen_def)
    then have "rows_for gid (add_impact gid k (so_at x) (so_count x) rows) = image_mset ?w (rows_for gid rows)"
      using has True by (simp add: add_impact_def upsert_def rows_for_def)
    also have "\<dots> = image_mset (\<lambda>j. ?w (summary gid key M j)) (mset_set ?K)"
      by (simp add: rows summaries_def image_mset.compositionality comp_def)
    also have "\<dots> = image_mset (summary gid key (add_mset x M)) (mset_set ?K)"
      by (rule image_mset_cong) (use True x in \<open>auto simp: key_of summary_grown summary_other\<close>)
    finally show ?thesis using True by (simp add: summaries_def keys insert_absorb)
  next
    case False
    then have "rows_for gid (add_impact gid k (so_at x) (so_count x) rows)
        = add_mset (new_impact gid k (so_at x) (so_count x)) (summaries gid key M)"
      using has by (simp add: add_impact_def upsert_def rows_for_def new_impact_def flip: rows)
    moreover have "summaries gid key M = image_mset (summary gid key (add_mset x M)) (mset_set ?K)"
      unfolding summaries_def
    proof (rule image_mset_cong)
      fix j assume "j \<in># mset_set ?K"
      with False x have "key x \<noteq> Some j" by auto
      then show "summary gid key M j = summary gid key (add_mset x M) j" by (simp add: summary_other)
    qed
    ultimately show ?thesis
      using False x by (simp add: summaries_def keys summary_fresh)
  qed
qed

section \<open>The stored impact of an incident\<close>

text \<open>
  The impact that is stored agrees with the sources of the incident: the numbers of its row, its
  affected users, and, for an incident of errors, its environments.
\<close>

definition impact_exact :: "ident \<Rightarrow> ident \<Rightarrow> db \<Rightarrow> bool" where
  "impact_exact gid pid s =
     (let xs = sources gid pid s
      in rows_for gid (affected_users s) = mset (aggregate gid so_user xs)
         \<and> rows_for gid (group_environments s)
             = (if list_ex (\<lambda>g. gr_id g = gid \<and> gr_project g = pid \<and> gr_is_error g) (issues s)
                then mset (aggregate gid (Some \<circ> so_environment) xs) else {#})
         \<and> list_all (\<lambda>g. gr_id g = gid \<longrightarrow> gr_project g = pid
              \<and> gr_occurrences g = total_of xs \<and> gr_affected_users g = length (aggregate gid so_user xs)
              \<and> gr_first_seen g = first_of xs \<and> gr_last_seen g = last_of xs) (issues s))"

definition fold_signal_of :: "signal_row \<Rightarrow> fold_signal" where
  "fold_signal_of x =
     \<lparr>fs_id = sig_id x, fs_project = sig_project x, fs_environment = sig_environment x, fs_end_user = sig_end_user x,
      fs_session = sig_session x, fs_fingerprint = sig_fingerprint x, fs_occurred_at = sig_occurred_at x\<rparr>"

lemma attached_sources:
  assumes x: "x \<in> set (signals s)" "distinct (map sig_id (signals s))" "live_signal x" "sig_incident x = None" "sig_project x = pid"
    and s': "signals s' = signals (attach_to (fold_signal_of x) gid s)" "error_events s' = error_events s"
  shows "mset (sources gid pid s') = add_mset (signal_source x) (mset (sources gid pid s))"
proof -
  obtain as bs where split: "signals s = as @ x # bs" using x(1) by (meson split_list)
  have "sig_id x \<notin> sig_id ` (set as \<union> set bs)" using x(2) by (auto simp: split)
  then have others: "\<forall>y \<in> set as \<union> set bs. sig_id y \<noteq> sig_id x" by (metis image_eqI)
  have same: "update_where (\<lambda>y. sig_id y = sig_id x) f ys = ys" if "\<forall>y \<in> set ys. sig_id y \<noteq> sig_id x" for f ys
    using that by (intro update_where_no_match) (auto simp: list_ex_iff)
  have "signals s' = as @ (x\<lparr>sig_incident := Some gid\<rparr>) # bs"
    unfolding s'(1) attach_to_def using same [of as] same [of bs] others
    by (simp add: split fold_signal_of_def update_where_def)
  moreover have "signal_source (x\<lparr>sig_incident := Some gid\<rparr>) = signal_source x" by (simp add: signal_source_def)
  moreover have "of_incident gid pid (x\<lparr>sig_incident := Some gid\<rparr>)" "\<not> of_incident gid pid x"
    using x by (simp_all add: of_incident_def live_signal_def)
  ultimately show ?thesis using s'(2) by (simp add: sources_def split)
qed

lemma attach_fields:
  "signals (attach_signal_incrementally f gid s) = signals (attach_to f gid s)"
  "error_events (attach_signal_incrementally f gid s) = error_events s"
  by (simp_all add: attach_signal_incrementally_def pin_evidence_def grow_users_def grow_environments_def grow_groups_def
      attach_to_def Let_def split: option.split)

lemma occurrences_fields [simp]:
  "occurrences_of k (s\<lparr>issues := a\<rparr>) = occurrences_of k s"
  "occurrences_of k (s\<lparr>group_environments := b\<rparr>) = occurrences_of k s"
  by (simp_all add: occurrences_of_def)

lemma attach_to_frame [simp]:
  "issues (attach_to f gid s) = issues s" "affected_users (attach_to f gid s) = affected_users s"
  "group_environments (attach_to f gid s) = group_environments s"
  by (simp_all add: attach_to_def)

lemma attached_occurrences:
  assumes "x \<in> set (signals s)" "distinct (map sig_id (signals s))"
  shows "occurrences_of (sig_id x) (attach_to f gid s) = sig_occurrences x"
proof -
  have "find (\<lambda>y. sig_id y = sig_id x) (update_where (\<lambda>y. sig_id y = fs_id f) (\<lambda>y. y\<lparr>sig_incident := Some gid\<rparr>) ys)
      = Some (if sig_id x = fs_id f then x\<lparr>sig_incident := Some gid\<rparr> else x)"
    if "x \<in> set ys" "distinct (map sig_id ys)" for ys
    using that by (induction ys) (auto simp: update_where_def image_iff)
  from this [OF assms] show ?thesis by (simp add: occurrences_of_def attach_to_def)
qed

lemma sources_extremes:
  assumes "mset xs' = add_mset x (mset xs)" "xs \<noteq> []"
  shows "total_of xs' = total_of xs + so_count x" "first_of xs' = min (first_of xs) (so_at x)"
    "last_of xs' = max (last_of xs) (so_at x)"
proof -
  have set: "set (map so_at xs') = insert (so_at x) (set (map so_at xs))"
    using arg_cong [OF assms(1), of set_mset] by simp
  show "total_of xs' = total_of xs + so_count x" by (simp add: total_mset assms(1))
  show "first_of xs' = min (first_of xs) (so_at x)"
    unfolding first_of_def set using assms(2) by (simp add: min.commute)
  show "last_of xs' = max (last_of xs) (so_at x)"
    unfolding last_of_def set using assms(2) by (simp add: max.commute)
qed

lemma length_aggregate: "length (aggregate gid key xs) = size (summaries gid key (mset xs))"
  by (simp flip: aggregate_summaries)

lemma count_rows_for: "count_where (\<lambda>r. im_group r = gid) rows = size (rows_for gid rows)"
  by (simp only: count_where_def rows_for_def size_mset)

lemma incremental_keeps_exact:
  assumes exact: "impact_exact gid pid s" and some: "sources gid pid s \<noteq> []"
    and x: "x \<in> set (signals s)" "distinct (map sig_id (signals s))" "live_signal x" "sig_incident x = None" "sig_project x = pid"
    and named: "sig_end_user x \<noteq> Some []"
  shows "impact_exact gid pid (attach_signal_incrementally (fold_signal_of x) gid s)"
proof -
  let ?f = "fold_signal_of x" and ?y = "signal_source x" and ?n = "sig_occurrences x" and ?t = "sig_occurred_at x"
  let ?s1 = "attach_to ?f gid s" and ?s' = "attach_signal_incrementally ?f gid s"
  have src: "mset (sources gid pid ?s') = add_mset ?y (mset (sources gid pid s))"
    using x by (rule attached_sources) (simp_all only: attach_fields)
  have n: "occurrences_of (fs_id ?f) ?s1 = ?n"
    using attached_occurrences [OF x(1,2), of ?f gid] by (simp add: fold_signal_of_def)
  have here: "list_ex (\<lambda>y. sig_id y = fs_id ?f) (signals ?s1)"
    using x(1) by (auto simp: list_ex_iff attach_to_def fold_signal_of_def update_where_def
        intro!: bexI [of _ "x\<lparr>sig_incident := Some gid\<rparr>"])
  let ?users = "case sig_end_user x of None \<Rightarrow> affected_users s | Some u \<Rightarrow> add_impact gid u ?t ?n (affected_users s)"
  let ?err = "\<lambda>s. list_ex (\<lambda>g. gr_id g = gid \<and> gr_project g = pid \<and> gr_is_error g) (issues s)"
  let ?grown = "\<lambda>g. (case sig_end_user x of None \<Rightarrow> grow_incident ?t ?n g
      | Some u \<Rightarrow> count_users gid ?users (grow_incident ?t ?n g))"
  have f: "fs_id ?f = sig_id x" "fs_project ?f = pid" "fs_environment ?f = sig_environment x"
      "fs_end_user ?f = sig_end_user x" "fs_occurred_at ?f = ?t"
    using x(5) by (simp_all add: fold_signal_of_def)
  have occ: "occurrences_of (sig_id x) ?s1 = ?n" and seen: "list_ex (\<lambda>y. sig_id y = sig_id x) (signals ?s1)"
    using n here by (simp_all only: f)
  have err: "list_ex (\<lambda>g. gr_id g = gid \<and> gr_project g = pid \<and> gr_is_error g)
      (update_where (\<lambda>g. gr_id g = gid) (grow_incident ?t ?n) gs)
     = list_ex (\<lambda>g. gr_id g = gid \<and> gr_project g = pid \<and> gr_is_error g) gs" for gs
    by (rule list_ex_update_where) (simp add: grow_incident_def)
  note steps = attach_signal_incrementally_def pin_evidence_def grow_users_def Let_def truthy_str_def
    grow_environments_def grow_groups_def f
  have users: "affected_users ?s' = ?users"
    using named occ by (simp add: steps split: option.split)
  have envs: "group_environments ?s' = (if ?err s then add_impact gid (sig_environment x) ?t ?n (group_environments s)
         else group_environments s)"
    using occ seen err by (simp add: steps split: option.split)
  have twice: "update_where (\<lambda>g. gr_id g = gid) h (update_where (\<lambda>g. gr_id g = gid) (grow_incident ?t ?n) gs)
      = update_where (\<lambda>g. gr_id g = gid) (\<lambda>g. h (grow_incident ?t ?n g)) gs" for h gs
    by (induction gs) (simp_all add: grow_incident_def)
  have rows: "issues ?s' = update_where (\<lambda>g. gr_id g = gid) ?grown (issues s)"
    using named occ by (simp add: steps twice split: option.split)
  have same: "?err ?s' = ?err s"
    unfolding rows by (rule list_ex_update_where) (simp add: grow_incident_def count_users_def split: option.split)
  let ?M = "mset (sources gid pid s)"
  have old: "rows_for gid (affected_users s) = summaries gid so_user ?M"
      "?err s \<Longrightarrow> rows_for gid (group_environments s) = summaries gid (Some \<circ> so_environment) ?M"
      "\<not> ?err s \<Longrightarrow> rows_for gid (group_environments s) = {#}"
    using exact by (simp_all add: impact_exact_def Let_def aggregate_summaries)
  have y: "so_user ?y = sig_end_user x" "so_at ?y = ?t" "so_count ?y = ?n" "so_environment ?y = sig_environment x"
    by (simp_all add: signal_source_def)
  have new_users: "rows_for gid ?users = summaries gid so_user (add_mset ?y ?M)"
  proof (cases "sig_end_user x")
    case None
    then show ?thesis using old(1) summaries_without [of so_user ?y gid ?M] y(1) by simp
  next
    case (Some u)
    then show ?thesis using rows_for_added [OF old(1), of ?y u] y by simp
  qed
  have new_envs: "rows_for gid (group_environments ?s')
      = (if ?err s then summaries gid (Some \<circ> so_environment) (add_mset ?y ?M) else {#})"
    using old(3) rows_for_added [OF old(2), of ?y "sig_environment x"] y by (simp add: envs)
  have count: "length (aggregate gid so_user (sources gid pid ?s')) = size (rows_for gid ?users)"
    by (simp only: length_aggregate src new_users)
  have new_rows: "gr_project h = pid \<and> gr_occurrences h = total_of (sources gid pid ?s')
      \<and> gr_affected_users h = length (aggregate gid so_user (sources gid pid ?s'))
      \<and> gr_first_seen h = first_of (sources gid pid ?s') \<and> gr_last_seen h = last_of (sources gid pid ?s')"
    if h: "h \<in> set (issues ?s')" "gr_id h = gid" for h
  proof -
    have keep: "gr_id (?grown g) = gr_id g" for g
      by (simp add: grow_incident_def count_users_def split: option.split)
    with h obtain g where g: "g \<in> set (issues s)" "gr_id g = gid" "h = ?grown g"
      by (auto simp: rows update_where_def split: if_splits)
    have was: "gr_project g = pid" "gr_occurrences g = total_of (sources gid pid s)"
        "gr_affected_users g = size (rows_for gid (affected_users s))"
        "gr_first_seen g = first_of (sources gid pid s)" "gr_last_seen g = last_of (sources gid pid s)"
      using exact g(1,2) by (auto simp: impact_exact_def Let_def list_all_iff)
    note grew = sources_extremes [OF src some, unfolded y]
    have "gr_affected_users h = size (rows_for gid ?users)"
      using was(3) by (simp add: g(3) grow_incident_def count_users_def count_rows_for split: option.split)
    moreover have "gr_project h = pid" "gr_occurrences h = total_of (sources gid pid s) + ?n"
        "gr_first_seen h = min (first_of (sources gid pid s)) ?t" "gr_last_seen h = max (last_of (sources gid pid s)) ?t"
      using was by (simp_all add: g(3) grow_incident_def count_users_def split: option.split)
    ultimately show ?thesis by (simp only: grew count simp_thms)
  qed
  show ?thesis
    unfolding impact_exact_def Let_def aggregate_summaries src same users new_users new_envs
    using new_rows by (auto simp: list_all_iff)
qed

section \<open>Rebuilding\<close>

definition rebuilt :: "ident \<Rightarrow> ident \<Rightarrow> db \<Rightarrow> db" where
  "rebuilt gid pid s = rebuild_users gid pid (rebuild_group gid pid (rebuild_environments gid pid s))"

lemma recompute_Inr:
  "recompute_incident_impact gid pid s = (Inr u, t) \<Longrightarrow>
   list_ex (\<lambda>g. gr_id g = gid \<and> gr_project g = pid) (issues s) \<and> t = rebuilt gid pid s"
  by (auto simp: recompute_incident_impact_def rebuilt_def andthen_def reads_def throw_def modify_def split: if_splits)

lemma sources_fields [simp]:
  "sources gid pid (s\<lparr>issues := a\<rparr>) = sources gid pid s"
  "sources gid pid (s\<lparr>group_environments := b\<rparr>) = sources gid pid s"
  by (simp_all add: sources_def)

lemma rebuilt_fields:
  "signals (rebuilt gid pid s) = signals s" "error_events (rebuilt gid pid s) = error_events s"
  "sources gid pid (rebuilt gid pid s) = sources gid pid s"
  "affected_users (rebuilt gid pid s) = other_groups gid (affected_users s) @ aggregate gid so_user (sources gid pid s)"
  "group_environments (rebuilt gid pid s) = other_groups gid (group_environments s)
     @ (if list_ex (\<lambda>g. gr_id g = gid \<and> gr_project g = pid \<and> gr_is_error g) (issues s)
        then aggregate gid (Some \<circ> so_environment) (sources gid pid s) else [])"
  by (simp_all add: rebuilt_def rebuild_users_def rebuild_group_def rebuild_environments_def Let_def sources_def)

definition rebuilt_row :: "ident \<Rightarrow> ident \<Rightarrow> db \<Rightarrow> group_row \<Rightarrow> group_row" where
  "rebuilt_row gid pid s g =
     (rebuild_incident (sources gid pid s) g)\<lparr>gr_affected_users := length (aggregate gid so_user (sources gid pid s))\<rparr>"

lemma rebuilt_issues:
  "issues (rebuilt gid pid s) = update_where (\<lambda>g. gr_id g = gid \<and> gr_project g = pid) (rebuilt_row gid pid s) (issues s)"
proof -
  have users: "count_where (\<lambda>r. im_group r = gid) (other_groups gid rows @ aggregate gid key xs) = length (aggregate gid key xs)"
    for rows key xs
    by (simp add: count_where_def other_groups_def aggregate_group)
  have twice: "update_where p f (update_where p g gs) = update_where p (\<lambda>x. f (g x)) gs" if "\<And>x. p (g x) = p x"
    for p f g and gs :: "group_row list"
    using that by (induction gs) simp_all
  have "issues (rebuilt gid pid s) = update_where (\<lambda>g. gr_id g = gid \<and> gr_project g = pid)
      (count_users gid (affected_users (rebuilt gid pid s)))
      (update_where (\<lambda>g. gr_id g = gid \<and> gr_project g = pid) (rebuild_incident (sources gid pid s)) (issues s))"
    unfolding rebuilt_fields
    by (simp add: rebuilt_def rebuild_users_def rebuild_group_def rebuild_environments_def Let_def)
  also have "\<dots> = update_where (\<lambda>g. gr_id g = gid \<and> gr_project g = pid)
      (\<lambda>g. count_users gid (affected_users (rebuilt gid pid s)) (rebuild_incident (sources gid pid s) g)) (issues s)"
    by (rule twice) (simp add: rebuild_incident_def)
  also have "(\<lambda>g. count_users gid (affected_users (rebuilt gid pid s)) (rebuild_incident (sources gid pid s) g))
      = rebuilt_row gid pid s"
    unfolding rebuilt_fields by (simp add: fun_eq_iff count_users_def users rebuilt_row_def)
  finally show ?thesis .
qed

lemma rebuilt_exact:
  assumes own: "list_all (\<lambda>g. gr_id g = gid \<longrightarrow> gr_project g = pid) (issues s)" and some: "sources gid pid s \<noteq> []"
  shows "impact_exact gid pid (rebuilt gid pid s)"
proof -
  have err: "list_ex (\<lambda>g. gr_id g = gid \<and> gr_project g = pid \<and> gr_is_error g) (issues (rebuilt gid pid s))
      = list_ex (\<lambda>g. gr_id g = gid \<and> gr_project g = pid \<and> gr_is_error g) (issues s)"
    unfolding rebuilt_issues by (rule list_ex_update_where) (simp add: rebuilt_row_def rebuild_incident_def)
  have none: "rows_for gid (other_groups gid rows @ []) = {#}" for rows
    by (simp add: rows_for_def other_groups_def)
  have "gr_project h = pid \<and> gr_occurrences h = total_of (sources gid pid s)
      \<and> gr_affected_users h = length (aggregate gid so_user (sources gid pid s))
      \<and> gr_first_seen h = first_of (sources gid pid s) \<and> gr_last_seen h = last_of (sources gid pid s)"
    if h: "h \<in> set (issues (rebuilt gid pid s))" "gr_id h = gid" for h
  proof -
    obtain g where g: "g \<in> set (issues s)" "h = (if gr_id g = gid \<and> gr_project g = pid then rebuilt_row gid pid s g else g)"
      using h(1) by (auto simp: rebuilt_issues update_where_def)
    have "gr_id g = gid" using h(2) g(2) by (simp add: rebuilt_row_def rebuild_incident_def split: if_splits)
    with own g have "h = rebuilt_row gid pid s g" "gr_project g = pid" by (auto simp: list_all_iff)
    with some show ?thesis by (simp add: rebuilt_row_def rebuild_incident_def)
  qed
  then have "list_all (\<lambda>g. gr_id g = gid \<longrightarrow> gr_project g = pid \<and> gr_occurrences g = total_of (sources gid pid s)
      \<and> gr_affected_users g = length (aggregate gid so_user (sources gid pid s))
      \<and> gr_first_seen g = first_of (sources gid pid s) \<and> gr_last_seen g = last_of (sources gid pid s))
      (issues (rebuilt gid pid s))"
    by (simp only: list_all_iff) blast
  moreover have "rows_for gid (other_groups gid (affected_users s) @ aggregate gid so_user (sources gid pid s))
      = mset (aggregate gid so_user (sources gid pid s))"
    by (simp only: rows_for_rebuilt aggregate_summaries)
  moreover have "rows_for gid (other_groups gid rows @ (if b then aggregate gid key xs else []))
      = (if b then mset (aggregate gid key xs) else {#})" for b rows key xs
    by (cases b) (simp_all only: rows_for_rebuilt aggregate_summaries none if_True if_False)
  ultimately show ?thesis
    unfolding impact_exact_def Let_def rebuilt_fields(3-5) err by (intro conjI)
qed

text \<open>Rebuilding an impact that is exact changes nothing but the order of rows.\<close>

lemma rebuilt_rows: "mset (other_groups gid rows @ new) = mset rows" if "rows_for gid rows = mset new"
proof -
  have "mset (other_groups gid rows) + rows_for gid rows = mset rows"
    unfolding rows_for_def other_groups_def by (induction rows) simp_all
  with that show ?thesis by simp
qed

lemma exact_rebuilt:
  assumes exact: "impact_exact gid pid s" and some: "sources gid pid s \<noteq> []"
  shows "issues (rebuilt gid pid s) = issues s"
    "mset (affected_users (rebuilt gid pid s)) = mset (affected_users s)"
    "mset (group_environments (rebuilt gid pid s)) = mset (group_environments s)"
proof -
  have "rebuilt_row gid pid s g = g" if "g \<in> set (issues s)" "gr_id g = gid" for g
    using exact some that by (auto simp: impact_exact_def Let_def list_all_iff rebuilt_row_def rebuild_incident_def)
  then show "issues (rebuilt gid pid s) = issues s"
    unfolding rebuilt_issues by (simp add: update_where_def map_idI)
  show "mset (affected_users (rebuilt gid pid s)) = mset (affected_users s)"
    unfolding rebuilt_fields by (rule rebuilt_rows) (use exact in \<open>simp add: impact_exact_def Let_def\<close>)
  show "mset (group_environments (rebuilt gid pid s)) = mset (group_environments s)"
    unfolding rebuilt_fields by (rule rebuilt_rows) (use exact in \<open>simp add: impact_exact_def Let_def\<close>)
qed

text \<open>
  C18: Adding one signal to an incident incrementally leaves what a full rebuild leaves: after
  an incident with sources has been rebuilt and one live unattached signal has been added by
  attachSignalIncrementally, recomputeIncidentImpact changes none of the occurrences, times and
  user counts, keeps the rows per user and per environment, and has exactly one more source, the
  signal.
\<close>

theorem incremental_equals_rebuild:
  assumes "recompute_incident_impact gid pid s0 = (Inr (), s)"
    and "list_all (\<lambda>g. gr_id g \<noteq> gid \<or> gr_project g = pid) (issues s0)" "sources gid pid s0 \<noteq> []"
    and "x \<in> set (signals s0)" "distinct (map sig_id (signals s0))" "live_signal x" "sig_incident x = None"
      "sig_project x = pid" "sig_end_user x \<noteq> Some []"
    and "recompute_incident_impact gid pid (attach_signal_incrementally (fold_signal_of x) gid s) = (Inr (), t)"
  shows "issues t = issues (attach_signal_incrementally (fold_signal_of x) gid s)
    \<and> mset (affected_users t) = mset (affected_users (attach_signal_incrementally (fold_signal_of x) gid s))
    \<and> mset (group_environments t) = mset (group_environments (attach_signal_incrementally (fold_signal_of x) gid s))
    \<and> mset (sources gid pid t) = add_mset (signal_source x) (mset (sources gid pid s0))"
proof -
  let ?a = "attach_signal_incrementally (fold_signal_of x) gid s"
  have s: "s = rebuilt gid pid s0" using recompute_Inr [OF assms(1)] by simp
  have own: "list_all (\<lambda>g. gr_id g = gid \<longrightarrow> gr_project g = pid) (issues s0)"
    using assms(2) by (auto simp: list_all_iff)
  have some: "sources gid pid s \<noteq> []" using assms(3) by (simp add: s rebuilt_fields)
  have x: "x \<in> set (signals s)" "distinct (map sig_id (signals s))" using assms(4,5) by (simp_all add: s rebuilt_fields)
  have exact: "impact_exact gid pid ?a"
    using rebuilt_exact [OF own assms(3)] some x assms(6-9) unfolding s [symmetric] by (rule incremental_keeps_exact)
  have src: "mset (sources gid pid ?a) = add_mset (signal_source x) (mset (sources gid pid s))"
    using x assms(6-8) by (rule attached_sources) (simp_all only: attach_fields)
  then have "sources gid pid ?a \<noteq> []" by auto
  note same = exact_rebuilt [OF exact this]
  have t: "t = rebuilt gid pid ?a" using recompute_Inr [OF assms(10)] by simp
  have "mset (sources gid pid (rebuilt gid pid ?a)) = add_mset (signal_source x) (mset (sources gid pid s0))"
    by (simp only: rebuilt_fields(3) src) (simp add: s rebuilt_fields(3))
  with same show ?thesis unfolding t by (intro conjI)
qed

end
