(* ===== verification/PromotionSafety.thy ===== *)
theory PromotionSafety
  imports PromotionRun ImpactSafety
begin

text \<open>
  What the promotion of observations does to incidents and jobs: an incident leaves the candidates
  only with the support that the thresholds ask for, gets one investigation, and is never promoted
  twice; a judged bucket is always free for the next claim.
\<close>

section \<open>The standing of an incident\<close>

definition standing_of :: "group_row list \<Rightarrow> ident \<Rightarrow> (string \<times> group_status) option" where
  "standing_of gs = map_of (map (\<lambda>g. (gr_id g, gr_fingerprint g, gr_status g)) gs)"

definition standing :: "db \<Rightarrow> ident \<Rightarrow> (string \<times> group_status) option" where
  "standing s = standing_of (issues s)"

lemma standing_of_same:
  "(\<And>g. (gr_id (f g), gr_fingerprint (f g), gr_status (f g)) = (gr_id g, gr_fingerprint g, gr_status g)) \<Longrightarrow>
   standing_of (update_where p f gs) = standing_of gs"
  unfolding standing_of_def by (simp add: update_where_def comp_def if_distrib cong: if_cong)

lemma standing_row:
  "distinct (map gr_id gs) \<Longrightarrow> g \<in> set gs \<Longrightarrow> standing_of gs (gr_id g) = Some (gr_fingerprint g, gr_status g)"
  unfolding standing_of_def by (intro map_of_is_SomeI) (auto simp: comp_def)

lemma standing_of_Nil [simp]: "standing_of [] = Map.empty"
  by (simp add: standing_of_def)

lemma standing_of_Cons [simp]: "standing_of (g # gs) = (standing_of gs)(gr_id g \<mapsto> (gr_fingerprint g, gr_status g))"
  by (simp add: standing_of_def)

lemma standing_of_snoc:
  "gr_id h \<notin> gr_id ` set gs \<Longrightarrow> standing_of (gs @ [h]) = (standing_of gs)(gr_id h \<mapsto> (gr_fingerprint h, gr_status h))"
  by (induction gs) (auto simp: fun_upd_twist)

lemma standing_None: "standing_of gs gid = None \<longleftrightarrow> gid \<notin> gr_id ` set gs"
  by (simp add: standing_of_def map_of_eq_None_iff image_image)

definition ids_ok :: "(nat \<Rightarrow> ident) \<Rightarrow> db \<Rightarrow> bool" where
  "ids_ok uuid s \<longleftrightarrow> inj uuid \<and> distinct (map gr_id (issues s)) \<and> (\<forall>n. uuids s \<le> n \<longrightarrow> uuid n \<notin> gr_id ` set (issues s))"

lemma ids_ok_frame:
  "ids_ok uuid s \<Longrightarrow> map gr_id (issues s') = map gr_id (issues s) \<Longrightarrow> uuids s \<le> uuids s' \<Longrightarrow> ids_ok uuid s'"
  unfolding ids_ok_def by (metis dual_order.trans list.set_map)

lemma ensure_candidate_effect:
  assumes "ensure_candidate uuid now t d s = (gid, s1)" "ids_ok uuid s"
  shows "ids_ok uuid s1" "signals s1 = signals s" "jobs s1 = jobs s"
    "(standing s1 = standing s \<and> (\<exists>st. standing s gid = Some (incident_fingerprint (bt_environment t) (bt_fingerprint t), st)))
     \<or> (standing s gid = None \<and> standing s1 = (standing s)(gid \<mapsto> (incident_fingerprint (bt_environment t) (bt_fingerprint t), GCandidate)))"
proof -
  let ?fp = "incident_fingerprint (bt_environment t) (bt_fingerprint t)"
  have "ids_ok uuid s1 \<and> signals s1 = signals s \<and> jobs s1 = jobs s \<and>
    ((standing s1 = standing s \<and> (\<exists>st. standing s gid = Some (?fp, st)))
     \<or> (standing s gid = None \<and> standing s1 = (standing s)(gid \<mapsto> (?fp, GCandidate))))"
  proof (cases "find (same_fingerprint (bt_project t) ?fp) (issues s)")
    case (Some g)
    then have g: "g \<in> set (issues s)" "gr_fingerprint g = ?fp" by (auto simp: find_Some_iff same_fingerprint_def)
    then have "standing s (gr_id g) = Some (?fp, gr_status g)"
      using standing_row [of "issues s" g] assms(2) by (simp add: standing_def ids_ok_def)
    then show ?thesis using Some assms by (auto simp: ensure_candidate_def)
  next
    case None
    let ?new = "candidate_row (uuid (uuids s)) now (bt_project t) (bt_environment t) (bt_fingerprint t) d"
    have s1: "gid = uuid (uuids s)" "s1 = s\<lparr>issues := issues s @ [?new], uuids := Suc (uuids s)\<rparr>"
      using None assms(1) by (auto simp: ensure_candidate_def)
    have new: "gr_id ?new = gid" "gr_fingerprint ?new = ?fp" "gr_status ?new = GCandidate"
      by (simp_all add: candidate_row_def diagnostic_row_def s1(1))
    have fresh: "gid \<notin> gr_id ` set (issues s)" using assms(2) by (simp add: ids_ok_def s1(1))
    then have "standing s gid = None" by (simp add: standing_def standing_None)
    moreover have "standing s1 = (standing s)(gid \<mapsto> (?fp, GCandidate))"
      using standing_of_snoc [of ?new "issues s"] fresh new by (simp add: s1(2) standing_def)
    moreover have "ids_ok uuid s1"
      using assms(2) fresh new(1) by (auto simp: ids_ok_def s1(2) inj_eq) (metis Suc_leD new(1) s1(1) inj_eq not_less_eq_eq)
    ultimately show ?thesis by (simp add: s1(2))
  qed
  then show "ids_ok uuid s1" "signals s1 = signals s" "jobs s1 = jobs s"
    "(standing s1 = standing s \<and> (\<exists>st. standing s gid = Some (?fp, st)))
     \<or> (standing s gid = None \<and> standing s1 = (standing s)(gid \<mapsto> (?fp, GCandidate)))" by blast+
qed

text \<open>The steps after a candidate is ensured.\<close>

lemma rebuilt_standing:
  "standing (rebuilt gid pid s) = standing s" "map gr_id (issues (rebuilt gid pid s)) = map gr_id (issues s)"
  "jobs (rebuilt gid pid s) = jobs s" "uuids (rebuilt gid pid s) = uuids s"
proof -
  show "standing (rebuilt gid pid s) = standing s"
    unfolding standing_def rebuilt_issues by (rule standing_of_same) (simp add: rebuilt_row_def rebuild_incident_def)
  show "map gr_id (issues (rebuilt gid pid s)) = map gr_id (issues s)"
    unfolding rebuilt_issues by (rule map_update_where_same) (simp add: rebuilt_row_def rebuild_incident_def)
  show "jobs (rebuilt gid pid s) = jobs s" "uuids (rebuilt gid pid s) = uuids s"
    by (simp_all add: rebuilt_def rebuild_users_def rebuild_group_def rebuild_environments_def Let_def)
qed

lemma support_attach:
  "signals s' = signals (attach_bucket t gid s) \<Longrightarrow> count_eligible_support now b s' = count_eligible_support now b s"
proof -
  assume s': "signals s' = signals (attach_bucket t gid s)"
  let ?f = "\<lambda>x. x\<lparr>sig_incident := Some gid\<rparr>"
  have same: "supporting now b (?f x) = supporting now b x" "sig_session (?f x) = sig_session x" "sig_end_user (?f x) = sig_end_user x" for x
    by (simp_all add: supporting_def in_bucket_def live_signal_def)
  have kept: "map h (filter (supporting now b) (update_where p ?f xs)) = map h (filter (supporting now b) xs)"
    if "\<And>x. h (?f x) = h x" for h :: "signal_row \<Rightarrow> 'x" and p xs
    using that same(1) by (induction xs) simp_all
  show ?thesis
    by (simp add: count_eligible_support_def Let_def s' attach_bucket_def kept [of sig_session] kept [of sig_end_user])
qed

lemma queue_row_fields [simp]:
  "gr_id (queue_row env rep g) = gr_id g" "gr_fingerprint (queue_row env rep g) = gr_fingerprint g"
  "gr_status (queue_row env rep g) = GQueued"
  by (simp_all add: queue_row_def)

lemma queue_standing:
  assumes "distinct (map gr_id (issues s))" "standing s gid = Some (fp, GCandidate)"
  shows "standing (queue_candidate gid env rep s) = (standing s)(gid \<mapsto> (fp, GQueued))"
proof -
  have "standing_of (update_where (\<lambda>g. gr_id g = gid \<and> gr_status g = GCandidate) (queue_row env rep) gs)
      = (standing_of gs)(gid \<mapsto> (fp, GQueued))"
    if "distinct (map gr_id gs)" "standing_of gs gid = Some (fp, GCandidate)" for gs
    using that
  proof (induction gs)
    case (Cons g gs)
    show ?case
    proof (cases "gr_id g = gid")
      case True
      with Cons.prems(1) have "gid \<notin> gr_id ` set gs" by auto
      then have "update_where (\<lambda>g. gr_id g = gid \<and> gr_status g = GCandidate) (queue_row env rep) gs = gs"
        by (intro update_where_no_match) (auto simp: list_ex_iff)
      with True Cons.prems(2) show ?thesis by (simp add: fun_eq_iff)
    next
      case False
      with Cons show ?thesis by (auto simp: fun_eq_iff)
    qed
  qed simp
  from this [OF assms [unfolded standing_def]] show ?thesis by (simp add: standing_def queue_candidate_def)
qed

section \<open>One bucket\<close>

definition investigating :: "db \<Rightarrow> ident \<Rightarrow> bool" where
  "investigating s gid = list_ex (\<lambda>j. job_group j = Some gid \<and> job_type j = Investigate
     \<and> (job_status j = Pending \<or> job_status j = Claimed)) (jobs s)"

text \<open>The change of standing and jobs that the check of one bucket makes.\<close>

definition bucket_effect :: "(string \<Rightarrow> bool) \<Rightarrow> db \<Rightarrow> db \<Rightarrow> bool" where
  "bucket_effect ok s s' \<longleftrightarrow>
     (\<exists>gid fp. (jobs s' = jobs s \<and> (standing s' = standing s
          \<or> standing s gid = None \<and> standing s' = (standing s)(gid \<mapsto> (fp, GCandidate))))
      \<or> (ok fp \<and> (standing s gid = None \<or> standing s gid = Some (fp, GCandidate))
         \<and> standing s' = (standing s)(gid \<mapsto> (fp, GQueued)) \<and> investigating s' gid
         \<and> (jobs s' = jobs s \<or> (\<exists>j. jobs s' = jobs s @ [j] \<and> job_type j = Investigate \<and> job_group j = Some gid))))"

lemma investigate_once_effect:
  "investigating (investigate_once uuid now pid gid s) gid"
  "jobs (investigate_once uuid now pid gid s) = jobs s
   \<or> (\<exists>j. jobs (investigate_once uuid now pid gid s) = jobs s @ [j] \<and> job_type j = Investigate \<and> job_group j = Some gid)"
  "issues (investigate_once uuid now pid gid s) = issues s" "signals (investigate_once uuid now pid gid s) = signals s"
  "uuids s \<le> uuids (investigate_once uuid now pid gid s)"
  by (auto simp: investigating_def investigate_once_def insert_investigation_def investigation_job_def new_job_def
      no_options_def list_ex_iff)

lemma promote_bucket_step:
  assumes run: "promote_bucket uuid now t s = (Inr u, s')" and ids: "ids_ok uuid s"
  shows "ids_ok uuid s' \<and> (\<forall>b. count_eligible_support now b s' = count_eligible_support now b s)
    \<and> bucket_effect (\<lambda>fp. fp = incident_fingerprint (bt_environment t) (bt_fingerprint t)
        \<and> has_promotion_support (count_eligible_support now t s)) s s'"
proof -
  let ?fp = "incident_fingerprint (bt_environment t) (bt_fingerprint t)"
  let ?ok = "\<lambda>fp. fp = ?fp \<and> has_promotion_support (count_eligible_support now t s)"
  show ?thesis
  proof (cases "s' = s")
    case True
    then show ?thesis using ids by (auto simp: bucket_effect_def)
  next
    case False
    obtain d where d: "describing_signal t s = Some d" "sig_type d \<noteq> ''other''"
      using run False by (auto simp: promote_bucket_def andthen_def reads_def pure_def split: option.splits if_splits)
    obtain gid s1 where e: "ensure_candidate uuid now t d s = (gid, s1)" by fastforce
    note made = ensure_candidate_effect [OF e ids]
    have sup: "count_eligible_support now b s1 = count_eligible_support now b s" for b
      by (simp add: count_eligible_support_def made(2))
    have one: "bucket_effect ?ok s x" if "standing x = standing s1" "jobs x = jobs s1" for x
      unfolding bucket_effect_def
      by (rule exI [of _ gid], rule exI [of _ ?fp], rule disjI1) (use made(3,4) that in auto)
    show ?thesis
    proof (cases "has_promotion_support (count_eligible_support now t s1)")
      case False
      then have "s' = s1" using run d e
        by (simp add: promote_bucket_def andthen_def reads_def pure_def transact_def)
      then show ?thesis using made(1) sup one by simp
    next
      case True
      let ?fresh = "case find (\<lambda>g. gr_id g = gid \<and> gr_project g = bt_project t) (issues s1) of
                      None \<Rightarrow> False | Some g \<Rightarrow> gr_status g = GCandidate"
      let ?s2 = "attach_bucket t gid s1" and ?s3 = "rebuilt gid (bt_project t) (attach_bucket t gid s1)"
      let ?s4 = "pin_incident_sessions (bt_project t) gid ?s3"
      obtain s3 where r: "recompute_incident_impact gid (bt_project t) ?s2 = (Inr (), s3)"
        using run d e True
        by (auto simp: promote_bucket_def andthen_def reads_def pure_def transact_def modify_def split: prod.splits sum.splits)
      then have s3: "s3 = ?s3" using recompute_Inr by blast
      have frame: "standing ?s4 = standing s1" "jobs ?s4 = jobs s1" "map gr_id (issues ?s4) = map gr_id (issues s1)"
          "uuids ?s4 = uuids s1" "signals ?s4 = signals ?s2"
        by (simp_all add: pin_incident_sessions_def rebuilt_standing rebuilt_fields(1) standing_def [of "_\<lparr>sessions := _\<rparr>"])
          (simp_all add: standing_def attach_bucket_def rebuilt_standing(1) [unfolded standing_def])
      have ids4: "ids_ok uuid ?s4" using made(1) frame(3,4) by (auto elim: ids_ok_frame)
      have sup4: "count_eligible_support now b x = count_eligible_support now b s" if "signals x = signals ?s4" for b x
        using support_attach [of x t gid s1 now b] sup that frame(5) by simp
      show ?thesis
      proof (cases ?fresh)
        case False
        then have "s' = ?s4" using run d e True r
          by (simp add: promote_bucket_def andthen_def reads_def pure_def transact_def modify_def s3)
        then show ?thesis using ids4 sup4 one frame(1,2) by simp
      next
        case fresh: True
        let ?s5 = "queue_candidate gid (bt_environment t) (typical_signal narrated gid ?s4) ?s4"
        have s': "s' = investigate_once uuid now (bt_project t) gid ?s5" using run d e True r fresh
          by (simp add: promote_bucket_def andthen_def reads_def pure_def transact_def modify_def s3)
        from fresh obtain g where found: "find (\<lambda>g. gr_id g = gid \<and> gr_project g = bt_project t) (issues s1) = Some g"
            "gr_status g = GCandidate"
          by (auto split: option.splits)
        then have g: "g \<in> set (issues s1)" "gr_id g = gid" "gr_status g = GCandidate"
          by (auto simp: find_Some_iff)
        have dist1: "distinct (map gr_id (issues s1))" using made(1) by (simp add: ids_ok_def)
        have at1: "standing s1 gid = Some (gr_fingerprint g, GCandidate)"
          using standing_row [OF dist1 g(1)] g(2,3) by (simp add: standing_def)
        then have fp: "gr_fingerprint g = ?fp" using made(4) by auto
        have dist4: "distinct (map gr_id (issues ?s4))" using ids4 by (simp add: ids_ok_def)
        have queued: "standing ?s5 = (standing s1)(gid \<mapsto> (?fp, GQueued))"
          using queue_standing [OF dist4, of gid ?fp] at1 fp frame(1) by simp
        have st: "standing s' = (standing s)(gid \<mapsto> (?fp, GQueued))"
            "standing s gid = None \<or> standing s gid = Some (?fp, GCandidate)"
          using queued made(4) at1 by (auto simp: s' standing_def investigate_once_effect(3))
        have jobs5: "jobs ?s5 = jobs s" "map gr_id (issues ?s5) = map gr_id (issues ?s4)" "uuids ?s5 = uuids ?s4"
            "signals ?s5 = signals ?s4"
          using frame(2) made(3) by (simp_all add: queue_candidate_def map_update_where_same)
        have effect: "bucket_effect ?ok s s'"
          unfolding bucket_effect_def
          by (rule exI [of _ gid], rule exI [of _ ?fp], rule disjI2)
            (use st True sup investigate_once_effect(1,2) [of uuid now "bt_project t" gid ?s5] in \<open>simp add: s' jobs5(1)\<close>)
        have "ids_ok uuid s'"
          by (rule ids_ok_frame [OF ids4])
            (use jobs5(2,3) investigate_once_effect(5) [of ?s5 uuid now "bt_project t" gid] in \<open>simp_all add: s' investigate_once_effect(3)\<close>)
        moreover have "signals s' = signals ?s4" using jobs5(4) by (simp add: s' investigate_once_effect(4))
        ultimately show ?thesis using effect sup4 by blast
      qed
    qed
  qed
qed

section \<open>All buckets\<close>

lemma each_Inr:
  assumes "\<And>x s s' u. x \<in> set xs \<Longrightarrow> I s \<Longrightarrow> f x s = (Inr u, s') \<Longrightarrow> I s'"
  shows "each f xs s = (Inr u, t) \<Longrightarrow> I s \<Longrightarrow> I t"
  using assms
proof (induction xs arbitrary: s)
  case Nil
  then show ?case by (simp add: pure_def)
next
  case (Cons x xs)
  from Cons.prems(1) obtain s1 where "f x s = (Inr (), s1)" "each f xs s1 = (Inr u, t)"
    by (auto simp: andthen_def split: prod.splits sum.splits)
  with Cons.IH [of s1] Cons.prems(2,3) show ?case by (metis list.set_intros)
qed

text \<open>An incident that has left the candidates since \<open>s\<close>, with what it takes.\<close>

definition earned :: "time \<Rightarrow> ident \<Rightarrow> ident \<Rightarrow> string list \<Rightarrow> db \<Rightarrow> db \<Rightarrow> ident \<Rightarrow> bool" where
  "earned now pid env fps s s' gid =
     (list_ex (\<lambda>fp. standing s' gid = Some (incident_fingerprint env fp, GQueued)
          \<and> has_promotion_support (count_eligible_support now (narrative_bucket pid env fp) s)) fps
      \<and> (case standing s gid of None \<Rightarrow> True | Some (f, st) \<Rightarrow> st = GCandidate))"

text \<open>An incident that is new since \<open>s\<close> and still a candidate.\<close>

definition opened :: "db \<Rightarrow> db \<Rightarrow> ident \<Rightarrow> bool" where
  "opened s s' gid =
     (standing s gid = None \<and> (case standing s' gid of None \<Rightarrow> False | Some (f, st) \<Rightarrow> st = GCandidate))"

lemma bucket_effect_cases:
  assumes "bucket_effect ok s s'"
  obtains (same) "jobs s' = jobs s" "standing s' = standing s"
  | (candidate) gid fp where "jobs s' = jobs s" "standing s gid = None" "standing s' = (standing s)(gid \<mapsto> (fp, GCandidate))"
  | (queued) gid fp js where "ok fp" "standing s gid = None \<or> standing s gid = Some (fp, GCandidate)"
      "standing s' = (standing s)(gid \<mapsto> (fp, GQueued))" "investigating s' gid"
      "jobs s' = jobs s @ js" "js = [] \<or> (\<exists>j. js = [j] \<and> job_type j = Investigate \<and> job_group j = Some gid)"
  using assms unfolding bucket_effect_def by (metis append_Nil2)

definition accounted :: "time \<Rightarrow> ident \<Rightarrow> ident \<Rightarrow> string list \<Rightarrow> db \<Rightarrow> db \<Rightarrow> bool" where
  "accounted now pid env fps s s' \<longleftrightarrow>
     (\<forall>gid. standing s' gid = standing s gid \<or> opened s s' gid
            \<or> earned now pid env fps s s' gid \<and> investigating s' gid)
     \<and> (\<exists>new. jobs s' = jobs s @ new \<and> distinct (map job_group new)
          \<and> (\<forall>j \<in> set new. job_type j = Investigate \<and> (\<exists>gid. job_group j = Some gid \<and> earned now pid env fps s s' gid)))"

lemma accountedI:
  assumes "\<And>gid. standing s' gid = standing s gid \<or> opened s s' gid \<or> earned now pid env fps s s' gid \<and> investigating s' gid"
    and "jobs s' = jobs s @ new" "distinct (map job_group new)"
    and "\<And>j. j \<in> set new \<Longrightarrow> job_type j = Investigate \<and> (\<exists>gid. job_group j = Some gid \<and> earned now pid env fps s s' gid)"
  shows "accounted now pid env fps s s'"
  using assms unfolding accounted_def by blast

lemma accounted_step:
  assumes p: "accounted now pid env fps s x" and fp: "fp \<in> set fps"
    and step: "bucket_effect (\<lambda>f. f = incident_fingerprint env fp
        \<and> has_promotion_support (count_eligible_support now (narrative_bucket pid env fp) s)) x y"
  shows "accounted now pid env fps s y"
proof -
  obtain new where new: "jobs x = jobs s @ new" "distinct (map job_group new)"
      "\<And>j. j \<in> set new \<Longrightarrow> job_type j = Investigate \<and> (\<exists>h. job_group j = Some h \<and> earned now pid env fps s x h)"
    using p unfolding accounted_def by blast
  have was: "standing x h = standing s h \<or> opened s x h \<or> earned now pid env fps s x h \<and> investigating x h" for h
    using p unfolding accounted_def by blast
  have unqueued: "\<not> earned now pid env fps s x h" if "standing x h = None \<or> standing x h = Some (f, GCandidate)" for h f
    using that by (auto simp: earned_def list_ex_iff)
  have same: "earned now pid env fps s y h = earned now pid env fps s x h" "opened s y h = opened s x h"
    if "standing y h = standing x h" for h
    using that by (simp_all add: earned_def opened_def)
  have more: "investigating y h" if "investigating x h" "jobs y = jobs x @ js" for h js
    using that by (auto simp: investigating_def)
  from step show ?thesis
  proof (cases rule: bucket_effect_cases)
    case same
    then have "accounted now pid env fps s y = accounted now pid env fps s x"
      by (simp add: accounted_def earned_def opened_def investigating_def)
    with p show ?thesis by simp
  next
    case (candidate gid f)
    have kept: "earned now pid env fps s y h" if "earned now pid env fps s x h" for h
    proof (cases "h = gid")
      case True
      with that unqueued [of gid] candidate(2) show ?thesis by simp
    qed (use that same(1) [of h] candidate(3) in simp)
    have "standing s gid = None" using was [of gid] candidate(2) unqueued [of gid] by (auto simp: opened_def)
    then have new_one: "opened s y gid" by (simp add: opened_def candidate(3))
    show ?thesis
    proof (rule accountedI)
      fix h
      show "standing y h = standing s h \<or> opened s y h \<or> earned now pid env fps s y h \<and> investigating y h"
      proof (cases "h = gid")
        case False
        then show ?thesis using was [of h] same [of h] more [of h "[]"] candidate(1,3) by auto
      qed (use new_one in simp)
    next
      show "jobs y = jobs s @ new" "distinct (map job_group new)" using new candidate(1) by simp_all
    next
      fix j assume "j \<in> set new"
      then show "job_type j = Investigate \<and> (\<exists>h. job_group j = Some h \<and> earned now pid env fps s y h)"
        using new(3) kept by blast
    qed
  next
    case (queued gid f js)
    have "standing s gid = None \<or> (\<exists>k. standing s gid = Some (k, GCandidate))"
      using was [of gid] queued(2) unqueued [OF queued(2)] by (auto simp: opened_def)
    then have one: "earned now pid env fps s y gid"
      using queued(1,3) fp by (auto simp: earned_def list_ex_iff)
    have kept: "earned now pid env fps s y h" if "earned now pid env fps s x h" for h
    proof (cases "h = gid")
      case False
      with that same(1) [of h] queued(3) show ?thesis by simp
    qed (use one in simp)
    have fresh: "Some gid \<notin> set (map job_group new)" using new(3) unqueued [OF queued(2)] by force
    show ?thesis
    proof (rule accountedI)
      fix h
      show "standing y h = standing s h \<or> opened s y h \<or> earned now pid env fps s y h \<and> investigating y h"
      proof (cases "h = gid")
        case False
        then show ?thesis using was [of h] same [of h] more [of h js] queued(3,5) by auto
      qed (use one queued(4) in simp)
    next
      show "jobs y = jobs s @ (new @ js)" using new(1) queued(5) by simp
      show "distinct (map job_group (new @ js))" using new(2) fresh queued(6) by (auto simp: image_iff)
    next
      fix j assume "j \<in> set (new @ js)"
      then show "job_type j = Investigate \<and> (\<exists>h. job_group j = Some h \<and> earned now pid env fps s y h)"
        using new(3) [of j] kept one queued(6) by auto
    qed
  qed
qed

definition promoted_from :: "(nat \<Rightarrow> ident) \<Rightarrow> time \<Rightarrow> ident \<Rightarrow> ident \<Rightarrow> string list \<Rightarrow> db \<Rightarrow> db \<Rightarrow> bool" where
  "promoted_from uuid now pid env fps s s' \<longleftrightarrow>
     ids_ok uuid s' \<and> (\<forall>b. count_eligible_support now b s' = count_eligible_support now b s)
     \<and> accounted now pid env fps s s'"

lemma promoted_step:
  assumes p: "promoted_from uuid now pid env fps s x" and fp: "fp \<in> set fps"
    and run: "promote_bucket uuid now (narrative_bucket pid env fp) x = (Inr u, y)"
  shows "promoted_from uuid now pid env fps s y"
proof -
  have ids: "ids_ok uuid x" and sup: "count_eligible_support now b x = count_eligible_support now b s" for b
    using p by (simp_all add: promoted_from_def)
  have t: "bt_environment (narrative_bucket pid env fp) = env" "bt_fingerprint (narrative_bucket pid env fp) = fp"
    by (simp_all add: narrative_bucket_def)
  note step = promote_bucket_step [OF run ids, unfolded sup t]
  have "accounted now pid env fps s y"
    by (rule accounted_step [of now pid env fps s x fp]) (use p fp step in \<open>simp_all add: promoted_from_def\<close>)
  then show ?thesis using step by (simp add: promoted_from_def)
qed

text \<open>
  C19: A pass of runPromotionCheck promotes by merit alone: the jobs it adds are investigations
  of distinct incidents, each of which was new or a candidate before, is queued now, and belongs
  to a bucket of the pass with three sessions or two identified users; every other incident
  keeps its fingerprint and status or is a new candidate; and every incident it queued has a
  pending or claimed investigation.
\<close>

theorem promotion_is_earned:
  assumes "run_promotion_check uuid now pid env fps s = (Inr (), s')" "ids_ok uuid s"
  shows "(\<exists>new. jobs s' = jobs s @ new \<and> distinct (map job_group new)
      \<and> (\<forall>j \<in> set new. job_type j = Investigate
           \<and> (\<exists>gid. job_group j = Some gid \<and> earned now pid env fps s s' gid)))
    \<and> (\<forall>gid. standing s' gid = standing s gid \<or> opened s s' gid
           \<or> earned now pid env fps s s' gid \<and> investigating s' gid)"
proof -
  have "promoted_from uuid now pid env fps s s"
    using assms(2) by (auto simp: promoted_from_def accounted_def)
  then have "promoted_from uuid now pid env fps s s'"
    using each_Inr [where I = "promoted_from uuid now pid env fps s" and xs = "distinct_sorted fps"
        and f = "\<lambda>fp. promote_bucket uuid now (narrative_bucket pid env fp)"] assms(1) promoted_step
    unfolding run_promotion_check_def by (metis set_distinct_sorted)
  then show ?thesis by (simp add: promoted_from_def accounted_def)
qed

section \<open>A judged bucket is free\<close>

definition gen_key :: "generation_row \<Rightarrow> ident \<times> ident \<times> ident \<times> string \<times> nat \<times> nat \<times> generation_status" where
  "gen_key g = (gen_id g, gen_project g, gen_environment g, gen_fingerprint g, gen_rule_version g, gen_prompt_version g,
     gen_status g)"

definition gen_keys :: "db \<Rightarrow> (ident \<times> ident \<times> ident \<times> string \<times> nat \<times> nat \<times> generation_status) list" where
  "gen_keys s = map gen_key (generations s)"

lemma gen_keys_frames [simp]:
  "gen_keys (rebuilt gid pid s) = gen_keys s" "gen_keys (on_signals ids f s) = gen_keys s"
  "gen_keys (pin_incident_sessions pid gid s) = gen_keys s" "gen_keys (on_issue gid h s) = gen_keys s"
  "gen_keys (insert_investigation uuid now pid gid s) = gen_keys s" "gen_keys (write_bucket_state now t n k s) = gen_keys s"
  "gen_keys (snd (attach_evidence_rows gen pid rule gid s)) = gen_keys s"
  "gen_keys (snd (ensure_candidate uuid now t d s)) = gen_keys s"
  by (simp_all add: gen_keys_def rebuilt_def rebuild_users_def rebuild_group_def rebuild_environments_def Let_def
      on_signals_def pin_incident_sessions_def on_issue_def insert_investigation_def write_bucket_state_def
      attach_evidence_rows_def ensure_candidate_def split: option.splits)

lemma accept_bucket_keys:
  assumes "accept_bucket uuid now t gen n own s = (Inr r, s')"
  shows "gen_keys s' = gen_keys s"
proof -
  have keep: "gen_keys (on_generation gen (\<lambda>g. g\<lparr>gen_promoted := p\<rparr>) x) = gen_keys x" for p x
    by (simp add: gen_keys_def on_generation_def map_update_where_same gen_key_def)
  obtain gid s1 where e: "ensure_candidate uuid now t (hd own) s = (gid, s1)" by fastforce
  then have k1: "gen_keys s1 = gen_keys s" using gen_keys_frames(8) [of uuid now t "hd own" s] by simp
  obtain k s2 where a: "attach_evidence_rows gen (bt_project t) (bt_rule t) gid
      (on_signals (map sig_id own) (\<lambda>x. x\<lparr>sig_incident := Some gid\<rparr>) s1) = (k, s2)" by fastforce
  then have k2: "gen_keys s2 = gen_keys s"
    using gen_keys_frames(7) [of gen "bt_project t" "bt_rule t" gid "on_signals (map sig_id own) (\<lambda>x. x\<lparr>sig_incident := Some gid\<rparr>) s1"] k1
    by simp
  obtain s3 where r: "recompute_incident_impact gid (bt_project t) s2 = (Inr (), s3)"
    using assms e a by (auto simp: accept_bucket_def andthen_def reads_def modify_def transact_def split: prod.splits sum.splits)
  then have k3: "gen_keys s3 = gen_keys s" using recompute_Inr [OF r] k2 by simp
  show ?thesis using assms e a r
    by (auto simp: accept_bucket_def andthen_def reads_def modify_def transact_def pure_def k3 keep split: if_splits)
qed

definition in_progress :: "ident \<Rightarrow> ident \<Rightarrow> db \<Rightarrow> bool" where
  "in_progress gen pid s = list_ex (\<lambda>g. gen_id g = gen \<and> gen_project g = pid \<and> gen_status g = Adjudicating) (generations s)"

text \<open>What is in progress was in progress before, and is another generation.\<close>

definition outcome_settled :: "ident \<Rightarrow> ident \<Rightarrow> db \<Rightarrow> db \<Rightarrow> bool" where
  "outcome_settled gen pid s s' \<longleftrightarrow>
     (\<forall>g \<in> set (generations s'). gen_status g = Adjudicating \<longrightarrow>
        gen_key g \<in> set (gen_keys s) \<and> \<not> (gen_id g = gen \<and> gen_project g = pid))"

lemma outcome_settled_keys:
  assumes "outcome_settled gen pid s x" "gen_keys y = gen_keys x"
  shows "outcome_settled gen pid s y"
  unfolding outcome_settled_def
proof (intro ballI impI)
  fix g assume g: "g \<in> set (generations y)" "gen_status g = Adjudicating"
  then have "gen_key g \<in> set (gen_keys x)" using assms(2) by (metis gen_keys_def image_eqI list.set_map)
  then obtain h where "h \<in> set (generations x)" "gen_key h = gen_key g" by (auto simp: gen_keys_def)
  then show "gen_key g \<in> set (gen_keys s) \<and> \<not> (gen_id g = gen \<and> gen_project g = pid)"
    using assms(1) g(2) by (auto simp: outcome_settled_def gen_key_def)
qed

lemma outcome_settled_same:
  assumes "distinct (map gen_id (generations s))"
    "case find (\<lambda>g. gen_id g = gen \<and> gen_project g = pid) (generations s) of None \<Rightarrow> True | Some g \<Rightarrow> gen_status g \<noteq> Adjudicating"
  shows "outcome_settled gen pid s s"
  unfolding outcome_settled_def
proof (intro ballI impI conjI notI)
  fix g assume g: "g \<in> set (generations s)" "gen_status g = Adjudicating"
  show "gen_key g \<in> set (gen_keys s)" using g(1) by (simp add: gen_keys_def)
  assume own: "gen_id g = gen \<and> gen_project g = pid"
  then obtain h where h: "find (\<lambda>g. gen_id g = gen \<and> gen_project g = pid) (generations s) = Some h"
    using g(1) by (auto simp: find_None_iff split: option.splits dest!: option.exhaust_sel)
      (metis (mono_tags, lifting) find_None_iff not_Some_eq own)
  then have "h \<in> set (generations s)" "gen_id h = gen" by (auto simp: find_Some_iff)
  then have "h = g" using assms(1) g(1) own by (metis distinct_map inj_onD)
  with h assms(2) g(2) show False by simp
qed

lemma outcome_settled_ruled:
  assumes "\<And>g. gen_status (f g) \<noteq> Adjudicating"
  shows "outcome_settled gen pid s (on_generation gen f s)"
  using assms by (auto simp: outcome_settled_def on_generation_def gen_keys_def update_where_def split: if_splits)

lemma applied_settles:
  assumes run: "apply_bucket_outcome uuid now t gen v n m s = (Inr r, s')" and ids: "distinct (map gen_id (generations s))"
  shows "outcome_settled gen (bt_project t) s s'"
proof (cases "find (\<lambda>g. gen_id g = gen \<and> gen_project g = bt_project t) (generations s)")
  case None
  then show ?thesis using run outcome_settled_same [OF ids] by (simp add: apply_bucket_outcome_def andthen_def reads_def pure_def)
next
  case (Some g)
  have same: "outcome_settled gen (bt_project t) s s" if "gen_status g \<noteq> Adjudicating"
    using outcome_settled_same [OF ids] Some that by simp
  let ?own = "owned_signals t (case gen_claim_job g of None \<Rightarrow> fm_job m | Some j \<Rightarrow> j) gen s"
  let ?p = "persist_ruling now gen v m (gen_status g = GenAccepted) (map sig_id ?own) s"
  have persisted: "outcome_settled gen (bt_project t) s ?p"
  proof (cases "gen_status g = GenAccepted")
    case True
    then show ?thesis using outcome_settled_keys [OF same, of ?p] by (simp add: persist_ruling_def)
  next
    case False
    have "outcome_settled gen (bt_project t) s (on_generation gen (ruled_row now v m) s)"
      by (rule outcome_settled_ruled) (simp add: ruled_row_def)
    then show ?thesis using False by (simp add: persist_ruling_def outcome_settled_keys)
  qed
  have gone: "outcome_settled gen (bt_project t) s (on_generation gen (vanished_row now m) s)"
    by (rule outcome_settled_ruled) (simp add: vanished_row_def)
  consider "gen_status g = GenRejected \<or> gen_status g = GenUnchecked"
    | (empty) "\<not> (gen_status g = GenRejected \<or> gen_status g = GenUnchecked)" "?own = []"
    | (judged) "\<not> (gen_status g = GenRejected \<or> gen_status g = GenUnchecked)" "?own \<noteq> []" by blast
  then show ?thesis
  proof cases
    case 1
    then show ?thesis using run Some same by (auto simp: apply_bucket_outcome_def andthen_def reads_def pure_def)
  next
    case empty
    then show ?thesis using run Some same gone
      by (auto simp: apply_bucket_outcome_def andthen_def reads_def pure_def modify_def split: if_splits)
  next
    case judged
    show ?thesis
    proof (cases "ru_accepted v")
      case True
      then have "accept_bucket uuid now t gen n ?own ?p = (Inr r, s')"
        using run Some judged by (simp add: apply_bucket_outcome_def andthen_def reads_def modify_def)
      then show ?thesis by (intro outcome_settled_keys [OF persisted] accept_bucket_keys)
    next
      case False
      then have "s' = write_bucket_state now t n (Some gen) ?p"
        using run Some judged by (simp add: apply_bucket_outcome_def andthen_def reads_def modify_def pure_def)
      then show ?thesis by (simp add: outcome_settled_keys [OF persisted])
    qed
  qed
qed

text \<open>
  C20: When applyBucketOutcome returns, whatever the verdict and also when the evidence has
  vanished, the generation is no longer in progress, so that the next claimGeneration of the
  bucket gets a generation, provided no other generation of the bucket was in progress.
\<close>

theorem judged_bucket_is_free:
  assumes "apply_bucket_outcome uuid now t gen v n m s = (Inr r, s')" "distinct (map gen_id (generations s))"
    and "list_all (\<lambda>g. \<not> (for_bucket t g \<and> gen_status g = Adjudicating) \<or> gen_id g = gen) (generations s)"
  shows "\<not> in_progress gen (bt_project t) s' \<and> (\<exists>g s''. claim_generation uuid later t jid s' = (Some g, s''))"
proof
  have finished: "outcome_settled gen (bt_project t) s s'" by (rule applied_settles [OF assms(1,2)])
  from finished show "\<not> in_progress gen (bt_project t) s'" by (auto simp: outcome_settled_def in_progress_def list_ex_iff)
  have "\<not> list_ex (\<lambda>g. for_bucket t g \<and> gen_status g = Adjudicating) (generations s')"
  proof
    assume "list_ex (\<lambda>g. for_bucket t g \<and> gen_status g = Adjudicating) (generations s')"
    then obtain g where g: "g \<in> set (generations s')" "for_bucket t g" "gen_status g = Adjudicating"
      by (auto simp: list_ex_iff)
    then have "gen_key g \<in> set (gen_keys s)" "gen_id g \<noteq> gen" using finished by (auto simp: outcome_settled_def for_bucket_def)
    then obtain h where h: "h \<in> set (generations s)" "gen_key h = gen_key g" by (auto simp: gen_keys_def)
    then have "for_bucket t h" "gen_status h = Adjudicating" using g(2,3) by (simp_all add: gen_key_def for_bucket_def)
    then have "gen_id h = gen" using assms(3) h(1) by (auto simp: list_all_iff)
    with h(2) \<open>gen_id g \<noteq> gen\<close> show False by (simp add: gen_key_def)
  qed
  then show "\<exists>g s''. claim_generation uuid later t jid s' = (Some g, s'')" by (simp add: claim_generation_def Let_def)
qed

end
