(* ===== verification/PromotionExamples.thy ===== *)
theory PromotionExamples
  imports PromotionSafety TicketExamples
begin

text \<open>
  Small sites on which the promotion runs: an error incident that gets a further signal, three
  observed sessions that promote a bucket, and a bucket whose evidence has vanished. The witnesses
  of the properties of promotion are read off these runs.
\<close>

section \<open>An incident grows by one signal\<close>

definition demo_error :: group_row where
  "demo_error = (diagnostic_row 0 ''g1'' ''p1'' ''boom'' ''e1'' (signal_descriptor (demo_click ''k1'' ''s1'')))
     \<lparr>gr_is_error := True, gr_status := GQueued\<rparr>"

definition demo_stray :: signal_row where
  "demo_stray = (demo_click ''k2'' ''s2'')\<lparr>sig_end_user := Some ''b'', sig_occurred_at := 9, sig_occurrences := 4\<rparr>"

definition demo_impact :: db where
  "demo_impact = demo_site\<lparr>
     issues := [demo_error],
     error_events := [\<lparr>ev_project = ''p1'', ev_group = ''g1'', ev_session = Some ''s1'', ev_environment = ''e1'',
       ev_end_user = Some ''a'', ev_at = 5\<rparr>],
     signals := [(demo_click ''k1'' ''s1'')\<lparr>sig_incident := Some ''g1''\<rparr>, demo_stray]\<rparr>"

definition demo_rebuilt :: db where
  "demo_rebuilt = snd (recompute_incident_impact ''g1'' ''p1'' demo_impact)"

definition demo_grown :: db where
  "demo_grown = attach_signal_incrementally (fold_signal_of demo_stray) ''g1'' demo_rebuilt"

definition demo_again :: db where
  "demo_again = snd (recompute_incident_impact ''g1'' ''p1'' demo_grown)"

section \<open>Three sessions promote a bucket\<close>

definition demo_observed :: "ident \<Rightarrow> ident \<Rightarrow> signal_row" where
  "demo_observed k sid =
     (demo_click k sid)\<lparr>sig_rule_version := narrative_rule_version, sig_observation := Some ''stuck''\<rparr>"

definition demo_observations :: db where
  "demo_observations = demo_site\<lparr>
     signals := [demo_observed ''k1'' ''s1'', demo_observed ''k2'' ''s2'', demo_observed ''k3'' ''s3'',
       (demo_observed ''k4'' ''s1'')\<lparr>sig_fingerprint := ''rare''\<rparr>]\<rparr>"

definition demo_promoted :: db where
  "demo_promoted = snd (run_promotion_check demo_uuid 2 ''p1'' ''e1'' [''f'', ''rare''] demo_observations)"

section \<open>A bucket whose evidence has vanished\<close>

definition demo_bucket :: bucket_tuple where
  "demo_bucket = \<lparr>bt_project = ''p1'', bt_environment = ''e1'', bt_fingerprint = ''f'', bt_rule = 1, bt_prompt = 1\<rparr>"

definition demo_held_bucket :: db where
  "demo_held_bucket = demo_site\<lparr>signals := [], generations := [claimed_generation ''n1'' 2 demo_bucket ''j1'']\<rparr>"

definition demo_verdict :: ruling where "demo_verdict = \<lparr>ru_accepted = True, ru_reason = ''real''\<rparr>"

definition demo_meta :: fold_meta where "demo_meta = \<lparr>fm_model = ''m'', fm_prompt = 1, fm_job = ''j1''\<rparr>"

definition demo_freed_bucket :: db where
  "demo_freed_bucket = snd (apply_bucket_outcome demo_uuid 3 demo_bucket ''n1'' demo_verdict 1 demo_meta demo_held_bucket)"

section \<open>The runs\<close>

lemma unit_returns: "returns m s \<Longrightarrow> m s = (Inr (), snd (m s))"
  by (auto dest!: returnsD)

lemma promotion_story:
  "(returns (recompute_incident_impact ''g1'' ''p1'') demo_impact, returns (recompute_incident_impact ''g1'' ''p1'') demo_grown,
    map (\<lambda>g. (gr_occurrences g, gr_last_seen g, gr_affected_users g)) (issues demo_grown),
    returns (run_promotion_check demo_uuid 2 ''p1'' ''e1'' [''f'', ''rare'']) demo_observations,
    map (\<lambda>g. (gr_id g, gr_fingerprint g, gr_status g)) (issues demo_promoted),
    map (\<lambda>j. (job_id j, job_group j)) (jobs demo_promoted),
    returns (apply_bucket_outcome demo_uuid 3 demo_bucket ''n1'' demo_verdict 1 demo_meta) demo_held_bucket)
   = (True, True, [(6, 9, 2)], True,
      [(demo_uuid 0, ''friction:e1:f'', GQueued), (demo_uuid 2, ''friction:e1:rare'', GCandidate)],
      [(demo_uuid 1, Some (demo_uuid 0))], True)"
  by code_simp

lemmas promotion_stages = promotion_story [unfolded prod.inject eq_True]

lemma demo_impact_returns:
  "recompute_incident_impact ''g1'' ''p1'' demo_impact = (Inr (), demo_rebuilt)"
  "recompute_incident_impact ''g1'' ''p1'' demo_grown = (Inr (), demo_again)"
  unfolding demo_rebuilt_def demo_again_def using promotion_stages by (blast intro: unit_returns)+

lemma demo_promotion_returns:
  "run_promotion_check demo_uuid 2 ''p1'' ''e1'' [''f'', ''rare''] demo_observations = (Inr (), demo_promoted)"
  unfolding demo_promoted_def using promotion_stages by (blast intro: unit_returns)

lemma demo_outcome_returns:
  "\<exists>r. apply_bucket_outcome demo_uuid 3 demo_bucket ''n1'' demo_verdict 1 demo_meta demo_held_bucket = (Inr r, demo_freed_bucket)"
  unfolding demo_freed_bucket_def using promotion_stages by (blast intro: returnsD)

lemma demo_impact_start:
  "list_all (\<lambda>g. gr_id g \<noteq> ''g1'' \<or> gr_project g = ''p1'') (issues demo_impact)"
  "sources ''g1'' ''p1'' demo_impact \<noteq> []" "demo_stray \<in> set (signals demo_impact)"
  "distinct (map sig_id (signals demo_impact))" "live_signal demo_stray" "sig_incident demo_stray = None"
  "sig_project demo_stray = ''p1''" "sig_end_user demo_stray \<noteq> Some []"
  by (simp_all add: demo_impact_def demo_site_def demo_error_def diagnostic_row_def demo_stray_def demo_click_def
      sources_def live_signal_def empty_db_def)

lemma demo_ids_ok: "ids_ok demo_uuid demo_observations"
  using demo_uuid_inj by (simp add: ids_ok_def demo_observations_def demo_site_def empty_db_def)

section \<open>The witnesses\<close>

theorem incremental_equals_rebuild_witness:
  "issues demo_again = issues demo_grown \<and> mset (affected_users demo_again) = mset (affected_users demo_grown)
   \<and> map (\<lambda>g. (gr_occurrences g, gr_last_seen g, gr_affected_users g)) (issues demo_grown) = [(6, 9, 2)]"
proof -
  have "map (\<lambda>g. (gr_occurrences g, gr_last_seen g, gr_affected_users g)) (issues demo_grown) = [(6, 9, 2)]"
    using promotion_stages by blast
  with incremental_equals_rebuild [OF demo_impact_returns(1) demo_impact_start demo_impact_returns(2) [unfolded demo_grown_def]]
  show ?thesis unfolding demo_grown_def [symmetric] by blast
qed

theorem promotion_is_earned_witness:
  "map job_group (jobs demo_promoted) = [Some (demo_uuid 0)]
   \<and> earned 2 ''p1'' ''e1'' [''f'', ''rare''] demo_observations demo_promoted (demo_uuid 0)"
proof -
  have none: "jobs demo_observations = []" by (simp add: demo_observations_def demo_site_def empty_db_def)
  have one: "map job_group (jobs demo_promoted) = [Some (demo_uuid 0)]" proof -
    have "map snd (map (\<lambda>j. (job_id j, job_group j)) (jobs demo_promoted)) = map snd [(demo_uuid 1, Some (demo_uuid 0))]"
      using promotion_stages by presburger
    then show ?thesis by (simp add: comp_def)
  qed
  then obtain j where j: "jobs demo_promoted = [j]" "job_group j = Some (demo_uuid 0)" by auto
  show ?thesis
    using promotion_is_earned [OF demo_promotion_returns demo_ids_ok] j by (auto simp: none)
qed

theorem judged_bucket_is_free_witness:
  "in_progress ''n1'' ''p1'' demo_held_bucket \<and> \<not> in_progress ''n1'' ''p1'' demo_freed_bucket
   \<and> (\<exists>g s''. claim_generation demo_uuid 4 demo_bucket ''j2'' demo_freed_bucket = (Some g, s''))"
proof -
  have claimed: "generations demo_held_bucket = [claimed_generation ''n1'' 2 demo_bucket ''j1'']" "bt_project demo_bucket = ''p1''"
    by (simp_all add: demo_held_bucket_def demo_bucket_def)
  have "in_progress ''n1'' ''p1'' demo_held_bucket"
    by (simp add: in_progress_def claimed(1) claimed_generation_def demo_bucket_def)
  moreover obtain r where
    "apply_bucket_outcome demo_uuid 3 demo_bucket ''n1'' demo_verdict 1 demo_meta demo_held_bucket = (Inr r, demo_freed_bucket)"
    using demo_outcome_returns by blast
  from judged_bucket_is_free [OF this, where later = 4 and jid = "''j2''"] have "\<not> in_progress ''n1'' ''p1'' demo_freed_bucket
      \<and> (\<exists>g s''. claim_generation demo_uuid 4 demo_bucket ''j2'' demo_freed_bucket = (Some g, s''))"
    by (simp add: claimed claimed_generation_def)
  ultimately show ?thesis by blast
qed

end
