(* ===== verification/CiWatch.thy ===== *)
theory CiWatch
  imports Delivery Programs
begin

text \<open>
  The watch over the checks of a draft pull request (\<open>ci-watch.ts\<close>): what a list of checks says,
  one run of the job, the result it saves (\<open>saveExternalCIResult\<close> in \<open>db.ts\<close>), and the schedule of
  its polls. The code host, the clocks, the parser of dates and of the stored payload, and the
  encoder of the evidence are parameters.
\<close>

section \<open>The state of the checks\<close>

record check_run =
  kr_name :: string
  kr_status :: string
  kr_conclusion :: "string option"

record commit_status =
  sx_context :: string
  sx_state :: string

datatype ci_verdict = CiGreen | CiRed | CiPending

record ci_state =
  cv_state :: ci_verdict
  cv_names :: "string list"
  cv_failing :: "string list"

definition blocking_conclusions :: "string list" where
  "blocking_conclusions =
     [''failure'', ''timed_out'', ''cancelled'', ''action_required'', ''stale'', ''startup_failure'']"

definition blocking :: "check_run \<Rightarrow> bool" where
  "blocking k = (case truthy_str (kr_conclusion k) of None \<Rightarrow> False | Some c \<Rightarrow> c \<in> set blocking_conclusions)"

definition broken :: "commit_status \<Rightarrow> bool" where
  "broken x = (sx_state x = ''failure'' \<or> sx_state x = ''error'')"

definition evaluate_ci :: "check_run list \<Rightarrow> commit_status list \<Rightarrow> ci_state" where
  "evaluate_ci ks xs =
     (let failing = map kr_name (filter blocking ks) @ map sx_context (filter broken xs);
          names = map kr_name (filter (\<lambda>k. kr_conclusion k = Some ''success'') ks)
                  @ map sx_context (filter (\<lambda>x. sx_state x = ''success'') xs);
          pending = list_ex (\<lambda>k. kr_status k \<noteq> ''completed'') ks \<or> list_ex (\<lambda>x. sx_state x = ''pending'') xs
      in if failing \<noteq> [] then \<lparr>cv_state = CiRed, cv_names = dedup names, cv_failing = dedup failing\<rparr>
         else if names \<noteq> [] \<and> \<not> pending then \<lparr>cv_state = CiGreen, cv_names = dedup names, cv_failing = []\<rparr>
         else \<lparr>cv_state = CiPending, cv_names = dedup names, cv_failing = []\<rparr>)"

section \<open>The payload\<close>

record watch_input =
  wi_pr :: nat
  wi_sha :: string
  wi_started :: string
  wi_polls :: int

definition payload_member :: "string \<Rightarrow> json \<Rightarrow> json option" where
  "payload_member k v = (case v of JObj fs \<Rightarrow> map_of fs k | _ \<Rightarrow> None)"

definition whole :: "json option \<Rightarrow> int option" where
  "whole v = (case v of Some (JNum x) \<Rightarrow> (if x = of_int \<lfloor>x\<rfloor> then Some \<lfloor>x\<rfloor> else None) | _ \<Rightarrow> None)"

definition is_object :: "json option \<Rightarrow> bool" where
  "is_object v = (case v of Some (JObj _) \<Rightarrow> True | Some (JArr _) \<Rightarrow> True | _ \<Rightarrow> False)"

definition parse_payload :: "(string \<Rightarrow> time option) \<Rightarrow> json option \<Rightarrow> string + watch_input" where
  "parse_payload date v =
     (if \<not> is_object v then Inl ''ci_watch payload is missing''
      else case whole (payload_member ''prNumber'' (the v)) of
        None \<Rightarrow> Inl ''ci_watch payload has an invalid prNumber''
      | Some n \<Rightarrow>
          if n \<le> 0 then Inl ''ci_watch payload has an invalid prNumber''
          else case payload_member ''headSha'' (the v) of
            Some (JStr sha) \<Rightarrow>
              if trim sha = [] then Inl ''ci_watch payload has an invalid headSha''
              else (case payload_member ''watchStartedAt'' (the v) of
                Some (JStr started) \<Rightarrow>
                  if date started = None then Inl ''ci_watch payload has an invalid watchStartedAt''
                  else Inr \<lparr>wi_pr = nat n, wi_sha = sha, wi_started = started,
                    wi_polls = (case whole (payload_member ''pollCount'' (the v)) of None \<Rightarrow> 0 | Some c \<Rightarrow> c)\<rparr>
              | _ \<Rightarrow> Inl ''ci_watch payload has an invalid watchStartedAt'')
          | _ \<Rightarrow> Inl ''ci_watch payload has an invalid headSha'')"

definition signed_digits :: "int \<Rightarrow> string" where
  "signed_digits n = (if n < 0 then ''-'' @ digits (nat (- n)) else digits (nat n))"

definition polled_payload :: "watch_input \<Rightarrow> string" where
  "polled_payload p =
     ''{'' @ json_quote ''prNumber'' @ '':'' @ digits (wi_pr p) @ '',''
     @ json_quote ''headSha'' @ '':'' @ json_quote (wi_sha p) @ '',''
     @ json_quote ''watchStartedAt'' @ '':'' @ json_quote (wi_started p) @ '',''
     @ json_quote ''pollCount'' @ '':'' @ signed_digits (wi_polls p) @ ''}''"

section \<open>The schedule of the polls\<close>

definition watch_timeout_ms :: time where "watch_timeout_ms = 24 * 60 * 60 * 1000"

definition max_poll_delay_ms :: time where "max_poll_delay_ms = 30 * 60 * 1000"

definition poll_delay :: "int \<Rightarrow> time" where
  "poll_delay n =
     (let e = min n 5 in min (60000 * (if 0 \<le> e then 2 ^ nat e else 1 / 2 ^ nat (- e))) max_poll_delay_ms)"

text \<open>The next poll of a watch that has seen nothing yet; none when the watch has run out of time.\<close>

definition next_poll :: "(string \<Rightarrow> time option) \<Rightarrow> time \<Rightarrow> watch_input \<Rightarrow> (time \<times> watch_input) option" where
  "next_poll date now p =
     (if (case date (wi_started p) of None \<Rightarrow> False | Some t \<Rightarrow> watch_timeout_ms \<le> now - t) then None
      else Some (now + poll_delay (wi_polls p), p\<lparr>wi_polls := wi_polls p + 1\<rparr>))"

section \<open>The result\<close>

datatype external_outcome = CiPassed | CiFailed | HeadMoved | CiPermissionDenied | NoCiObserved

record external_ci =
  xc_outcome :: external_outcome
  xc_pr :: nat
  xc_sha :: string
  xc_names :: "string list"
  xc_failing :: "string list"
  xc_observed :: string

definition owns_watch :: "time \<Rightarrow> ident \<Rightarrow> ident \<Rightarrow> job_lease \<Rightarrow> db \<Rightarrow> bool" where
  "owns_watch clk gid pid l s =
     list_ex (\<lambda>j. fenced clk (ls_id l) (ls_worker l) (ls_generation l) j
        \<and> job_project j = pid \<and> job_group j = Some gid) (jobs s)"

definition external_row :: "time \<Rightarrow> bool \<Rightarrow> string \<Rightarrow> string option \<Rightarrow> group_row \<Rightarrow> group_row" where
  "external_row clk promote evidence why g =
     (if promote
      then g\<lparr>gr_status := GPrCreated, gr_confidence := Some ''medium'', gr_evidence := Some evidence,
             gr_remediation := None, gr_reason_code := None, gr_reason_message := None, gr_candidate_diff := None,
             gr_pr_created_at := or_else (gr_pr_created_at g) (Some clk)\<rparr>
      else g\<lparr>gr_evidence := Some evidence, gr_remediation := or_else why (gr_remediation g)\<rparr>)"

definition watched_draft :: "ident \<Rightarrow> ident \<Rightarrow> group_row \<Rightarrow> bool" where
  "watched_draft gid pid g = (gr_id g = gid \<and> gr_project g = pid \<and> gr_status g = GPrDraft)"

definition save_external_ci_result ::
  "time \<Rightarrow> ident \<Rightarrow> ident \<Rightarrow> string \<Rightarrow> bool \<Rightarrow> string option \<Rightarrow> job_lease \<Rightarrow> db \<Rightarrow> bool \<times> db" where
  "save_external_ci_result clk gid pid evidence promote why l s =
     (let hit = (\<lambda>g. owns_watch clk gid pid l s \<and> watched_draft gid pid g);
          st = (if promote then GPrCreated else GPrDraft);
          prev = map_option gr_status (find hit (issues s));
          payload = (promote \<longrightarrow> has_triaged_payload gid pid s);
          s1 = s\<lparr>issues := update_where hit (external_row clk promote evidence why) (issues s)\<rparr>
      in (list_ex hit (issues s), triaged_outbox pid st prev payload None gid (triaged_dedup_key gid (ls_id l)) s1))"

section \<open>The code host\<close>

record host_fault =
  hf_status :: "real option"
  hf_message :: string

definition permission_denied :: "host_fault \<Rightarrow> bool" where
  "permission_denied f =
     (case hf_status f of
        Some n \<Rightarrow> n = 403
      | None \<Rightarrow> contains (hf_message f) ''403'' \<or> contains (to_lower (hf_message f)) ''forbidden'')"

record pull_request =
  pq_node :: string
  pq_head :: string
  pq_draft :: bool
  pq_body :: string

text \<open>
  The two listings are requested together: the left value is the fault that comes first. A method
  that the client lacks is \<open>None\<close>; a method that changes the pull request may fail. Obtaining the
  client asks for a token, which may fail too; \<open>None\<close> is a client that cannot watch.
\<close>

record ci_client =
  cl_pull :: "string \<Rightarrow> string \<Rightarrow> nat \<Rightarrow> host_fault + pull_request"
  cl_listings :: "string \<Rightarrow> string \<Rightarrow> string \<Rightarrow> host_fault + check_run list \<times> commit_status list"
  cl_update :: "(string \<Rightarrow> string \<Rightarrow> nat \<Rightarrow> string \<Rightarrow> host_fault option) option"
  cl_ready :: "(string \<Rightarrow> host_fault option) option"

datatype ci_call = UpdateBody string string nat string | MarkReady string

record watch_state =
  ws_calls :: "ci_call list"
  ws_db :: db

datatype watch_error =
    WatchAborted
  | BadPayload string
  | NoProject ident
  | BadRepository string
  | NoWatching
  | HostFault host_fault
  | WatchLeaseLost ident
  | WatchRescheduled ident

type_synonym 'a watch = "(watch_state, watch_error, 'a) prog"

record watch_env =
  we_parse :: "string \<Rightarrow> json"
  we_date :: "string \<Rightarrow> time option"
  we_now :: time
  we_clock :: time
  we_observed :: string
  we_evidence :: "string option \<Rightarrow> external_ci \<Rightarrow> string"
  we_tick :: string
  we_client :: "ident \<Rightarrow> host_fault + ci_client option"

definition call_host :: "ci_call \<Rightarrow> host_fault option \<Rightarrow> unit watch" where
  "call_host c answer =
     andthen (modify (\<lambda>w. w\<lparr>ws_calls := ws_calls w @ [c]\<rparr>)) (\<lambda>_.
       case answer of None \<Rightarrow> pure () | Some f \<Rightarrow> throw (HostFault f))"

definition sees :: "(db \<Rightarrow> 'a) \<Rightarrow> 'a watch" where
  "sees f w = (Inr (f (ws_db w)), w)"

section \<open>The section of the pull request\<close>

definition ci_status_start :: string where "ci_status_start = ''<!-- opslane-ci-status:start -->''"

definition ci_status_end :: string where "ci_status_end = ''<!-- opslane-ci-status:end -->''"

fun place_of :: "string \<Rightarrow> string \<Rightarrow> nat option" where
  "place_of p [] = (if p = [] then Some 0 else None)"
| "place_of p (c # s) = (if starts_with (c # s) p then Some 0 else map_option Suc (place_of p s))"

definition replace_ci_status_section :: "string \<Rightarrow> string \<Rightarrow> string" where
  "replace_ci_status_section body new =
     (case (place_of ci_status_start body, place_of ci_status_end body) of
        (Some a, Some b) \<Rightarrow>
          if b < a then body else take a body @ new @ drop (b + length ci_status_end) body
      | _ \<Rightarrow> body)"

definition promoted_verification :: "string \<Rightarrow> string list \<Rightarrow> string" where
  "promoted_verification tick names =
     join [CHR 0x0A]
       ([ci_status_start, ''External CI: passed for the exact commit published on this PR.'']
        @ map (\<lambda>n. ''- '' @ tick @ '' '' @ take 100 (filter (\<lambda>c. c \<noteq> CHR ''<'' \<and> c \<noteq> CHR ''>'') n)) names
        @ [ci_status_end])"

section \<open>One run of the job\<close>

text \<open>The columns that the watch reads.\<close>

record watched_group =
  wg_status :: group_status
  wg_evidence :: "string option"
  wg_triggered_by :: "trigger option"

definition get_error_group :: "ident \<Rightarrow> ident \<Rightarrow> db \<Rightarrow> watched_group option" where
  "get_error_group gid pid s =
     map_option (\<lambda>g. \<lparr>wg_status = gr_status g, wg_evidence = gr_evidence g,
         wg_triggered_by =
           (case find (\<lambda>j. gr_pr_fix_job g = Some (job_id j) \<and> job_project j = gr_project g) (jobs s) of
              None \<Rightarrow> None | Some j \<Rightarrow> job_triggered_by j)\<rparr>)
       (find (\<lambda>g. gr_id g = gid \<and> gr_project g = pid) (issues s))"

definition get_project :: "ident \<Rightarrow> db \<Rightarrow> project_row option" where
  "get_project pid s = find (\<lambda>p. pj_id p = pid) (projects s)"

definition external_evidence ::
  "watch_env \<Rightarrow> watched_group \<Rightarrow> watch_input \<Rightarrow> external_outcome \<Rightarrow> string list \<Rightarrow> string list \<Rightarrow> string" where
  "external_evidence e g p out names failing =
     we_evidence e (wg_evidence g)
       \<lparr>xc_outcome = out, xc_pr = wi_pr p, xc_sha = wi_sha p, xc_names = names, xc_failing = failing,
        xc_observed = we_observed e\<rparr>"

definition save_result ::
  "watch_env \<Rightarrow> ident \<Rightarrow> job_lease \<Rightarrow> string \<Rightarrow> bool \<Rightarrow> string option \<Rightarrow> unit watch" where
  "save_result e gid l evidence promote why =
     modify (\<lambda>w. w\<lparr>ws_db := snd (save_external_ci_result (we_clock e) gid (ls_project l) evidence promote why l (ws_db w))\<rparr>)"

definition reschedule_watch :: "watch_env \<Rightarrow> job_lease \<Rightarrow> time \<Rightarrow> watch_input \<Rightarrow> unit watch" where
  "reschedule_watch e l available p w =
     (case reschedule_job (we_clock e) l available (Some (polled_payload p)) (ws_db w) of
        Inl (JobLeaseLost i) \<Rightarrow> (Inl (WatchLeaseLost i), w)
      | Inr s \<Rightarrow> (Inl (WatchRescheduled (ls_id l)), w\<lparr>ws_db := s\<rparr>))"

definition report_green ::
  "watch_env \<Rightarrow> ci_client \<Rightarrow> string \<Rightarrow> string \<Rightarrow> ident \<Rightarrow> job_lease \<Rightarrow> watched_group \<Rightarrow> watch_input
     \<Rightarrow> pull_request \<Rightarrow> string list \<Rightarrow> unit watch" where
  "report_green e c owner repo gid l g p q names =
     (let body = replace_ci_status_section (pq_body q) (promoted_verification (we_tick e) names);
          human = (wg_triggered_by g = Some Human)
      in andthen (case cl_update c of None \<Rightarrow> pure ()
                  | Some f \<Rightarrow> call_host (UpdateBody owner repo (wi_pr p) body) (f owner repo (wi_pr p) body)) (\<lambda>_.
         andthen (if \<not> (pq_draft q \<and> human) then pure ()
                  else case cl_ready c of None \<Rightarrow> pure ()
                  | Some f \<Rightarrow> call_host (MarkReady (pq_node q)) (f (pq_node q))) (\<lambda>_.
           save_result e gid l (external_evidence e g p CiPassed names []) human None)))"

definition await_checks :: "watch_env \<Rightarrow> ident \<Rightarrow> job_lease \<Rightarrow> watched_group \<Rightarrow> watch_input \<Rightarrow> unit watch" where
  "await_checks e gid l g p =
     (case next_poll (we_date e) (we_now e) p of
        None \<Rightarrow> save_result e gid l (external_evidence e g p NoCiObserved [] []) False
          (Some ''No successful repository CI check was observed within 24 hours. Review and verify this draft manually.'')
      | Some (available, p') \<Rightarrow> reschedule_watch e l available p')"

definition watch_pull ::
  "watch_env \<Rightarrow> ci_client \<Rightarrow> string \<Rightarrow> string \<Rightarrow> ident \<Rightarrow> job_lease \<Rightarrow> watched_group \<Rightarrow> watch_input \<Rightarrow> unit watch" where
  "watch_pull e c owner repo gid l g p =
     (case cl_pull c owner repo (wi_pr p) of
        Inl f \<Rightarrow> throw (HostFault f)
      | Inr q \<Rightarrow>
          if pq_head q \<noteq> wi_sha p
          then save_result e gid l (external_evidence e g p HeadMoved [] []) False
            (Some ''The draft branch changed after Opslane published it. Review the new commit and its CI results manually.'')
          else case cl_listings c owner repo (wi_sha p) of
            Inl f \<Rightarrow>
              if \<not> permission_denied f then throw (HostFault f)
              else save_result e gid l (external_evidence e g p CiPermissionDenied [] []) False
                (Some ''Approve the GitHub App Checks: read permission upgrade, then review CI on the draft manually.'')
          | Inr (ks, xs) \<Rightarrow>
              let st = evaluate_ci ks xs
              in case cv_state st of
                   CiRed \<Rightarrow> save_result e gid l (external_evidence e g p CiFailed (cv_names st) (cv_failing st)) False
                     (Some (''Repository CI failed: '' @ join '', '' (cv_failing st)
                        @ ''. Review the failing checks before using this draft.''))
                 | CiGreen \<Rightarrow> report_green e c owner repo gid l g p q (cv_names st)
                 | CiPending \<Rightarrow> await_checks e gid l g p)"

definition process_ci_watch_job :: "watch_env \<Rightarrow> bool \<Rightarrow> ident \<Rightarrow> string option \<Rightarrow> job_lease \<Rightarrow> unit watch" where
  "process_ci_watch_job e aborted gid payload l =
     (if aborted then throw WatchAborted
      else case parse_payload (we_date e) (map_option (we_parse e) payload) of
        Inl m \<Rightarrow> throw (BadPayload m)
      | Inr p \<Rightarrow>
          andthen (sees (get_error_group gid (ls_project l))) (\<lambda>found.
            case found of
              None \<Rightarrow> pure ()
            | Some g \<Rightarrow>
                if wg_status g \<noteq> GPrDraft then pure ()
                else andthen (sees (get_project (ls_project l))) (\<lambda>project.
                  case project of
                    None \<Rightarrow> throw (NoProject (ls_project l))
                  | Some pj \<Rightarrow>
                      (case split_on (CHR ''/'') (pj_repo pj) of
                         owner # repo # _ \<Rightarrow>
                           if owner = [] \<or> repo = [] then throw (BadRepository (pj_repo pj))
                           else (case we_client e (ls_project l) of
                                   Inl f \<Rightarrow> throw (HostFault f)
                                 | Inr None \<Rightarrow> throw NoWatching
                                 | Inr (Some c) \<Rightarrow> watch_pull e c owner repo gid l g p)
                       | _ \<Rightarrow> throw (BadRepository (pj_repo pj))))))"

end
