(* ===== verification/CiWatchSafety.thy ===== *)
theory CiWatchSafety
  imports CiWatch
begin

text \<open>
  A draft leaves the drafts only when the commit that was published has passed its checks, and a
  watch polls a bounded number of times.
\<close>

section \<open>Promotion\<close>

definition group_statuses :: "db \<Rightarrow> (ident \<times> ident \<times> group_status) list" where
  "group_statuses s = map (\<lambda>g. (gr_id g, gr_project g, gr_status g)) (issues s)"

abbreviation statuses :: "watch_state \<Rightarrow> (ident \<times> ident \<times> group_status) list" where
  "statuses w \<equiv> group_statuses (ws_db w)"

definition promoted_statuses :: "ident \<Rightarrow> ident \<Rightarrow> (ident \<times> ident \<times> group_status) list \<Rightarrow> (ident \<times> ident \<times> group_status) list" where
  "promoted_statuses gid pid = map (\<lambda>(i, p, st). (i, p, if i = gid \<and> p = pid \<and> st = GPrDraft then GPrCreated else st))"

text \<open>Nothing is broken or unfinished, and something has passed.\<close>

definition all_green :: "check_run list \<Rightarrow> commit_status list \<Rightarrow> bool" where
  "all_green ks xs \<longleftrightarrow>
     list_all (\<lambda>k. kr_status k = ''completed'' \<and> \<not> blocking k) ks
     \<and> list_all (\<lambda>x. \<not> broken x \<and> sx_state x \<noteq> ''pending'') xs
     \<and> (list_ex (\<lambda>k. kr_conclusion k = Some ''success'') ks \<or> list_ex (\<lambda>x. sx_state x = ''success'') xs)"

lemma green_iff: "cv_state (evaluate_ci ks xs) = CiGreen \<longleftrightarrow> all_green ks xs"
  by (auto simp: evaluate_ci_def all_green_def Let_def filter_empty_conv list_ex_iff list_all_iff)

lemma external_row_fields [simp]:
  "gr_id (external_row clk promote ev why g) = gr_id g" "gr_project (external_row clk promote ev why g) = gr_project g"
  "gr_status (external_row clk promote ev why g) = (if promote then GPrCreated else gr_status g)"
  by (simp_all add: external_row_def)

lemma saved_statuses [simp]:
  "group_statuses (snd (save_external_ci_result clk gid pid ev promote why l s)) =
     (if promote \<and> owns_watch clk gid pid l s then promoted_statuses gid pid (group_statuses s) else group_statuses s)"
  by (auto simp: group_statuses_def save_external_ci_result_def promoted_statuses_def Let_def update_where_def watched_draft_def)

text \<open>What changes: nothing, or the draft of the job, and then the pull request is as promised.\<close>

definition earned_promotion ::
  "watch_env \<Rightarrow> ident \<Rightarrow> string option \<Rightarrow> job_lease \<Rightarrow> watch_state \<Rightarrow> watch_state \<Rightarrow> bool" where
  "earned_promotion e gid payload l w w' \<longleftrightarrow>
     (\<exists>p pj c owner repo rest q ks xs. parse_payload (we_date e) (map_option (we_parse e) payload) = Inr p
        \<and> get_project (ls_project l) (ws_db w) = Some pj \<and> split_on (CHR ''/'') (pj_repo pj) = owner # repo # rest
        \<and> we_client e (ls_project l) = Inr (Some c)
        \<and> cl_pull c owner repo (wi_pr p) = Inr q \<and> pq_head q = wi_sha p
        \<and> cl_listings c owner repo (wi_sha p) = Inr (ks, xs) \<and> all_green ks xs
        \<and> map_option wg_triggered_by (get_error_group gid (ls_project l) (ws_db w)) = Some (Some Human)
        \<and> (pq_draft q \<longrightarrow> cl_ready c = None \<or> MarkReady (pq_node q) \<in> set (ws_calls w'))
        \<and> statuses w' = promoted_statuses gid (ls_project l) (statuses w))"

lemma call_host_run:
  "call_host c answer w = (case answer of None \<Rightarrow> (Inr (), w\<lparr>ws_calls := ws_calls w @ [c]\<rparr>)
     | Some f \<Rightarrow> (Inl (HostFault f), w\<lparr>ws_calls := ws_calls w @ [c]\<rparr>))"
  by (simp add: call_host_def andthen_def modify_def pure_def throw_def split: option.split)

lemma save_result_run:
  "save_result e gid l ev promote why w =
     (Inr (), w\<lparr>ws_db := snd (save_external_ci_result (we_clock e) gid (ls_project l) ev promote why l (ws_db w))\<rparr>)"
  by (simp add: save_result_def modify_def)

lemma unpromoted [simp]: "save_result e gid l ev False why w = (r, w') \<Longrightarrow> statuses w' = statuses w"
  by (auto simp: save_result_run)

lemma rescheduled_statuses: "reschedule_watch e l a p w = (r, w') \<Longrightarrow> statuses w' = statuses w"
  by (auto simp: reschedule_watch_def reschedule_job_def group_statuses_def split: if_splits)

lemma awaited_statuses: "await_checks e gid l g p w = (r, w') \<Longrightarrow> statuses w' = statuses w"
  by (auto simp: await_checks_def rescheduled_statuses split: option.splits)

lemma reported_statuses:
  assumes "report_green e c owner repo gid l g p q names w = (r, w')"
  shows "statuses w' = statuses w
    \<or> (wg_triggered_by g = Some Human \<and> statuses w' = promoted_statuses gid (ls_project l) (statuses w)
       \<and> (pq_draft q \<longrightarrow> cl_ready c = None \<or> MarkReady (pq_node q) \<in> set (ws_calls w')))"
  using assms
  by (auto simp: report_green_def Let_def andthen_def pure_def call_host_run save_result_run
      split: option.splits if_splits prod.splits sum.splits)

lemma pulled_statuses:
  assumes "watch_pull e c owner repo gid l g p w = (r, w')"
  shows "statuses w' = statuses w
    \<or> (\<exists>q ks xs. cl_pull c owner repo (wi_pr p) = Inr q \<and> pq_head q = wi_sha p
        \<and> cl_listings c owner repo (wi_sha p) = Inr (ks, xs) \<and> all_green ks xs
        \<and> wg_triggered_by g = Some Human
        \<and> (pq_draft q \<longrightarrow> cl_ready c = None \<or> MarkReady (pq_node q) \<in> set (ws_calls w'))
        \<and> statuses w' = promoted_statuses gid (ls_project l) (statuses w))"
proof (cases "statuses w' = statuses w")
  case False
  then obtain q ks xs where run: "cl_pull c owner repo (wi_pr p) = Inr q" "pq_head q = wi_sha p"
      "cl_listings c owner repo (wi_sha p) = Inr (ks, xs)" "cv_state (evaluate_ci ks xs) = CiGreen"
      "report_green e c owner repo gid l g p q (cv_names (evaluate_ci ks xs)) w = (r, w')"
    using assms awaited_statuses
    by (auto simp: watch_pull_def Let_def throw_def split: sum.splits if_splits prod.splits ci_verdict.splits)
  from reported_statuses [OF run(5)] False run(1-4) show ?thesis unfolding green_iff by blast
qed simp

text \<open>
  C21: A run of the watch leaves the status of every issue as it was, or promotes the one draft
  of its job; then the pull request is at the very commit that was published, every check of
  that commit is completed without a blocking conclusion, no status is failed or pending,
  something has passed, a human asked for the fix, and a draft was marked ready where the client
  can do so.
\<close>

theorem draft_leaves_on_green:
  assumes "process_ci_watch_job e aborted gid payload l w = (r, w')"
  shows "statuses w' = statuses w \<or> earned_promotion e gid payload l w w'"
proof (cases "statuses w' = statuses w")
  case False
  then obtain p g pj c owner repo rest where run: "parse_payload (we_date e) (map_option (we_parse e) payload) = Inr p"
      "get_error_group gid (ls_project l) (ws_db w) = Some g" "get_project (ls_project l) (ws_db w) = Some pj"
      "split_on (CHR ''/'') (pj_repo pj) = owner # repo # rest" "we_client e (ls_project l) = Inr (Some c)"
      "watch_pull e c owner repo gid l g p w = (r, w')"
    using assms
    by (auto simp: process_ci_watch_job_def andthen_def sees_def pure_def throw_def
        split: sum.splits option.splits if_splits list.splits)
  from pulled_statuses [OF run(6)] False obtain q ks xs where green: "cl_pull c owner repo (wi_pr p) = Inr q"
      "pq_head q = wi_sha p" "cl_listings c owner repo (wi_sha p) = Inr (ks, xs)" "all_green ks xs"
      "wg_triggered_by g = Some Human" "pq_draft q \<longrightarrow> cl_ready c = None \<or> MarkReady (pq_node q) \<in> set (ws_calls w')"
      "statuses w' = promoted_statuses gid (ls_project l) (statuses w)" by blast
  have "map_option wg_triggered_by (get_error_group gid (ls_project l) (ws_db w)) = Some (Some Human)"
    using run(2) green(5) by simp
  then have "earned_promotion e gid payload l w w'"
    unfolding earned_promotion_def using run(1,3,4,5) green(1-4,6,7) by blast
  then show ?thesis ..
qed simp

section \<open>The number of polls\<close>

text \<open>Runs of the job at these times, each not before the time that the run before it has set.\<close>

fun polled :: "(string \<Rightarrow> time option) \<Rightarrow> watch_input \<Rightarrow> time list \<Rightarrow> bool" where
  "polled date p (t # u # ts) =
     (case next_poll date t p of None \<Rightarrow> False | Some (available, p') \<Rightarrow> available \<le> u \<and> polled date p' (u # ts))"
| "polled date p ts = True"

definition elapsed :: "nat \<Rightarrow> time" where
  "elapsed n = (\<Sum>i\<leftarrow>[0..<n]. poll_delay (int i))"

lemma elapsed_Suc: "elapsed (Suc n) = elapsed n + poll_delay (int n)"
  by (simp add: elapsed_def)

lemma poll_delay_nonneg: "0 \<le> poll_delay n"
  by (simp add: poll_delay_def max_poll_delay_ms_def Let_def)

lemma elapsed_52: "watch_timeout_ms \<le> elapsed 52"
  by (simp add: elapsed_def poll_delay_def watch_timeout_ms_def max_poll_delay_ms_def upt_rec)

lemma elapsed_mono: "m \<le> n \<Longrightarrow> elapsed m \<le> elapsed n"
  by (induction n) (auto simp: le_Suc_eq elapsed_Suc intro: order_trans [OF _ add_increasing2 [OF poll_delay_nonneg]])

lemma polled_bound:
  assumes "polled date p ts" "wi_polls p = int k" "k \<le> 52" "date (wi_started p) = Some st" "ts \<noteq> [] \<Longrightarrow> st + elapsed k \<le> hd ts"
  shows "length ts \<le> 53 - k"
  using assms
proof (induction date p ts arbitrary: k rule: polled.induct)
  case (1 date p t u ts)
  then have start: "st + elapsed k \<le> t" by simp
  from "1.prems"(1) obtain a p' where n: "next_poll date t p = Some (a, p')" "a \<le> u" "polled date p' (u # ts)"
    by (auto split: option.splits)
  then have open': "t - st < watch_timeout_ms" and p': "a = t + poll_delay (int k)" "wi_polls p' = int (Suc k)" "wi_started p' = wi_started p"
    using "1.prems"(2,4) by (auto simp: next_poll_def split: if_splits)
  have "k \<noteq> 52" using start open' elapsed_52 by auto
  then have k: "Suc k \<le> 52" using "1.prems"(3) by simp
  have "st + elapsed (Suc k) \<le> u" using start p'(1) n(2) by (simp add: elapsed_Suc)
  then have "length (u # ts) \<le> 53 - Suc k"
    using "1.IH" [of "(a, p')" a p' "Suc k"] n p' k "1.prems"(4) by simp
  then show ?case using k by simp
qed auto

text \<open>
  C22: A watch ends: whatever the times of its runs, if each run is not before the time that the
  run before it has set and none is before the start of the watch, there are at most 53 runs,
  because the delays double from one minute to half an hour and the watch gives up after 24
  hours.
\<close>

theorem watch_is_bounded:
  assumes "polled date p ts" "wi_polls p = 0" "date (wi_started p) = Some st" "list_all (\<lambda>t. st \<le> t) ts"
  shows "length ts \<le> 53"
  using polled_bound [of date p ts 0 st] assms by (cases ts) (auto simp: elapsed_def)

section \<open>A watch that promotes\<close>

definition demo_watch_input :: watch_input where
  "demo_watch_input = \<lparr>wi_pr = 7, wi_sha = ''c0'', wi_started = ''t0'', wi_polls = 0\<rparr>"

definition demo_host :: ci_client where
  "demo_host =
     \<lparr>cl_pull = (\<lambda>o' r n. Inr \<lparr>pq_node = ''N'', pq_head = ''c0'', pq_draft = True, pq_body = ''fix''\<rparr>),
      cl_listings = (\<lambda>o' r sha. Inr ([\<lparr>kr_name = ''test'', kr_status = ''completed'', kr_conclusion = Some ''success''\<rparr>], [])),
      cl_update = None, cl_ready = Some (\<lambda>n. None)\<rparr>"

definition demo_watch_env :: watch_env where
  "demo_watch_env =
     \<lparr>we_parse = (\<lambda>_. JObj [(''prNumber'', JNum 7), (''headSha'', JStr ''c0''), (''watchStartedAt'', JStr ''t0'')]),
      we_date = (\<lambda>_. Some 0), we_now = 60000, we_clock = 60000, we_observed = ''t1'', we_evidence = (\<lambda>_ _. ''{}''),
      we_tick = ''+'', we_client = (\<lambda>_. Inr (Some demo_host))\<rparr>"

definition demo_draft :: group_row where
  "demo_draft = (diagnostic_row 0 ''g1'' ''p1'' ''boom'' ''e1'' \<lparr>de_type = None, de_page = None, de_selector = None\<rparr>)
     \<lparr>gr_status := GPrDraft, gr_pr_fix_job := Some ''j0''\<rparr>"

definition demo_watch_job :: job_row where
  "demo_watch_job = (new_job ''j1'' 0 CiWatch ''p1'' (no_options\<lparr>eo_group := Some ''g1''\<rparr>))
     \<lparr>job_status := Claimed, job_worker := Some ''w'', job_lease_generation := 1, job_lease_expires := Some 90000\<rparr>"

definition demo_watch_lease :: job_lease where
  "demo_watch_lease =
     \<lparr>ls_id = ''j1'', ls_worker = ''w'', ls_generation = 1, ls_project = ''p1'', ls_group = Some ''g1'', ls_session = None\<rparr>"

definition demo_watched :: watch_state where
  "demo_watched =
     \<lparr>ws_calls = [], ws_db = empty_db\<lparr>
        issues := [demo_draft], projects := [\<lparr>pj_id = ''p1'', pj_auto_fix = True, pj_draft_pr_cap = 1, pj_repo = ''o/r''\<rparr>],
        jobs := [new_job ''j0'' 0 Fix ''p1'' (no_options\<lparr>eo_triggered_by := Some Human\<rparr>), demo_watch_job]\<rparr>\<rparr>"

definition demo_watch_end :: watch_state where
  "demo_watch_end = snd (process_ci_watch_job demo_watch_env False ''g1'' (Some ''{}'') demo_watch_lease demo_watched)"

lemma demo_watch_statuses:
  "(statuses demo_watched, statuses demo_watch_end) = ([(''g1'', ''p1'', GPrDraft)], [(''g1'', ''p1'', GPrCreated)])"
  by code_simp

theorem draft_leaves_on_green_witness:
  "earned_promotion demo_watch_env ''g1'' (Some ''{}'') demo_watch_lease demo_watched demo_watch_end
   \<and> statuses demo_watch_end = [(''g1'', ''p1'', GPrCreated)]"
proof -
  obtain r where "process_ci_watch_job demo_watch_env False ''g1'' (Some ''{}'') demo_watch_lease demo_watched = (r, demo_watch_end)"
    unfolding demo_watch_end_def by (metis prod.collapse)
  from draft_leaves_on_green [OF this] demo_watch_statuses show ?thesis by simp
qed

theorem watch_is_bounded_witness:
  "polled (\<lambda>_. Some 0) demo_watch_input [0, 60000, 180000] \<and> length [0, 60000, 180000 :: time] \<le> 53"
proof -
  have run: "polled (\<lambda>_. Some 0) demo_watch_input [0, 60000, 180000]"
    by (simp add: demo_watch_input_def next_poll_def watch_timeout_ms_def poll_delay_def max_poll_delay_ms_def Let_def)
  have "length [0, 60000, 180000 :: time] \<le> 53"
    using watch_is_bounded [OF run, of 0] by (simp add: demo_watch_input_def)
  with run show ?thesis by simp
qed

end
