(* ===== verification/Spec2Isabelle.thy ===== *)
theory Spec2Isabelle
  imports QueueRecovery FixSafety ToolExamples PipelineSafety ReplayStream Transport ToolBridge
    Investigation FailFirstExamples TicketExamples PromotionExamples CiWatchSafety
begin

text \<open>
  A verification library for Opslane: the worker that turns reported errors and observed friction
  into diagnoses and draft pull requests, the tool loop of its agents, and the browser SDK that
  records what the worker analyses.

  \<^bold>\<open>How the parts interact.\<close> The SDK (\<open>packages/sdk\<close>) collects breadcrumbs, errors and session
  chunks and sends them to the ingestion service, which inserts jobs into a table. Workers
  (\<open>packages/worker\<close>) claim jobs from that table under leases, run them, and complete or fail
  them; a reaper takes back jobs whose lease ran out and a timer gives dead letters another run. A
  fix job runs an agent (\<open>packages/agent-core\<close>) whose tools act on a sandbox, and hands the
  result to the pipeline, which reserves a delivery, pushes a branch and opens a pull request. The
  events of the pull request return through the fix attempts of its ticket. Before a fix, an
  investigation reads the repository and submits a diagnosis that must be grounded in what it read;
  after it, the declared test is run with and without the fix. Recordings are judged apart from
  errors: signals of friction are folded onto errors or promoted to incidents, and observations are
  matched to tickets, whose recordings are checked in batches until a ticket may be published.

  \<^bold>\<open>Which theory models what.\<close>
  \<^item> \<open>Prelude\<close>: tables as lists of rows (\<open>update_where\<close>, \<open>row_of\<close>), ORDER BY ... LIMIT 1
    (\<open>pick_min\<close>), the string and number operations of the standard library; the locales
    \<open>keyed_update\<close> and \<open>row_order\<close> are the contracts of statements and orders, interpreted where
    a statement or an order is defined. \<open>Schema\<close>: the rows of the tables and their enumerations.
  \<^item> \<open>Tickets\<close>, \<open>IssueStatus\<close>, \<open>DeadLetters\<close>: what a failing job does to tickets
    (\<open>friction/fix-attempts.ts\<close>, \<open>friction/tickets-db.ts\<close>), updateGroupStatus (\<open>db.ts\<close>), and the
    release of signals and generations (\<open>friction/dead-letter.ts\<close>).
  \<^item> \<open>JobQueue\<close>, \<open>QueueSafety\<close>, \<open>QueueRecovery\<close>: the queue of \<open>db.ts\<close> (claimJob, heartbeat,
    completeJob, failJob, requeueStaleJobs, requeueDeadLetters), its runs as a step relation, and
    what holds along them: order of claims, lane caps, fencing of stale workers, bounded
    executions, finality of completion, and the hand-over to the dead-letter release.
  \<^item> \<open>Delivery\<close>, \<open>FixAttempts\<close>, \<open>FixSafety\<close>: the reservation of deliveries (\<open>db.ts\<close>) and the
    life of fix attempts and pull-request events (\<open>friction/fix-attempts.ts\<close>).
  \<^item> \<open>CiWatch\<close>, \<open>CiWatchSafety\<close>: the watch over the checks of a draft pull request
    (\<open>ci-watch.ts\<close>, the promotion of a draft in \<open>pr.ts\<close>, saveExternalCIResult of \<open>db.ts\<close>): what a
    poll concludes, when the next one is due, and that a draft is opened for review on green only.
  \<^item> \<open>JsRegex\<close>, \<open>Redact\<close>: regular expressions with the priorities of the language, and the
    redaction of secrets (\<open>harness/redact.ts\<close>).
  \<^item> \<open>ReasonCodes\<close>, \<open>Pipeline\<close>, \<open>PipelineSafety\<close>: reasons handed to a human
    (\<open>reason-codes.ts\<close>) and runPipeline (\<open>pipeline.ts\<close>) as a program over a trace of calls.
  \<^item> \<open>ToolLoop\<close>, \<open>ToolSafety\<close>, \<open>ToolRedaction\<close>, \<open>ToolMiddleware\<close>, \<open>ToolExamples\<close>: the loop of
    \<open>agent-core/src/tool-loop.ts\<close>, its invariants, and the middleware of the fix agent
    (\<open>harness/tool-middleware.ts\<close>).
  \<^item> \<open>RepoPaths\<close>, \<open>PatchTargets\<close>, \<open>ToolBridge\<close>: which paths may be written and which paths a
    patch writes (\<open>repo-paths.ts\<close>), and the tools of the fix agent (\<open>harness/tool-bridge.ts\<close>) as
    programs over the effects on the sandbox.
  \<^item> \<open>Adjudication\<close>, \<open>Verdict\<close>, \<open>Investigation\<close>: what an investigation submits
    (\<open>shared/src/diagnosis.ts\<close>, \<open>diagnose-schema.ts\<close>), the checks of its shape and of its quotes
    (\<open>verdict-validation.ts\<close>, \<open>quote-at.ts\<close>), and its acceptance (\<open>investigate.ts\<close>).
  \<^item> \<open>JUnit\<close>, \<open>TestRunner\<close>, \<open>VerificationLedger\<close>, \<open>FailFirst\<close>, \<open>FailFirstSafety\<close>,
    \<open>FailFirstRecord\<close>, \<open>FailFirstExamples\<close>: reports of test runs and their verdicts
    (\<open>harness/junit.ts\<close>, \<open>harness/test-runner.ts\<close>), the ledger of executed commands
    (\<open>verification-ledger.ts\<close>, \<open>harness/evidence.ts\<close>), and the fail-first check of a fix
    (\<open>harness/fail-first.ts\<close>). \<open>Programs\<close> has the programs on a state that may throw.
  \<^item> \<open>Statements\<close>, \<open>TicketMatches\<close>, \<open>TicketChecks\<close>, \<open>TicketLifecycle\<close>: the further forms of
    statements, and the queries of \<open>friction/tickets-db.ts\<close>: recordings, batches and checks, the bar
    and the evidence, publication, folds and investigations. \<open>TicketSafety\<close>, \<open>TicketPublication\<close>
    and \<open>TicketEvidence\<close> show what holds along every run of these operations; \<open>TicketExamples\<close>
    follows one ticket to its publication.
  \<^item> \<open>Impact\<close>, \<open>ImpactSafety\<close>: the impact an incident stores, added to by one signal or rebuilt,
    and the agreement of the two; \<open>Promotion\<close>, \<open>PromotionRun\<close>, \<open>PromotionSafety\<close>: the fold onto
    an error, the buckets and their generations, and the pass over the observations
    (\<open>friction/promotion-db.ts\<close>, \<open>friction/promotion.ts\<close>); examples in \<open>PromotionExamples\<close>.
  \<^item> \<open>Session\<close>, \<open>Replay\<close>, \<open>ReplaySafety\<close>, \<open>ReplayStream\<close>: the session of a browser tab
    (\<open>session.ts\<close>) and its recording (\<open>replay.ts\<close>, \<open>chunk-upload.ts\<close>) as a machine over the
    inputs a page can see, reloads included.
  \<^item> \<open>SdkConfig\<close>, \<open>Breadcrumbs\<close>, \<open>SdkEvents\<close>, \<open>Transport\<close>: configuration, breadcrumbs, scrubbing
    and identity, and the event queue (\<open>config.ts\<close>, \<open>breadcrumbs.ts\<close>, \<open>scrub.ts\<close>,
    \<open>debug-images.ts\<close>, \<open>core.ts\<close>, \<open>throttle.ts\<close>, \<open>transport.ts\<close>).

  \<^bold>\<open>How code is represented.\<close> A table is the list of its rows and a statement a function of the
  database; a transaction is one step. Calls to services are parameters: a record of functions of
  the calls made so far. Errors are values of a sum or an option. Characters are code units below
  256, times and amounts are exact numbers. The shapes of parsed JSON, the character of a code
  point, the distance of embeddings, SHA-256, the settings of the environment and the supply of
  fresh identifiers are parameters too.

  \<^bold>\<open>Bounds and fuel.\<close> \<open>tool_loop\<close> has fuel; more than the turns left suffices, which is
  proved (\<open>turns_are_bounded\<close>). The search for a match at every offset of a line takes the length
  of the line and one more as fuel. Following the folds of a ticket ends because every step
  marks one more ticket. Every other recursion is structural or has a measure.

  \<^bold>\<open>Assumptions of the properties.\<close> The runs of tickets are runs of the operations of
  \<open>tickets-db.ts\<close>; no operation there archives a ticket, which the ingestion service and
  \<open>bin/reset-friction-tickets.ts\<close> do, and after which a fold chain may end at an archived ticket.
  The patches of \<open>PatchTargets\<close> have paths without white space and no copies, changes of a mode or
  binary files; \<open>spaced_path_is_cut\<close> shows what a space does. The bash tool is not gated and may
  write anywhere in its sandbox. The fail-first check relies on git answering with names
  (\<open>git_names\<close>). The chunks of \<open>ReplaySafety\<close> are numbered by a session whose storage works at
  every turn (\<open>env_ok\<close>); \<open>failed_write_repeats_number\<close> shows what a failing write does. A run of
  the tool loop may start from a state that is handed in; that it counts tests as run only with a
  test in its history (\<open>tests_booked\<close>) is a hypothesis where it matters.

  \<^bold>\<open>Not modelled.\<close> The locks of rows and the advisory locks inside a transaction, since a
  transaction is one step; violations of unique indexes by plain inserts; columns that only log when
  a row changed; rows that are deleted with a session outside the modelled files;
  exceptions thrown by a middleware; the formatting of numbers and the size of serialised events,
  which are parameters; interleavings of the SDK below the level of its own callbacks, the
  de-duplication of session registrations, tabs duplicated with their storage, listeners that
  subscribe while they are called, and serialisations that throw at unload; recorder emissions of
  a session that is idle and being replaced, which \<open>quiet\<close> excludes. Symbolic links inside the
  sandbox, as the checked code says. The parts of the program that consist of prompts, calls of
  models, network and file operations, the dashboard, the build plug-ins, and the services in
  other languages.
\<close>

end
